(* ===== verification/Ajax_Prelude.thy ===== *)
theory Ajax_Prelude
  imports Main "HOL-Library.List_Lexorder" "HOL-Library.Char_ord" "HOL-Library.Product_Lexorder"
    "HOL-Library.Sublist" "HOL-Library.Multiset" "HOL-Library.Option_ord"
begin

text \<open>
  The shared vocabulary of the development: time, byte strings and the string operations of the
  Rust standard library that the code uses, decimal numbers, ordered maps (\<open>BTreeMap\<close>), ordering
  by key (\<open>sort_by_key\<close>, \<open>min_by_key\<close>, \<open>max_by_key\<close>), and three interfaces that many components
  share: a label codec (\<open>as_str\<close> and its parser), an ordered map, and a transition system with an
  invariant.
\<close>

section \<open>Time\<close>

text \<open>
  A \<open>SystemTime\<close> is an integer number of nanoseconds from the Unix epoch (negative before it), a
  \<open>Duration\<close> a natural number of nanoseconds. A function that reads the clock several times takes a
  \<open>clock\<close>, which gives the value of its k-th reading: nothing is assumed of the readings.
\<close>

type_synonym time = int
type_synonym duration = nat
type_synonym clock = "nat \<Rightarrow> time"

definition secs :: "nat \<Rightarrow> duration" where
  "secs n = n * 1000000000"

text \<open>\<open>duration_since\<close> fails when the argument lies in the future.\<close>

definition duration_since :: "time \<Rightarrow> time \<Rightarrow> duration option" where
  "duration_since now earlier = (if earlier \<le> now then Some (nat (now - earlier)) else None)"

definition unix_seconds :: "time \<Rightarrow> nat" where
  "unix_seconds t = (if 0 \<le> t then nat t div 1000000000 else 0)"

lemma duration_since_Some [simp]: "earlier \<le> now \<Longrightarrow> duration_since now earlier = Some (nat (now - earlier))"
  by (simp add: duration_since_def)

lemma duration_since_None [simp]: "now < earlier \<Longrightarrow> duration_since now earlier = None"
  by (simp add: duration_since_def)

lemma unix_seconds_mono: "a \<le> b \<Longrightarrow> unix_seconds a \<le> unix_seconds b"
  by (auto simp: unix_seconds_def intro!: div_le_mono)

section \<open>Strings\<close>

text \<open>
  A Rust string is the list of its UTF-8 bytes. \<open>str::trim\<close> removes the characters with the Unicode
  property \<open>White_Space\<close>; their encodings are listed, and since UTF-8 is self-synchronising it is
  enough to strip them from either end.
\<close>

definition whitespace_encodings :: "string list" where
  "whitespace_encodings =
    map (\<lambda>c. [char_of c]) [9, 10, 11, 12, 13, 32 :: nat] @
    map (map char_of) [[0xC2, 0x85], [0xC2, 0xA0 :: nat]] @
    map (map char_of)
      [[0xE1, 0x9A, 0x80 :: nat], [0xE2, 0x80, 0x80], [0xE2, 0x80, 0x81], [0xE2, 0x80, 0x82],
       [0xE2, 0x80, 0x83], [0xE2, 0x80, 0x84], [0xE2, 0x80, 0x85], [0xE2, 0x80, 0x86],
       [0xE2, 0x80, 0x87], [0xE2, 0x80, 0x88], [0xE2, 0x80, 0x89], [0xE2, 0x80, 0x8A],
       [0xE2, 0x80, 0xA8], [0xE2, 0x80, 0xA9], [0xE2, 0x80, 0xAF], [0xE2, 0x81, 0x9F],
       [0xE3, 0x80, 0x80]]"

text \<open>Strips leading occurrences of the (non-empty) words of a list.\<close>

fun strip_words :: "nat \<Rightarrow> string list \<Rightarrow> string \<Rightarrow> string" where
  "strip_words 0 ws s = s"
| "strip_words (Suc n) ws s =
     (case find (\<lambda>w. prefix w s) ws of
        None \<Rightarrow> s
      | Some w \<Rightarrow> strip_words n ws (drop (length w) s))"

definition trim_start :: "string \<Rightarrow> string" where
  "trim_start s = strip_words (length s) whitespace_encodings s"

definition trim_end :: "string \<Rightarrow> string" where
  "trim_end s = rev (strip_words (length s) (map rev whitespace_encodings) (rev s))"

definition trim :: "string \<Rightarrow> string" where
  "trim s = trim_end (trim_start s)"

lemma trim_Nil [simp]: "trim [] = []"
  by (simp add: trim_def trim_start_def trim_end_def)

text \<open>The fuel is enough: every word is non-empty, so stripping never runs out on a string.\<close>

lemma whitespace_encodings_nonempty: "w \<in> set whitespace_encodings \<Longrightarrow> w \<noteq> []"
  by (auto simp: whitespace_encodings_def)

lemma strip_words_done:
  assumes "\<And>w. w \<in> set ws \<Longrightarrow> w \<noteq> []" and "length s \<le> n"
  shows "find (\<lambda>w. prefix w (strip_words n ws s)) ws = None"
  using assms(2)
proof (induction n arbitrary: s)
  case 0
  then show ?case using assms(1) by (auto simp: find_None_iff)
next
  case (Suc n)
  show ?case
  proof (cases "find (\<lambda>w. prefix w s) ws")
    case None
    then show ?thesis by simp
  next
    case (Some w)
    then have "w \<in> set ws" by (auto simp: find_Some_iff)
    then have "0 < length w" using assms(1) by blast
    then have "length (drop (length w) s) \<le> n" using Suc.prems by (simp del: length_greater_0_conv)
    then show ?thesis using Some Suc.IH by simp
  qed
qed

text \<open>A string that begins and ends with a graphic character is left alone.\<close>

definition graphic :: "char \<Rightarrow> bool" where
  "graphic c \<longleftrightarrow> 33 \<le> (of_char c :: nat) \<and> (of_char c :: nat) < 127"

lemma whitespace_not_graphic:
  "w \<in> set whitespace_encodings \<Longrightarrow> w \<noteq> [] \<and> \<not> graphic (hd w) \<and> \<not> graphic (last w)"
  by (auto simp: whitespace_encodings_def graphic_def)

lemma strip_words_stop:
  assumes "\<And>w. w \<in> set ws \<Longrightarrow> w \<noteq> [] \<and> hd w \<noteq> hd s" and "s \<noteq> []"
  shows "strip_words n ws s = s"
proof (cases n)
  case (Suc m)
  have "\<not> prefix w s" if "w \<in> set ws" for w
    using assms(1) [OF that] assms(2) by (cases w; cases s) auto
  then have "find (\<lambda>w. prefix w s) ws = None" by (simp add: find_None_iff)
  with Suc show ?thesis by simp
qed simp

lemma trim_graphic:
  assumes "s \<noteq> []" "graphic (hd s)" "graphic (last s)"
  shows "trim s = s"
proof -
  have "trim_start s = s"
    unfolding trim_start_def using assms by (intro strip_words_stop) (use whitespace_not_graphic in metis, simp)
  moreover have "strip_words (length s) (map rev whitespace_encodings) (rev s) = rev s"
  proof (intro strip_words_stop)
    fix w
    assume "w \<in> set (map rev whitespace_encodings)"
    then obtain v where "w = rev v" "v \<in> set whitespace_encodings" by auto
    then show "w \<noteq> [] \<and> hd w \<noteq> hd (rev s)"
      using whitespace_not_graphic [of v] assms by (auto simp: hd_rev)
  qed (simp add: assms(1))
  ultimately show ?thesis by (simp add: trim_def trim_end_def)
qed

definition ascii_lower :: "char \<Rightarrow> char" where
  "ascii_lower c = (let n = of_char c :: nat in if 65 \<le> n \<and> n \<le> 90 then char_of (n + 32) else c)"

definition to_ascii_lowercase :: "string \<Rightarrow> string" where
  "to_ascii_lowercase = map ascii_lower"

definition eq_ignore_ascii_case :: "string \<Rightarrow> string \<Rightarrow> bool" where
  "eq_ignore_ascii_case a b \<longleftrightarrow> to_ascii_lowercase a = to_ascii_lowercase b"

definition starts_with :: "string \<Rightarrow> string \<Rightarrow> bool" where
  "starts_with s p \<longleftrightarrow> prefix p s"

definition contains_str :: "string \<Rightarrow> string \<Rightarrow> bool" where
  "contains_str s p \<longleftrightarrow> sublist p s"

fun join :: "string \<Rightarrow> string list \<Rightarrow> string" where
  "join sep [] = []"
| "join sep [x] = x"
| "join sep (x # y # ys) = x @ sep @ join sep (y # ys)"

lemma starts_with_append [simp]: "starts_with (p @ s) p"
  by (simp add: starts_with_def)

definition ascii_upper :: "char \<Rightarrow> char" where
  "ascii_upper c = (let n = of_char c :: nat in if 97 \<le> n \<and> n \<le> 122 then char_of (n - 32) else c)"

definition to_ascii_uppercase :: "string \<Rightarrow> string" where
  "to_ascii_uppercase = map ascii_upper"

definition ends_with :: "string \<Rightarrow> string \<Rightarrow> bool" where
  "ends_with s p \<longleftrightarrow> suffix p s"

definition strip_prefix :: "string \<Rightarrow> string \<Rightarrow> string option" where
  "strip_prefix s p = (if prefix p s then Some (drop (length p) s) else None)"

text \<open>\<open>str::split_once\<close>, \<open>str::split\<close> on a character, \<open>str::lines\<close> and \<open>str::split_whitespace\<close>.\<close>

fun split_once :: "string \<Rightarrow> string \<Rightarrow> (string \<times> string) option" where
  "split_once [] pat = (if pat = [] then Some ([], []) else None)"
| "split_once (c # s) pat =
     (if prefix pat (c # s) then Some ([], drop (length pat) (c # s))
      else map_option (\<lambda>(a, b). (c # a, b)) (split_once s pat))"

fun split_on :: "char \<Rightarrow> string \<Rightarrow> string list" where
  "split_on sep [] = [[]]"
| "split_on sep (c # s) =
     (if c = sep then [] # split_on sep s
      else (c # hd (split_on sep s)) # tl (split_on sep s))"

definition newline :: char where
  "newline = CHR 0x0A"

definition strip_cr :: "string \<Rightarrow> string" where
  "strip_cr l = (if l \<noteq> [] \<and> last l = CHR 0x0D then butlast l else l)"

fun lines_from :: "string \<Rightarrow> string \<Rightarrow> string list" where
  "lines_from cur [] = (if cur = [] then [] else [rev cur])"
| "lines_from cur (c # s) =
     (if c = newline then strip_cr (rev cur) # lines_from [] s else lines_from (c # cur) s)"

definition str_lines :: "string \<Rightarrow> string list" where
  "str_lines = lines_from []"

fun words_from :: "nat \<Rightarrow> string \<Rightarrow> string \<Rightarrow> string list" where
  "words_from skip cur [] = (if cur = [] then [] else [rev cur])"
| "words_from (Suc k) cur (c # s) = words_from k cur s"
| "words_from 0 cur (c # s) =
     (case find (\<lambda>w. prefix w (c # s)) whitespace_encodings of
        Some w \<Rightarrow> (if cur = [] then [] else [rev cur]) @ words_from (length w - 1) [] s
      | None \<Rightarrow> words_from 0 (c # cur) s)"

definition split_whitespace :: "string \<Rightarrow> string list" where
  "split_whitespace = words_from 0 []"

section \<open>Decimal numbers\<close>

text \<open>\<open>u64::to_string\<close> and \<open>str::parse::<u64>\<close>: an optional plus sign, then digits, in range.\<close>

definition digit_char :: "nat \<Rightarrow> char" where
  "digit_char d = char_of (48 + d)"

fun show_nat :: "nat \<Rightarrow> string" where
  "show_nat n = (if n < 10 then [digit_char n] else show_nat (n div 10) @ [digit_char (n mod 10)])"

declare show_nat.simps [simp del]

definition show_int :: "int \<Rightarrow> string" where
  "show_int i = (if i < 0 then CHR ''-'' # show_nat (nat (- i)) else show_nat (nat i))"

definition digit_value :: "char \<Rightarrow> nat option" where
  "digit_value c =
     (let n = of_char c :: nat in if 48 \<le> n \<and> n \<le> 57 then Some (n - 48) else None)"

fun parse_digits :: "nat \<Rightarrow> string \<Rightarrow> nat option" where
  "parse_digits acc [] = Some acc"
| "parse_digits acc (c # cs) =
     (case digit_value c of None \<Rightarrow> None | Some d \<Rightarrow> parse_digits (10 * acc + d) cs)"

definition parse_u64 :: "string \<Rightarrow> nat option" where
  "parse_u64 s =
     (let body = (case s of c # cs \<Rightarrow> (if c = CHR ''+'' then cs else s) | [] \<Rightarrow> s) in
      if body = [] then None
      else case parse_digits 0 body of
             None \<Rightarrow> None
           | Some n \<Rightarrow> if n < 2 ^ 64 then Some n else None)"

lemma digit_value_digit_char [simp]: "d < 10 \<Longrightarrow> digit_value (digit_char d) = Some d"
  by (simp add: digit_value_def digit_char_def Let_def)

lemma parse_digits_append:
  "parse_digits acc (xs @ ys) =
     (case parse_digits acc xs of None \<Rightarrow> None | Some a \<Rightarrow> parse_digits a ys)"
  by (induction acc xs rule: parse_digits.induct) (auto split: option.splits)

lemma parse_digits_show_nat: "parse_digits 0 (show_nat n) = Some n"
proof (induction n rule: show_nat.induct)
  case (1 n)
  show ?case
  proof (cases "n < 10")
    case True
    then show ?thesis by (simp add: show_nat.simps [of n])
  next
    case False
    with 1 have "parse_digits 0 (show_nat (n div 10)) = Some (n div 10)" by simp
    then show ?thesis using False
      by (simp add: show_nat.simps [of n] parse_digits_append)
  qed
qed

lemma show_nat_digit: "c \<in> set (show_nat n) \<Longrightarrow> \<exists>d<10. c = digit_char d"
proof (induction n rule: show_nat.induct)
  case (1 n)
  show ?case
  proof (cases "n < 10")
    case True
    with 1 show ?thesis by (auto simp: show_nat.simps [of n])
  next
    case False
    with "1.prems" have "c \<in> set (show_nat (n div 10)) \<or> c = digit_char (n mod 10)"
      by (simp add: show_nat.simps [of n] disj_commute)
    then show ?thesis using "1.IH" [OF False] by (metis mod_less_divisor zero_less_numeral)
  qed
qed

lemma show_nat_not_Nil: "show_nat n \<noteq> []"
  by (subst show_nat.simps) simp

lemma digit_char_not_plus: "d < 10 \<Longrightarrow> digit_char d \<noteq> CHR ''+''"
proof
  assume "d < 10" and "digit_char d = CHR ''+''"
  then have "(of_char (digit_char d) :: nat) = of_char CHR ''+''" by simp
  with \<open>d < 10\<close> show False by (simp add: digit_char_def)
qed

lemma parse_u64_show_nat [simp]:
  assumes "n < 2 ^ 64"
  shows "parse_u64 (show_nat n) = Some n"
proof -
  obtain c cs where s: "show_nat n = c # cs" using show_nat_not_Nil by (cases "show_nat n") auto
  then have "c \<noteq> CHR ''+''" using show_nat_digit [of c n] digit_char_not_plus by auto
  then show ?thesis using assms parse_digits_show_nat [of n] s by (simp add: parse_u64_def)
qed

lemma parse_u64_bound: "parse_u64 s = Some n \<Longrightarrow> n < 2 ^ 64"
  by (auto simp: parse_u64_def Let_def split: if_splits option.splits list.splits)


section \<open>Ordering by key\<close>

text \<open>
  \<open>Iterator::min_by_key\<close> returns the first minimal element, \<open>max_by_key\<close> the last maximal one;
  \<open>sort_by_key\<close> is stable, as the library's \<open>sort_key\<close>. \<open>Vec::dedup\<close> drops an element equal to its
  predecessor.
\<close>

fun min_by_key :: "('a \<Rightarrow> 'k::linorder) \<Rightarrow> 'a list \<Rightarrow> 'a option" where
  "min_by_key k [] = None"
| "min_by_key k (x # xs) =
     (case min_by_key k xs of
        None \<Rightarrow> Some x
      | Some y \<Rightarrow> if k y < k x then Some y else Some x)"

fun max_by_key :: "('a \<Rightarrow> 'k::linorder) \<Rightarrow> 'a list \<Rightarrow> 'a option" where
  "max_by_key k [] = None"
| "max_by_key k (x # xs) =
     (case max_by_key k xs of
        None \<Rightarrow> Some x
      | Some y \<Rightarrow> if k y < k x then Some x else Some y)"

lemma min_by_key_None [simp]: "min_by_key k xs = None \<longleftrightarrow> xs = []"
  by (cases xs) (auto split: option.splits)

lemma min_by_key_Some:
  "min_by_key k xs = Some m \<Longrightarrow> m \<in> set xs \<and> (\<forall>x \<in> set xs. k m \<le> k x)"
proof (induction xs arbitrary: m)
  case (Cons x xs)
  then show ?case
    by (cases "min_by_key k xs") (fastforce split: if_splits)+
qed simp

lemma max_by_key_Some:
  "max_by_key k xs = Some m \<Longrightarrow> m \<in> set xs \<and> (\<forall>x \<in> set xs. k x \<le> k m)"
proof (induction xs arbitrary: m)
  case (Cons x xs)
  then show ?case
  proof (cases "max_by_key k xs")
    case None
    then have "xs = []" by (cases xs) (auto split: option.splits if_splits)
    with Cons.prems show ?thesis by simp
  next
    case (Some y)
    with Cons show ?thesis by (fastforce split: if_splits)
  qed
qed simp

lemma min_by_key_least:
  assumes "x \<in> set xs"
  obtains m where "min_by_key k xs = Some m" "m \<in> set xs" "k m \<le> k x"
proof -
  from assms have "min_by_key k xs \<noteq> None" by auto
  then obtain m where "min_by_key k xs = Some m" by blast
  with assms that show ?thesis using min_by_key_Some [of k xs m] by blast
qed

section \<open>Ordered maps\<close>

text \<open>
  \<open>BTreeMap\<close> is an association list with strictly increasing keys; iteration follows the list.
  The interface states what its clients rely on.
\<close>

type_synonym ('k, 'v) btree = "('k \<times> 'v) list"

definition bt_get :: "'k \<Rightarrow> ('k, 'v) btree \<Rightarrow> 'v option" where
  "bt_get k m = map_of m k"

fun bt_insert :: "'k::linorder \<Rightarrow> 'v \<Rightarrow> ('k, 'v) btree \<Rightarrow> ('k, 'v) btree" where
  "bt_insert k v [] = [(k, v)]"
| "bt_insert k v ((l, w) # m) =
     (if k < l then (k, v) # (l, w) # m
      else if k = l then (k, v) # m
      else (l, w) # bt_insert k v m)"

definition bt_remove :: "'k \<Rightarrow> ('k, 'v) btree \<Rightarrow> ('k, 'v) btree" where
  "bt_remove k m = filter (\<lambda>(l, _). l \<noteq> k) m"

definition bt_retain :: "('k \<Rightarrow> 'v \<Rightarrow> bool) \<Rightarrow> ('k, 'v) btree \<Rightarrow> ('k, 'v) btree" where
  "bt_retain p m = filter (\<lambda>(l, v). p l v) m"

definition bt_values :: "('k, 'v) btree \<Rightarrow> 'v list" where
  "bt_values m = map snd m"

definition bt_inv :: "('k::linorder, 'v) btree \<Rightarrow> bool" where
  "bt_inv m \<longleftrightarrow> sorted_wrt (<) (map fst m)"

locale ordered_map =
  fixes get :: "'k \<Rightarrow> 'm \<Rightarrow> 'v option"
    and ins :: "'k \<Rightarrow> 'v \<Rightarrow> 'm \<Rightarrow> 'm"
    and del :: "'k \<Rightarrow> 'm \<Rightarrow> 'm"
    and retain :: "('k \<Rightarrow> 'v \<Rightarrow> bool) \<Rightarrow> 'm \<Rightarrow> 'm"
    and inv :: "'m \<Rightarrow> bool"
  assumes get_ins: "inv m \<Longrightarrow> get l (ins k v m) = (if l = k then Some v else get l m)"
    and get_del: "inv m \<Longrightarrow> get l (del k m) = (if l = k then None else get l m)"
    and get_retain: "inv m \<Longrightarrow>
      get l (retain p m) = (case get l m of None \<Rightarrow> None | Some v \<Rightarrow> if p l v then Some v else None)"
    and inv_ins: "inv m \<Longrightarrow> inv (ins k v m)"
    and inv_del: "inv m \<Longrightarrow> inv (del k m)"
    and inv_retain: "inv m \<Longrightarrow> inv (retain p m)"
begin

lemma get_ins_same: "inv m \<Longrightarrow> get k (ins k v m) = Some v"
  by (simp add: get_ins)

lemma get_ins_other: "inv m \<Longrightarrow> l \<noteq> k \<Longrightarrow> get l (ins k v m) = get l m"
  by (simp add: get_ins)

lemma get_ins_overwrite: "inv m \<Longrightarrow> get l (ins k v (ins k w m)) = get l (ins k v m)"
  by (simp add: get_ins inv_ins)

lemma get_del_ins: "inv m \<Longrightarrow> get l (del k (ins k v m)) = get l (del k m)"
  by (simp add: get_ins get_del inv_ins)

lemma retain_sound: "inv m \<Longrightarrow> get l (retain p m) = Some v \<Longrightarrow> get l m = Some v \<and> p l v"
  by (auto simp: get_retain split: option.splits if_splits)

lemma retain_keeps: "inv m \<Longrightarrow> get l m = Some v \<Longrightarrow> p l v \<Longrightarrow> get l (retain p m) = Some v"
  by (simp add: get_retain)

end

lemma bt_insert_keys: "fst ` set (bt_insert k v m) = insert k (fst ` set m)"
  by (induction k v m rule: bt_insert.induct) auto

lemma bt_insert_set: "x \<in> set (bt_insert k v m) \<Longrightarrow> x = (k, v) \<or> x \<in> set m"
  by (induction k v m rule: bt_insert.induct) (auto split: if_splits)

lemma bt_inv_insert: "bt_inv m \<Longrightarrow> bt_inv (bt_insert k v m)"
proof (induction k v m rule: bt_insert.induct)
  case (2 k v l w m)
  have "\<forall>y \<in> fst ` set (bt_insert k v m). l < y" if "\<not> k < l" "k \<noteq> l"
    using that 2 by (auto simp: bt_insert_keys bt_inv_def)
  then show ?case using 2 by (force simp: bt_inv_def)
qed (simp add: bt_inv_def)

lemma bt_get_insert: "bt_inv m \<Longrightarrow> bt_get l (bt_insert k v m) = (if l = k then Some v else bt_get l m)"
  by (induction k v m rule: bt_insert.induct) (auto simp: bt_get_def bt_inv_def)

lemma sorted_wrt_map_filter: "sorted_wrt r (map f xs) \<Longrightarrow> sorted_wrt r (map f (filter p xs))"
  by (induction xs) auto

lemma bt_get_filter:
  "bt_inv m \<Longrightarrow> bt_get l (filter (\<lambda>(k, v). p k v) m) =
     (case bt_get l m of None \<Rightarrow> None | Some v \<Rightarrow> if p l v then Some v else None)"
proof (induction m)
  case (Cons kv m)
  obtain k v where kv: "kv = (k, v)" by (cases kv)
  from Cons.prems kv have "map_of m k = None"
    by (fastforce simp: bt_inv_def map_of_eq_None_iff)
  with Cons kv show ?case by (auto simp: bt_get_def bt_inv_def split: option.splits)
qed (simp add: bt_get_def)

interpretation bt: ordered_map bt_get bt_insert bt_remove bt_retain "bt_inv :: ('k::linorder, 'v) btree \<Rightarrow> bool"
proof unfold_locales
  fix m :: "('k, 'v) btree" and k l :: 'k and p :: "'k \<Rightarrow> 'v \<Rightarrow> bool" and v :: 'v
  assume inv: "bt_inv m"
  show "bt_get l (bt_insert k v m) = (if l = k then Some v else bt_get l m)"
    using inv by (rule bt_get_insert)
  show "bt_get l (bt_remove k m) = (if l = k then None else bt_get l m)"
    using bt_get_filter [OF inv, of l "\<lambda>l _. l \<noteq> k"]
    by (auto simp: bt_remove_def split: option.splits)
  show "bt_get l (bt_retain p m) =
      (case bt_get l m of None \<Rightarrow> None | Some v \<Rightarrow> if p l v then Some v else None)"
    using bt_get_filter [OF inv, of l p] by (simp add: bt_retain_def)
  show "bt_inv (bt_insert k v m)" using inv by (rule bt_inv_insert)
  show "bt_inv (bt_remove k m)" "bt_inv (bt_retain p m)"
    using inv by (auto simp: bt_remove_def bt_retain_def bt_inv_def intro: sorted_wrt_map_filter)
qed

lemma bt_inv_Nil [simp]: "bt_inv []"
  by (simp add: bt_inv_def)

lemma bt_get_Nil [simp]: "bt_get k [] = None"
  by (simp add: bt_get_def)

lemma bt_get_in_set: "bt_get k m = Some v \<Longrightarrow> (k, v) \<in> set m"
  by (simp add: bt_get_def map_of_SomeD)

lemma bt_get_iff: "bt_inv m \<Longrightarrow> bt_get k m = Some v \<longleftrightarrow> (k, v) \<in> set m"
proof -
  assume "bt_inv m"
  then have "distinct (map fst m)"
    by (auto simp: bt_inv_def strict_sorted_iff)
  then show ?thesis by (simp add: bt_get_def)
qed

section \<open>Labels\<close>

text \<open>
  Many enums have a label function and a parser over the same table. The contract says that the
  parser inverts the labels and accepts nothing else; then labels are injective.
\<close>

locale label_codec =
  fixes label :: "'a \<Rightarrow> string" and parse :: "string \<Rightarrow> 'a option"
  assumes parse_label: "parse (label x) = Some x"
    and label_parse: "parse s = Some x \<Longrightarrow> label x = s"
begin

lemma label_inject: "label x = label y \<longleftrightarrow> x = y"
  using parse_label by (metis option.inject)

lemma parse_iff: "parse s = Some x \<longleftrightarrow> s = label x"
  using parse_label label_parse by blast

lemma parse_None_iff: "parse s = None \<longleftrightarrow> s \<notin> range label"
  using parse_label label_parse by (metis not_None_eq rangeE rangeI)

end

section \<open>Transition systems\<close>

text \<open>Runs of a step relation, and the one lemma that turns a preserved invariant into a safety fact.\<close>

inductive runs :: "('s \<Rightarrow> 's \<Rightarrow> bool) \<Rightarrow> 's \<Rightarrow> 's \<Rightarrow> bool" for step where
  runs_refl: "runs step s s"
| runs_step: "runs step s t \<Longrightarrow> step t u \<Longrightarrow> runs step s u"

lemma runs_single: "step s t \<Longrightarrow> runs step s t"
  by (rule runs_step [OF runs_refl])

lemma runs_trans: "runs step s t \<Longrightarrow> runs step t u \<Longrightarrow> runs step s u"
  by (rotate_tac 1, induction rule: runs.induct) (auto intro: runs_step)

locale invariant_system =
  fixes step :: "'s \<Rightarrow> 's \<Rightarrow> bool" and inv :: "'s \<Rightarrow> bool"
  assumes preserved: "inv s \<Longrightarrow> step s t \<Longrightarrow> inv t"
begin

lemma runs_preserve: "runs step s t \<Longrightarrow> inv s \<Longrightarrow> inv t"
  by (induction rule: runs.induct) (auto intro: preserved)

end

section \<open>Results\<close>

text \<open>A \<open>Result\<close> is a sum with the error on the left; \<open>and_then\<close> is the \<open>?\<close> operator, \<open>for_each\<close> a loop
  over a state whose body may fail. \<open>return_iff\<close> collects when a computation succeeds.\<close>

named_theorems return_iff

definition and_then :: "'e + 'a \<Rightarrow> ('a \<Rightarrow> 'e + 'b) \<Rightarrow> 'e + 'b" where
  "and_then r f = (case r of Inl e \<Rightarrow> Inl e | Inr x \<Rightarrow> f x)"

fun for_each :: "('a \<Rightarrow> 's \<Rightarrow> 'e + 's) \<Rightarrow> 'a list \<Rightarrow> 's \<Rightarrow> 'e + 's" where
  "for_each f [] s = Inr s"
| "for_each f (x # xs) s = and_then (f x s) (for_each f xs)"

lemma and_then_simps [simp]: "and_then (Inl e) f = Inl e" "and_then (Inr x) f = f x"
  by (simp_all add: and_then_def)

lemma and_then_iff [return_iff]: "and_then r f = Inr y \<longleftrightarrow> (\<exists>x. r = Inr x \<and> f x = Inr y)"
  by (cases r) simp_all

lemma if_return_iff [return_iff]:
  "(if b then Inl e else r) = Inr y \<longleftrightarrow> \<not> b \<and> r = Inr y"
  "(if b then r else Inl e) = Inr y \<longleftrightarrow> b \<and> r = Inr y"
  by simp_all

lemma option_return_iff [return_iff]:
  "(case m of None \<Rightarrow> Inl e | Some x \<Rightarrow> f x) = Inr y \<longleftrightarrow> (\<exists>x. m = Some x \<and> f x = Inr y)"
  by (cases m) simp_all

lemma sum_return_iff [return_iff]:
  "(case r of Inl e \<Rightarrow> Inl (g e) | Inr x \<Rightarrow> f x) = Inr y \<longleftrightarrow> (\<exists>x. r = Inr x \<and> f x = Inr y)"
  by (cases r) simp_all

text \<open>What every step keeps, the loop keeps; what every step relates, the loop relates.\<close>

lemma for_each_invariant:
  assumes "for_each f xs s = Inr t" and "P s"
    and "\<And>x u v. x \<in> set xs \<Longrightarrow> f x u = Inr v \<Longrightarrow> P u \<Longrightarrow> P v"
  shows "P t"
  using assms
proof (induction xs arbitrary: s)
  case (Cons x xs)
  then obtain u where "f x s = Inr u" "for_each f xs u = Inr t" by (auto simp: return_iff)
  with Cons show ?case by (meson list.set_intros)
qed simp

lemma for_each_frame:
  assumes "for_each f xs s = Inr t"
    and "\<And>x u v. x \<in> set xs \<Longrightarrow> f x u = Inr v \<Longrightarrow> g v = g u"
  shows "g t = g s"
  using for_each_invariant [OF assms(1), of "\<lambda>u. g u = g s"] assms(2) by metis

end
