(* ===== verification/Model_Types.thy ===== *)
theory Model_Types
  imports Ajax_Prelude
begin

text \<open>
  The data model of \<open>crates/ajax-core/src/models\<close>: the enums and structs of \<open>intent.rs\<close>,
  \<open>observations.rs\<close>, \<open>projection.rs\<close> and \<open>step_receipts.rs\<close>, with their label functions and parsers.
  Constructors carry a prefix for their enum, because the Rust enums share variant names. The struct
  \<open>Task\<close> itself is in \<open>Task_Model\<close>.
\<close>

section \<open>Intent\<close>

type_synonym task_id = string

datatype AgentClient = AcClaude | AcCodex | AcCursor | AcPi | AcOther

datatype LifecycleStatus =
    LcCreated | LcProvisioning | LcActive | LcWaiting | LcReviewable | LcMergeable | LcMerged
  | LcCleanable | LcRemoving | LcTeardownIncomplete | LcRemoved | LcOrphaned | LcError

record TaskIntent =
  ti_id :: task_id
  ti_repo :: string
  ti_handle :: string
  ti_title :: string
  ti_branch :: string
  ti_base_branch :: string
  ti_worktree_path :: string
  ti_tmux_session :: string
  ti_task_window :: string
  ti_selected_agent :: AgentClient

text \<open>The text that \<open>{:?}\<close> prints for an enum value is its variant name.\<close>

fun debug_lifecycle :: "LifecycleStatus \<Rightarrow> string" where
  "debug_lifecycle LcCreated = ''Created''"
| "debug_lifecycle LcProvisioning = ''Provisioning''"
| "debug_lifecycle LcActive = ''Active''"
| "debug_lifecycle LcWaiting = ''Waiting''"
| "debug_lifecycle LcReviewable = ''Reviewable''"
| "debug_lifecycle LcMergeable = ''Mergeable''"
| "debug_lifecycle LcMerged = ''Merged''"
| "debug_lifecycle LcCleanable = ''Cleanable''"
| "debug_lifecycle LcRemoving = ''Removing''"
| "debug_lifecycle LcTeardownIncomplete = ''TeardownIncomplete''"
| "debug_lifecycle LcRemoved = ''Removed''"
| "debug_lifecycle LcOrphaned = ''Orphaned''"
| "debug_lifecycle LcError = ''Error''"

fun debug_agent :: "AgentClient \<Rightarrow> string" where
  "debug_agent AcClaude = ''Claude''"
| "debug_agent AcCodex = ''Codex''"
| "debug_agent AcCursor = ''Cursor''"
| "debug_agent AcPi = ''Pi''"
| "debug_agent AcOther = ''Other''"

section \<open>Observations\<close>

datatype SideFlag =
    SfDirty | SfAgentRunning | SfAgentDead | SfNeedsInput | SfTestsFailed | SfTmuxMissing
  | SfWorktreeMissing | SfTaskWindowMissing | SfBranchMissing | SfStale | SfConflicted | SfUnpushed

text \<open>The derived order of \<open>SideFlag\<close> is the order of declaration; a \<open>BTreeSet\<close> iterates in it.\<close>

definition side_flag_order :: "SideFlag list" where
  "side_flag_order =
     [SfDirty, SfAgentRunning, SfAgentDead, SfNeedsInput, SfTestsFailed, SfTmuxMissing,
      SfWorktreeMissing, SfTaskWindowMissing, SfBranchMissing, SfStale, SfConflicted, SfUnpushed]"

lemma side_flag_order_complete [simp]: "f \<in> set side_flag_order"
  by (cases f) (simp_all add: side_flag_order_def)

datatype LiveStatusKind =
    LkWorktreeMissing | LkTmuxMissing | LkTaskWindowMissing | LkShellIdle | LkCommandRunning
  | LkTestsRunning | LkAgentRunning | LkWaitingForApproval | LkWaitingForInput | LkBlocked
  | LkRateLimited | LkAuthRequired | LkMergeConflict | LkCiFailed | LkCiPending | LkContextLimit
  | LkCommandFailed | LkDone | LkUnknown

datatype LiveStatusClass = LsRunning | LsWaiting | LsError | LsMissingSubstrate | LsNeutral

fun live_class :: "LiveStatusKind \<Rightarrow> LiveStatusClass" where
  "live_class LkAgentRunning = LsRunning"
| "live_class LkCommandRunning = LsRunning"
| "live_class LkTestsRunning = LsRunning"
| "live_class LkCiPending = LsRunning"
| "live_class LkWaitingForApproval = LsWaiting"
| "live_class LkWaitingForInput = LsWaiting"
| "live_class LkAuthRequired = LsWaiting"
| "live_class LkRateLimited = LsWaiting"
| "live_class LkContextLimit = LsWaiting"
| "live_class LkDone = LsWaiting"
| "live_class LkCiFailed = LsError"
| "live_class LkMergeConflict = LsError"
| "live_class LkCommandFailed = LsError"
| "live_class LkBlocked = LsError"
| "live_class LkWorktreeMissing = LsMissingSubstrate"
| "live_class LkTmuxMissing = LsMissingSubstrate"
| "live_class LkTaskWindowMissing = LsMissingSubstrate"
| "live_class LkShellIdle = LsNeutral"
| "live_class LkUnknown = LsNeutral"

record LiveObservation =
  lo_kind :: LiveStatusKind
  lo_summary :: string

definition live_observation :: "LiveStatusKind \<Rightarrow> string \<Rightarrow> LiveObservation" where
  "live_observation k s = \<lparr>lo_kind = k, lo_summary = s\<rparr>"

lemma live_observation_simps [simp]:
  "lo_kind (live_observation k s) = k" "lo_summary (live_observation k s) = s"
  by (simp_all add: live_observation_def)

datatype AgentRuntimeStatus =
  ArNotStarted | ArRunning | ArWaiting | ArBlocked | ArDead | ArDone | ArUnknown

record AgentAttempt =
  aa_agent :: AgentClient
  aa_launch_target :: string
  aa_started_at :: time
  aa_finished_at :: "time option"
  aa_status :: AgentRuntimeStatus

definition attempt_new :: "AgentClient \<Rightarrow> string \<Rightarrow> time \<Rightarrow> AgentAttempt" where
  "attempt_new agent target now =
     \<lparr>aa_agent = agent, aa_launch_target = target, aa_started_at = now,
      aa_finished_at = None, aa_status = ArRunning\<rparr>"

definition attempt_is_open :: "AgentAttempt \<Rightarrow> bool" where
  "attempt_is_open a \<longleftrightarrow> aa_finished_at a = None"

definition attempt_close :: "AgentRuntimeStatus \<Rightarrow> time \<Rightarrow> AgentAttempt \<Rightarrow> AgentAttempt" where
  "attempt_close status at a =
     (if aa_finished_at a \<noteq> None then a
      else a\<lparr>aa_status := status, aa_finished_at := Some at\<rparr>)"

record GitStatus =
  gs_worktree_exists :: bool
  gs_branch_exists :: bool
  gs_current_branch :: "string option"
  gs_dirty :: bool
  gs_ahead :: nat
  gs_behind :: nat
  gs_merged :: bool
  gs_untracked_files :: nat
  gs_unpushed_commits :: nat
  gs_conflicted :: bool
  gs_last_commit :: "string option"

definition has_unpushed_work :: "GitStatus \<Rightarrow> bool" where
  "has_unpushed_work g \<longleftrightarrow> gs_unpushed_commits g > 0 \<or> gs_ahead g > 0"

fun flag_is_missing_substrate :: "SideFlag \<Rightarrow> bool" where
  "flag_is_missing_substrate SfTaskWindowMissing = True"
| "flag_is_missing_substrate SfTmuxMissing = True"
| "flag_is_missing_substrate SfWorktreeMissing = True"
| "flag_is_missing_substrate SfBranchMissing = True"
| "flag_is_missing_substrate _ = False"

fun kind_is_missing_substrate :: "LiveStatusKind \<Rightarrow> bool" where
  "kind_is_missing_substrate LkWorktreeMissing = True"
| "kind_is_missing_substrate LkTmuxMissing = True"
| "kind_is_missing_substrate LkTaskWindowMissing = True"
| "kind_is_missing_substrate _ = False"

record TmuxStatus =
  ts_exists :: bool
  ts_session_name :: string

definition tmux_present :: "string \<Rightarrow> TmuxStatus" where
  "tmux_present n = \<lparr>ts_exists = True, ts_session_name = n\<rparr>"

record TaskWindowStatus =
  tw_exists :: bool
  tw_window_name :: string
  tw_current_path :: string
  tw_points_at_expected_path :: bool

definition window_present :: "string \<Rightarrow> string \<Rightarrow> TaskWindowStatus" where
  "window_present n p =
     \<lparr>tw_exists = True, tw_window_name = n, tw_current_path = p, tw_points_at_expected_path = True\<rparr>"

definition window_missing :: "string \<Rightarrow> string \<Rightarrow> TaskWindowStatus" where
  "window_missing n p =
     \<lparr>tw_exists = False, tw_window_name = n, tw_current_path = p, tw_points_at_expected_path = False\<rparr>"

lemma live_class_missing: "live_class k = LsMissingSubstrate \<longleftrightarrow> kind_is_missing_substrate k"
  by (cases k) simp_all

section \<open>Projection\<close>

datatype RuntimeHealth =
    RhHealthy | RhMissingWorktree | RhCheckoutMismatch | RhMissingSession | RhMissingTaskWindow
  | RhWrongTaskWindowPath | RhUnobservable

fun health_as_str :: "RuntimeHealth \<Rightarrow> string" where
  "health_as_str RhHealthy = ''healthy''"
| "health_as_str RhMissingWorktree = ''missing_worktree''"
| "health_as_str RhCheckoutMismatch = ''checkout_mismatch''"
| "health_as_str RhMissingSession = ''missing_session''"
| "health_as_str RhMissingTaskWindow = ''missing_task_window''"
| "health_as_str RhWrongTaskWindowPath = ''wrong_task_window_path''"
| "health_as_str RhUnobservable = ''unobservable''"

definition health_from_label :: "string \<Rightarrow> RuntimeHealth option" where
  "health_from_label v =
     (if v = ''healthy'' then Some RhHealthy
      else if v = ''missing_worktree'' then Some RhMissingWorktree
      else if v = ''checkout_mismatch'' then Some RhCheckoutMismatch
      else if v = ''missing_session'' then Some RhMissingSession
      else if v = ''missing_task_window'' then Some RhMissingTaskWindow
      else if v = ''wrong_task_window_path'' then Some RhWrongTaskWindowPath
      else if v = ''unobservable'' then Some RhUnobservable
      else None)"

fun health_is_missing_substrate :: "RuntimeHealth \<Rightarrow> bool" where
  "health_is_missing_substrate RhMissingWorktree = True"
| "health_is_missing_substrate RhMissingSession = True"
| "health_is_missing_substrate RhMissingTaskWindow = True"
| "health_is_missing_substrate RhWrongTaskWindowPath = True"
| "health_is_missing_substrate _ = False"

definition health_is_git_substrate_gap :: "RuntimeHealth \<Rightarrow> bool" where
  "health_is_git_substrate_gap h \<longleftrightarrow> h = RhMissingWorktree"

datatype RuntimeObservationSource =
  RsStartupScan | RsFilesystemEvent | RsTmuxProbe | RsCommandResult | RsUnknown

fun source_as_str :: "RuntimeObservationSource \<Rightarrow> string" where
  "source_as_str RsStartupScan = ''startup_scan''"
| "source_as_str RsFilesystemEvent = ''filesystem_event''"
| "source_as_str RsTmuxProbe = ''tmux_probe''"
| "source_as_str RsCommandResult = ''command_result''"
| "source_as_str RsUnknown = ''unknown''"

definition source_from_label :: "string \<Rightarrow> RuntimeObservationSource option" where
  "source_from_label v =
     (if v = ''startup_scan'' then Some RsStartupScan
      else if v = ''filesystem_event'' then Some RsFilesystemEvent
      else if v = ''tmux_probe'' then Some RsTmuxProbe
      else if v = ''command_result'' then Some RsCommandResult
      else if v = ''unknown'' then Some RsUnknown
      else None)"

record RuntimeProjection =
  rp_health :: RuntimeHealth
  rp_observed_at :: time
  rp_source :: RuntimeObservationSource
  rp_observation_error :: "string option"

definition projection_new ::
    "RuntimeHealth \<Rightarrow> time \<Rightarrow> RuntimeObservationSource \<Rightarrow> RuntimeProjection" where
  "projection_new h at src =
     \<lparr>rp_health = h, rp_observed_at = at, rp_source = src, rp_observation_error = None\<rparr>"

definition projection_with_error ::
    "RuntimeHealth \<Rightarrow> time \<Rightarrow> RuntimeObservationSource \<Rightarrow> string \<Rightarrow> RuntimeProjection" where
  "projection_with_error h at src e =
     \<lparr>rp_health = h, rp_observed_at = at, rp_source = src, rp_observation_error = Some e\<rparr>"

definition requires_refresh :: "RuntimeProjection \<Rightarrow> time \<Rightarrow> duration \<Rightarrow> bool" where
  "requires_refresh p now max_age =
     (if rp_source p = RsUnknown \<or> rp_observation_error p \<noteq> None then True
      else if rp_health p = RhUnobservable then True
      else case duration_since now (rp_observed_at p) of
             None \<Rightarrow> False
           | Some age \<Rightarrow> age > max_age)"

definition is_fresh_at :: "RuntimeProjection \<Rightarrow> time \<Rightarrow> duration \<Rightarrow> bool" where
  "is_fresh_at p now max_age \<longleftrightarrow> \<not> requires_refresh p now max_age"

definition projection_default :: RuntimeProjection where
  "projection_default =
     \<lparr>rp_health = RhUnobservable, rp_observed_at = 0, rp_source = RsUnknown,
      rp_observation_error = None\<rparr>"

datatype SafetyClassification = ScSafe | ScNeedsConfirmation | ScDangerous | ScBlocked

record SafetyReport =
  sr_classification :: SafetyClassification
  sr_reasons :: "string list"

datatype OperatorAction = OaStart | OaResume | OaReview | OaShip | OaDrop | OaRepair

definition operator_action_all :: "OperatorAction list" where
  "operator_action_all = [OaStart, OaResume, OaReview, OaShip, OaDrop, OaRepair]"

fun operator_action_as_str :: "OperatorAction \<Rightarrow> string" where
  "operator_action_as_str OaStart = ''start''"
| "operator_action_as_str OaResume = ''resume''"
| "operator_action_as_str OaReview = ''review''"
| "operator_action_as_str OaShip = ''ship''"
| "operator_action_as_str OaDrop = ''drop''"
| "operator_action_as_str OaRepair = ''repair''"

definition operator_action_from_label :: "string \<Rightarrow> OperatorAction option" where
  "operator_action_from_label l = find (\<lambda>a. operator_action_as_str a = l) operator_action_all"

datatype AnnotationKind = AkNeedsMe | AkBroken | AkReviewable | AkCleanable

fun severity_of :: "AnnotationKind \<Rightarrow> nat" where
  "severity_of AkNeedsMe = 1"
| "severity_of AkBroken = 2"
| "severity_of AkReviewable = 3"
| "severity_of AkCleanable = 4"

fun suggests_of :: "AnnotationKind \<Rightarrow> OperatorAction" where
  "suggests_of AkNeedsMe = OaResume"
| "suggests_of AkBroken = OaRepair"
| "suggests_of AkReviewable = OaReview"
| "suggests_of AkCleanable = OaDrop"

fun glyph_of :: "AnnotationKind \<Rightarrow> char" where
  "glyph_of AkNeedsMe = CHR ''?''"
| "glyph_of AkBroken = CHR ''!''"
| "glyph_of AkReviewable = CHR ''R''"
| "glyph_of AkCleanable = CHR ''~''"

fun annotation_kind_label :: "AnnotationKind \<Rightarrow> string" where
  "annotation_kind_label AkNeedsMe = ''needs you''"
| "annotation_kind_label AkBroken = ''broken''"
| "annotation_kind_label AkReviewable = ''reviewable''"
| "annotation_kind_label AkCleanable = ''cleanable''"

datatype SubstrateGap = SgWorktreeMissing | SgTmuxMissing | SgTaskWindowMissing | SgBranchMissing

datatype Evidence =
    EvLiveStatus LiveStatusKind
  | EvAgentStatus AgentRuntimeStatus
  | EvSideFlag SideFlag
  | EvLifecycle LifecycleStatus
  | EvSubstrate SubstrateGap
  | EvRuntimeObservationFailed
  | EvCheckoutMismatch

fun evidence_label :: "Evidence \<Rightarrow> string" where
  "evidence_label (EvLiveStatus LkWaitingForApproval) = ''waiting for approval''"
| "evidence_label (EvLiveStatus LkWaitingForInput) = ''waiting for input''"
| "evidence_label (EvLiveStatus LkAuthRequired) = ''auth required''"
| "evidence_label (EvLiveStatus LkRateLimited) = ''rate limited''"
| "evidence_label (EvLiveStatus LkContextLimit) = ''context limit''"
| "evidence_label (EvLiveStatus LkCommandFailed) = ''command failed''"
| "evidence_label (EvLiveStatus LkBlocked) = ''blocked''"
| "evidence_label (EvLiveStatus LkWorktreeMissing) = ''worktree missing''"
| "evidence_label (EvLiveStatus LkTmuxMissing) = ''tmux missing''"
| "evidence_label (EvLiveStatus LkTaskWindowMissing) = ''task window missing''"
| "evidence_label (EvLiveStatus LkMergeConflict) = ''merge conflict''"
| "evidence_label (EvLiveStatus LkDone) = ''done''"
| "evidence_label (EvLiveStatus LkShellIdle) = ''shell idle''"
| "evidence_label (EvLiveStatus LkCommandRunning) = ''command running''"
| "evidence_label (EvLiveStatus LkTestsRunning) = ''tests running''"
| "evidence_label (EvLiveStatus LkAgentRunning) = ''agent running''"
| "evidence_label (EvLiveStatus LkCiFailed) = ''ci failed''"
| "evidence_label (EvLiveStatus LkCiPending) = ''ci running''"
| "evidence_label (EvLiveStatus LkUnknown) = ''live status''"
| "evidence_label (EvAgentStatus ArNotStarted) = ''agent not started''"
| "evidence_label (EvAgentStatus ArRunning) = ''agent running''"
| "evidence_label (EvAgentStatus ArWaiting) = ''agent waiting''"
| "evidence_label (EvAgentStatus ArBlocked) = ''agent blocked''"
| "evidence_label (EvAgentStatus ArDone) = ''agent done''"
| "evidence_label (EvAgentStatus ArDead) = ''agent dead''"
| "evidence_label (EvAgentStatus ArUnknown) = ''agent status not observed''"
| "evidence_label (EvSideFlag SfDirty) = ''dirty''"
| "evidence_label (EvSideFlag SfAgentRunning) = ''agent running''"
| "evidence_label (EvSideFlag SfAgentDead) = ''agent dead''"
| "evidence_label (EvSideFlag SfNeedsInput) = ''needs input''"
| "evidence_label (EvSideFlag SfTestsFailed) = ''tests failed''"
| "evidence_label (EvSideFlag SfTmuxMissing) = ''tmux missing''"
| "evidence_label (EvSideFlag SfWorktreeMissing) = ''worktree missing''"
| "evidence_label (EvSideFlag SfTaskWindowMissing) = ''task window missing''"
| "evidence_label (EvSideFlag SfBranchMissing) = ''branch missing''"
| "evidence_label (EvSideFlag SfStale) = ''stale''"
| "evidence_label (EvSideFlag SfConflicted) = ''conflicted''"
| "evidence_label (EvSideFlag SfUnpushed) = ''unpushed''"
| "evidence_label (EvLifecycle LcCreated) = ''created''"
| "evidence_label (EvLifecycle LcProvisioning) = ''provisioning''"
| "evidence_label (EvLifecycle LcActive) = ''active''"
| "evidence_label (EvLifecycle LcWaiting) = ''waiting''"
| "evidence_label (EvLifecycle LcReviewable) = ''reviewable''"
| "evidence_label (EvLifecycle LcMergeable) = ''mergeable''"
| "evidence_label (EvLifecycle LcMerged) = ''merged''"
| "evidence_label (EvLifecycle LcCleanable) = ''cleanable''"
| "evidence_label (EvLifecycle LcRemoving) = ''removing''"
| "evidence_label (EvLifecycle LcTeardownIncomplete) = ''teardown incomplete''"
| "evidence_label (EvLifecycle LcRemoved) = ''removed''"
| "evidence_label (EvLifecycle LcOrphaned) = ''orphaned''"
| "evidence_label (EvLifecycle LcError) = ''error''"
| "evidence_label (EvSubstrate SgWorktreeMissing) = ''worktree missing''"
| "evidence_label (EvSubstrate SgTmuxMissing) = ''tmux missing''"
| "evidence_label (EvSubstrate SgTaskWindowMissing) = ''task window missing''"
| "evidence_label (EvSubstrate SgBranchMissing) = ''branch missing''"
| "evidence_label EvRuntimeObservationFailed = ''status unavailable''"
| "evidence_label EvCheckoutMismatch = ''checkout mismatch''"

fun attention_label :: "Evidence \<Rightarrow> string" where
  "attention_label (EvLiveStatus LkWaitingForInput) = ''needs input''"
| "attention_label e = evidence_label e"

record Annotation =
  an_kind :: AnnotationKind
  an_severity :: nat
  an_evidence :: Evidence
  an_suggests :: OperatorAction

definition annotation_new :: "AnnotationKind \<Rightarrow> Evidence \<Rightarrow> Annotation" where
  "annotation_new k e =
     \<lparr>an_kind = k, an_severity = severity_of k, an_evidence = e, an_suggests = suggests_of k\<rparr>"

lemma annotation_new_simps [simp]:
  "an_kind (annotation_new k e) = k"
  "an_severity (annotation_new k e) = severity_of k"
  "an_evidence (annotation_new k e) = e"
  "an_suggests (annotation_new k e) = suggests_of k"
  by (simp_all add: annotation_new_def)

fun is_waiting_evidence :: "Evidence \<Rightarrow> bool" where
  "is_waiting_evidence (EvLiveStatus LkWaitingForApproval) = True"
| "is_waiting_evidence (EvLiveStatus LkWaitingForInput) = True"
| "is_waiting_evidence _ = False"

text \<open>The separator is the middle dot, two bytes in UTF-8.\<close>

definition row_label :: "Annotation \<Rightarrow> string" where
  "row_label a =
     (if an_kind a = AkNeedsMe \<and> is_waiting_evidence (an_evidence a)
      then evidence_label (an_evidence a)
      else annotation_kind_label (an_kind a) @ '' '' @ [CHR 0xC2, CHR 0xB7] @ '' '' @
           evidence_label (an_evidence a))"

section \<open>Step receipts\<close>

datatype TaskOperationKind = TkStart | TkShip | TkDrop | TkRepair | TkTidy

fun operation_kind_as_str :: "TaskOperationKind \<Rightarrow> string" where
  "operation_kind_as_str TkStart = ''start''"
| "operation_kind_as_str TkShip = ''ship''"
| "operation_kind_as_str TkDrop = ''drop''"
| "operation_kind_as_str TkRepair = ''repair''"
| "operation_kind_as_str TkTidy = ''tidy''"

definition operation_kind_from_label :: "string \<Rightarrow> TaskOperationKind option" where
  "operation_kind_from_label l =
     (if l = ''start'' then Some TkStart
      else if l = ''ship'' then Some TkShip
      else if l = ''drop'' then Some TkDrop
      else if l = ''repair'' then Some TkRepair
      else if l = ''tidy'' then Some TkTidy
      else None)"

text \<open>The derived order of the enum is its order of declaration.\<close>

fun operation_kind_rank :: "TaskOperationKind \<Rightarrow> nat" where
  "operation_kind_rank TkStart = 0"
| "operation_kind_rank TkShip = 1"
| "operation_kind_rank TkDrop = 2"
| "operation_kind_rank TkRepair = 3"
| "operation_kind_rank TkTidy = 4"

lemma operation_kind_rank_inject [simp]: "operation_kind_rank a = operation_kind_rank b \<longleftrightarrow> a = b"
  by (cases a; cases b) simp_all

instantiation TaskOperationKind :: linorder
begin

definition less_eq_TaskOperationKind :: "TaskOperationKind \<Rightarrow> TaskOperationKind \<Rightarrow> bool" where
  "less_eq_TaskOperationKind a b \<longleftrightarrow> operation_kind_rank a \<le> operation_kind_rank b"

definition less_TaskOperationKind :: "TaskOperationKind \<Rightarrow> TaskOperationKind \<Rightarrow> bool" where
  "less_TaskOperationKind a b \<longleftrightarrow> operation_kind_rank a < operation_kind_rank b"

instance
  by standard (auto simp: less_eq_TaskOperationKind_def less_TaskOperationKind_def)

end

datatype StepReceiptStatus = SrSucceeded | SrFailed | SrSkippedObserved

fun receipt_status_as_str :: "StepReceiptStatus \<Rightarrow> string" where
  "receipt_status_as_str SrSucceeded = ''succeeded''"
| "receipt_status_as_str SrFailed = ''failed''"
| "receipt_status_as_str SrSkippedObserved = ''skipped_observed''"

definition receipt_status_from_label :: "string \<Rightarrow> StepReceiptStatus option" where
  "receipt_status_from_label l =
     (if l = ''succeeded'' then Some SrSucceeded
      else if l = ''failed'' then Some SrFailed
      else if l = ''skipped_observed'' then Some SrSkippedObserved
      else None)"

text \<open>
  The identity of a receipt orders by its fields in declaration order, so it is the tuple
  (task id, operation, step key, target) in the lexicographic order of products.
\<close>

type_synonym StepReceiptIdentity = "task_id \<times> TaskOperationKind \<times> string \<times> string"

record StepReceipt =
  sp_task_id :: task_id
  sp_operation :: TaskOperationKind
  sp_step_key :: string
  sp_target :: string
  sp_status :: StepReceiptStatus
  sp_receipt_json :: string
  sp_created_at :: time

definition receipt_new ::
    "task_id \<Rightarrow> TaskOperationKind \<Rightarrow> string \<Rightarrow> string \<Rightarrow> StepReceiptStatus \<Rightarrow> string \<Rightarrow> time \<Rightarrow> StepReceipt" where
  "receipt_new t op_kind key target status json now =
     \<lparr>sp_task_id = t, sp_operation = op_kind, sp_step_key = key, sp_target = target,
      sp_status = status, sp_receipt_json = json, sp_created_at = now\<rparr>"

definition receipt_succeeded ::
    "task_id \<Rightarrow> TaskOperationKind \<Rightarrow> string \<Rightarrow> string \<Rightarrow> string \<Rightarrow> time \<Rightarrow> StepReceipt" where
  "receipt_succeeded t op_kind key target json now =
     receipt_new t op_kind key target SrSucceeded json now"

definition receipt_identity :: "StepReceipt \<Rightarrow> StepReceiptIdentity" where
  "receipt_identity r = (sp_task_id r, sp_operation r, sp_step_key r, sp_target r)"

section \<open>The labels are codecs\<close>

interpretation health_codec: label_codec health_as_str health_from_label
proof unfold_locales
  fix x s
  show "health_from_label (health_as_str x) = Some x"
    by (cases x) (simp_all add: health_from_label_def)
  show "health_from_label s = Some x \<Longrightarrow> health_as_str x = s"
    by (auto simp: health_from_label_def split: if_splits)
qed

interpretation source_codec: label_codec source_as_str source_from_label
proof unfold_locales
  fix x s
  show "source_from_label (source_as_str x) = Some x"
    by (cases x) (simp_all add: source_from_label_def)
  show "source_from_label s = Some x \<Longrightarrow> source_as_str x = s"
    by (auto simp: source_from_label_def split: if_splits)
qed

interpretation action_codec: label_codec operator_action_as_str operator_action_from_label
proof unfold_locales
  fix x s
  show "operator_action_from_label (operator_action_as_str x) = Some x"
    by (cases x) (simp_all add: operator_action_from_label_def operator_action_all_def)
  show "operator_action_from_label s = Some x \<Longrightarrow> operator_action_as_str x = s"
    by (auto simp: operator_action_from_label_def find_Some_iff)
qed

interpretation operation_kind_codec: label_codec operation_kind_as_str operation_kind_from_label
proof unfold_locales
  fix x s
  show "operation_kind_from_label (operation_kind_as_str x) = Some x"
    by (cases x) (simp_all add: operation_kind_from_label_def)
  show "operation_kind_from_label s = Some x \<Longrightarrow> operation_kind_as_str x = s"
    by (auto simp: operation_kind_from_label_def split: if_splits)
qed

interpretation receipt_codec: label_codec receipt_status_as_str receipt_status_from_label
proof unfold_locales
  fix x s
  show "receipt_status_from_label (receipt_status_as_str x) = Some x"
    by (cases x) (simp_all add: receipt_status_from_label_def)
  show "receipt_status_from_label s = Some x \<Longrightarrow> receipt_status_as_str x = s"
    by (auto simp: receipt_status_from_label_def split: if_splits)
qed

end
