(* ===== verification/Task_Model.thy ===== *)
theory Task_Model
  imports Model_Types
begin

text \<open>
  The struct \<open>Task\<close> of \<open>models/task.rs\<close> with every method, the attempt bookkeeping of
  \<open>models/observations.rs\<close> (\<open>sync_open_attempts\<close>) and the runtime reconciliation of \<open>runtime.rs\<close>.
  A method that takes \<open>&mut self\<close> returns the new task; each \<open>SystemTime::now()\<close> is an argument, or a
  numbered reading of a clock where a method reads it several times.
\<close>

section \<open>The task record\<close>

record Task =
  t_id :: task_id
  t_repo :: string
  t_handle :: string
  t_title :: string
  t_branch :: string
  t_base_branch :: string
  t_worktree_path :: string
  t_tmux_session :: string
  t_task_window :: string
  t_selected_agent :: AgentClient
  t_lifecycle_status :: LifecycleStatus
  t_agent_status :: AgentRuntimeStatus
  t_git_status :: "GitStatus option"
  t_tmux_status :: "TmuxStatus option"
  t_task_window_status :: "TaskWindowStatus option"
  t_runtime_projection :: RuntimeProjection
  t_live_status :: "LiveObservation option"
  t_live_status_observed_at :: "time option"
  t_annotations :: "Annotation list"
  t_created_at :: time
  t_last_activity_at :: time
  t_metadata :: "string \<rightharpoonup> string"
  t_agent_attempts :: "AgentAttempt list"
  t_attention_acknowledged_at :: "time option"
  t_side_flags :: "SideFlag set"

datatype TaskKind = KindChat | KindTerminalAgent

definition SKIP_INTERACTIVE_AGENT_KEY :: string where
  "SKIP_INTERACTIVE_AGENT_KEY = ''skip_interactive_agent''"

definition SESSION_MODEL_KEY :: string where
  "SESSION_MODEL_KEY = ''session_model''"

definition task_new ::
    "time \<Rightarrow> task_id \<Rightarrow> string \<Rightarrow> string \<Rightarrow> string \<Rightarrow> string \<Rightarrow> string \<Rightarrow> string \<Rightarrow> string \<Rightarrow> string \<Rightarrow>
     AgentClient \<Rightarrow> Task" where
  "task_new now i repo handle title branch base path session window agent =
     \<lparr>t_id = i, t_repo = repo, t_handle = handle, t_title = title, t_branch = branch,
      t_base_branch = base, t_worktree_path = path, t_tmux_session = session,
      t_task_window = window, t_selected_agent = agent, t_lifecycle_status = LcCreated,
      t_agent_status = ArNotStarted, t_git_status = None, t_tmux_status = None,
      t_task_window_status = None, t_runtime_projection = projection_default,
      t_live_status = None, t_live_status_observed_at = None, t_annotations = [],
      t_created_at = now, t_last_activity_at = now, t_metadata = Map.empty,
      t_agent_attempts = [], t_attention_acknowledged_at = None, t_side_flags = {}\<rparr>"

definition record_attention_acknowledgment :: "time \<Rightarrow> Task \<Rightarrow> Task" where
  "record_attention_acknowledgment at t =
     t\<lparr>t_attention_acknowledged_at :=
        Some (case t_attention_acknowledged_at t of
                Some existing \<Rightarrow> if existing \<ge> at then existing else at
              | None \<Rightarrow> at)\<rparr>"

definition qualified_handle :: "Task \<Rightarrow> string" where
  "qualified_handle t = t_repo t @ ''/'' @ t_handle t"

definition task_intent :: "Task \<Rightarrow> TaskIntent" where
  "task_intent t =
     \<lparr>ti_id = t_id t, ti_repo = t_repo t, ti_handle = t_handle t, ti_title = t_title t,
      ti_branch = t_branch t, ti_base_branch = t_base_branch t,
      ti_worktree_path = t_worktree_path t, ti_tmux_session = t_tmux_session t,
      ti_task_window = t_task_window t, ti_selected_agent = t_selected_agent t\<rparr>"

definition add_side_flag :: "SideFlag \<Rightarrow> Task \<Rightarrow> Task" where
  "add_side_flag f t = t\<lparr>t_side_flags := insert f (t_side_flags t)\<rparr>"

definition remove_side_flag :: "SideFlag \<Rightarrow> Task \<Rightarrow> Task" where
  "remove_side_flag f t = t\<lparr>t_side_flags := t_side_flags t - {f}\<rparr>"

definition has_side_flag :: "SideFlag \<Rightarrow> Task \<Rightarrow> bool" where
  "has_side_flag f t \<longleftrightarrow> f \<in> t_side_flags t"

definition side_flags :: "Task \<Rightarrow> SideFlag list" where
  "side_flags t = filter (\<lambda>f. f \<in> t_side_flags t) side_flag_order"

lemma set_side_flags [simp]: "set (side_flags t) = t_side_flags t"
  by (auto simp: side_flags_def)

definition copy_activity_from :: "Task \<Rightarrow> Task \<Rightarrow> Task" where
  "copy_activity_from other t =
     t\<lparr>t_live_status := t_live_status other,
       t_live_status_observed_at := t_live_status_observed_at other,
       t_agent_status := t_agent_status other,
       t_last_activity_at := t_last_activity_at other,
       t_agent_attempts := t_agent_attempts other,
       t_side_flags := t_side_flags other\<rparr>"

definition skip_interactive_agent :: "Task \<Rightarrow> bool" where
  "skip_interactive_agent t \<longleftrightarrow> t_metadata t SKIP_INTERACTIVE_AGENT_KEY = Some ''1''"

definition task_kind :: "Task \<Rightarrow> TaskKind" where
  "task_kind t = (if skip_interactive_agent t then KindChat else KindTerminalAgent)"

section \<open>Runtime reconciliation\<close>

record ObservedTaskRuntime =
  ob_git_status :: "GitStatus option"
  ob_tmux_status :: "TmuxStatus option"
  ob_task_window_status :: "TaskWindowStatus option"

definition runtime_health :: "ObservedTaskRuntime \<Rightarrow> string \<Rightarrow> bool \<Rightarrow> RuntimeHealth" where
  "runtime_health ob expected_branch tmux_optional =
     (case ob_git_status ob of
        None \<Rightarrow> RhUnobservable
      | Some git \<Rightarrow>
          if \<not> gs_worktree_exists git then RhMissingWorktree
          else if gs_current_branch git \<noteq> Some expected_branch then RhCheckoutMismatch
          else if tmux_optional then
            (case ob_task_window_status ob of
               Some w \<Rightarrow> if tw_exists w \<and> \<not> tw_points_at_expected_path w
                         then RhWrongTaskWindowPath else RhHealthy
             | None \<Rightarrow> RhHealthy)
          else
            (case ob_tmux_status ob of
               None \<Rightarrow> RhUnobservable
             | Some tmux \<Rightarrow>
                 if \<not> ts_exists tmux then RhMissingSession
                 else
                   (case ob_task_window_status ob of
                      None \<Rightarrow> RhUnobservable
                    | Some w \<Rightarrow>
                        if \<not> tw_exists w then RhMissingTaskWindow
                        else if \<not> tw_points_at_expected_path w then RhWrongTaskWindowPath
                        else RhHealthy)))"

definition reconcile_runtime_for_task ::
    "ObservedTaskRuntime \<Rightarrow> string \<Rightarrow> bool \<Rightarrow> time \<Rightarrow> RuntimeObservationSource \<Rightarrow> RuntimeProjection" where
  "reconcile_runtime_for_task ob expected_branch tmux_optional at src =
     projection_new (runtime_health ob expected_branch tmux_optional) at src"

definition refresh_runtime_projection_from_source ::
    "time \<Rightarrow> RuntimeObservationSource \<Rightarrow> Task \<Rightarrow> Task" where
  "refresh_runtime_projection_from_source now src t =
     t\<lparr>t_runtime_projection :=
        reconcile_runtime_for_task
          \<lparr>ob_git_status = t_git_status t, ob_tmux_status = t_tmux_status t,
           ob_task_window_status = t_task_window_status t\<rparr>
          (t_branch t) (skip_interactive_agent t) now src\<rparr>"

definition refresh_runtime_projection :: "time \<Rightarrow> Task \<Rightarrow> Task" where
  "refresh_runtime_projection now t = refresh_runtime_projection_from_source now RsUnknown t"

definition record_runtime_probe_failure ::
    "time \<Rightarrow> RuntimeObservationSource \<Rightarrow> string \<Rightarrow> Task \<Rightarrow> Task" where
  "record_runtime_probe_failure now src err t =
     t\<lparr>t_runtime_projection :=
        projection_with_error (rp_health (t_runtime_projection t)) now src err\<rparr>"

section \<open>Agent attempts\<close>

definition close_open_attempts :: "AgentRuntimeStatus \<Rightarrow> time \<Rightarrow> Task \<Rightarrow> Task" where
  "close_open_attempts status at t =
     t\<lparr>t_agent_attempts :=
        map (\<lambda>a. if attempt_is_open a then attempt_close status at a else a) (t_agent_attempts t)\<rparr>"

definition reopen_last_launch_attempt_if_closed_before_start :: "Task \<Rightarrow> Task" where
  "reopen_last_launch_attempt_if_closed_before_start t =
     (if t_agent_attempts t = [] then t
      else
        let l = last (t_agent_attempts t);
            l' = (if aa_finished_at l \<noteq> None \<and> aa_status l = ArNotStarted
                  then l\<lparr>aa_finished_at := None, aa_status := ArRunning\<rparr>
                  else if attempt_is_open l then l\<lparr>aa_status := ArRunning\<rparr>
                  else l)
        in t\<lparr>t_agent_attempts := butlast (t_agent_attempts t) @ [l']\<rparr>)"

definition sync_open_attempts :: "time \<Rightarrow> Task \<Rightarrow> Task" where
  "sync_open_attempts at t =
     (case t_agent_status t of
        ArDead \<Rightarrow> close_open_attempts ArDead at t
      | ArNotStarted \<Rightarrow>
          if \<not> has_side_flag SfAgentRunning t then close_open_attempts ArNotStarted at t else t
      | ArRunning \<Rightarrow> reopen_last_launch_attempt_if_closed_before_start t
      | _ \<Rightarrow> t)"

definition mark_resource_missing :: "time \<Rightarrow> SideFlag \<Rightarrow> Task \<Rightarrow> Task" where
  "mark_resource_missing now f t =
     (let t1 = add_side_flag f t in
      if flag_is_missing_substrate f
      then sync_open_attempts now
             (remove_side_flag SfAgentRunning (t1\<lparr>t_agent_status := ArDead\<rparr>))
      else t1)"

definition clear_live_status_if :: "LiveStatusKind \<Rightarrow> Task \<Rightarrow> Task" where
  "clear_live_status_if k t =
     (case t_live_status t of
        Some live \<Rightarrow> if lo_kind live = k
                     then t\<lparr>t_live_status := None, t_live_status_observed_at := None\<rparr> else t
      | None \<Rightarrow> t)"

section \<open>Chat mode and the session model\<close>

definition set_skip_interactive_agent :: "time \<Rightarrow> bool \<Rightarrow> Task \<Rightarrow> Task" where
  "set_skip_interactive_agent now skip t =
     (if skip then
        let t1 = t\<lparr>t_metadata := (t_metadata t)(SKIP_INTERACTIVE_AGENT_KEY \<mapsto> ''1'')\<rparr>;
            t2 = remove_side_flag SfTmuxMissing t1;
            t3 = remove_side_flag SfTaskWindowMissing t2;
            t4 = clear_live_status_if LkTmuxMissing t3;
            t5 = clear_live_status_if LkTaskWindowMissing t4
        in refresh_runtime_projection now t5
      else t\<lparr>t_metadata := (t_metadata t)(SKIP_INTERACTIVE_AGENT_KEY := None)\<rparr>)"

definition session_model :: "Task \<Rightarrow> string option" where
  "session_model t =
     (case t_metadata t SESSION_MODEL_KEY of
        Some m \<Rightarrow> if m = [] then None else Some m
      | None \<Rightarrow> None)"

definition set_session_model :: "string option \<Rightarrow> Task \<Rightarrow> Task" where
  "set_session_model model t =
     (case map_option trim model of
        Some m \<Rightarrow>
          if m = [] then t\<lparr>t_metadata := (t_metadata t)(SESSION_MODEL_KEY := None)\<rparr>
          else t\<lparr>t_metadata := (t_metadata t)(SESSION_MODEL_KEY \<mapsto> m)\<rparr>
      | None \<Rightarrow> t\<lparr>t_metadata := (t_metadata t)(SESSION_MODEL_KEY := None)\<rparr>)"

section \<open>Substrate queries\<close>

definition durable_tmux_present :: "Task \<Rightarrow> bool" where
  "durable_tmux_present t = (case t_tmux_status t of Some s \<Rightarrow> ts_exists s | None \<Rightarrow> False)"

definition durable_task_window_present :: "Task \<Rightarrow> bool" where
  "durable_task_window_present t =
     (case t_task_window_status t of
        Some s \<Rightarrow> tw_exists s \<and> tw_points_at_expected_path s | None \<Rightarrow> False)"

definition durable_worktree_present :: "Task \<Rightarrow> bool" where
  "durable_worktree_present t =
     (case t_git_status t of Some s \<Rightarrow> gs_worktree_exists s | None \<Rightarrow> False)"

definition live_reports_unrefuted_missing_substrate :: "bool \<Rightarrow> Task \<Rightarrow> bool" where
  "live_reports_unrefuted_missing_substrate ignores_tmux t =
     (case t_live_status t of
        None \<Rightarrow> False
      | Some live \<Rightarrow>
          if ignores_tmux \<and> (lo_kind live = LkTmuxMissing \<or> lo_kind live = LkTaskWindowMissing)
          then False
          else (case lo_kind live of
                  LkTmuxMissing \<Rightarrow> \<not> durable_tmux_present t
                | LkTaskWindowMissing \<Rightarrow> \<not> durable_task_window_present t
                | LkWorktreeMissing \<Rightarrow> \<not> durable_worktree_present t
                | other \<Rightarrow> kind_is_missing_substrate other))"

definition live_reports_unrefuted_worktree_missing :: "Task \<Rightarrow> bool" where
  "live_reports_unrefuted_worktree_missing t \<longleftrightarrow>
     (case t_live_status t of Some live \<Rightarrow> lo_kind live = LkWorktreeMissing | None \<Rightarrow> False)
     \<and> \<not> durable_worktree_present t"

definition has_missing_worktree :: "Task \<Rightarrow> bool" where
  "has_missing_worktree t \<longleftrightarrow>
     has_side_flag SfWorktreeMissing t
     \<or> (case t_git_status t of Some s \<Rightarrow> \<not> gs_worktree_exists s | None \<Rightarrow> False)
     \<or> rp_health (t_runtime_projection t) = RhMissingWorktree
     \<or> live_reports_unrefuted_worktree_missing t"

definition has_missing_branch :: "Task \<Rightarrow> bool" where
  "has_missing_branch t \<longleftrightarrow>
     has_side_flag SfBranchMissing t
     \<or> (case t_git_status t of Some s \<Rightarrow> \<not> gs_branch_exists s | None \<Rightarrow> False)"

definition has_missing_git_substrate :: "Task \<Rightarrow> bool" where
  "has_missing_git_substrate t \<longleftrightarrow> has_missing_worktree t \<or> has_missing_branch t"

definition runtime_health_missing_substrate :: "bool \<Rightarrow> Task \<Rightarrow> bool" where
  "runtime_health_missing_substrate ignores_tmux t \<longleftrightarrow>
     (let h = rp_health (t_runtime_projection t) in
      health_is_missing_substrate h
      \<and> \<not> (ignores_tmux \<and> (h = RhMissingSession \<or> h = RhMissingTaskWindow)))"

definition has_missing_non_branch_substrate :: "Task \<Rightarrow> bool" where
  "has_missing_non_branch_substrate t \<longleftrightarrow>
     (let ignores_tmux = skip_interactive_agent t in
      has_missing_worktree t
      \<or> list_ex (\<lambda>f. f \<noteq> SfBranchMissing \<and> flag_is_missing_substrate f
                     \<and> \<not> (ignores_tmux \<and> (f = SfTmuxMissing \<or> f = SfTaskWindowMissing)))
          (side_flags t)
      \<or> runtime_health_missing_substrate ignores_tmux t
      \<or> live_reports_unrefuted_missing_substrate ignores_tmux t)"

definition has_missing_substrate :: "Task \<Rightarrow> bool" where
  "has_missing_substrate t \<longleftrightarrow> has_missing_git_substrate t \<or> has_missing_non_branch_substrate t"

definition has_adoptable_branch_move :: "Task \<Rightarrow> bool" where
  "has_adoptable_branch_move t \<longleftrightarrow>
     (case t_git_status t of
        Some s \<Rightarrow> gs_worktree_exists s \<and>
          (case gs_current_branch s of Some c \<Rightarrow> c \<noteq> [] \<and> c \<noteq> t_branch t | None \<Rightarrow> False)
      | None \<Rightarrow> False)"

definition has_checkout_mismatch :: "Task \<Rightarrow> bool" where
  "has_checkout_mismatch t \<longleftrightarrow>
     (case t_git_status t of
        Some s \<Rightarrow> gs_worktree_exists s \<and> gs_current_branch s \<noteq> Some (t_branch t)
      | None \<Rightarrow> False)"

definition pr_head_branch :: "Task \<Rightarrow> string" where
  "pr_head_branch t =
     (case Option.bind (t_git_status t) gs_current_branch of
        Some c \<Rightarrow> if c \<noteq> [] \<and> c \<noteq> t_branch t \<and> c \<noteq> t_base_branch t then c else t_branch t
      | None \<Rightarrow> t_branch t)"

definition checkout_mismatch_explanation :: "Task \<Rightarrow> string option" where
  "checkout_mismatch_explanation t =
     (if \<not> has_checkout_mismatch t
         \<and> rp_health (t_runtime_projection t) \<noteq> RhCheckoutMismatch
      then None
      else Some (case Option.bind (t_git_status t) gs_current_branch of
                   Some b \<Rightarrow> ''Worktree on '' @ b @ ''; expected '' @ t_branch t
                 | None \<Rightarrow> ''Worktree detached; expected '' @ t_branch t))"

section \<open>Applying substrate evidence\<close>

definition set_flag_to :: "bool \<Rightarrow> SideFlag \<Rightarrow> Task \<Rightarrow> Task" where
  "set_flag_to b f t = (if b then add_side_flag f t else remove_side_flag f t)"

definition adopt_moved_branch :: "GitStatus \<Rightarrow> Task \<Rightarrow> Task \<times> GitStatus" where
  "adopt_moved_branch s t =
     (case gs_current_branch s of
        Some c \<Rightarrow>
          if gs_worktree_exists s \<and> \<not> gs_branch_exists s \<and> c \<noteq> []
             \<and> c \<noteq> t_branch t \<and> c \<noteq> t_base_branch t
          then (t\<lparr>t_branch := c\<rparr>, s\<lparr>gs_branch_exists := True\<rparr>)
          else (t, s)
      | None \<Rightarrow> (t, s))"

definition apply_git_status :: "clock \<Rightarrow> GitStatus \<Rightarrow> Task \<Rightarrow> Task" where
  "apply_git_status clk status0 task0 =
     (let (t0, s) = adopt_moved_branch status0 task0;
          t1 = (if gs_worktree_exists s
                then clear_live_status_if LkWorktreeMissing (remove_side_flag SfWorktreeMissing t0)
                else mark_resource_missing (clk 0) SfWorktreeMissing t0);
          t2 = (if gs_branch_exists s then remove_side_flag SfBranchMissing t1
                else mark_resource_missing (clk 1) SfBranchMissing t1);
          t3 = set_flag_to (gs_dirty s \<or> gs_untracked_files s > 0) SfDirty t2;
          t4 = set_flag_to (gs_conflicted s) SfConflicted t3;
          t5 = set_flag_to (has_unpushed_work s) SfUnpushed t4;
          t6 = t5\<lparr>t_git_status := Some s\<rparr>
      in refresh_runtime_projection (clk 2) t6)"

definition apply_tmux_status :: "clock \<Rightarrow> TmuxStatus option \<Rightarrow> Task \<Rightarrow> Task" where
  "apply_tmux_status clk status t0 =
     (let present = (case status of Some s \<Rightarrow> ts_exists s | None \<Rightarrow> False);
          t1 = (if present \<or> skip_interactive_agent t0
                then clear_live_status_if LkTmuxMissing (remove_side_flag SfTmuxMissing t0)
                else mark_resource_missing (clk 0) SfTmuxMissing t0)
      in refresh_runtime_projection (clk 1) (t1\<lparr>t_tmux_status := status\<rparr>))"

definition apply_task_window_status :: "clock \<Rightarrow> TaskWindowStatus option \<Rightarrow> Task \<Rightarrow> Task" where
  "apply_task_window_status clk status t0 =
     (let present = (case status of
                       Some s \<Rightarrow> tw_exists s \<and> tw_points_at_expected_path s | None \<Rightarrow> False);
          t1 = (if present \<or> skip_interactive_agent t0
                then clear_live_status_if LkTaskWindowMissing
                       (remove_side_flag SfTaskWindowMissing t0)
                else mark_resource_missing (clk 0) SfTaskWindowMissing t0)
      in refresh_runtime_projection (clk 1) (t1\<lparr>t_task_window_status := status\<rparr>))"

section \<open>What each method leaves alone\<close>

text \<open>
  One frame lemma per method, as simplification rules: they let the proofs about the larger
  handlers read a field through a chain of updates.
\<close>

lemma add_side_flag_frame [simp]:
  "t_id (add_side_flag f t) = t_id t"
  "t_repo (add_side_flag f t) = t_repo t"
  "t_handle (add_side_flag f t) = t_handle t"
  "t_title (add_side_flag f t) = t_title t"
  "t_branch (add_side_flag f t) = t_branch t"
  "t_base_branch (add_side_flag f t) = t_base_branch t"
  "t_worktree_path (add_side_flag f t) = t_worktree_path t"
  "t_tmux_session (add_side_flag f t) = t_tmux_session t"
  "t_task_window (add_side_flag f t) = t_task_window t"
  "t_selected_agent (add_side_flag f t) = t_selected_agent t"
  "t_lifecycle_status (add_side_flag f t) = t_lifecycle_status t"
  "t_agent_status (add_side_flag f t) = t_agent_status t"
  "t_git_status (add_side_flag f t) = t_git_status t"
  "t_tmux_status (add_side_flag f t) = t_tmux_status t"
  "t_task_window_status (add_side_flag f t) = t_task_window_status t"
  "t_runtime_projection (add_side_flag f t) = t_runtime_projection t"
  "t_live_status (add_side_flag f t) = t_live_status t"
  "t_live_status_observed_at (add_side_flag f t) = t_live_status_observed_at t"
  "t_annotations (add_side_flag f t) = t_annotations t"
  "t_created_at (add_side_flag f t) = t_created_at t"
  "t_last_activity_at (add_side_flag f t) = t_last_activity_at t"
  "t_metadata (add_side_flag f t) = t_metadata t"
  "t_agent_attempts (add_side_flag f t) = t_agent_attempts t"
  "t_attention_acknowledged_at (add_side_flag f t) = t_attention_acknowledged_at t"
  by (simp_all add: add_side_flag_def)

lemma remove_side_flag_frame [simp]:
  "t_id (remove_side_flag f t) = t_id t"
  "t_repo (remove_side_flag f t) = t_repo t"
  "t_handle (remove_side_flag f t) = t_handle t"
  "t_title (remove_side_flag f t) = t_title t"
  "t_branch (remove_side_flag f t) = t_branch t"
  "t_base_branch (remove_side_flag f t) = t_base_branch t"
  "t_worktree_path (remove_side_flag f t) = t_worktree_path t"
  "t_tmux_session (remove_side_flag f t) = t_tmux_session t"
  "t_task_window (remove_side_flag f t) = t_task_window t"
  "t_selected_agent (remove_side_flag f t) = t_selected_agent t"
  "t_lifecycle_status (remove_side_flag f t) = t_lifecycle_status t"
  "t_agent_status (remove_side_flag f t) = t_agent_status t"
  "t_git_status (remove_side_flag f t) = t_git_status t"
  "t_tmux_status (remove_side_flag f t) = t_tmux_status t"
  "t_task_window_status (remove_side_flag f t) = t_task_window_status t"
  "t_runtime_projection (remove_side_flag f t) = t_runtime_projection t"
  "t_live_status (remove_side_flag f t) = t_live_status t"
  "t_live_status_observed_at (remove_side_flag f t) = t_live_status_observed_at t"
  "t_annotations (remove_side_flag f t) = t_annotations t"
  "t_created_at (remove_side_flag f t) = t_created_at t"
  "t_last_activity_at (remove_side_flag f t) = t_last_activity_at t"
  "t_metadata (remove_side_flag f t) = t_metadata t"
  "t_agent_attempts (remove_side_flag f t) = t_agent_attempts t"
  "t_attention_acknowledged_at (remove_side_flag f t) = t_attention_acknowledged_at t"
  by (simp_all add: remove_side_flag_def)

lemma set_flag_to_frame [simp]:
  "t_id (set_flag_to b f t) = t_id t"
  "t_repo (set_flag_to b f t) = t_repo t"
  "t_handle (set_flag_to b f t) = t_handle t"
  "t_title (set_flag_to b f t) = t_title t"
  "t_branch (set_flag_to b f t) = t_branch t"
  "t_base_branch (set_flag_to b f t) = t_base_branch t"
  "t_worktree_path (set_flag_to b f t) = t_worktree_path t"
  "t_tmux_session (set_flag_to b f t) = t_tmux_session t"
  "t_task_window (set_flag_to b f t) = t_task_window t"
  "t_selected_agent (set_flag_to b f t) = t_selected_agent t"
  "t_lifecycle_status (set_flag_to b f t) = t_lifecycle_status t"
  "t_agent_status (set_flag_to b f t) = t_agent_status t"
  "t_git_status (set_flag_to b f t) = t_git_status t"
  "t_tmux_status (set_flag_to b f t) = t_tmux_status t"
  "t_task_window_status (set_flag_to b f t) = t_task_window_status t"
  "t_runtime_projection (set_flag_to b f t) = t_runtime_projection t"
  "t_live_status (set_flag_to b f t) = t_live_status t"
  "t_live_status_observed_at (set_flag_to b f t) = t_live_status_observed_at t"
  "t_annotations (set_flag_to b f t) = t_annotations t"
  "t_created_at (set_flag_to b f t) = t_created_at t"
  "t_last_activity_at (set_flag_to b f t) = t_last_activity_at t"
  "t_metadata (set_flag_to b f t) = t_metadata t"
  "t_agent_attempts (set_flag_to b f t) = t_agent_attempts t"
  "t_attention_acknowledged_at (set_flag_to b f t) = t_attention_acknowledged_at t"
  by (simp_all add: set_flag_to_def)

lemma sync_open_attempts_frame [simp]:
  "t_id (sync_open_attempts at t) = t_id t"
  "t_repo (sync_open_attempts at t) = t_repo t"
  "t_handle (sync_open_attempts at t) = t_handle t"
  "t_title (sync_open_attempts at t) = t_title t"
  "t_branch (sync_open_attempts at t) = t_branch t"
  "t_base_branch (sync_open_attempts at t) = t_base_branch t"
  "t_worktree_path (sync_open_attempts at t) = t_worktree_path t"
  "t_tmux_session (sync_open_attempts at t) = t_tmux_session t"
  "t_task_window (sync_open_attempts at t) = t_task_window t"
  "t_selected_agent (sync_open_attempts at t) = t_selected_agent t"
  "t_lifecycle_status (sync_open_attempts at t) = t_lifecycle_status t"
  "t_agent_status (sync_open_attempts at t) = t_agent_status t"
  "t_git_status (sync_open_attempts at t) = t_git_status t"
  "t_tmux_status (sync_open_attempts at t) = t_tmux_status t"
  "t_task_window_status (sync_open_attempts at t) = t_task_window_status t"
  "t_runtime_projection (sync_open_attempts at t) = t_runtime_projection t"
  "t_live_status (sync_open_attempts at t) = t_live_status t"
  "t_live_status_observed_at (sync_open_attempts at t) = t_live_status_observed_at t"
  "t_annotations (sync_open_attempts at t) = t_annotations t"
  "t_created_at (sync_open_attempts at t) = t_created_at t"
  "t_last_activity_at (sync_open_attempts at t) = t_last_activity_at t"
  "t_metadata (sync_open_attempts at t) = t_metadata t"
  "t_attention_acknowledged_at (sync_open_attempts at t) = t_attention_acknowledged_at t"
  "t_side_flags (sync_open_attempts at t) = t_side_flags t"
  by (cases "t_agent_status t", simp_all add: sync_open_attempts_def close_open_attempts_def
      reopen_last_launch_attempt_if_closed_before_start_def Let_def)+

lemma mark_resource_missing_frame [simp]:
  "t_id (mark_resource_missing now f t) = t_id t"
  "t_repo (mark_resource_missing now f t) = t_repo t"
  "t_handle (mark_resource_missing now f t) = t_handle t"
  "t_title (mark_resource_missing now f t) = t_title t"
  "t_branch (mark_resource_missing now f t) = t_branch t"
  "t_base_branch (mark_resource_missing now f t) = t_base_branch t"
  "t_worktree_path (mark_resource_missing now f t) = t_worktree_path t"
  "t_tmux_session (mark_resource_missing now f t) = t_tmux_session t"
  "t_task_window (mark_resource_missing now f t) = t_task_window t"
  "t_selected_agent (mark_resource_missing now f t) = t_selected_agent t"
  "t_lifecycle_status (mark_resource_missing now f t) = t_lifecycle_status t"
  "t_git_status (mark_resource_missing now f t) = t_git_status t"
  "t_tmux_status (mark_resource_missing now f t) = t_tmux_status t"
  "t_task_window_status (mark_resource_missing now f t) = t_task_window_status t"
  "t_runtime_projection (mark_resource_missing now f t) = t_runtime_projection t"
  "t_live_status (mark_resource_missing now f t) = t_live_status t"
  "t_live_status_observed_at (mark_resource_missing now f t) = t_live_status_observed_at t"
  "t_annotations (mark_resource_missing now f t) = t_annotations t"
  "t_created_at (mark_resource_missing now f t) = t_created_at t"
  "t_last_activity_at (mark_resource_missing now f t) = t_last_activity_at t"
  "t_metadata (mark_resource_missing now f t) = t_metadata t"
  "t_attention_acknowledged_at (mark_resource_missing now f t) = t_attention_acknowledged_at t"
  by (simp_all add: mark_resource_missing_def Let_def)

lemma clear_live_status_if_frame [simp]:
  "t_id (clear_live_status_if k t) = t_id t"
  "t_repo (clear_live_status_if k t) = t_repo t"
  "t_handle (clear_live_status_if k t) = t_handle t"
  "t_title (clear_live_status_if k t) = t_title t"
  "t_branch (clear_live_status_if k t) = t_branch t"
  "t_base_branch (clear_live_status_if k t) = t_base_branch t"
  "t_worktree_path (clear_live_status_if k t) = t_worktree_path t"
  "t_tmux_session (clear_live_status_if k t) = t_tmux_session t"
  "t_task_window (clear_live_status_if k t) = t_task_window t"
  "t_selected_agent (clear_live_status_if k t) = t_selected_agent t"
  "t_lifecycle_status (clear_live_status_if k t) = t_lifecycle_status t"
  "t_agent_status (clear_live_status_if k t) = t_agent_status t"
  "t_git_status (clear_live_status_if k t) = t_git_status t"
  "t_tmux_status (clear_live_status_if k t) = t_tmux_status t"
  "t_task_window_status (clear_live_status_if k t) = t_task_window_status t"
  "t_runtime_projection (clear_live_status_if k t) = t_runtime_projection t"
  "t_annotations (clear_live_status_if k t) = t_annotations t"
  "t_created_at (clear_live_status_if k t) = t_created_at t"
  "t_last_activity_at (clear_live_status_if k t) = t_last_activity_at t"
  "t_metadata (clear_live_status_if k t) = t_metadata t"
  "t_agent_attempts (clear_live_status_if k t) = t_agent_attempts t"
  "t_attention_acknowledged_at (clear_live_status_if k t) = t_attention_acknowledged_at t"
  "t_side_flags (clear_live_status_if k t) = t_side_flags t"
  by (simp_all add: clear_live_status_if_def split: option.splits)

lemma refresh_runtime_projection_frame [simp]:
  "t_id (refresh_runtime_projection now t) = t_id t"
  "t_repo (refresh_runtime_projection now t) = t_repo t"
  "t_handle (refresh_runtime_projection now t) = t_handle t"
  "t_title (refresh_runtime_projection now t) = t_title t"
  "t_branch (refresh_runtime_projection now t) = t_branch t"
  "t_base_branch (refresh_runtime_projection now t) = t_base_branch t"
  "t_worktree_path (refresh_runtime_projection now t) = t_worktree_path t"
  "t_tmux_session (refresh_runtime_projection now t) = t_tmux_session t"
  "t_task_window (refresh_runtime_projection now t) = t_task_window t"
  "t_selected_agent (refresh_runtime_projection now t) = t_selected_agent t"
  "t_lifecycle_status (refresh_runtime_projection now t) = t_lifecycle_status t"
  "t_agent_status (refresh_runtime_projection now t) = t_agent_status t"
  "t_git_status (refresh_runtime_projection now t) = t_git_status t"
  "t_tmux_status (refresh_runtime_projection now t) = t_tmux_status t"
  "t_task_window_status (refresh_runtime_projection now t) = t_task_window_status t"
  "t_live_status (refresh_runtime_projection now t) = t_live_status t"
  "t_live_status_observed_at (refresh_runtime_projection now t) = t_live_status_observed_at t"
  "t_annotations (refresh_runtime_projection now t) = t_annotations t"
  "t_created_at (refresh_runtime_projection now t) = t_created_at t"
  "t_last_activity_at (refresh_runtime_projection now t) = t_last_activity_at t"
  "t_metadata (refresh_runtime_projection now t) = t_metadata t"
  "t_agent_attempts (refresh_runtime_projection now t) = t_agent_attempts t"
  "t_attention_acknowledged_at (refresh_runtime_projection now t) = t_attention_acknowledged_at t"
  "t_side_flags (refresh_runtime_projection now t) = t_side_flags t"
  by (simp_all add: refresh_runtime_projection_def refresh_runtime_projection_from_source_def)

lemma add_side_flag_flags [simp]: "t_side_flags (add_side_flag f t) = insert f (t_side_flags t)"
  by (simp add: add_side_flag_def)

lemma remove_side_flag_flags [simp]: "t_side_flags (remove_side_flag f t) = t_side_flags t - {f}"
  by (simp add: remove_side_flag_def)

lemma set_flag_to_flags [simp]:
  "t_side_flags (set_flag_to b f t) = (if b then insert f (t_side_flags t) else t_side_flags t - {f})"
  by (simp add: set_flag_to_def)

lemma mark_resource_missing_flags [simp]:
  "t_side_flags (mark_resource_missing now f t) =
     (if flag_is_missing_substrate f then insert f (t_side_flags t) - {SfAgentRunning}
      else insert f (t_side_flags t))"
  by (simp add: mark_resource_missing_def Let_def)

lemma mark_resource_missing_agent [simp]:
  "t_agent_status (mark_resource_missing now f t) =
     (if flag_is_missing_substrate f then ArDead else t_agent_status t)"
  by (simp add: mark_resource_missing_def Let_def)

lemma clear_live_status_if_live [simp]:
  "t_live_status (clear_live_status_if k t) =
     (case t_live_status t of Some l \<Rightarrow> if lo_kind l = k then None else Some l | None \<Rightarrow> None)"
  by (simp add: clear_live_status_if_def split: option.splits)

lemma refresh_runtime_projection_health [simp]:
  "rp_health (t_runtime_projection (refresh_runtime_projection now t)) =
     runtime_health \<lparr>ob_git_status = t_git_status t, ob_tmux_status = t_tmux_status t,
       ob_task_window_status = t_task_window_status t\<rparr> (t_branch t) (skip_interactive_agent t)"
  by (simp add: refresh_runtime_projection_def refresh_runtime_projection_from_source_def
      reconcile_runtime_for_task_def projection_new_def)

lemma refresh_runtime_projection_error [simp]:
  "rp_observation_error (t_runtime_projection (refresh_runtime_projection now t)) = None"
  by (simp add: refresh_runtime_projection_def refresh_runtime_projection_from_source_def
      reconcile_runtime_for_task_def projection_new_def)

section \<open>Attempts of a dead agent are closed\<close>

definition no_open_attempt :: "Task \<Rightarrow> bool" where
  "no_open_attempt t \<longleftrightarrow> list_all (\<lambda>a. \<not> attempt_is_open a) (t_agent_attempts t)"

definition dead_agent_closed :: "Task \<Rightarrow> bool" where
  "dead_agent_closed t \<longleftrightarrow> (t_agent_status t = ArDead \<longrightarrow> no_open_attempt t)"

lemma attempt_close_closed [simp]: "\<not> attempt_is_open (attempt_close s at a)"
  by (auto simp: attempt_close_def attempt_is_open_def)

lemma close_open_attempts_closed: "no_open_attempt (close_open_attempts s at t)"
  by (auto simp: no_open_attempt_def close_open_attempts_def list_all_iff)

lemma sync_open_attempts_dead: "dead_agent_closed (sync_open_attempts at t)"
proof (cases "t_agent_status t = ArDead")
  case True
  then have "sync_open_attempts at t = close_open_attempts ArDead at t"
    by (simp add: sync_open_attempts_def)
  then show ?thesis by (simp add: dead_agent_closed_def close_open_attempts_closed)
qed (simp add: dead_agent_closed_def)

lemma dead_agent_closed_cong:
  "t_agent_status t = t_agent_status u \<Longrightarrow> t_agent_attempts t = t_agent_attempts u \<Longrightarrow>
   dead_agent_closed t = dead_agent_closed u"
  by (simp add: dead_agent_closed_def no_open_attempt_def)

lemma mark_resource_missing_dead_closed:
  assumes "dead_agent_closed t"
  shows "dead_agent_closed (mark_resource_missing now f t)"
proof (cases "flag_is_missing_substrate f")
  case True
  then show ?thesis by (simp add: mark_resource_missing_def Let_def sync_open_attempts_dead)
next
  case False
  with assms show ?thesis
    by (simp add: mark_resource_missing_def Let_def dead_agent_closed_def no_open_attempt_def)
qed

section \<open>An agent counted as running has its substrate\<close>

definition running_has_substrate :: "Task \<Rightarrow> bool" where
  "running_has_substrate t \<longleftrightarrow>
     (SfAgentRunning \<in> t_side_flags t \<longrightarrow> list_all (\<lambda>f. \<not> flag_is_missing_substrate f) (side_flags t))"

lemma running_has_substrate_iff:
  "running_has_substrate t \<longleftrightarrow>
     (SfAgentRunning \<in> t_side_flags t \<longrightarrow> (\<forall>f \<in> t_side_flags t. \<not> flag_is_missing_substrate f))"
  by (simp add: running_has_substrate_def list_all_iff)

lemma running_has_substrate_cong:
  "t_side_flags t = t_side_flags u \<Longrightarrow> running_has_substrate t = running_has_substrate u"
  by (simp add: running_has_substrate_iff)

lemma running_mark:
  "running_has_substrate t \<Longrightarrow> f \<noteq> SfAgentRunning \<Longrightarrow>
   running_has_substrate (mark_resource_missing now f t)"
  by (auto simp: running_has_substrate_iff)

lemma running_remove: "running_has_substrate t \<Longrightarrow> running_has_substrate (remove_side_flag f t)"
  by (auto simp: running_has_substrate_iff)

lemma running_set_flag:
  "running_has_substrate t \<Longrightarrow> \<not> flag_is_missing_substrate f \<Longrightarrow> f \<noteq> SfAgentRunning \<Longrightarrow>
   running_has_substrate (set_flag_to b f t)"
  by (auto simp: running_has_substrate_iff)

section \<open>Git evidence\<close>

lemma adopt_moved_branch_frame:
  assumes "adopt_moved_branch s t = (t', s')"
  shows "t' = t\<lparr>t_branch := t_branch t'\<rparr>" "gs_worktree_exists s' = gs_worktree_exists s"
    "gs_dirty s' = gs_dirty s" "gs_untracked_files s' = gs_untracked_files s"
    "gs_conflicted s' = gs_conflicted s" "has_unpushed_work s' = has_unpushed_work s"
    "gs_current_branch s' = gs_current_branch s"
  using assms
  by (auto simp: adopt_moved_branch_def has_unpushed_work_def split: option.splits if_splits)

lemma adopt_moved_branch_fields:
  assumes "adopt_moved_branch s t = (t', s')"
  shows "t_side_flags t' = t_side_flags t" "t_agent_status t' = t_agent_status t"
    "t_agent_attempts t' = t_agent_attempts t" "t_metadata t' = t_metadata t"
    "t_live_status t' = t_live_status t" "t_lifecycle_status t' = t_lifecycle_status t"
    "t_id t' = t_id t" "t_base_branch t' = t_base_branch t"
  using assms by (auto simp: adopt_moved_branch_def split: option.splits if_splits)

end
