(* ===== verification/Github.thy ===== *)
theory Github
  imports Ajax_Prelude
begin

text \<open>
  External commands and the \<open>gh\<close> adapter: \<open>crates/ajax-core/src/adapters/command.rs\<close> and
  \<open>adapters/github.rs\<close>, with the pull request types of \<open>diff_review.rs\<close> and the failed check of
  \<open>agent_notification.rs\<close> that they use. A command runner is a state-passing function. The JSON
  parser (serde) is a parameter: a function from the text to the rows it holds, None (or an error
  message) when the text does not parse.
\<close>

section \<open>Commands\<close>

datatype CommandMode = CmCapture | CmInheritStdio

record CommandSpec =
  cs_program :: string
  cs_args :: "string list"
  cs_cwd :: "string option"
  cs_mode :: CommandMode
  cs_timeout :: "duration option"

definition command_new :: "string \<Rightarrow> string list \<Rightarrow> CommandSpec" where
  "command_new program args =
     \<lparr>cs_program = program, cs_args = args, cs_cwd = None, cs_mode = CmCapture, cs_timeout = None\<rparr>"

definition with_timeout :: "duration \<Rightarrow> CommandSpec \<Rightarrow> CommandSpec" where
  "with_timeout d c = c\<lparr>cs_timeout := Some d\<rparr>"

definition with_cwd :: "string \<Rightarrow> CommandSpec \<Rightarrow> CommandSpec" where
  "with_cwd p c = c\<lparr>cs_cwd := Some p\<rparr>"

definition with_mode :: "CommandMode \<Rightarrow> CommandSpec \<Rightarrow> CommandSpec" where
  "with_mode m c = c\<lparr>cs_mode := m\<rparr>"

record CommandOutput =
  co_status_code :: int
  co_stdout :: string
  co_stderr :: string

datatype CommandRunError =
    CeSpawnFailed string
  | CeTimedOut string duration
  | CeMissingStatusCode
  | CeNonZeroExit string int string "string option"

fun show_run_error :: "CommandRunError \<Rightarrow> string" where
  "show_run_error (CeSpawnFailed message) = ''failed to start command: '' @ message"
| "show_run_error (CeTimedOut program timeout) =
     program @ '' timed out after '' @ show_nat (timeout div 1000000000) @ ''s''"
| "show_run_error CeMissingStatusCode = ''command exited without a status code''"
| "show_run_error (CeNonZeroExit program code stderr cwd) =
     program @ '' exited with status '' @ show_int code
     @ (case cwd of Some d \<Rightarrow> '' in '' @ d | None \<Rightarrow> '''')
     @ (if trim stderr = [] then '''' else '': '' @ trim stderr)"

type_synonym command_result = "CommandRunError + CommandOutput"

type_synonym 'r runner = "'r \<Rightarrow> CommandSpec \<Rightarrow> command_result \<times> 'r"

section \<open>Pull requests and checks\<close>

datatype PullRequestState = PrOpen | PrMerged | PrClosed

record PullRequestRef =
  pr_number :: nat
  pr_title :: string
  pr_url :: string
  pr_state :: PullRequestState
  pr_head_ref :: string
  pr_head_sha :: "string option"

record CiFailedCheck =
  fc_name :: string
  fc_link :: "string option"
  fc_identity :: "string option"

text \<open>The derived order of \<open>CiFailedCheck\<close>: field by field.\<close>

definition failed_check_key :: "CiFailedCheck \<Rightarrow> string \<times> string option \<times> string option" where
  "failed_check_key c = (fc_name c, fc_link c, fc_identity c)"

datatype PrMergeability = MgMergeable | MgConflicting | MgUnknown

datatype CiChecksObservation =
    CoFailed string
  | CoHealthy
  | CoPending
  | CoUnobservable string

datatype CiChecksState = CcFailed | CcHealthy | CcPending | CcUnobservable

record CiChecksReport =
  cr_state :: CiChecksState
  cr_failed_checks :: "CiFailedCheck list"
  cr_check_identities :: "string list"
  cr_has_pending :: bool
  cr_error :: "string option"

section \<open>Command lines\<close>

definition GH_PR_CHECKS_TIMEOUT :: duration where
  "GH_PR_CHECKS_TIMEOUT = secs 30"

definition GH_PR_MERGE_TIMEOUT :: duration where
  "GH_PR_MERGE_TIMEOUT = secs 120"

definition pr_checks_for_pr :: "string \<Rightarrow> string \<Rightarrow> nat \<Rightarrow> CommandSpec" where
  "pr_checks_for_pr program worktree number =
     with_timeout GH_PR_CHECKS_TIMEOUT (with_cwd worktree
       (command_new program [''pr'', ''checks'', show_nat number, ''--json'', ''name,state,link'']))"

definition pr_list :: "string \<Rightarrow> string \<Rightarrow> string \<Rightarrow> CommandSpec" where
  "pr_list program worktree branch =
     with_timeout GH_PR_CHECKS_TIMEOUT (with_cwd worktree
       (command_new program
          [''pr'', ''list'', ''--state'', ''all'', ''--head'', branch, ''--json'',
           ''number,title,url,state,headRefName,headRefOid'']))"

definition pr_mergeable :: "string \<Rightarrow> string \<Rightarrow> nat \<Rightarrow> CommandSpec" where
  "pr_mergeable program worktree number =
     with_timeout GH_PR_CHECKS_TIMEOUT (with_cwd worktree
       (command_new program [''pr'', ''view'', show_nat number, ''--json'', ''mergeable'']))"

definition pr_diff :: "string \<Rightarrow> string \<Rightarrow> nat \<Rightarrow> CommandSpec" where
  "pr_diff program worktree number =
     with_timeout GH_PR_CHECKS_TIMEOUT (with_cwd worktree
       (command_new program [''pr'', ''diff'', show_nat number]))"

definition pr_merge :: "string \<Rightarrow> string \<Rightarrow> nat \<Rightarrow> CommandSpec" where
  "pr_merge program worktree number =
     with_timeout GH_PR_MERGE_TIMEOUT (with_cwd worktree
       (command_new program [''pr'', ''merge'', show_nat number, ''--squash'']))"

definition local_diff :: "string \<Rightarrow> string \<Rightarrow> CommandSpec" where
  "local_diff worktree base_branch =
     with_timeout GH_PR_CHECKS_TIMEOUT (with_cwd worktree
       (command_new ''git'' [''diff'', ''origin/'' @ base_branch @ ''...HEAD'']))"

section \<open>Reading the list of pull requests\<close>

record PrListRow =
  lr_number :: nat
  lr_title :: string
  lr_url :: string
  lr_state :: string
  lr_head_ref :: string
  lr_head_sha :: "string option"

definition map_pr_row :: "PrListRow \<Rightarrow> PullRequestRef" where
  "map_pr_row row =
     \<lparr>pr_number = lr_number row, pr_title = lr_title row, pr_url = lr_url row,
      pr_state = (if to_ascii_uppercase (lr_state row) = ''OPEN'' then PrOpen
                  else if to_ascii_uppercase (lr_state row) = ''MERGED'' then PrMerged
                  else PrClosed),
      pr_head_ref = lr_head_ref row, pr_head_sha = lr_head_sha row\<rparr>"

definition parse_pr_list ::
    "(string \<Rightarrow> string + PrListRow list) \<Rightarrow> command_result \<Rightarrow> string + PullRequestRef list" where
  "parse_pr_list decode result =
     (case result of
        Inl e \<Rightarrow> Inl (show_run_error e)
      | Inr out \<Rightarrow>
          if co_status_code out \<noteq> 0
          then Inl (if co_stderr out = []
                    then ''gh pr list failed with status '' @ show_int (co_status_code out)
                    else co_stderr out)
          else (case decode (co_stdout out) of
                  Inl e \<Rightarrow> Inl (''unparsable gh pr list output: '' @ e)
                | Inr rows \<Rightarrow> Inr (map map_pr_row rows)))"

definition parse_pr_mergeable :: "(string \<Rightarrow> string option) \<Rightarrow> command_result \<Rightarrow> PrMergeability" where
  "parse_pr_mergeable decode result =
     (case result of
        Inl _ \<Rightarrow> MgUnknown
      | Inr out \<Rightarrow>
          if co_status_code out \<noteq> 0 then MgUnknown
          else (case map_option to_ascii_uppercase (decode (co_stdout out)) of
                  None \<Rightarrow> MgUnknown
                | Some m \<Rightarrow> if m = ''MERGEABLE'' then MgMergeable
                            else if m = ''CONFLICTING'' then MgConflicting else MgUnknown))"

section \<open>Reading the checks of a pull request\<close>

record CheckRow =
  ck_name :: string
  ck_state :: string
  ck_link :: "string option"

definition is_failure_state :: "string \<Rightarrow> bool" where
  "is_failure_state s \<longleftrightarrow>
     to_ascii_uppercase s \<in> {''FAILURE'', ''CANCELLED'', ''TIMED_OUT'', ''ERROR'', ''STARTUP_FAILURE''}"

definition is_healthy_state :: "string \<Rightarrow> bool" where
  "is_healthy_state s \<longleftrightarrow> to_ascii_uppercase s \<in> {''SUCCESS'', ''SKIPPED'', ''NEUTRAL''}"

definition is_pending_state :: "string \<Rightarrow> bool" where
  "is_pending_state s \<longleftrightarrow>
     to_ascii_uppercase s \<in> {''PENDING'', ''QUEUED'', ''IN_PROGRESS'', ''WAITING''}"

definition check_identity :: "string \<Rightarrow> string option" where
  "check_identity link =
     (case split_once link ''/runs/'' of
        None \<Rightarrow> None
      | Some (_, suf) \<Rightarrow>
          let ident = trim (hd (split_on (CHR ''/'') suf)) in
          if ident = [] then None
          else
            let job = (case split_once suf ''/job/'' of
                         None \<Rightarrow> None
                       | Some (_, j) \<Rightarrow>
                           let j' = hd (split_on (CHR ''/'') j) in if j' = [] then None else Some j')
            in Some (case job of
                       Some j \<Rightarrow> ''run:'' @ ident @ ''/job:'' @ j
                     | None \<Rightarrow> ''run:'' @ ident))"

definition unobservable_report :: "string \<Rightarrow> CiChecksReport" where
  "unobservable_report reason =
     \<lparr>cr_state = CcUnobservable, cr_failed_checks = [], cr_check_identities = [],
      cr_has_pending = False, cr_error = Some reason\<rparr>"

definition finish_report ::
    "CheckRow list \<Rightarrow> CiFailedCheck list \<Rightarrow> string list \<Rightarrow> CiChecksReport" where
  "finish_report rows failed identities =
     (let has_pending = list_ex (\<lambda>r. is_pending_state (ck_state r)) rows
            \<or> list_ex (\<lambda>r. \<not> is_failure_state (ck_state r) \<and> \<not> is_pending_state (ck_state r)
                           \<and> \<not> is_healthy_state (ck_state r)) rows
      in \<lparr>cr_state = (if failed \<noteq> [] then CcFailed else if has_pending then CcPending else CcHealthy),
          cr_failed_checks = failed, cr_check_identities = identities,
          cr_has_pending = has_pending, cr_error = None\<rparr>)"

definition failed_check_of :: "CheckRow \<Rightarrow> CiFailedCheck" where
  "failed_check_of r =
     \<lparr>fc_name = ck_name r,
      fc_link = (case ck_link r of Some l \<Rightarrow> if trim l = [] then None else Some l | None \<Rightarrow> None),
      fc_identity = Option.bind (ck_link r) check_identity\<rparr>"

definition classify_report_rows :: "CheckRow list \<Rightarrow> CiChecksReport" where
  "classify_report_rows rows =
     (let failed = sort_key failed_check_key
                     (map failed_check_of (filter (\<lambda>r. is_failure_state (ck_state r)) rows));
          identities = remdups_adj (sort
                     (List.map_filter (\<lambda>r. Option.bind (ck_link r) check_identity) rows))
      in finish_report rows failed identities)"

definition classify_stderr :: "string \<Rightarrow> CiChecksObservation" where
  "classify_stderr stderr =
     (let trimmed = trim stderr in
      if trimmed = [] then CoUnobservable ''unparsable gh pr checks output''
      else CoUnobservable
             (if contains_str trimmed ''no pull requests found''
              then ''no pull request for branch: '' @ trimmed else trimmed))"

text \<open>The arm that the code marks unreachable cannot be taken: \<open>classify_stderr\<close> has one constructor.\<close>

definition parse_report_stdout_or_stderr ::
    "(string \<Rightarrow> CheckRow list option) \<Rightarrow> CommandOutput \<Rightarrow> CiChecksReport" where
  "parse_report_stdout_or_stderr decode out =
     (case decode (co_stdout out) of
        Some rows \<Rightarrow>
          if rows \<noteq> [] then classify_report_rows rows
          else unobservable_report ''no checks reported for pull request''
      | None \<Rightarrow>
          (case classify_stderr (co_stderr out) of
             CoUnobservable reason \<Rightarrow> unobservable_report reason
           | _ \<Rightarrow> undefined))"

definition parse_pr_checks_report ::
    "(string \<Rightarrow> CheckRow list option) \<Rightarrow> command_result \<Rightarrow> CiChecksReport" where
  "parse_pr_checks_report decode result =
     (case result of
        Inl e \<Rightarrow> unobservable_report (show_run_error e)
      | Inr out \<Rightarrow> parse_report_stdout_or_stderr decode out)"

definition observation_from_report :: "CiChecksReport \<Rightarrow> CiChecksObservation" where
  "observation_from_report report =
     (case cr_state report of
        CcFailed \<Rightarrow> CoFailed (case cr_failed_checks report of
                                c # _ \<Rightarrow> fc_name c | [] \<Rightarrow> ''unknown check'')
      | CcHealthy \<Rightarrow> CoHealthy
      | CcPending \<Rightarrow> CoPending
      | CcUnobservable \<Rightarrow> CoUnobservable
          (case cr_error report of Some e \<Rightarrow> e | None \<Rightarrow> ''CI checks unobservable''))"

definition parse_pr_checks ::
    "(string \<Rightarrow> CheckRow list option) \<Rightarrow> command_result \<Rightarrow> CiChecksObservation" where
  "parse_pr_checks decode result = observation_from_report (parse_pr_checks_report decode result)"

section \<open>Lemmas\<close>

lemma failure_not_pending: "is_failure_state s \<Longrightarrow> \<not> is_pending_state s"
  by (auto simp: is_failure_state_def is_pending_state_def)

lemma failure_not_healthy: "is_failure_state s \<Longrightarrow> \<not> is_healthy_state s"
  by (auto simp: is_failure_state_def is_healthy_state_def)

lemma pending_not_healthy: "is_pending_state s \<Longrightarrow> \<not> is_healthy_state s"
  by (auto simp: is_pending_state_def is_healthy_state_def)

lemma classify_stderr_unobservable: "\<exists>reason. classify_stderr s = CoUnobservable reason"
  by (simp add: classify_stderr_def Let_def)

lemma report_of_rows:
  "cr_state (classify_report_rows rows) =
     (if \<exists>r \<in> set rows. is_failure_state (ck_state r) then CcFailed
      else if list_all (\<lambda>r. is_healthy_state (ck_state r)) rows then CcHealthy else CcPending)"
  "cr_failed_checks (classify_report_rows rows) =
     sort_key failed_check_key
       (map failed_check_of (filter (\<lambda>r. is_failure_state (ck_state r)) rows))"
  "cr_error (classify_report_rows rows) = None"
  by (auto simp: classify_report_rows_def finish_report_def Let_def list_ex_iff list_all_iff
      filter_empty_conv dest: failure_not_pending failure_not_healthy pending_not_healthy
      simp flip: set_empty)

lemma unobservable_report_simps [simp]:
  "cr_state (unobservable_report r) = CcUnobservable"
  "cr_failed_checks (unobservable_report r) = []"
  "cr_error (unobservable_report r) = Some r"
  by (simp_all add: unobservable_report_def)

section \<open>Properties\<close>

text \<open>What a checks report means. The report is unobservable exactly when the command failed, its
  output does not parse, or it lists no checks; it is healthy exactly when there is a check and every
  check succeeded, was skipped or is neutral (so an unknown state never counts as success); it is
  failed exactly when some check failed, and then it names every failed check and nothing else.\<close>

theorem checks_report_meaning:
  "(cr_state (parse_pr_checks_report decode result) = CcHealthy \<longleftrightarrow>
      (\<exists>out rows. result = Inr out \<and> decode (co_stdout out) = Some rows \<and> rows \<noteq> []
         \<and> list_all (\<lambda>r. is_healthy_state (ck_state r)) rows))
   \<and> (cr_state (parse_pr_checks_report decode result) = CcFailed \<longleftrightarrow>
      (\<exists>out rows. result = Inr out \<and> decode (co_stdout out) = Some rows
         \<and> (\<exists>r \<in> set rows. is_failure_state (ck_state r))
         \<and> mset (cr_failed_checks (parse_pr_checks_report decode result)) =
             mset (map failed_check_of (filter (\<lambda>r. is_failure_state (ck_state r)) rows))))
   \<and> (cr_state (parse_pr_checks_report decode result) = CcUnobservable \<longleftrightarrow>
      cr_error (parse_pr_checks_report decode result) \<noteq> None)"
proof (cases result)
  case (Inl e)
  then show ?thesis by (simp add: parse_pr_checks_report_def)
next
  case (Inr out)
  show ?thesis
  proof (cases "decode (co_stdout out)")
    case None
    with Inr classify_stderr_unobservable [of "co_stderr out"] show ?thesis
      by (auto simp: parse_pr_checks_report_def parse_report_stdout_or_stderr_def)
  next
    case (Some rows)
    have "\<exists>r \<in> set rows. is_failure_state (ck_state r) \<Longrightarrow>
        \<not> list_all (\<lambda>r. is_healthy_state (ck_state r)) rows"
      using failure_not_healthy by (auto simp: list_all_iff)
    with Inr Some show ?thesis
      by (auto simp: parse_pr_checks_report_def parse_report_stdout_or_stderr_def report_of_rows)
  qed
qed

end
