(* ===== verification/Diff_Review.thy ===== *)
theory Diff_Review
  imports Task_Model Github
begin

text \<open>
  Reviewing a task's changes: \<open>crates/ajax-core/src/diff_review.rs\<close>. The unified diff parser, the
  judgment of a diff (totals, flags, reading order), the stored list of pull requests and the choice of
  the diff that is shown. Line counters are natural numbers (u32 in the code; a diff of four billion
  lines is not considered). The JSON of the stored list is read and written by parameters.
\<close>

section \<open>Data\<close>

record DiffHunk =
  dh_header :: string
  dh_lines :: "string list"

datatype DiffFileRole = RoleSignal | RoleNoise

record DiffFile =
  df_path :: string
  df_status :: string
  df_additions :: nat
  df_deletions :: nat
  df_role :: DiffFileRole
  df_hunks :: "DiffHunk list"

record DiffTotals =
  dt_files :: nat
  dt_signal :: nat
  dt_noise :: nat
  dt_additions :: nat
  dt_deletions :: nat

datatype DiffFlagKind =
    FkUnexpectedPath | FkDeletedTest | FkSecretPattern | FkPermissionWiden | FkDependencyManifest
  | FkDeletedCheckPath

datatype DiffFlagSeverity = FsInfo | FsWarn | FsCritical

fun flag_severity_rank :: "DiffFlagSeverity \<Rightarrow> nat" where
  "flag_severity_rank FsInfo = 0"
| "flag_severity_rank FsWarn = 1"
| "flag_severity_rank FsCritical = 2"

record DiffFlag =
  fl_kind :: DiffFlagKind
  fl_severity :: DiffFlagSeverity
  fl_path :: string

record DiffJudgment =
  dj_totals :: DiffTotals
  dj_reading_order :: "string list"
  dj_flags :: "DiffFlag list"

section \<open>Classifying paths and lines\<close>

definition basename :: "string \<Rightarrow> string" where
  "basename path = last (split_on (CHR ''/'') path)"

definition classify_diff_path :: "string \<Rightarrow> DiffFileRole" where
  "classify_diff_path path =
     (let base = basename path in
      if base \<in> {''Cargo.lock'', ''package-lock.json'', ''yarn.lock'', ''pnpm-lock.yaml''} then RoleNoise
      else if ends_with base ''.lock'' then RoleNoise
      else if ends_with base ''.min.js'' \<or> ends_with base ''.map'' then RoleNoise
      else if list_ex (contains_str path) [''/dist/'', ''/target/'', ''/.next/''] then RoleNoise
      else if starts_with path ''dist/'' \<or> starts_with path ''target/'' \<or> starts_with path ''.next/''
      then RoleNoise
      else RoleSignal)"

definition EXPECTED_PATH_PREFIXES :: "string list" where
  "EXPECTED_PATH_PREFIXES = [''crates/'', ''scripts/'', ''.github/'', ''docs/'', ''.planning/'', ''web/'']"

definition path_is_expected :: "string \<Rightarrow> bool" where
  "path_is_expected path = list_ex (starts_with path) EXPECTED_PATH_PREFIXES"

definition is_test_path :: "string \<Rightarrow> bool" where
  "is_test_path path \<longleftrightarrow>
     ends_with (basename path) ''_test.rs'' \<or> contains_str path ''.test.''
     \<or> contains_str path ''.spec.'' \<or> contains_str path ''/tests/'' \<or> starts_with path ''tests/''"

definition is_deleted_check_path :: "string \<Rightarrow> bool" where
  "is_deleted_check_path path \<longleftrightarrow>
     starts_with path ''.github/workflows/''
     \<or> starts_with path ''scripts/'' \<and> contains_str (basename path) ''verify''"

definition is_dependency_manifest :: "string \<Rightarrow> bool" where
  "is_dependency_manifest path \<longleftrightarrow>
     basename path \<in> {''Cargo.toml'', ''package.json'', ''Cargo.lock''}"

definition secret_severity :: "string \<Rightarrow> DiffFlagSeverity option" where
  "secret_severity line =
     (if contains_str line ''-----BEGIN'' \<or> contains_str line ''ghp_'' \<or> contains_str line ''AKIA''
      then Some FsCritical
      else if contains_str line ''sk-'' \<or> contains_str (to_ascii_lowercase line) ''api_key=''
      then Some FsWarn
      else None)"

definition is_added_hunk_line :: "string \<Rightarrow> bool" where
  "is_added_hunk_line line \<longleftrightarrow> starts_with line ''+'' \<and> \<not> starts_with line ''+++''"

definition max_severity :: "DiffFlagSeverity \<Rightarrow> DiffFlagSeverity \<Rightarrow> DiffFlagSeverity" where
  "max_severity a b = (if flag_severity_rank b < flag_severity_rank a then a else b)"

definition scan_line :: "string \<Rightarrow> DiffFlagSeverity option \<times> bool \<Rightarrow> DiffFlagSeverity option \<times> bool" where
  "scan_line line acc =
     (case acc of (secret, widen) \<Rightarrow>
        if \<not> is_added_hunk_line line then (secret, widen)
        else ((case secret_severity line of
                 Some sev \<Rightarrow> Some (case secret of Some old \<Rightarrow> max_severity old sev | None \<Rightarrow> sev)
               | None \<Rightarrow> secret),
              widen \<or> contains_str line ''chmod 777'' \<or> contains_str line ''0o777''))"

definition scan_added_lines :: "DiffFile \<Rightarrow> DiffFlagSeverity option \<times> bool" where
  "scan_added_lines f = fold scan_line (concat (map dh_lines (df_hunks f))) (None, False)"

section \<open>Judging a diff\<close>

definition flag_of :: "DiffFlagKind \<Rightarrow> DiffFlagSeverity \<Rightarrow> string \<Rightarrow> DiffFlag" where
  "flag_of k s p = \<lparr>fl_kind = k, fl_severity = s, fl_path = p\<rparr>"

definition flags_of_file :: "DiffFile \<Rightarrow> DiffFlag list" where
  "flags_of_file f =
     (let (secret, widen) = scan_added_lines f in
      (if is_dependency_manifest (df_path f) then [flag_of FkDependencyManifest FsInfo (df_path f)] else [])
      @ (if df_status f = ''deleted'' \<and> is_test_path (df_path f)
         then [flag_of FkDeletedTest FsWarn (df_path f)] else [])
      @ (if df_status f = ''deleted'' \<and> is_deleted_check_path (df_path f)
         then [flag_of FkDeletedCheckPath FsWarn (df_path f)] else [])
      @ (case secret of Some sev \<Rightarrow> [flag_of FkSecretPattern sev (df_path f)] | None \<Rightarrow> [])
      @ (if widen then [flag_of FkPermissionWiden FsWarn (df_path f)] else [])
      @ (if df_role f = RoleSignal \<and> \<not> path_is_expected (df_path f)
         then [flag_of FkUnexpectedPath FsInfo (df_path f)] else []))"

definition churn_key :: "DiffFile \<Rightarrow> int \<times> string" where
  "churn_key f = (- int (df_additions f + df_deletions f), df_path f)"

definition assess_diff_judgment :: "DiffFile list \<Rightarrow> DiffJudgment" where
  "assess_diff_judgment files =
     \<lparr>dj_totals =
        \<lparr>dt_files = length files,
         dt_signal = length (filter (\<lambda>f. df_role f = RoleSignal) files),
         dt_noise = length (filter (\<lambda>f. df_role f = RoleNoise) files),
         dt_additions = sum_list (map df_additions files),
         dt_deletions = sum_list (map df_deletions files)\<rparr>,
      dj_reading_order =
        map df_path (sort_key churn_key (filter (\<lambda>f. df_role f = RoleSignal) files)),
      dj_flags = concat (map flags_of_file files)\<rparr>"

section \<open>Parsing a unified diff\<close>

text \<open>\<open>str::match_indices\<close>: the offsets of the non-overlapping occurrences of a pattern.\<close>

fun match_indices :: "nat \<Rightarrow> nat \<Rightarrow> string \<Rightarrow> string \<Rightarrow> nat list" where
  "match_indices skip i pat [] = []"
| "match_indices (Suc k) i pat (c # s) = match_indices k (Suc i) pat s"
| "match_indices 0 i pat (c # s) =
     (if prefix pat (c # s) then i # match_indices (length pat - 1) (Suc i) pat s
      else match_indices 0 (Suc i) pat s)"

definition extract_path :: "string \<Rightarrow> string option" where
  "extract_path path_line =
     (let parts = split_whitespace path_line in
      if length parts < 2 then None
      else let path = parts ! 1 in
           Some (case strip_prefix path ''b/'' of Some p \<Rightarrow> p | None \<Rightarrow> path))"

definition is_hunk_header :: "string \<Rightarrow> bool" where
  "is_hunk_header l = starts_with l ''@@ ''"

definition ends_hunk :: "string \<Rightarrow> bool" where
  "ends_hunk l \<longleftrightarrow> starts_with l ''@@ '' \<or> starts_with l ''diff --git ''"

definition is_added_line :: "string \<Rightarrow> bool" where
  "is_added_line l \<longleftrightarrow> starts_with l ''+'' \<and> \<not> starts_with l ''+++''"

definition is_deleted_line :: "string \<Rightarrow> bool" where
  "is_deleted_line l \<longleftrightarrow> starts_with l ''-'' \<and> \<not> starts_with l ''---''"

definition is_hunk_line :: "string \<Rightarrow> bool" where
  "is_hunk_line l \<longleftrightarrow> is_added_line l \<or> is_deleted_line l \<or> starts_with l '' ''"

declare length_dropWhile_le [termination_simp]

text \<open>The index loop of \<open>parse_diff_section\<close>: hunks, added lines and deleted lines of the rest.\<close>

fun parse_hunks :: "string list \<Rightarrow> DiffHunk list \<times> nat \<times> nat" where
  "parse_hunks [] = ([], 0, 0)"
| "parse_hunks (l # ls) =
     (if is_hunk_header l then
        let body = takeWhile (\<lambda>x. \<not> ends_hunk x) ls;
            (hunks, adds, dels) = parse_hunks (dropWhile (\<lambda>x. \<not> ends_hunk x) ls)
        in (\<lparr>dh_header = l, dh_lines = filter is_hunk_line body\<rparr> # hunks,
            length (filter is_added_line body) + adds,
            length (filter is_deleted_line body) + dels)
      else parse_hunks ls)"

definition section_status :: "string \<Rightarrow> string" where
  "section_status body =
     (if contains_str body ''new file mode'' then ''added''
      else if contains_str body ''deleted file mode'' then ''deleted''
      else if contains_str body ''rename from'' then ''renamed''
      else ''modified'')"

definition parse_diff_section :: "string \<Rightarrow> DiffFile option" where
  "parse_diff_section sect =
     (case str_lines sect of
        [] \<Rightarrow> None
      | first # rest \<Rightarrow>
          let path_line = (case strip_prefix first ''diff --git '' of Some p \<Rightarrow> p | None \<Rightarrow> first) in
          (case extract_path path_line of
             None \<Rightarrow> None
           | Some path \<Rightarrow>
               let body = join [newline] rest;
                   status = section_status body;
                   (hunks, adds, dels) = parse_hunks rest
               in Some \<lparr>df_path = path, df_status = status, df_additions = adds,
                        df_deletions = dels, df_role = classify_diff_path path, df_hunks = hunks\<rparr>))"

definition section_starts :: "string \<Rightarrow> nat list" where
  "section_starts s =
     (if starts_with s ''diff --git '' then [0] else [])
     @ map Suc (match_indices 0 0 (newline # ''diff --git '') s)"

fun sections_of :: "string \<Rightarrow> nat list \<Rightarrow> string list" where
  "sections_of s [] = []"
| "sections_of s [a] = [drop a s]"
| "sections_of s (a # b # rest) = take (b - a) (drop a s) # sections_of s (b # rest)"

definition parse_unified_diff :: "string \<Rightarrow> DiffFile list" where
  "parse_unified_diff patch =
     (let trimmed = trim patch in
      if trimmed = [] then []
      else List.map_filter parse_diff_section (sections_of trimmed (section_starts trimmed)))"

section \<open>Stored pull requests\<close>

definition AJAX_PULL_REQUESTS_KEY :: string where
  "AJAX_PULL_REQUESTS_KEY = ''ajax_pull_requests''"

definition stored_pull_requests ::
    "(string \<Rightarrow> PullRequestRef list option) \<Rightarrow> Task \<Rightarrow> PullRequestRef list" where
  "stored_pull_requests decode t =
     (case Option.bind (t_metadata t AJAX_PULL_REQUESTS_KEY) decode of Some prs \<Rightarrow> prs | None \<Rightarrow> [])"

text \<open>The \<open>HashMap\<close> by number, whose values come in some order; the numbers are distinct, so the
  sort makes that order irrelevant.\<close>

definition merge_key :: "PullRequestRef \<Rightarrow> nat \<times> int" where
  "merge_key p = (if pr_state p = PrOpen then 0 else 1, - int (pr_number p))"

definition merge_pull_request_lists ::
    "PullRequestRef list \<Rightarrow> PullRequestRef list \<Rightarrow> PullRequestRef list" where
  "merge_pull_request_lists stored live =
     sort_key merge_key
       (bt_values (fold (\<lambda>p m. bt_insert (pr_number p) p m) (stored @ live) []))"

definition remember_pull_requests ::
    "(string \<Rightarrow> PullRequestRef list option) \<Rightarrow> (PullRequestRef list \<Rightarrow> string option) \<Rightarrow>
     PullRequestRef list \<Rightarrow> Task \<Rightarrow> Task" where
  "remember_pull_requests decode encode refs t =
     (case encode (merge_pull_request_lists (stored_pull_requests decode t) refs) of
        Some json \<Rightarrow> t\<lparr>t_metadata := (t_metadata t)(AJAX_PULL_REQUESTS_KEY \<mapsto> json)\<rparr>
      | None \<Rightarrow> t)"

definition select_default_pr :: "PullRequestRef list \<Rightarrow> PullRequestRef option" where
  "select_default_pr prs =
     (let open_prs = filter (\<lambda>p. pr_state p = PrOpen) prs in
      if open_prs \<noteq> [] then max_by_key pr_number open_prs else max_by_key pr_number prs)"

section \<open>Observing and projecting\<close>

datatype DiffSource = DsPr nat | DsLocal

record TaskDiffProjection =
  tp_source :: DiffSource
  tp_files :: "DiffFile list"
  tp_pr :: "PullRequestRef option"
  tp_fell_back_from_pr :: "nat option"
  tp_judgment :: DiffJudgment

datatype DiffReviewError = DeTaskNotFound | DeUnobservable string | DePrNotFound nat

definition observe_task_pull_requests ::
    "(string \<Rightarrow> PullRequestRef list option) \<Rightarrow> (PullRequestRef list \<Rightarrow> string option) \<Rightarrow>
     (string \<Rightarrow> string + PrListRow list) \<Rightarrow> string \<Rightarrow> 'r runner \<Rightarrow> Task \<Rightarrow> 'r \<Rightarrow>
     PullRequestRef list \<times> Task \<times> 'r" where
  "observe_task_pull_requests decode encode decode_rows program exec t r =
     (let (result, r') = exec r (pr_list program (t_worktree_path t) (pr_head_branch t)) in
      case parse_pr_list decode_rows result of
        Inl _ \<Rightarrow> (stored_pull_requests decode t, t, r')
      | Inr live \<Rightarrow>
          let t' = remember_pull_requests decode encode live t
          in (stored_pull_requests decode t', t', r'))"

definition project_local_diff :: "'r runner \<Rightarrow> Task \<Rightarrow> 'r \<Rightarrow> (DiffReviewError + TaskDiffProjection) \<times> 'r" where
  "project_local_diff exec t r =
     (let (result, r') = exec r (local_diff (t_worktree_path t) (t_base_branch t)) in
      (case result of
         Inl e \<Rightarrow> Inl (DeUnobservable (show_run_error e))
       | Inr out \<Rightarrow>
           if co_status_code out \<noteq> 0
           then Inl (DeUnobservable
                  (if co_stderr out = []
                   then ''git diff failed with status '' @ show_int (co_status_code out)
                   else co_stderr out))
           else
             let files = parse_unified_diff (co_stdout out) in
             Inr \<lparr>tp_source = DsLocal, tp_files = files, tp_pr = None, tp_fell_back_from_pr = None,
                  tp_judgment = assess_diff_judgment files\<rparr>, r'))"

definition local_diff_with_pr_fallback ::
    "'r runner \<Rightarrow> Task \<Rightarrow> nat \<Rightarrow> 'r \<Rightarrow> (DiffReviewError + TaskDiffProjection) \<times> 'r" where
  "local_diff_with_pr_fallback exec t number r =
     (let (result, r') = project_local_diff exec t r in
      (case result of
         Inl e \<Rightarrow> Inl e
       | Inr p \<Rightarrow> Inr (p\<lparr>tp_fell_back_from_pr := Some number\<rparr>), r'))"

definition placeholder_pr :: "Task \<Rightarrow> nat \<Rightarrow> PullRequestRef" where
  "placeholder_pr t number =
     \<lparr>pr_number = number, pr_title = ''#'' @ show_nat number, pr_url = [], pr_state = PrOpen,
      pr_head_ref = pr_head_branch t, pr_head_sha = None\<rparr>"

definition project_pr_diff ::
    "string \<Rightarrow> 'r runner \<Rightarrow> Task \<Rightarrow> PullRequestRef list \<Rightarrow> nat \<Rightarrow> 'r \<Rightarrow>
     (DiffReviewError + TaskDiffProjection) \<times> 'r" where
  "project_pr_diff program exec t prs number r =
     (let pr = (case find (\<lambda>p. pr_number p = number) prs of
                  Some p \<Rightarrow> Some p | None \<Rightarrow> Some (placeholder_pr t number));
          (result, r') = exec r (pr_diff program (t_worktree_path t) number)
      in case result of
           Inl e \<Rightarrow>
             if contains_str (show_run_error e) ''could not find'' then (Inl (DePrNotFound number), r')
             else local_diff_with_pr_fallback exec t number r'
         | Inr out \<Rightarrow>
             if co_status_code out \<noteq> 0 then
               let stderr = to_ascii_lowercase (co_stderr out) in
               if contains_str stderr ''could not find'' \<or> contains_str stderr ''no pull requests''
               then (Inl (DePrNotFound number), r')
               else local_diff_with_pr_fallback exec t number r'
             else
               let files = parse_unified_diff (co_stdout out) in
               (Inr \<lparr>tp_source = DsPr number, tp_files = files, tp_pr = pr,
                     tp_fell_back_from_pr = None, tp_judgment = assess_diff_judgment files\<rparr>, r'))"

text \<open>\<open>force_local\<close> is false in every branch after the first test, where the code checks it again.\<close>

definition project_task_diff ::
    "(string \<Rightarrow> PullRequestRef list option) \<Rightarrow> string \<Rightarrow> 'r runner \<Rightarrow> Task \<Rightarrow> nat option \<Rightarrow> bool \<Rightarrow> 'r \<Rightarrow>
     (DiffReviewError + TaskDiffProjection) \<times> 'r" where
  "project_task_diff decode program exec t wanted force_local r =
     (let prs = stored_pull_requests decode t in
      if force_local \<or> (wanted = None \<and> prs = []) then project_local_diff exec t r
      else
        (case (case wanted of Some n \<Rightarrow> Some n | None \<Rightarrow> map_option pr_number (select_default_pr prs)) of
           None \<Rightarrow> (Inl DeTaskNotFound, r)
         | Some number \<Rightarrow> project_pr_diff program exec t prs number r))"

section \<open>Lemmas: hunks\<close>

lemma hunk_line_kinds: "is_added_line l \<Longrightarrow> is_hunk_line l" "is_deleted_line l \<Longrightarrow> is_hunk_line l"
  by (simp_all add: is_hunk_line_def)

lemma filter_hunk_lines:
  "filter is_added_line (filter is_hunk_line xs) = filter is_added_line xs"
  "filter is_deleted_line (filter is_hunk_line xs) = filter is_deleted_line xs"
  by (induction xs) (auto dest: hunk_line_kinds)

lemma parse_hunks_counts:
  "parse_hunks ls = (hunks, adds, dels) \<Longrightarrow>
   adds = length (filter is_added_line (concat (map dh_lines hunks)))
   \<and> dels = length (filter is_deleted_line (concat (map dh_lines hunks)))
   \<and> list_all (\<lambda>h. list_all is_hunk_line (dh_lines h) \<and> is_hunk_header (dh_header h)) hunks"
proof (induction ls arbitrary: hunks adds dels rule: parse_hunks.induct)
  case (2 l ls)
  show ?case
  proof (cases "is_hunk_header l")
    case True
    let ?body = "takeWhile (\<lambda>x. \<not> ends_hunk x) ls"
    obtain hs a d where p: "parse_hunks (dropWhile (\<lambda>x. \<not> ends_hunk x) ls) = (hs, a, d)"
      by (metis prod_cases3)
    have eq: "hunks = \<lparr>dh_header = l, dh_lines = filter is_hunk_line ?body\<rparr> # hs"
      "adds = length (filter is_added_line ?body) + a"
      "dels = length (filter is_deleted_line ?body) + d"
      using 2(3) True p by (simp_all add: Let_def)
    have ih: "a = length (filter is_added_line (concat (map dh_lines hs)))"
      "d = length (filter is_deleted_line (concat (map dh_lines hs)))"
      "list_all (\<lambda>h. list_all is_hunk_line (dh_lines h) \<and> is_hunk_header (dh_header h)) hs"
      using 2(1) [OF True refl p] by simp_all
    show ?thesis using ih True by (simp add: eq filter_hunk_lines list_all_iff del: filter_filter)
  next
    case False
    with 2 show ?thesis by simp
  qed
qed simp

definition counts_match :: "DiffFile \<Rightarrow> bool" where
  "counts_match f \<longleftrightarrow>
     df_additions f = length (filter is_added_line (concat (map dh_lines (df_hunks f))))
     \<and> df_deletions f = length (filter is_deleted_line (concat (map dh_lines (df_hunks f))))
     \<and> list_all (\<lambda>h. list_all is_hunk_line (dh_lines h) \<and> is_hunk_header (dh_header h)) (df_hunks f)
     \<and> df_role f = classify_diff_path (df_path f)
     \<and> df_status f \<in> {''added'', ''deleted'', ''renamed'', ''modified''}"

lemma section_status_values:
  "section_status b \<in> {''added'', ''deleted'', ''renamed'', ''modified''}"
  by (simp add: section_status_def)

lemma parse_diff_section_counts: "parse_diff_section sect = Some f \<Longrightarrow> counts_match f"
proof -
  assume a: "parse_diff_section sect = Some f"
  then obtain first rest where l: "str_lines sect = first # rest"
    by (cases "str_lines sect") (simp_all add: parse_diff_section_def)
  obtain hs adds dels where p: "parse_hunks rest = (hs, adds, dels)" by (metis prod_cases3)
  from a l p obtain path where "f = \<lparr>df_path = path, df_status = section_status (join [newline] rest),
      df_additions = adds, df_deletions = dels, df_role = classify_diff_path path, df_hunks = hs\<rparr>"
    by (auto simp: parse_diff_section_def Let_def split: option.splits)
  with parse_hunks_counts [OF p] section_status_values show ?thesis
    by (simp add: counts_match_def)
qed

section \<open>Lemmas: the merged list of pull requests\<close>

definition merged_map :: "PullRequestRef list \<Rightarrow> (nat, PullRequestRef) btree" where
  "merged_map prs = fold (\<lambda>p m. bt_insert (pr_number p) p m) prs []"

lemma merged_map_inv: "bt_inv (merged_map prs)"
proof -
  have "bt_inv m \<Longrightarrow> bt_inv (fold (\<lambda>p m. bt_insert (pr_number p) p m) prs m)" for m
    by (induction prs arbitrary: m) (simp_all add: bt_inv_insert)
  then show ?thesis by (simp add: merged_map_def)
qed

lemma find_snoc: "find p (xs @ [x]) = (case find p xs of Some y \<Rightarrow> Some y | None \<Rightarrow> if p x then Some x else None)"
  by (induction xs) auto

lemma merged_map_get:
  "bt_get n (merged_map prs) = find (\<lambda>p. pr_number p = n) (rev prs)"
proof -
  have "bt_inv m \<Longrightarrow> bt_get n (fold (\<lambda>p m. bt_insert (pr_number p) p m) prs m) =
      (case find (\<lambda>p. pr_number p = n) (rev prs) of Some p \<Rightarrow> Some p | None \<Rightarrow> bt_get n m)" for m
  proof (induction prs arbitrary: m)
    case (Cons p prs)
    have "bt_inv (bt_insert (pr_number p) p m)" using Cons.prems by (rule bt_inv_insert)
    from Cons.IH [OF this] Cons.prems show ?case
      by (auto simp: bt_get_insert find_snoc split: option.split)
  qed simp
  from this [OF bt_inv_Nil] show ?thesis by (simp add: merged_map_def split: option.split)
qed

lemma merge_lists_set:
  "p \<in> set (merge_pull_request_lists stored live) \<longleftrightarrow>
     find (\<lambda>q. pr_number q = pr_number p) (rev (stored @ live)) = Some p"
proof -
  have number: "(n, q) \<in> set (merged_map prs) \<Longrightarrow> n = pr_number q" for n q prs
  proof -
    assume "(n, q) \<in> set (merged_map prs)"
    then have "find (\<lambda>p. pr_number p = n) (rev prs) = Some q"
      using merged_map_inv by (simp add: merged_map_get [symmetric] bt_get_iff)
    then show ?thesis by (auto simp: find_Some_iff)
  qed
  have "p \<in> set (merge_pull_request_lists stored live) \<longleftrightarrow>
      p \<in> snd ` set (merged_map (stored @ live))"
    by (simp add: merge_pull_request_lists_def merged_map_def bt_values_def)
  also have "\<dots> \<longleftrightarrow> (pr_number p, p) \<in> set (merged_map (stored @ live))"
    using number by force
  also have "\<dots> \<longleftrightarrow> bt_get (pr_number p) (merged_map (stored @ live)) = Some p"
    using merged_map_inv by (simp add: bt_get_iff)
  finally show ?thesis by (simp only: merged_map_get)
qed

lemma merge_lists_distinct: "distinct (map pr_number (merge_pull_request_lists stored live))"
proof -
  let ?m = "merged_map (stored @ live)"
  have keys: "map pr_number (map snd m) = map fst m" if "\<forall>(n, q) \<in> set m. n = pr_number q"
    for m :: "(nat, PullRequestRef) btree"
    using that by (induction m) auto
  have "\<forall>(n, q) \<in> set ?m. n = pr_number q"
  proof clarify
    fix n q assume "(n, q) \<in> set ?m"
    then have "find (\<lambda>p. pr_number p = n) (rev (stored @ live)) = Some q"
      using merged_map_inv by (simp only: merged_map_get [symmetric] bt_get_iff)
    then show "n = pr_number q" by (auto simp: find_Some_iff)
  qed
  from keys [OF this] have "map pr_number (bt_values ?m) = map fst ?m" by (simp add: bt_values_def)
  moreover have "distinct (map fst ?m)"
    using merged_map_inv [of "stored @ live"]
    by (simp add: bt_inv_def strict_sorted_iff)
  ultimately have "distinct (map pr_number (bt_values ?m))" by simp
  moreover have "mset (map pr_number (sort_key merge_key (bt_values ?m))) = mset (map pr_number (bt_values ?m))"
    by simp
  ultimately show ?thesis
    unfolding merge_pull_request_lists_def merged_map_def [symmetric]
    by (metis mset_eq_imp_distinct_iff)
qed

lemma max_by_key_unique:
  assumes "max_by_key k xs = Some m" and "inj_on k (set xs)" and "p \<in> set xs"
    and "\<And>x. x \<in> set xs \<Longrightarrow> k x \<le> k p"
  shows "m = p"
  using max_by_key_Some [OF assms(1)] assms(2-4) by (meson antisym inj_onD)

text \<open>The choice of the default pull request on a list in merged order is its first element.\<close>

lemma default_of_sorted:
  assumes "sorted (map merge_key (p # ps))" and "distinct (map pr_number (p # ps))"
  shows "select_default_pr (p # ps) = Some p"
proof -
  have le: "merge_key p \<le> merge_key x" if "x \<in> set (p # ps)" for x
    using assms(1) that by auto
  have inj: "inj_on pr_number (set xs)" if "set xs \<subseteq> set (p # ps)" for xs
    using assms(2) that by (metis distinct_map inj_on_subset)
  have some: "\<exists>m. max_by_key pr_number xs = Some m" if "xs \<noteq> []" for xs
    using that by (cases xs) (auto split: option.splits)
  show ?thesis
  proof (cases "pr_state p = PrOpen")
    case True
    let ?os = "filter (\<lambda>q. pr_state q = PrOpen) (p # ps)"
    obtain m where m: "max_by_key pr_number ?os = Some m" using some [of ?os] True by auto
    have "m = p"
    proof (rule max_by_key_unique [OF m inj])
      show "pr_number x \<le> pr_number p" if "x \<in> set ?os" for x
        using le [of x] that True by (auto simp: merge_key_def)
    qed (use True in auto)
    with m True show ?thesis by (simp add: select_default_pr_def)
  next
    case False
    have closed: "pr_state x \<noteq> PrOpen" if "x \<in> set (p # ps)" for x
      using le [OF that] False by (auto simp: merge_key_def split: if_splits)
    obtain m where m: "max_by_key pr_number (p # ps) = Some m" using some by blast
    have "m = p"
    proof (rule max_by_key_unique [OF m inj])
      show "pr_number x \<le> pr_number p" if "x \<in> set (p # ps)" for x
        using le [OF that] closed [OF that] False by (auto simp: merge_key_def)
    qed auto
    moreover have "filter (\<lambda>q. pr_state q = PrOpen) (p # ps) = []"
      using closed by (simp add: filter_empty_conv)
    ultimately show ?thesis using m by (simp add: select_default_pr_def del: max_by_key.simps)
  qed
qed

section \<open>Properties\<close>

text \<open>Every file read from a patch is consistent with its hunks: the counters are the numbers of
  added and deleted lines its hunks keep, a hunk keeps only added, deleted and context lines under a
  hunk header, and its role is that of its path.\<close>

theorem parsed_files_consistent: "list_all counts_match (parse_unified_diff patch)"
  by (auto simp: parse_unified_diff_def Let_def list_all_iff List.map_filter_def
      intro!: parse_diff_section_counts split: option.splits)

text \<open>Merging the stored with the live pull requests keeps one entry per number, the last one
  seen (so a live entry replaces a stored one and a stored one without live counterpart stays), and
  puts the list in the order of choice: the default pull request is its first element.\<close>

theorem merged_pull_requests:
  "distinct (map pr_number (merge_pull_request_lists stored live))
   \<and> (p \<in> set (merge_pull_request_lists stored live) \<longleftrightarrow>
        find (\<lambda>q. pr_number q = pr_number p) (rev live @ rev stored) = Some p)
   \<and> select_default_pr (merge_pull_request_lists stored live) =
       (case merge_pull_request_lists stored live of [] \<Rightarrow> None | q # _ \<Rightarrow> Some q)"
proof (intro conjI)
  show d: "distinct (map pr_number (merge_pull_request_lists stored live))"
    by (rule merge_lists_distinct)
  show "p \<in> set (merge_pull_request_lists stored live) \<longleftrightarrow>
        find (\<lambda>q. pr_number q = pr_number p) (rev live @ rev stored) = Some p"
    using merge_lists_set [of p stored live] by simp
  have s: "sorted (map merge_key (merge_pull_request_lists stored live))"
    by (simp add: merge_pull_request_lists_def)
  show "select_default_pr (merge_pull_request_lists stored live) =
       (case merge_pull_request_lists stored live of [] \<Rightarrow> None | q # _ \<Rightarrow> Some q)"
  proof (cases "merge_pull_request_lists stored live")
    case Nil
    then show ?thesis by (simp add: select_default_pr_def)
  next
    case (Cons q qs)
    with d s default_of_sorted [of q qs] show ?thesis by simp
  qed
qed

text \<open>The totals of a judgment add up, and its reading order lists exactly the signal files, the
  largest change first.\<close>

theorem judgment_totals:
  "dt_signal (dj_totals (assess_diff_judgment files)) + dt_noise (dj_totals (assess_diff_judgment files))
     = dt_files (dj_totals (assess_diff_judgment files))
   \<and> mset (dj_reading_order (assess_diff_judgment files)) =
       mset (map df_path (filter (\<lambda>f. df_role f = RoleSignal) files))
   \<and> (\<exists>fs. dj_reading_order (assess_diff_judgment files) = map df_path fs
        \<and> sorted (map churn_key fs) \<and> mset fs = mset (filter (\<lambda>f. df_role f = RoleSignal) files))"
proof (intro conjI)
  have "(df_role f \<noteq> RoleSignal) = (df_role f = RoleNoise)" for f :: DiffFile
    by (cases "df_role f") simp_all
  then have "filter (\<lambda>f. df_role f = RoleNoise) files = filter (\<lambda>f. \<not> df_role f = RoleSignal) files"
    by simp
  then show "dt_signal (dj_totals (assess_diff_judgment files)) + dt_noise (dj_totals (assess_diff_judgment files))
     = dt_files (dj_totals (assess_diff_judgment files))"
    by (simp add: assess_diff_judgment_def sum_length_filter_compl)
  show "\<exists>fs. dj_reading_order (assess_diff_judgment files) = map df_path fs
        \<and> sorted (map churn_key fs) \<and> mset fs = mset (filter (\<lambda>f. df_role f = RoleSignal) files)"
    by (intro exI [of _ "sort_key churn_key (filter (\<lambda>f. df_role f = RoleSignal) files)"])
      (simp add: assess_diff_judgment_def)
qed (simp add: assess_diff_judgment_def)

text \<open>A deleted line whose own text starts with two dashes (a comment in SQL or Lua) is taken for a
  file header: a hunk that deletes such lines only is read as an empty hunk without deletions.\<close>

theorem deleted_dash_lines_are_lost:
  "parse_hunks ((''@@ '' @ rng) # map (\<lambda>l. ''-'' @ (''--'' @ l)) deleted) =
     ([\<lparr>dh_header = ''@@ '' @ rng, dh_lines = []\<rparr>], 0, 0)"
proof -
  let ?ls = "map (\<lambda>l. ''-'' @ (''--'' @ l)) deleted"
  have stay: "takeWhile (\<lambda>x. \<not> ends_hunk x) ?ls = ?ls" "dropWhile (\<lambda>x. \<not> ends_hunk x) ?ls = []"
    by (auto simp: ends_hunk_def starts_with_def)
  have drop: "filter is_added_line ?ls = []" "filter is_deleted_line ?ls = []" "filter is_hunk_line ?ls = []"
    by (auto simp: filter_empty_conv is_hunk_line_def is_added_line_def is_deleted_line_def starts_with_def)
  have "is_hunk_header (''@@ '' @ rng)" by (simp add: is_hunk_header_def starts_with_def)
  then show ?thesis by (simp only: parse_hunks.simps stay drop Let_def) simp
qed

end
