(* ===== verification/Lifecycle.thy ===== *)
theory Lifecycle
  imports Task_Model
begin

text \<open>
  The task lifecycle of \<open>crates/ajax-core/src/lifecycle.rs\<close>: the table of generic transitions, the
  transitions that need a named reason, the guarded update of a task and its named wrappers. The
  lemmas show that teardown is one-way, that every task can be torn down, and when a task may leave
  the error and removed states.
\<close>

section \<open>The transition table\<close>

datatype LifecycleTransitionReason =
  TrGeneric | TrRecovery | TrOperationResult | TrForceRemove | TrRestore

record LifecycleTransitionError =
  te_from :: LifecycleStatus
  te_to :: LifecycleStatus
  te_reason :: LifecycleTransitionReason

definition generic_transition_allowed :: "LifecycleStatus \<Rightarrow> LifecycleStatus \<Rightarrow> bool" where
  "generic_transition_allowed from to \<longleftrightarrow> (from, to) \<in> set [
      (LcCreated, LcProvisioning), (LcCreated, LcActive), (LcCreated, LcReviewable),
      (LcCreated, LcError), (LcProvisioning, LcActive), (LcProvisioning, LcError),
      (LcActive, LcWaiting), (LcActive, LcReviewable), (LcActive, LcMerged),
      (LcActive, LcError), (LcWaiting, LcActive), (LcWaiting, LcReviewable),
      (LcWaiting, LcError), (LcReviewable, LcMergeable), (LcMergeable, LcReviewable),
      (LcReviewable, LcMerged), (LcReviewable, LcError), (LcMergeable, LcMerged),
      (LcMergeable, LcError), (LcCreated, LcRemoving), (LcProvisioning, LcRemoving),
      (LcActive, LcRemoving), (LcWaiting, LcRemoving), (LcReviewable, LcRemoving),
      (LcMergeable, LcRemoving), (LcMerged, LcRemoving), (LcMerged, LcCleanable),
      (LcCleanable, LcRemoving), (LcRemoving, LcTeardownIncomplete), (LcTeardownIncomplete, LcRemoving),
      (LcRemoving, LcRemoved), (LcTeardownIncomplete, LcRemoved), (LcMerged, LcRemoved),
      (LcMerged, LcError), (LcCleanable, LcRemoved), (LcCleanable, LcError),
      (LcError, LcRemoving), (LcOrphaned, LcRemoving), (LcOrphaned, LcError)]"

definition named_transition_allowed ::
    "LifecycleStatus \<Rightarrow> LifecycleStatus \<Rightarrow> LifecycleTransitionReason \<Rightarrow> bool" where
  "named_transition_allowed from to reason \<longleftrightarrow>
     (reason \<in> {TrRecovery, TrOperationResult} \<and> from = LcError \<and> to \<in> {LcActive, LcReviewable})
     \<or> (reason = TrOperationResult \<and> from \<in> {LcReviewable, LcMergeable} \<and> to = LcActive)
     \<or> (reason = TrForceRemove
         \<and> from \<in> {LcCreated, LcProvisioning, LcActive, LcWaiting, LcReviewable, LcMergeable,
                   LcMerged, LcCleanable, LcOrphaned, LcError}
         \<and> to = LcRemoved)
     \<or> (reason = TrRestore \<and> from = LcRemoved \<and> to = LcActive)"

definition validate_lifecycle_transition ::
    "LifecycleStatus \<Rightarrow> LifecycleStatus \<Rightarrow> LifecycleTransitionReason \<Rightarrow>
     LifecycleTransitionError + unit" where
  "validate_lifecycle_transition from to reason =
     (if from = to \<or> generic_transition_allowed from to \<or> named_transition_allowed from to reason
      then Inr ()
      else Inl \<lparr>te_from = from, te_to = to, te_reason = reason\<rparr>)"

definition transition_lifecycle ::
    "Task \<Rightarrow> LifecycleStatus \<Rightarrow> LifecycleTransitionReason \<Rightarrow> LifecycleTransitionError + Task" where
  "transition_lifecycle t status reason =
     (case validate_lifecycle_transition (t_lifecycle_status t) status reason of
        Inl e \<Rightarrow> Inl e
      | Inr _ \<Rightarrow> Inr (t\<lparr>t_lifecycle_status := status\<rparr>))"

definition hydrate_lifecycle_status :: "LifecycleStatus \<Rightarrow> Task \<Rightarrow> Task" where
  "hydrate_lifecycle_status status t = t\<lparr>t_lifecycle_status := status\<rparr>"

text \<open>\<open>let _ = transition(...)\<close>: a refused transition leaves the task as it was.\<close>

definition try_transition :: "(LifecycleTransitionError + Task) \<Rightarrow> Task \<Rightarrow> Task" where
  "try_transition r t = (case r of Inl _ \<Rightarrow> t | Inr u \<Rightarrow> u)"

definition mark_provisioning :: "Task \<Rightarrow> LifecycleTransitionError + Task" where
  "mark_provisioning t = transition_lifecycle t LcProvisioning TrGeneric"

definition mark_active :: "Task \<Rightarrow> LifecycleTransitionError + Task" where
  "mark_active t = transition_lifecycle t LcActive TrGeneric"

definition restore_active :: "Task \<Rightarrow> LifecycleTransitionError + Task" where
  "restore_active t = transition_lifecycle t LcActive TrRestore"

definition mark_reviewable :: "Task \<Rightarrow> LifecycleTransitionError + Task" where
  "mark_reviewable t = transition_lifecycle t LcReviewable TrGeneric"

definition mark_mergeable :: "Task \<Rightarrow> LifecycleTransitionError + Task" where
  "mark_mergeable t = transition_lifecycle t LcMergeable TrGeneric"

definition mark_merged :: "Task \<Rightarrow> LifecycleTransitionError + Task" where
  "mark_merged t = transition_lifecycle t LcMerged TrGeneric"

definition mark_cleanable :: "Task \<Rightarrow> LifecycleTransitionError + Task" where
  "mark_cleanable t = transition_lifecycle t LcCleanable TrGeneric"

definition mark_removed :: "Task \<Rightarrow> LifecycleTransitionError + Task" where
  "mark_removed t = transition_lifecycle t LcRemoved TrGeneric"

definition force_mark_removed :: "Task \<Rightarrow> LifecycleTransitionError + Task" where
  "force_mark_removed t = transition_lifecycle t LcRemoved TrForceRemove"

definition mark_error :: "Task \<Rightarrow> LifecycleTransitionError + Task" where
  "mark_error t = transition_lifecycle t LcError TrGeneric"

section \<open>Lemmas\<close>

lemmas transition_defs =
  validate_lifecycle_transition_def generic_transition_allowed_def named_transition_allowed_def

lemma transition_lifecycle_Inr:
  "transition_lifecycle t s r = Inr u \<Longrightarrow>
   u = t\<lparr>t_lifecycle_status := s\<rparr> \<and> validate_lifecycle_transition (t_lifecycle_status t) s r = Inr ()"
  by (auto simp: transition_lifecycle_def split: sum.splits)

lemma transition_lifecycle_ok:
  "validate_lifecycle_transition (t_lifecycle_status t) s r = Inr () \<Longrightarrow>
   transition_lifecycle t s r = Inr (t\<lparr>t_lifecycle_status := s\<rparr>)"
  by (simp add: transition_lifecycle_def)

lemma try_transition_cases:
  "try_transition (transition_lifecycle t s r) t = t\<lparr>t_lifecycle_status := s\<rparr>
     \<and> validate_lifecycle_transition (t_lifecycle_status t) s r = Inr ()
   \<or> try_transition (transition_lifecycle t s r) t = t"
  by (auto simp: try_transition_def transition_lifecycle_def split: sum.splits)

lemma try_transition_frame [simp]:
  "t_side_flags (try_transition (transition_lifecycle t s r) t) = t_side_flags t"
  "t_agent_status (try_transition (transition_lifecycle t s r) t) = t_agent_status t"
  "t_agent_attempts (try_transition (transition_lifecycle t s r) t) = t_agent_attempts t"
  "t_live_status (try_transition (transition_lifecycle t s r) t) = t_live_status t"
  "t_metadata (try_transition (transition_lifecycle t s r) t) = t_metadata t"
  "t_git_status (try_transition (transition_lifecycle t s r) t) = t_git_status t"
  "t_id (try_transition (transition_lifecycle t s r) t) = t_id t"
  by (auto simp: try_transition_def transition_lifecycle_def split: sum.splits)

text \<open>One step of the lifecycle machine for a set of permitted reasons.\<close>

inductive lifecycle_step :: "LifecycleTransitionReason set \<Rightarrow> Task \<Rightarrow> Task \<Rightarrow> bool" for R where
  move: "r \<in> R \<Longrightarrow> transition_lifecycle t s r = Inr u \<Longrightarrow> lifecycle_step R t u"

inductive_cases lifecycle_stepE: "lifecycle_step R t u"

definition in_teardown :: "LifecycleStatus \<Rightarrow> bool" where
  "in_teardown s \<longleftrightarrow> s \<in> {LcRemoving, LcTeardownIncomplete, LcRemoved}"

definition working_reasons :: "LifecycleTransitionReason set" where
  "working_reasons = {TrGeneric, TrRecovery, TrOperationResult, TrForceRemove}"

interpretation teardown: invariant_system "lifecycle_step working_reasons"
  "\<lambda>t. in_teardown (t_lifecycle_status t)"
proof unfold_locales
  fix t u
  assume t: "in_teardown (t_lifecycle_status t)" and "lifecycle_step working_reasons t u"
  then obtain r s where r: "r \<in> working_reasons" and step: "transition_lifecycle t s r = Inr u"
    by (auto elim: lifecycle_stepE)
  have u: "t_lifecycle_status u = s" and v: "validate_lifecycle_transition (t_lifecycle_status t) s r = Inr ()"
    using transition_lifecycle_Inr [OF step] by simp_all
  show "in_teardown (t_lifecycle_status u)"
    using t r v u
    by (auto simp: transition_defs in_teardown_def working_reasons_def split: if_splits)
qed

text \<open>The steps that take a task to the removed state by generic transitions.\<close>

fun teardown_path :: "LifecycleStatus \<Rightarrow> LifecycleStatus list" where
  "teardown_path LcRemoved = []"
| "teardown_path LcRemoving = [LcRemoved]"
| "teardown_path LcTeardownIncomplete = [LcRemoved]"
| "teardown_path _ = [LcRemoving, LcRemoved]"

fun follow :: "Task \<Rightarrow> LifecycleStatus list \<Rightarrow> LifecycleTransitionError + Task" where
  "follow t [] = Inr t"
| "follow t (s # ss) =
     (case transition_lifecycle t s TrGeneric of Inl e \<Rightarrow> Inl e | Inr u \<Rightarrow> follow u ss)"

lemma follow_runs: "follow t ss = Inr u \<Longrightarrow> runs (lifecycle_step {TrGeneric}) t u"
proof (induction ss arbitrary: t)
  case Nil
  then show ?case by (simp add: runs_refl)
next
  case (Cons s ss)
  then obtain v where v: "transition_lifecycle t s TrGeneric = Inr v" and "follow v ss = Inr u"
    by (auto split: sum.splits)
  then show ?case
    using Cons.IH [of v] by (blast intro: runs_trans runs_single lifecycle_step.move)
qed

lemma teardown_path_follow:
  "follow t (teardown_path (t_lifecycle_status t)) = Inr (t\<lparr>t_lifecycle_status := LcRemoved\<rparr>)"
  by (cases "t_lifecycle_status t")
    (simp_all add: transition_lifecycle_def transition_defs)

section \<open>Properties\<close>

text \<open>C24: Teardown is one-way. Whatever sequence of lifecycle transitions is applied to a task that
  is being removed, is partly removed or is removed, as long as none of them is the explicit restore,
  the task stays in one of these three states.\<close>

theorem teardown_is_one_way:
  assumes "runs (lifecycle_step working_reasons) t u" and "in_teardown (t_lifecycle_status t)"
  shows "in_teardown (t_lifecycle_status u)"
  using assms by (rule teardown.runs_preserve)

theorem teardown_is_one_way_witness:
  "in_teardown (t_lifecycle_status
     ((task_new 0 ''a'' ''web'' ''h'' ''t'' ''b'' ''main'' ''/w'' ''s'' ''task'' AcCodex)
        \<lparr>t_lifecycle_status := LcRemoved\<rparr>))"
proof -
  let ?t = "(task_new 0 ''a'' ''web'' ''h'' ''t'' ''b'' ''main'' ''/w'' ''s'' ''task'' AcCodex)
              \<lparr>t_lifecycle_status := LcRemoving\<rparr>"
  have step: "transition_lifecycle ?t LcRemoved TrGeneric = Inr (?t\<lparr>t_lifecycle_status := LcRemoved\<rparr>)"
    by (simp add: transition_lifecycle_def transition_defs)
  have "lifecycle_step working_reasons ?t (?t\<lparr>t_lifecycle_status := LcRemoved\<rparr>)"
    by (rule lifecycle_step.move [OF _ step]) (simp add: working_reasons_def)
  then have "runs (lifecycle_step working_reasons) ?t (?t\<lparr>t_lifecycle_status := LcRemoved\<rparr>)"
    by (rule runs_single)
  from teardown_is_one_way [OF this] show ?thesis by (simp add: in_teardown_def)
qed

text \<open>Every task can be torn down. From any lifecycle status a task reaches the removed state by
  at most two generic transitions, and nothing else of the task changes.\<close>

theorem every_task_can_be_removed:
  "runs (lifecycle_step {TrGeneric}) t (t\<lparr>t_lifecycle_status := LcRemoved\<rparr>)
   \<and> length (teardown_path (t_lifecycle_status t)) \<le> 2"
proof
  show "runs (lifecycle_step {TrGeneric}) t (t\<lparr>t_lifecycle_status := LcRemoved\<rparr>)"
    using teardown_path_follow by (rule follow_runs)
  show "length (teardown_path (t_lifecycle_status t)) \<le> 2"
    by (cases "t_lifecycle_status t") simp_all
qed

text \<open>A removed task accepts exactly one change of status, the restore to active, and a task in
  the error state returns to work only for a named reason: generically it can only be removed.\<close>

theorem exits_of_removed_and_error:
  "(transition_lifecycle t s r = Inr u \<and> t_lifecycle_status t = LcRemoved \<and> s \<noteq> LcRemoved
      \<longleftrightarrow> t_lifecycle_status t = LcRemoved \<and> s = LcActive \<and> r = TrRestore
          \<and> u = t\<lparr>t_lifecycle_status := LcActive\<rparr>)
   \<and> (transition_lifecycle t s r = Inr u \<and> t_lifecycle_status t = LcError \<and> s \<notin> {LcError, LcRemoving}
      \<longleftrightarrow> t_lifecycle_status t = LcError \<and> u = t\<lparr>t_lifecycle_status := s\<rparr>
          \<and> (s \<in> {LcActive, LcReviewable} \<and> r \<in> {TrRecovery, TrOperationResult}
             \<or> s = LcRemoved \<and> r = TrForceRemove))"
  by (cases r) (auto simp: transition_lifecycle_def transition_defs split: sum.splits if_splits)

end
