(* ===== verification/Task_Policy.thy ===== *)
theory Task_Policy
  imports Diff_Review Lifecycle
begin

text \<open>
  What may be done with a task: the safety reports of \<open>crates/ajax-core/src/policy.rs\<close>, the eligibility
  of operations of \<open>operation.rs\<close>, the disposition of registry records of \<open>ghost_task.rs\<close> and the
  capability profiles of \<open>agent_capability.rs\<close>. The reader of the stored pull requests (serde) is the
  parameter \<open>decode\<close>, as in \<open>Diff_Review\<close>.
\<close>

section \<open>Safety reports (policy.rs)\<close>

fun safety_severity :: "SafetyClassification \<Rightarrow> nat" where
  "safety_severity ScSafe = 0"
| "safety_severity ScNeedsConfirmation = 1"
| "safety_severity ScDangerous = 2"
| "safety_severity ScBlocked = 3"

text \<open>\<open>mark\<close> raises the classification and adds a reason; the two mutable locals are the report.\<close>

definition mark :: "SafetyClassification \<Rightarrow> string \<Rightarrow> SafetyReport \<Rightarrow> SafetyReport" where
  "mark candidate reason r =
     r\<lparr>sr_classification :=
         (if safety_severity candidate > safety_severity (sr_classification r)
          then candidate else sr_classification r),
       sr_reasons := sr_reasons r @ [reason]\<rparr>"

definition mark_if :: "bool \<Rightarrow> SafetyClassification \<Rightarrow> string \<Rightarrow> SafetyReport \<Rightarrow> SafetyReport" where
  "mark_if b candidate reason r = (if b then mark candidate reason r else r)"

definition mark_mismatch :: "Task \<Rightarrow> SafetyReport \<Rightarrow> SafetyReport" where
  "mark_mismatch t r =
     (if has_checkout_mismatch t
      then (case checkout_mismatch_explanation t of Some e \<Rightarrow> mark ScBlocked e r | None \<Rightarrow> r)
      else r)"

definition blocked_report :: "string \<Rightarrow> SafetyReport" where
  "blocked_report reason = \<lparr>sr_classification = ScBlocked, sr_reasons = [reason]\<rparr>"

definition safe_report :: SafetyReport where
  "safe_report = \<lparr>sr_classification = ScSafe, sr_reasons = []\<rparr>"

text \<open>The checks that both reports make, up to the local changes.\<close>

definition substrate_marks :: "Task \<Rightarrow> GitStatus \<Rightarrow> SafetyReport \<Rightarrow> SafetyReport" where
  "substrate_marks t git r =
     mark_if (gs_dirty git \<or> gs_untracked_files git > 0 \<or> has_side_flag SfDirty t)
       ScNeedsConfirmation ''working tree has local changes''
     (mark_if (gs_conflicted git \<or> has_side_flag SfConflicted t)
       ScDangerous ''working tree has conflicts''
     (mark_mismatch t
     (mark_if (has_missing_branch t) ScBlocked ''branch is missing''
     (mark_if (has_missing_worktree t) ScBlocked ''worktree is missing'' r))))"

definition unpushed_mark :: "Task \<Rightarrow> GitStatus \<Rightarrow> SafetyReport \<Rightarrow> SafetyReport" where
  "unpushed_mark t git =
     mark_if (has_unpushed_work git \<or> has_side_flag SfUnpushed t)
       ScNeedsConfirmation ''branch has unpushed commits''"

definition merge_safety :: "Task \<Rightarrow> SafetyReport" where
  "merge_safety t =
     (if t_lifecycle_status t \<notin> {LcReviewable, LcMergeable}
      then blocked_report ''lifecycle is not reviewable or mergeable''
      else (case t_git_status t of
              None \<Rightarrow> blocked_report ''git status is unknown''
            | Some git \<Rightarrow> unpushed_mark t git (substrate_marks t git safe_report)))"

definition cleanup_safety :: "Task \<Rightarrow> SafetyReport" where
  "cleanup_safety t =
     (case t_git_status t of
        None \<Rightarrow> blocked_report ''git status is unknown''
      | Some git \<Rightarrow>
          let r = substrate_marks t git safe_report;
              r1 = (if \<not> gs_merged git then mark ScNeedsConfirmation ''branch is not merged'' r
                    else r\<lparr>sr_reasons := sr_reasons r @ [''branch is merged'']\<rparr>)
          in unpushed_mark t git r1)"

section \<open>Eligibility of operations (operation.rs)\<close>

datatype TaskOperation =
  ToCreate | ToOpen | ToTrunk | ToCheck | ToDiff | ToMerge | ToClean | ToRemove | ToRefresh | ToRecover

fun task_operation_as_str :: "TaskOperation \<Rightarrow> string" where
  "task_operation_as_str ToCreate = ''create''"
| "task_operation_as_str ToOpen = ''open''"
| "task_operation_as_str ToTrunk = ''trunk''"
| "task_operation_as_str ToCheck = ''check''"
| "task_operation_as_str ToDiff = ''diff''"
| "task_operation_as_str ToMerge = ''merge''"
| "task_operation_as_str ToClean = ''clean''"
| "task_operation_as_str ToRemove = ''remove''"
| "task_operation_as_str ToRefresh = ''refresh''"
| "task_operation_as_str ToRecover = ''recover''"

datatype OperationEligibility = OeAllowed | OeBlocked "string list"

fun is_allowed :: "OperationEligibility \<Rightarrow> bool" where
  "is_allowed OeAllowed = True"
| "is_allowed (OeBlocked _) = False"

fun missing_substrate_blocks_operation :: "Task \<Rightarrow> TaskOperation \<Rightarrow> bool" where
  "missing_substrate_blocks_operation t ToCheck = False"
| "missing_substrate_blocks_operation t ToDiff = False"
| "missing_substrate_blocks_operation t ToRemove = False"
| "missing_substrate_blocks_operation t ToMerge = has_missing_git_substrate t"
| "missing_substrate_blocks_operation t _ = has_missing_substrate t"

text \<open>The reasons, in the order in which the code pushes them.\<close>

definition eligibility_reasons :: "Task \<Rightarrow> TaskOperation \<Rightarrow> string list" where
  "eligibility_reasons t operation =
     (if t_lifecycle_status t = LcRemoved then [''task is removed''] else [])
     @ (if operation = ToMerge \<and> t_lifecycle_status t \<notin> {LcReviewable, LcMergeable}
        then [''merge requires reviewable or mergeable lifecycle''] else [])
     @ (if operation = ToClean
          \<and> t_lifecycle_status t \<notin> {LcMerged, LcCleanable, LcRemoving, LcTeardownIncomplete}
        then [''clean requires merged or cleanable lifecycle''] else [])
     @ (if operation \<in> {ToCheck, ToDiff}
          \<and> (has_side_flag SfWorktreeMissing t
             \<or> (case t_git_status t of Some s \<Rightarrow> \<not> gs_worktree_exists s | None \<Rightarrow> False))
        then [''task worktree is missing''] else [])
     @ (if missing_substrate_blocks_operation t operation then [''task has missing substrate''] else [])
     @ (if operation \<in> {ToMerge, ToClean} \<and> has_checkout_mismatch t
        then (case checkout_mismatch_explanation t of Some e \<Rightarrow> [e] | None \<Rightarrow> []) else [])"

definition task_operation_eligibility :: "Task \<Rightarrow> TaskOperation \<Rightarrow> OperationEligibility" where
  "task_operation_eligibility t operation =
     (let reasons = eligibility_reasons t operation in
      if reasons = [] then OeAllowed else OeBlocked reasons)"

definition has_open_pull_request :: "(string \<Rightarrow> PullRequestRef list option) \<Rightarrow> Task \<Rightarrow> bool" where
  "has_open_pull_request decode t \<longleftrightarrow> list_ex (\<lambda>p. pr_state p = PrOpen) (stored_pull_requests decode t)"

section \<open>Which records are kept (ghost_task.rs)\<close>

datatype RegistryGhostReason = GhRemoved | GhStale | GhAbandonedProvisioning

datatype RegistryPersistenceDisposition = PdPersist | PdPrune RegistryGhostReason

definition git_worktree_absent :: "Task \<Rightarrow> bool" where
  "git_worktree_absent t \<longleftrightarrow>
     has_side_flag SfWorktreeMissing t
     \<or> (case t_git_status t of Some s \<Rightarrow> \<not> gs_worktree_exists s | None \<Rightarrow> False)"

definition git_branch_absent :: "Task \<Rightarrow> bool" where
  "git_branch_absent t \<longleftrightarrow>
     has_side_flag SfBranchMissing t
     \<or> (case t_git_status t of Some s \<Rightarrow> \<not> gs_branch_exists s | None \<Rightarrow> False)"

definition has_no_recoverable_git_substrate :: "Task \<Rightarrow> bool" where
  "has_no_recoverable_git_substrate t \<longleftrightarrow> git_worktree_absent t \<and> git_branch_absent t"

definition is_abandoned_provisioning_ghost :: "Task \<Rightarrow> bool" where
  "is_abandoned_provisioning_ghost t =
     (if t_lifecycle_status t \<notin> {LcCreated, LcProvisioning} then False
      else if \<not> has_missing_substrate t then False
      else has_no_recoverable_git_substrate t)"

definition git_substrate_observed :: "Task \<Rightarrow> bool" where
  "git_substrate_observed t =
     (case t_git_status t of Some s \<Rightarrow> gs_worktree_exists s \<or> gs_branch_exists s | None \<Rightarrow> False)"

definition registry_persistence_disposition :: "Task \<Rightarrow> RegistryPersistenceDisposition" where
  "registry_persistence_disposition t =
     (if t_lifecycle_status t = LcRemoved then
        (if git_substrate_observed t then PdPersist else PdPrune GhRemoved)
      else if has_side_flag SfStale t then
        (if has_no_recoverable_git_substrate t then PdPrune GhStale
         else if git_substrate_observed t \<or> has_side_flag SfWorktreeMissing t
                 \<or> has_side_flag SfBranchMissing t
         then PdPersist
         else PdPrune GhStale)
      else if is_abandoned_provisioning_ghost t then PdPrune GhAbandonedProvisioning
      else PdPersist)"

definition is_registry_ghost_task :: "Task \<Rightarrow> bool" where
  "is_registry_ghost_task t =
     (case registry_persistence_disposition t of PdPrune _ \<Rightarrow> True | PdPersist \<Rightarrow> False)"

definition is_cockpit_visible_task :: "Task \<Rightarrow> bool" where
  "is_cockpit_visible_task t =
     (\<not> (case registry_persistence_disposition t of PdPrune _ \<Rightarrow> True | PdPersist \<Rightarrow> False))"

section \<open>Capability profiles (agent_capability.rs)\<close>

datatype CapabilitySupport = CsNative | CsWrapper | CsPaneFallback | CsUnavailable | CsUnverified

datatype CapabilityFact =
  CfTurnStarted | CfTurnSettled | CfPermissionWait | CfQuestionWait | CfSubagents | CfSessionClosed

record AgentCapabilityProfile =
  ac_turn_started :: CapabilitySupport
  ac_turn_settled :: CapabilitySupport
  ac_permission_wait :: CapabilitySupport
  ac_question_wait :: CapabilitySupport
  ac_subagents :: CapabilitySupport
  ac_session_closed :: CapabilitySupport

fun support_for :: "CapabilityFact \<Rightarrow> AgentCapabilityProfile \<Rightarrow> CapabilitySupport" where
  "support_for CfTurnStarted p = ac_turn_started p"
| "support_for CfTurnSettled p = ac_turn_settled p"
| "support_for CfPermissionWait p = ac_permission_wait p"
| "support_for CfQuestionWait p = ac_question_wait p"
| "support_for CfSubagents p = ac_subagents p"
| "support_for CfSessionClosed p = ac_session_closed p"

definition allows_pane_fallback :: "CapabilityFact \<Rightarrow> AgentCapabilityProfile \<Rightarrow> bool" where
  "allows_pane_fallback f p \<longleftrightarrow> support_for f p \<in> {CsUnavailable, CsUnverified}"

definition claude_profile :: AgentCapabilityProfile where
  "claude_profile =
     \<lparr>ac_turn_started = CsNative, ac_turn_settled = CsNative, ac_permission_wait = CsNative,
      ac_question_wait = CsNative, ac_subagents = CsUnverified, ac_session_closed = CsNative\<rparr>"

definition codex_profile :: AgentCapabilityProfile where
  "codex_profile =
     \<lparr>ac_turn_started = CsNative, ac_turn_settled = CsNative, ac_permission_wait = CsNative,
      ac_question_wait = CsUnavailable, ac_subagents = CsUnverified, ac_session_closed = CsNative\<rparr>"

definition cursor_profile :: AgentCapabilityProfile where
  "cursor_profile =
     \<lparr>ac_turn_started = CsNative, ac_turn_settled = CsNative, ac_permission_wait = CsUnavailable,
      ac_question_wait = CsUnavailable, ac_subagents = CsUnverified, ac_session_closed = CsNative\<rparr>"

definition pi_profile :: AgentCapabilityProfile where
  "pi_profile =
     \<lparr>ac_turn_started = CsNative, ac_turn_settled = CsNative, ac_permission_wait = CsUnavailable,
      ac_question_wait = CsUnavailable, ac_subagents = CsUnverified, ac_session_closed = CsWrapper\<rparr>"

definition unknown_other_profile :: AgentCapabilityProfile where
  "unknown_other_profile =
     \<lparr>ac_turn_started = CsUnverified, ac_turn_settled = CsWrapper, ac_permission_wait = CsUnverified,
      ac_question_wait = CsUnverified, ac_subagents = CsUnverified, ac_session_closed = CsUnverified\<rparr>"

fun profile_for_agent_client :: "AgentClient \<Rightarrow> AgentCapabilityProfile" where
  "profile_for_agent_client AcClaude = claude_profile"
| "profile_for_agent_client AcCodex = codex_profile"
| "profile_for_agent_client AcCursor = cursor_profile"
| "profile_for_agent_client AcPi = pi_profile"
| "profile_for_agent_client AcOther = unknown_other_profile"

definition profile_for_hook_client :: "string \<Rightarrow> AgentCapabilityProfile" where
  "profile_for_hook_client client =
     (let c = to_ascii_lowercase (trim client) in
      if c = ''claude'' then claude_profile
      else if c = ''codex'' then codex_profile
      else if c = ''cursor'' then cursor_profile
      else if c = ''pi'' then pi_profile
      else unknown_other_profile)"

section \<open>Lemmas: reports\<close>

text \<open>A report only grows: the severity is the greatest of the marks made, and every mark leaves a
  reason.\<close>

lemma severity_zero [simp]: "safety_severity c = 0 \<longleftrightarrow> c = ScSafe"
  by (cases c) auto

lemma mark_classification:
  "safety_severity (sr_classification (mark c s r)) = max (safety_severity c) (safety_severity (sr_classification r))"
  by (simp add: mark_def)

lemma mark_reasons [simp]: "sr_reasons (mark c s r) = sr_reasons r @ [s]"
  by (simp add: mark_def)

lemma mark_safe: "sr_classification (mark c s r) = ScSafe \<longleftrightarrow> c = ScSafe \<and> sr_classification r = ScSafe"
  by (cases c; cases "sr_classification r") (simp_all add: mark_def)

lemma mark_if_safe: "c \<noteq> ScSafe \<Longrightarrow>
  sr_classification (mark_if b c s r) = ScSafe \<longleftrightarrow> \<not> b \<and> sr_classification r = ScSafe"
  by (simp add: mark_if_def mark_safe)

lemma mismatch_explained: "has_checkout_mismatch t \<Longrightarrow> \<exists>e. checkout_mismatch_explanation t = Some e"
  by (simp add: checkout_mismatch_explanation_def)

lemma mark_mismatch_safe:
  "sr_classification (mark_mismatch t r) = ScSafe \<longleftrightarrow> \<not> has_checkout_mismatch t \<and> sr_classification r = ScSafe"
  using mismatch_explained [of t] by (auto simp: mark_mismatch_def mark_safe)

lemma blocked_report_simps [simp]:
  "sr_classification (blocked_report s) = ScBlocked" "sr_reasons (blocked_report s) = [s]"
  by (simp_all add: blocked_report_def)

lemma safe_report_simps [simp]: "sr_classification safe_report = ScSafe" "sr_reasons safe_report = []"
  by (simp_all add: safe_report_def)

text \<open>What a clean checkout is: nothing missing, on the branch of the task, no conflicts, no changes.\<close>

definition clean_checkout :: "Task \<Rightarrow> GitStatus \<Rightarrow> bool" where
  "clean_checkout t git \<longleftrightarrow>
     \<not> has_missing_worktree t \<and> \<not> has_missing_branch t \<and> \<not> has_checkout_mismatch t
     \<and> \<not> gs_conflicted git \<and> \<not> has_side_flag SfConflicted t
     \<and> \<not> gs_dirty git \<and> gs_untracked_files git = 0 \<and> \<not> has_side_flag SfDirty t"

definition all_pushed :: "Task \<Rightarrow> GitStatus \<Rightarrow> bool" where
  "all_pushed t git \<longleftrightarrow> \<not> has_unpushed_work git \<and> \<not> has_side_flag SfUnpushed t"

lemma substrate_marks_safe:
  "sr_classification (substrate_marks t git r) = ScSafe \<longleftrightarrow> clean_checkout t git \<and> sr_classification r = ScSafe"
  by (auto simp: substrate_marks_def mark_if_safe mark_mismatch_safe clean_checkout_def)

lemma unpushed_mark_safe:
  "sr_classification (unpushed_mark t git r) = ScSafe \<longleftrightarrow> all_pushed t git \<and> sr_classification r = ScSafe"
  by (auto simp: unpushed_mark_def mark_if_safe all_pushed_def)

text \<open>A report is well formed when the severity and the reasons agree.\<close>

definition blocked_sound :: "Task \<Rightarrow> SafetyReport \<Rightarrow> bool" where
  "blocked_sound t r \<longleftrightarrow> (sr_classification r = ScBlocked \<longleftrightarrow>
     has_missing_worktree t \<or> has_missing_branch t \<or> has_checkout_mismatch t)"

lemma mark_blocked: "sr_classification (mark c s r) = ScBlocked \<longleftrightarrow> c = ScBlocked \<or> sr_classification r = ScBlocked"
  by (cases c; cases "sr_classification r") (simp_all add: mark_def)

lemma mark_if_blocked:
  "sr_classification (mark_if b c s r) = ScBlocked \<longleftrightarrow> b \<and> c = ScBlocked \<or> sr_classification r = ScBlocked"
  by (auto simp: mark_if_def mark_blocked)

lemma mark_mismatch_blocked:
  "sr_classification (mark_mismatch t r) = ScBlocked \<longleftrightarrow> has_checkout_mismatch t \<or> sr_classification r = ScBlocked"
  using mismatch_explained [of t] by (auto simp: mark_mismatch_def mark_blocked)

lemma substrate_marks_blocked: "blocked_sound t (substrate_marks t git safe_report)"
  by (auto simp: blocked_sound_def substrate_marks_def mark_if_blocked mark_mismatch_blocked)

lemma mark_if_reasons: "sr_reasons (mark_if b c s r) = sr_reasons r @ (if b then [s] else [])"
  by (simp add: mark_if_def)

lemma mark_mismatch_reasons: "sr_reasons (mark_mismatch t r) = [] \<longleftrightarrow> sr_reasons r = [] \<and> \<not> has_checkout_mismatch t"
  using mismatch_explained [of t] by (auto simp: mark_mismatch_def)

lemma substrate_marks_reasons:
  "sr_reasons (substrate_marks t git r) = [] \<longleftrightarrow> clean_checkout t git \<and> sr_reasons r = []"
  by (auto simp: substrate_marks_def mark_if_reasons mark_mismatch_reasons clean_checkout_def)

lemma unpushed_mark_reasons:
  "sr_reasons (unpushed_mark t git r) = [] \<longleftrightarrow> all_pushed t git \<and> sr_reasons r = []"
  by (auto simp: unpushed_mark_def mark_if_reasons all_pushed_def)

section \<open>Lemmas: eligibility\<close>

lemma is_allowed_iff: "is_allowed (task_operation_eligibility t operation) \<longleftrightarrow> eligibility_reasons t operation = []"
  by (simp add: task_operation_eligibility_def Let_def)

lemma remove_allowed: "is_allowed (task_operation_eligibility t ToRemove) \<longleftrightarrow> t_lifecycle_status t \<noteq> LcRemoved"
  by (simp add: is_allowed_iff eligibility_reasons_def)

lemma merge_allowed:
  "is_allowed (task_operation_eligibility t ToMerge) \<longleftrightarrow>
     t_lifecycle_status t \<in> {LcReviewable, LcMergeable} \<and> \<not> has_missing_git_substrate t
     \<and> \<not> has_checkout_mismatch t"
  using mismatch_explained [of t] by (auto simp: is_allowed_iff eligibility_reasons_def)

lemma clean_allowed:
  "is_allowed (task_operation_eligibility t ToClean) \<longleftrightarrow>
     t_lifecycle_status t \<in> {LcMerged, LcCleanable, LcRemoving, LcTeardownIncomplete}
     \<and> \<not> has_missing_substrate t \<and> \<not> has_checkout_mismatch t"
  using mismatch_explained [of t] by (auto simp: is_allowed_iff eligibility_reasons_def)

lemma open_allowed:
  "is_allowed (task_operation_eligibility t ToOpen) \<longleftrightarrow>
     t_lifecycle_status t \<noteq> LcRemoved \<and> \<not> has_missing_substrate t"
  by (auto simp: is_allowed_iff eligibility_reasons_def)

section \<open>Properties\<close>

text \<open>A merge is reported safe exactly for a reviewable or mergeable task on a clean checkout of its
  branch with nothing unpushed, and then without any reason against it; it is reported as blocked exactly
  when the state of git is unknown or the merge operation is not eligible, so policy and eligibility agree.
  Cleaning up is reported safe exactly when, with the same clean checkout, the branch is merged.\<close>

theorem safety_agrees_with_eligibility:
  "(sr_classification (merge_safety t) = ScSafe \<longleftrightarrow>
      t_lifecycle_status t \<in> {LcReviewable, LcMergeable}
      \<and> (\<exists>git. t_git_status t = Some git \<and> clean_checkout t git \<and> all_pushed t git))
   \<and> (sr_reasons (merge_safety t) = [] \<longleftrightarrow> sr_classification (merge_safety t) = ScSafe)
   \<and> (sr_classification (merge_safety t) \<noteq> ScBlocked \<longleftrightarrow>
        t_git_status t \<noteq> None \<and> is_allowed (task_operation_eligibility t ToMerge))
   \<and> (sr_classification (cleanup_safety t) = ScSafe \<longleftrightarrow>
        (\<exists>git. t_git_status t = Some git \<and> clean_checkout t git \<and> all_pushed t git \<and> gs_merged git))"
proof (intro conjI)
  show "sr_classification (merge_safety t) = ScSafe \<longleftrightarrow>
      t_lifecycle_status t \<in> {LcReviewable, LcMergeable}
      \<and> (\<exists>git. t_git_status t = Some git \<and> clean_checkout t git \<and> all_pushed t git)"
    by (auto simp: merge_safety_def unpushed_mark_safe substrate_marks_safe split: option.split)
  show "sr_reasons (merge_safety t) = [] \<longleftrightarrow> sr_classification (merge_safety t) = ScSafe"
    by (auto simp: merge_safety_def unpushed_mark_safe substrate_marks_safe unpushed_mark_reasons
        substrate_marks_reasons split: option.split)
  show "sr_classification (merge_safety t) \<noteq> ScBlocked \<longleftrightarrow>
      t_git_status t \<noteq> None \<and> is_allowed (task_operation_eligibility t ToMerge)"
    using substrate_marks_blocked [of t]
    by (auto simp: merge_safety_def merge_allowed has_missing_git_substrate_def unpushed_mark_def
        mark_if_blocked blocked_sound_def split: option.split)
  show "sr_classification (cleanup_safety t) = ScSafe \<longleftrightarrow>
      (\<exists>git. t_git_status t = Some git \<and> clean_checkout t git \<and> all_pushed t git \<and> gs_merged git)"
    by (auto simp: cleanup_safety_def Let_def unpushed_mark_safe substrate_marks_safe mark_safe
        split: option.split)
qed

text \<open>No record of surviving work is pruned: when a worktree or a branch of the task was observed, the
  record stays unless both are flagged or observed as gone, and a removed task's record stays even then.
  A record of a task that is neither removed, stale nor under construction is never pruned, and the
  cockpit shows exactly the tasks that are not pruned.\<close>

theorem surviving_work_is_kept:
  "\<not> (is_registry_ghost_task t \<and> git_substrate_observed t \<and> t_lifecycle_status t = LcRemoved)
   \<and> \<not> (is_registry_ghost_task t \<and> git_substrate_observed t
         \<and> \<not> (git_worktree_absent t \<and> git_branch_absent t))
   \<and> \<not> (is_registry_ghost_task t \<and> \<not> has_side_flag SfStale t
       \<and> t_lifecycle_status t \<notin> {LcRemoved, LcCreated, LcProvisioning})
   \<and> (is_cockpit_visible_task t \<longleftrightarrow> \<not> is_registry_ghost_task t)"
  by (auto simp: is_registry_ghost_task_def is_cockpit_visible_task_def registry_persistence_disposition_def
      is_abandoned_provisioning_ghost_def has_no_recoverable_git_substrate_def split: if_splits)

end
