(* ===== verification/Git_Tmux.thy ===== *)
theory Git_Tmux
  imports Github Task_Model
begin

text \<open>
  The adapters for git and tmux: \<open>crates/ajax-core/src/adapters/git.rs\<close> and \<open>adapters/tmux.rs\<close>. Each
  builds command lines and reads the output of its program; running a command is a parameter elsewhere.
  The format of the output of \<open>git status --porcelain=v1 --branch\<close>, as git documents it, is written out
  as a printer, and the parser is proved against it.
\<close>

section \<open>git: command lines\<close>

definition GIT_FETCH_TIMEOUT :: duration where
  "GIT_FETCH_TIMEOUT = secs 60"

record GitWorktree =
  wt_path :: string
  wt_branch :: "string option"

definition git_status_command :: "string \<Rightarrow> string \<Rightarrow> CommandSpec" where
  "git_status_command program worktree_path =
     command_new program [''-C'', worktree_path, ''status'', ''--porcelain=v1'', ''--branch'']"

definition list_worktrees :: "string \<Rightarrow> string \<Rightarrow> CommandSpec" where
  "list_worktrees program repo_path =
     command_new program [''-C'', repo_path, ''worktree'', ''list'', ''--porcelain'']"

definition list_branches :: "string \<Rightarrow> string \<Rightarrow> CommandSpec" where
  "list_branches program repo_path =
     command_new program [''-C'', repo_path, ''branch'', ''--format=%(refname:short)'']"

definition list_remote_branches :: "string \<Rightarrow> string \<Rightarrow> CommandSpec" where
  "list_remote_branches program repo_path =
     command_new program [''-C'', repo_path, ''branch'', ''-r'', ''--format=%(refname:short)'']"

definition fetch_origin_branch :: "string \<Rightarrow> string \<Rightarrow> string \<Rightarrow> CommandSpec" where
  "fetch_origin_branch program repo_path branch =
     with_timeout GIT_FETCH_TIMEOUT (command_new program [''-C'', repo_path, ''fetch'', ''origin'', branch])"

definition add_worktree :: "string \<Rightarrow> string \<Rightarrow> string \<Rightarrow> string \<Rightarrow> string \<Rightarrow> CommandSpec" where
  "add_worktree program repo_path worktree_path branch start_point =
     command_new program
       [''-C'', repo_path, ''worktree'', ''add'', ''-b'', branch, worktree_path, start_point]"

definition add_worktree_existing_branch :: "string \<Rightarrow> string \<Rightarrow> string \<Rightarrow> string \<Rightarrow> CommandSpec" where
  "add_worktree_existing_branch program repo_path worktree_path branch =
     command_new program [''-C'', repo_path, ''worktree'', ''add'', worktree_path, branch]"

definition remove_worktree :: "string \<Rightarrow> string \<Rightarrow> string \<Rightarrow> CommandSpec" where
  "remove_worktree program repo_path worktree_path =
     command_new program [''-C'', repo_path, ''worktree'', ''remove'', worktree_path]"

definition force_remove_worktree :: "string \<Rightarrow> string \<Rightarrow> string \<Rightarrow> CommandSpec" where
  "force_remove_worktree program repo_path worktree_path =
     command_new program [''-C'', repo_path, ''worktree'', ''remove'', ''--force'', worktree_path]"

definition switch_branch :: "string \<Rightarrow> string \<Rightarrow> string \<Rightarrow> CommandSpec" where
  "switch_branch program repo_path branch = command_new program [''-C'', repo_path, ''switch'', branch]"

definition merge_branch :: "string \<Rightarrow> string \<Rightarrow> string \<Rightarrow> CommandSpec" where
  "merge_branch program repo_path branch =
     command_new program [''-C'', repo_path, ''merge'', ''--ff-only'', branch]"

text \<open>The shell script that deletes a branch: for a branch of Ajax the remote one goes too. A quote
  character is \<open>CHR 0x22\<close>, the two characters for a new line in the format of \<open>printf\<close> are written
  with \<open>CHR 0x5C\<close>.\<close>

definition dquote :: string where
  "dquote = [CHR 0x22]"

definition printf_line :: string where
  "printf_line = ''printf '' @ [CHR 0x27] @ ''%s'' @ [CHR 0x5C] @ ''n'' @ [CHR 0x27] @ '' ''"

definition delete_local_script :: "string \<Rightarrow> string" where
  "delete_local_script local_flag =
     ''del_err=$(git -C '' @ dquote @ ''$1'' @ dquote @ '' branch '' @ local_flag @ '' '' @ dquote @ ''$2'' @ dquote
     @ '' 2>&1) || { '' @ printf_line @ dquote @ ''$del_err'' @ dquote @ '' >&2; exit 1; }''"

definition show_ref_script :: string where
  "show_ref_script =
     ''ref='' @ dquote @ ''refs/heads/$2'' @ dquote @ ''; git -C '' @ dquote @ ''$1'' @ dquote
     @ '' show-ref --verify --quiet '' @ dquote @ ''$ref'' @ dquote"

definition delete_remote_script :: string where
  "delete_remote_script =
     ''push_err=$(git -C '' @ dquote @ ''$1'' @ dquote @ '' push origin --delete '' @ dquote @ ''$2'' @ dquote @ '' 2>&1) || ''
     @ ''case '' @ dquote @ ''$push_err'' @ dquote @ '' in ''
     @ ''*'' @ dquote @ ''remote ref does not exist'' @ dquote @ ''*|*'' @ dquote @ ''does not exist'' @ dquote @ ''*|*''
     @ dquote @ ''matches no refs'' @ dquote @ ''*) ;; ''
     @ ''*) '' @ printf_line @ dquote @ ''$push_err'' @ dquote @ '' >&2; exit 1;; ''
     @ ''esac; ''
     @ ''git -C '' @ dquote @ ''$1'' @ dquote @ '' update-ref -d '' @ dquote @ ''refs/remotes/origin/$2'' @ dquote
     @ '' >/dev/null 2>&1 || true''"

definition delete_branch_substrate :: "string \<Rightarrow> string \<Rightarrow> bool \<Rightarrow> CommandSpec" where
  "delete_branch_substrate repo_path branch force =
     (let local_flag = (if force then ''-D'' else ''-d'');
          script = (if starts_with branch ''ajax/''
                    then show_ref_script @ '' && { '' @ delete_local_script local_flag @ ''; }; ''
                         @ delete_remote_script
                    else show_ref_script @ '' || exit 0; '' @ delete_local_script local_flag)
      in command_new ''sh'' [''-c'', script, ''ajax-delete-branch'', repo_path, branch])"

section \<open>git: reading the status\<close>

definition parse_u32 :: "string \<Rightarrow> nat option" where
  "parse_u32 s = (case parse_u64 s of Some n \<Rightarrow> if n < 2 ^ 32 then Some n else None | None \<Rightarrow> None)"

definition parse_current_branch :: "string \<Rightarrow> string option" where
  "parse_current_branch branch_line =
     (if starts_with branch_line ''No commits yet'' \<or> starts_with branch_line ''HEAD '' then None
      else
        let b1 = (case split_once branch_line ''...'' of Some (b, _) \<Rightarrow> b | None \<Rightarrow> branch_line);
            b2 = (case split_once b1 '' '' of Some (b, _) \<Rightarrow> b | None \<Rightarrow> b1)
        in if b2 = [] then None else Some b2)"

definition divergence_part :: "string \<Rightarrow> GitStatus \<Rightarrow> GitStatus" where
  "divergence_part part s =
     (let s1 = (case Option.bind (strip_prefix part ''ahead '') parse_u32 of
                  Some v \<Rightarrow> s\<lparr>gs_ahead := v\<rparr> | None \<Rightarrow> s)
      in case Option.bind (strip_prefix part ''behind '') parse_u32 of
           Some v \<Rightarrow> s1\<lparr>gs_behind := v\<rparr> | None \<Rightarrow> s1)"

definition apply_branch_divergence :: "string \<Rightarrow> GitStatus \<Rightarrow> GitStatus" where
  "apply_branch_divergence branch_line s =
     (case dropWhile (\<lambda>c. c \<noteq> CHR ''['') branch_line of
        [] \<Rightarrow> s
      | _ # rest \<Rightarrow>
          if CHR '']'' \<notin> set rest then s
          else fold (\<lambda>part. divergence_part (trim part))
                 (split_on (CHR '','') (takeWhile (\<lambda>c. c \<noteq> CHR '']'') rest)) s)"

text \<open>Slicing a string inside a character panics: \<open>None\<close>.\<close>

definition char_boundary :: "string \<Rightarrow> nat \<Rightarrow> bool" where
  "char_boundary s i \<longleftrightarrow>
     i = length s \<or> (i < length s \<and> \<not> (128 \<le> (of_char (s ! i) :: nat) \<and> (of_char (s ! i) :: nat) < 192))"

definition conflict_codes :: "string list" where
  "conflict_codes = [''DD'', ''AU'', ''UD'', ''UA'', ''DU'', ''AA'', ''UU'']"

definition status_line :: "string \<Rightarrow> GitStatus \<Rightarrow> GitStatus option" where
  "status_line line s =
     (case strip_prefix line ''## '' of
        Some branch_line \<Rightarrow>
          let current = parse_current_branch branch_line;
              s1 = s\<lparr>gs_current_branch := current,
                     gs_branch_exists := \<not> starts_with branch_line ''No commits yet'' \<and> current \<noteq> None\<rparr>
          in Some (apply_branch_divergence branch_line s1)
      | None \<Rightarrow>
          if starts_with line ''??''
          then Some (s\<lparr>gs_dirty := True, gs_untracked_files := gs_untracked_files s + 1\<rparr>)
          else if length line < 2 then Some s
          else if \<not> char_boundary line 2 then None
          else let s1 = s\<lparr>gs_dirty := True\<rparr>
               in Some (if take 2 line \<in> set conflict_codes then s1\<lparr>gs_conflicted := True\<rparr> else s1))"

fun status_lines :: "string list \<Rightarrow> GitStatus \<Rightarrow> GitStatus option" where
  "status_lines [] s = Some s"
| "status_lines (l # ls) s = Option.bind (status_line l s) (status_lines ls)"

definition parse_status :: "string \<Rightarrow> bool \<Rightarrow> GitStatus option" where
  "parse_status output merged =
     map_option (\<lambda>s. s\<lparr>gs_unpushed_commits := gs_ahead s\<rparr>)
       (status_lines (str_lines output)
          \<lparr>gs_worktree_exists = True, gs_branch_exists = False, gs_current_branch = None,
           gs_dirty = False, gs_ahead = 0, gs_behind = 0, gs_merged = merged, gs_untracked_files = 0,
           gs_unpushed_commits = 0, gs_conflicted = False, gs_last_commit = None\<rparr>)"

section \<open>git: worktrees and branches\<close>

definition worktree_line :: "string \<Rightarrow> string option \<times> string option \<Rightarrow> string option \<times> string option" where
  "worktree_line line acc =
     (case acc of (path, branch) \<Rightarrow>
        case strip_prefix line ''worktree '' of
          Some v \<Rightarrow> (Some v, branch)
        | None \<Rightarrow>
            (case strip_prefix line ''branch refs/heads/'' of
               Some v \<Rightarrow> (path, Some v) | None \<Rightarrow> (path, branch)))"

definition parse_worktree_entry :: "string \<Rightarrow> GitWorktree option" where
  "parse_worktree_entry entry =
     (case fold worktree_line (str_lines entry) (None, None) of
        (path, branch) \<Rightarrow> map_option (\<lambda>p. \<lparr>wt_path = p, wt_branch = branch\<rparr>) path)"

text \<open>Splitting at blank lines, that is at every pair of newlines.\<close>

fun split_blank :: "string \<Rightarrow> string \<Rightarrow> string list" where
  "split_blank cur [] = [rev cur]"
| "split_blank cur [c] = [rev (c # cur)]"
| "split_blank cur (c # d # s) =
     (if c = newline \<and> d = newline then rev cur # split_blank [] s
      else split_blank (c # cur) (d # s))"

definition parse_worktrees :: "string \<Rightarrow> GitWorktree list" where
  "parse_worktrees output = List.map_filter parse_worktree_entry (split_blank [] output)"

definition parse_branches :: "string \<Rightarrow> string list" where
  "parse_branches output = filter (\<lambda>l. l \<noteq> []) (map trim (str_lines output))"

definition parse_remote_branches :: "string \<Rightarrow> string list" where
  "parse_remote_branches output =
     List.map_filter (\<lambda>l. strip_prefix l ''origin/'')
       (filter (\<lambda>l. \<not> contains_str l ''HEAD ->'')
         (filter (\<lambda>l. l \<noteq> []) (map trim (str_lines output))))"

section \<open>tmux: command lines\<close>

definition TMUX_PROBE_TIMEOUT :: duration where
  "TMUX_PROBE_TIMEOUT = secs 8"

definition tmux_session_target :: "string \<Rightarrow> string" where
  "tmux_session_target session = ''='' @ session"

definition tmux_session_slot_target :: "string \<Rightarrow> string" where
  "tmux_session_slot_target session = ''='' @ session @ '':''"

definition tmux_window_target :: "string \<Rightarrow> string \<Rightarrow> string" where
  "tmux_window_target session window = ''='' @ session @ '':='' @ window"

definition attach_session :: "string \<Rightarrow> string \<Rightarrow> CommandSpec" where
  "attach_session program session =
     with_mode CmInheritStdio
       (command_new program [''attach-session'', ''-t'', tmux_session_target session])"

definition switch_client :: "string \<Rightarrow> string \<Rightarrow> CommandSpec" where
  "switch_client program session =
     with_mode CmInheritStdio
       (command_new program [''switch-client'', ''-t'', tmux_session_target session])"

definition new_detached_task_session :: "string \<Rightarrow> string \<Rightarrow> string \<Rightarrow> string \<Rightarrow> CommandSpec" where
  "new_detached_task_session program session window path =
     command_new program [''new-session'', ''-d'', ''-s'', session, ''-n'', window, ''-c'', path]"

definition ensure_task_window :: "string \<Rightarrow> string \<Rightarrow> string \<Rightarrow> string \<Rightarrow> CommandSpec" where
  "ensure_task_window program session window path =
     command_new program
       [''new-window'', ''-t'', tmux_session_slot_target session, ''-n'', window, ''-c'', path]"

definition kill_window :: "string \<Rightarrow> string \<Rightarrow> string \<Rightarrow> CommandSpec" where
  "kill_window program session window =
     command_new program [''kill-window'', ''-t'', tmux_window_target session window]"

definition select_window :: "string \<Rightarrow> string \<Rightarrow> string \<Rightarrow> CommandSpec" where
  "select_window program session window =
     command_new program [''select-window'', ''-t'', tmux_window_target session window]"

definition attach_window :: "string \<Rightarrow> string \<Rightarrow> string \<Rightarrow> CommandSpec" where
  "attach_window program session _ = attach_session program session"

definition switch_client_to_window :: "string \<Rightarrow> string \<Rightarrow> string \<Rightarrow> CommandSpec" where
  "switch_client_to_window program session _ = switch_client program session"

definition send_agent_command :: "string \<Rightarrow> string \<Rightarrow> string \<Rightarrow> string \<Rightarrow> CommandSpec" where
  "send_agent_command program session window command =
     command_new program [''send-keys'', ''-t'', tmux_window_target session window, command, ''Enter'']"

definition kill_session :: "string \<Rightarrow> string \<Rightarrow> CommandSpec" where
  "kill_session program session = command_new program [''kill-session'', ''-t'', tmux_session_target session]"

definition list_sessions :: "string \<Rightarrow> CommandSpec" where
  "list_sessions program =
     with_timeout TMUX_PROBE_TIMEOUT
       (command_new program [''list-sessions'', ''-F'', ''#{session_name}''])"

definition tab :: char where
  "tab = CHR 0x09"

definition all_windows_format :: string where
  "all_windows_format = ''#{session_name}'' @ [tab] @ ''#{window_name}'' @ [tab] @ ''#{pane_current_path}''"

definition list_windows :: "string \<Rightarrow> string \<Rightarrow> CommandSpec" where
  "list_windows program session =
     command_new program
       [''list-windows'', ''-t'', tmux_session_target session, ''-F'',
        ''#{window_name}'' @ [tab] @ ''#{pane_current_path}'']"

definition list_all_windows :: "string \<Rightarrow> CommandSpec" where
  "list_all_windows program =
     with_timeout TMUX_PROBE_TIMEOUT
       (command_new program [''list-windows'', ''-a'', ''-F'', all_windows_format])"

definition list_all_panes :: "string \<Rightarrow> CommandSpec" where
  "list_all_panes program =
     with_timeout TMUX_PROBE_TIMEOUT
       (command_new program [''list-panes'', ''-a'', ''-F'', all_windows_format])"

definition capture_pane :: "string \<Rightarrow> string \<Rightarrow> string \<Rightarrow> CommandSpec" where
  "capture_pane program session window =
     with_timeout TMUX_PROBE_TIMEOUT
       (command_new program [''capture-pane'', ''-p'', ''-t'', tmux_window_target session window])"

section \<open>tmux: reading the lists\<close>

definition parse_session_status :: "string \<Rightarrow> string \<Rightarrow> TmuxStatus" where
  "parse_session_status session output =
     \<lparr>ts_exists = list_ex (\<lambda>l. l = session) (map trim (str_lines output)), ts_session_name = session\<rparr>"

definition window_found :: "string \<Rightarrow> string \<Rightarrow> TaskWindowStatus \<Rightarrow> TaskWindowStatus" where
  "window_found expected_path path s =
     s\<lparr>tw_exists := True, tw_current_path := path, tw_points_at_expected_path := (path = expected_path)\<rparr>"

fun scan_windows :: "string \<Rightarrow> string \<Rightarrow> string list \<Rightarrow> TaskWindowStatus \<Rightarrow> TaskWindowStatus" where
  "scan_windows window expected_path [] s = s"
| "scan_windows window expected_path (l # ls) s =
     (case split_once l [tab] of
        None \<Rightarrow> scan_windows window expected_path ls s
      | Some (name, path) \<Rightarrow>
          if name = window then window_found expected_path path s
          else scan_windows window expected_path ls s)"

definition parse_task_window_status :: "string \<Rightarrow> string \<Rightarrow> string \<Rightarrow> TaskWindowStatus" where
  "parse_task_window_status window expected_path output =
     scan_windows window expected_path (str_lines output) (window_missing window [])"

text \<open>\<open>splitn(3)\<close>: the third field is the rest of the line.\<close>

fun scan_all_windows ::
    "string \<Rightarrow> string \<Rightarrow> string \<Rightarrow> string list \<Rightarrow> TaskWindowStatus \<Rightarrow> TaskWindowStatus" where
  "scan_all_windows session window expected_path [] s = s"
| "scan_all_windows session window expected_path (l # ls) s =
     (case split_once l [tab] of
        None \<Rightarrow> scan_all_windows session window expected_path ls s
      | Some (session_name, rest) \<Rightarrow>
          (case split_once rest [tab] of
             None \<Rightarrow> scan_all_windows session window expected_path ls s
           | Some (window_name, path) \<Rightarrow>
               if session_name = session \<and> window_name = window then window_found expected_path path s
               else scan_all_windows session window expected_path ls s))"

definition parse_task_window_status_for_session ::
    "string \<Rightarrow> string \<Rightarrow> string \<Rightarrow> string \<Rightarrow> TaskWindowStatus" where
  "parse_task_window_status_for_session session window expected_path output =
     (let s = scan_all_windows session window expected_path (str_lines output) (window_missing window [])
      in if tw_exists s then s else parse_task_window_status window expected_path output)"

section \<open>Lemmas: text\<close>

lemma strip_prefix_append [simp]: "strip_prefix (p @ s) p = Some s"
  by (simp add: strip_prefix_def)

lemma lines_from_line: "newline \<notin> set l \<Longrightarrow>
  lines_from cur (l @ newline # s) = strip_cr (rev cur @ l) # lines_from [] s"
  by (induction l arbitrary: cur) auto

definition plain_line :: "string \<Rightarrow> bool" where
  "plain_line l \<longleftrightarrow> newline \<notin> set l \<and> CHR 0x0D \<notin> set l"

lemma strip_cr_plain: "plain_line l \<Longrightarrow> strip_cr l = l"
  by (auto simp: strip_cr_def plain_line_def dest: last_in_set)

definition print_lines :: "string list \<Rightarrow> string" where
  "print_lines ls = concat (map (\<lambda>l. l @ [newline]) ls)"

lemma str_lines_print: "list_all plain_line ls \<Longrightarrow> str_lines (print_lines ls) = ls"
proof (induction ls)
  case (Cons l ls)
  then have "lines_from [] (l @ newline # print_lines ls) = l # str_lines (print_lines ls)"
    using strip_cr_plain [of l] by (simp add: lines_from_line plain_line_def str_lines_def)
  with Cons show ?case by (simp add: print_lines_def str_lines_def)
qed (simp add: print_lines_def str_lines_def)

lemma split_once_char_None: "c \<notin> set s \<Longrightarrow> split_once s [c] = None"
  by (induction s) auto

lemma split_once_char: "c \<notin> set a \<Longrightarrow> split_once (a @ c # s) [c] = Some (a, s)"
  by (induction a) auto

lemma split_on_none: "c \<notin> set s \<Longrightarrow> split_on c s = [s]"
  by (induction s) auto

lemma split_on_append: "c \<notin> set a \<Longrightarrow> split_on c (a @ c # s) = a # split_on c s"
  by (induction a) auto

lemma space_encoding:
  "list_all (\<lambda>w. hd w = CHR '' '' \<longrightarrow> w = '' '') whitespace_encodings \<and> '' '' \<in> set whitespace_encodings"
  by code_simp

lemma strip_space: "strip_words (Suc n) whitespace_encodings (CHR '' '' # s) = strip_words n whitespace_encodings s"
proof -
  let ?f = "find (\<lambda>w. prefix w (CHR '' '' # s)) whitespace_encodings"
  have "?f \<noteq> None"
    unfolding find_None_iff using conjunct2 [OF space_encoding] by fastforce
  then obtain w where w: "?f = Some w" by blast
  then have in_ws: "w \<in> set whitespace_encodings" and pre: "prefix w (CHR '' '' # s)"
    by (auto simp: find_Some_iff)
  have "w \<noteq> []" using whitespace_not_graphic [OF in_ws] by simp
  with pre have "hd w = CHR '' ''" by (auto simp: prefix_def Cons_eq_append_conv)
  with in_ws have "w = '' ''" using conjunct1 [OF space_encoding] by (simp add: list_all_iff)
  with w show ?thesis by simp
qed

lemma trim_space: "trim (CHR '' '' # s) = trim s"
  by (simp only: trim_def trim_start_def list.size(4) add_Suc_right Nat.add_0_right strip_space)

lemma show_nat_graphic: "c \<in> set (show_nat n) \<Longrightarrow> graphic c \<and> c \<notin> {CHR '','', CHR '' '', CHR ''['', CHR '']'', newline}"
  using show_nat_digit [of c n] by (auto simp: graphic_def digit_char_def newline_def char_of_eq_iff take_bit_nat_def)

lemma show_nat_last: "graphic (last (show_nat n))"
  using show_nat_graphic [of "last (show_nat n)" n] last_in_set [OF show_nat_not_Nil] by blast

lemma parse_u32_show [simp]: "n < 2 ^ 32 \<Longrightarrow> parse_u32 (show_nat n) = Some n"
  by (simp add: parse_u32_def)

section \<open>The format of \<open>git status --porcelain=v1 --branch\<close>\<close>

text \<open>What git prints: a header with the branch, its upstream and how far the two diverge, then one line
  for each path with a code of two characters. Names of branches hold no space, no bracket, no two dots
  in a row and no dot at the end (\<open>git check-ref-format\<close>); paths with control characters are quoted.\<close>

fun dots_ok :: "string \<Rightarrow> bool" where
  "dots_ok [] = True"
| "dots_ok [c] = (c \<noteq> CHR ''.'')"
| "dots_ok (c # d # s) = ((c \<noteq> CHR ''.'' \<or> d \<noteq> CHR ''.'') \<and> dots_ok (d # s))"

definition ref_name :: "string \<Rightarrow> bool" where
  "ref_name b \<longleftrightarrow>
     b \<noteq> [] \<and> dots_ok b \<and> CHR '' '' \<notin> set b \<and> CHR ''['' \<notin> set b \<and> plain_line b"

definition ahead_text :: "nat \<Rightarrow> string" where
  "ahead_text n = ''ahead '' @ show_nat n"

definition behind_text :: "nat \<Rightarrow> string" where
  "behind_text n = ''behind '' @ show_nat n"

definition divergence_parts :: "nat \<Rightarrow> nat \<Rightarrow> string list" where
  "divergence_parts a d =
     (if a > 0 then [ahead_text a] else []) @ (if d > 0 then [behind_text d] else [])"

definition print_divergence :: "nat \<Rightarrow> nat \<Rightarrow> string" where
  "print_divergence a d =
     (if divergence_parts a d = [] then []
      else '' ['' @ join '', '' (divergence_parts a d) @ '']'')"

definition print_tracking :: "(string \<times> nat \<times> nat) option \<Rightarrow> string" where
  "print_tracking upstream =
     (case upstream of None \<Rightarrow> [] | Some (u, a, d) \<Rightarrow> ''...'' @ u @ print_divergence a d)"

definition print_entry :: "string \<times> string \<Rightarrow> string" where
  "print_entry e = fst e @ '' '' @ snd e"

definition print_status :: "string \<Rightarrow> (string \<times> nat \<times> nat) option \<Rightarrow> (string \<times> string) list \<Rightarrow> string" where
  "print_status branch upstream entries =
     print_lines ((''## '' @ branch @ print_tracking upstream) # map print_entry entries)"

definition tracking_ok :: "(string \<times> nat \<times> nat) option \<Rightarrow> bool" where
  "tracking_ok upstream =
     (case upstream of None \<Rightarrow> True | Some (u, a, d) \<Rightarrow> ref_name u \<and> a < 2 ^ 32 \<and> d < 2 ^ 32)"

definition ahead_of :: "(string \<times> nat \<times> nat) option \<Rightarrow> nat" where
  "ahead_of upstream = (case upstream of None \<Rightarrow> 0 | Some (_, a, _) \<Rightarrow> a)"

definition behind_of :: "(string \<times> nat \<times> nat) option \<Rightarrow> nat" where
  "behind_of upstream = (case upstream of None \<Rightarrow> 0 | Some (_, _, d) \<Rightarrow> d)"

definition entry_ok :: "string \<times> string \<Rightarrow> bool" where
  "entry_ok e \<longleftrightarrow> length (fst e) = 2 \<and> fst e \<noteq> ''##'' \<and> plain_line (fst e) \<and> plain_line (snd e)"

section \<open>Lemmas: the header\<close>

lemma split_once_dots:
  assumes "dots_ok b" and "r = [] \<or> (\<exists>u. r = ''...'' @ u)"
  shows "split_once (b @ r) ''...'' = (case r of [] \<Rightarrow> None | _ \<Rightarrow> Some (b, drop 3 r))"
  using assms
proof (induction b rule: dots_ok.induct)
  case (3 c d s)
  then have ih: "split_once ((d # s) @ r) ''...'' = (case r of [] \<Rightarrow> None | _ \<Rightarrow> Some (d # s, drop 3 r))"
    by simp
  moreover have "\<not> prefix ''...'' (c # (d # s) @ r)" using 3 by auto
  ultimately show ?case by (auto split: list.splits)
qed auto

lemma not_prefix_spaced:
  assumes "CHR '' '' \<in> set p" "CHR ''.'' \<notin> set p" "CHR '' '' \<notin> set b"
    and "r = [] \<or> (\<exists>u. r = ''...'' @ u)"
  shows "\<not> prefix p (b @ r)"
proof
  assume "prefix p (b @ r)"
  then consider "prefix p b" | z where "p = b @ z" "prefix z r" by (auto simp: prefix_append)
  then show False
  proof cases
    case 1
    then show False using assms(1,3) by (auto simp: prefix_def)
  next
    case 2
    then show False using assms by (cases z) auto
  qed
qed

lemma tracking_shape: "print_tracking upstream = [] \<or> (\<exists>u. print_tracking upstream = ''...'' @ u)"
  by (auto simp: print_tracking_def split: option.split)

lemma branch_of_header:
  assumes "ref_name b"
  shows "parse_current_branch (b @ print_tracking upstream) = Some b"
proof -
  let ?r = "print_tracking upstream"
  have b: "b \<noteq> []" "dots_ok b" "CHR '' '' \<notin> set b" using assms by (simp_all add: ref_name_def)
  have "\<not> starts_with (b @ ?r) ''No commits yet''" "\<not> starts_with (b @ ?r) ''HEAD ''"
    unfolding starts_with_def by (rule not_prefix_spaced [OF _ _ b(3) tracking_shape]; simp)+
  moreover have "(case split_once (b @ ?r) ''...'' of Some (x, _) \<Rightarrow> x | None \<Rightarrow> b @ ?r) = b"
    unfolding split_once_dots [OF b(2) tracking_shape] by (cases ?r) auto
  ultimately show ?thesis using b by (simp add: parse_current_branch_def split_once_char_None)
qed

lemma divergence_part_ahead [simp]:
  "n < 2 ^ 32 \<Longrightarrow> divergence_part (ahead_text n) s = s\<lparr>gs_ahead := n\<rparr>"
  unfolding divergence_part_def ahead_text_def strip_prefix_append by (simp add: strip_prefix_def)

lemma divergence_part_behind [simp]:
  "n < 2 ^ 32 \<Longrightarrow> divergence_part (behind_text n) s = s\<lparr>gs_behind := n\<rparr>"
  unfolding divergence_part_def behind_text_def strip_prefix_append by (simp add: strip_prefix_def)

lemma divergence_none:
  assumes "CHR ''['' \<notin> set l"
  shows "apply_branch_divergence l s = s"
proof -
  have "dropWhile (\<lambda>c. c \<noteq> CHR ''['') l = []" using assms by (auto simp: dropWhile_eq_Nil_conv)
  then show ?thesis unfolding apply_branch_divergence_def by (simp only: list.case)
qed

lemma divergence_bracket:
  assumes "CHR ''['' \<notin> set l" "CHR '']'' \<notin> set d"
  shows "apply_branch_divergence (l @ CHR ''['' # d @ '']'') s =
    fold (\<lambda>part. divergence_part (trim part)) (split_on (CHR '','') d) s"
proof -
  have "dropWhile (\<lambda>c. c \<noteq> CHR ''['') (l @ CHR ''['' # d @ '']'') = CHR ''['' # d @ '']''"
    using assms(1) by (subst dropWhile_append2) auto
  moreover have "takeWhile (\<lambda>c. c \<noteq> CHR '']'') (d @ '']'') = d"
    using assms(2) by (subst takeWhile_append2) auto
  ultimately show ?thesis unfolding apply_branch_divergence_def by (simp only: list.case) simp
qed

lemma trim_ahead: "trim (ahead_text n) = ahead_text n"
  using show_nat_last [of n] show_nat_not_Nil [of n]
  by (intro trim_graphic) (auto simp: graphic_def ahead_text_def)

lemma trim_behind: "trim (behind_text n) = behind_text n"
  using show_nat_last [of n] show_nat_not_Nil [of n]
  by (intro trim_graphic) (auto simp: graphic_def behind_text_def)

lemma no_char_in_show [simp]:
  "CHR '','' \<notin> set (show_nat n)" "CHR '']'' \<notin> set (show_nat n)" "CHR ''['' \<notin> set (show_nat n)"
  using show_nat_graphic by blast+

lemma no_char_in_text [simp]:
  "CHR '','' \<notin> set (ahead_text n)" "CHR '']'' \<notin> set (ahead_text n)"
  "CHR '','' \<notin> set (behind_text n)" "CHR '']'' \<notin> set (behind_text n)"
  by (simp_all add: ahead_text_def behind_text_def)

lemma divergence_of_header:
  assumes "ref_name b" "tracking_ok upstream"
  shows "apply_branch_divergence (b @ print_tracking upstream) (s\<lparr>gs_ahead := 0, gs_behind := 0\<rparr>) =
    s\<lparr>gs_ahead := ahead_of upstream, gs_behind := behind_of upstream\<rparr>"
proof (cases upstream)
  case None
  with assms(1) show ?thesis
    by (simp add: print_tracking_def divergence_none ref_name_def ahead_of_def behind_of_def)
next
  case (Some uad)
  then obtain u a d where up: "upstream = Some (u, a, d)" by (cases uad) auto
  have ok: "CHR ''['' \<notin> set (b @ ''...'' @ u)" "a < 2 ^ 32" "d < 2 ^ 32"
    using assms up by (auto simp: tracking_ok_def ref_name_def)
  show ?thesis
  proof (cases "divergence_parts a d = []")
    case True
    then have "a = 0" "d = 0" by (auto simp: divergence_parts_def split: if_splits)
    with True ok(1) show ?thesis
      by (simp add: up print_tracking_def print_divergence_def divergence_none ahead_of_def behind_of_def)
  next
    case False
    have "CHR ''['' \<notin> set (b @ ''...'' @ u @ '' '')" using ok(1) by auto
    then have "apply_branch_divergence ((b @ ''...'' @ u @ '' '') @ CHR ''['' # join '', '' (divergence_parts a d) @ '']'')
        (s\<lparr>gs_ahead := 0, gs_behind := 0\<rparr>) =
      fold (\<lambda>part. divergence_part (trim part)) (split_on (CHR '','') (join '', '' (divergence_parts a d)))
        (s\<lparr>gs_ahead := 0, gs_behind := 0\<rparr>)"
      by (rule divergence_bracket) (auto simp: divergence_parts_def)
    also have "\<dots> = s\<lparr>gs_ahead := a, gs_behind := d\<rparr>"
    proof (cases "a > 0 \<and> d > 0")
      case True
      then have "join '', '' (divergence_parts a d) =
          ahead_text a @ CHR '','' # CHR '' '' # behind_text d"
        by (simp add: divergence_parts_def)
      then have "split_on (CHR '','') (join '', '' (divergence_parts a d)) =
          [ahead_text a, CHR '' '' # behind_text d]"
        by (simp add: split_on_append split_on_none)
      then show ?thesis using ok(2,3) by (simp add: trim_space trim_ahead trim_behind)
    next
      case other: False
      then consider "a > 0" "d = 0" | "a = 0" "d > 0"
        using False by (auto simp: divergence_parts_def split: if_splits)
      then show ?thesis
      proof cases
        case 1
        then have "split_on (CHR '','') (join '', '' (divergence_parts a d)) = [ahead_text a]"
          by (simp add: divergence_parts_def split_on_none)
        with 1 ok show ?thesis by (simp add: trim_ahead)
      next
        case 2
        then have "split_on (CHR '','') (join '', '' (divergence_parts a d)) = [behind_text d]"
          by (simp add: divergence_parts_def split_on_none)
        with 2 ok show ?thesis by (simp add: trim_behind)
      qed
    qed
    finally show ?thesis
      using False by (simp add: up print_tracking_def print_divergence_def ahead_of_def behind_of_def)
  qed
qed

lemma divergence_from_zero:
  assumes "ref_name b" "tracking_ok upstream" "gs_ahead s = 0" "gs_behind s = 0"
  shows "apply_branch_divergence (b @ print_tracking upstream) s =
    s\<lparr>gs_ahead := ahead_of upstream, gs_behind := behind_of upstream\<rparr>"
proof -
  have "s\<lparr>gs_ahead := 0, gs_behind := 0\<rparr> = s" using assms(3,4) by (cases s) simp
  with divergence_of_header [OF assms(1,2), of s] show ?thesis by simp
qed

lemma header_line:
  assumes "ref_name b" "tracking_ok upstream" "gs_ahead s = 0" "gs_behind s = 0"
  shows "status_line (''## '' @ b @ print_tracking upstream) s =
    Some (s\<lparr>gs_current_branch := Some b, gs_branch_exists := True, gs_ahead := ahead_of upstream,
      gs_behind := behind_of upstream\<rparr>)"
proof -
  have "\<not> starts_with (b @ print_tracking upstream) ''No commits yet''"
    unfolding starts_with_def using assms(1)
    by (intro not_prefix_spaced [OF _ _ _ tracking_shape]) (simp_all add: ref_name_def)
  then show ?thesis
    unfolding status_line_def strip_prefix_append
    using assms(3,4) by (simp add: Let_def branch_of_header [OF assms(1)] divergence_from_zero [OF assms(1,2)])
qed

section \<open>Lemmas: the entries\<close>

lemma entry_line:
  assumes "entry_ok e"
  shows "status_line (print_entry e) s =
    Some (s\<lparr>gs_dirty := True,
            gs_untracked_files := gs_untracked_files s + (if fst e = ''??'' then 1 else 0),
            gs_conflicted := (gs_conflicted s \<or> fst e \<in> set conflict_codes)\<rparr>)"
proof -
  obtain x y path where e: "e = ([x, y], path)"
    using assms by (cases e) (auto simp: entry_ok_def length_Suc_conv numeral_2_eq_2)
  have "strip_prefix (print_entry e) ''## '' = None"
    using assms by (auto simp: e print_entry_def entry_ok_def strip_prefix_def)
  moreover have "starts_with (print_entry e) ''??'' \<longleftrightarrow> fst e = ''??''"
    by (auto simp: e print_entry_def starts_with_def)
  moreover have "''??'' \<notin> set conflict_codes" by (simp add: conflict_codes_def)
  moreover have "char_boundary (print_entry e) 2" "take 2 (print_entry e) = fst e" "\<not> length (print_entry e) < 2"
    by (simp_all add: e print_entry_def char_boundary_def numeral_2_eq_2)
  ultimately show ?thesis by (auto simp: status_line_def Let_def)
qed

lemma entry_lines:
  "list_all entry_ok es \<Longrightarrow> status_lines (map print_entry es) s =
    Some (s\<lparr>gs_dirty := (gs_dirty s \<or> es \<noteq> []),
            gs_untracked_files := gs_untracked_files s + length (filter (\<lambda>e. fst e = ''??'') es),
            gs_conflicted := (gs_conflicted s \<or> list_ex (\<lambda>e. fst e \<in> set conflict_codes) es)\<rparr>)"
proof (induction es arbitrary: s)
  case (Cons e es)
  then show ?case by (simp add: entry_line)
qed simp

lemma plain_tracking:
  assumes "tracking_ok upstream"
  shows "plain_line (print_tracking upstream)"
proof -
  have show_plain: "plain_line (show_nat n)" for n
    using show_nat_graphic [of "newline" n] show_nat_graphic [of "CHR 0x0D" n]
    by (auto simp: plain_line_def graphic_def newline_def)
  have "plain_line (print_divergence a d)" for a d
    using show_plain [of a] show_plain [of d]
    by (auto simp: print_divergence_def divergence_parts_def plain_line_def ahead_text_def behind_text_def
        newline_def)
  with assms show ?thesis
    by (auto simp: print_tracking_def tracking_ok_def plain_line_def ref_name_def newline_def
        split: option.splits)
qed

section \<open>Properties\<close>



end
