(* ===== verification/Agent_Status.thy ===== *)
theory Agent_Status
  imports Model_Types
begin

text \<open>
  The status reducer of \<open>crates/ajax-core/src/agent_status.rs\<close>: observations of agent runs from
  several sources are reduced to one projection of the primary run. The lemmas show which
  observations count (expiry), that the result does not depend on their order as far as the phase and
  the selected evidence go, and that completion is never reported while a delegated run is active.
\<close>

section \<open>Delegation summaries\<close>

definition SUMMARY_WAITING_ON_DELEGATED :: string where
  "SUMMARY_WAITING_ON_DELEGATED = ''waiting on delegated runs''"

definition SUMMARY_DELEGATED_STILL_ACTIVE :: string where
  "SUMMARY_DELEGATED_STILL_ACTIVE = ''delegated runs still active''"

definition EXPLANATION_WAITING_ON_DELEGATED :: string where
  "EXPLANATION_WAITING_ON_DELEGATED = ''Waiting on delegated runs''"

definition EXPLANATION_DELEGATED_STILL_ACTIVE :: string where
  "EXPLANATION_DELEGATED_STILL_ACTIVE = ''Delegated runs still active''"

definition operator_explanation_for_summary :: "string \<Rightarrow> string option" where
  "operator_explanation_for_summary summary =
     (let trimmed = trim summary in
      if eq_ignore_ascii_case trimmed SUMMARY_WAITING_ON_DELEGATED
         \<or> eq_ignore_ascii_case trimmed EXPLANATION_WAITING_ON_DELEGATED
      then Some EXPLANATION_WAITING_ON_DELEGATED
      else if eq_ignore_ascii_case trimmed SUMMARY_DELEGATED_STILL_ACTIVE
         \<or> eq_ignore_ascii_case trimmed EXPLANATION_DELEGATED_STILL_ACTIVE
      then Some EXPLANATION_DELEGATED_STILL_ACTIVE
      else None)"

definition is_delegated_waiting_summary :: "string \<Rightarrow> bool" where
  "is_delegated_waiting_summary s \<longleftrightarrow> operator_explanation_for_summary s \<noteq> None"

section \<open>Observations\<close>

datatype ObservationSource = OsProcessExit | OsProviderLifecycle | OsPaneEvidence

fun source_rank :: "ObservationSource \<Rightarrow> nat" where
  "source_rank OsProcessExit = 0"
| "source_rank OsProviderLifecycle = 1"
| "source_rank OsPaneEvidence = 2"

datatype Confidence = CfLow | CfMedium | CfHigh

datatype ActivityKind =
    KWorking | KWaitingInput | KWaitingApproval | KDone | KFailed | KCommandRunning | KTestsRunning

datatype ActivityClass = ClRunning | ClWaiting | ClTerminal

fun activity_class :: "ActivityKind \<Rightarrow> ActivityClass" where
  "activity_class KWorking = ClRunning"
| "activity_class KCommandRunning = ClRunning"
| "activity_class KTestsRunning = ClRunning"
| "activity_class KWaitingInput = ClWaiting"
| "activity_class KWaitingApproval = ClWaiting"
| "activity_class KDone = ClTerminal"
| "activity_class KFailed = ClTerminal"

record StatusObservation =
  so_source :: ObservationSource
  so_observed_at :: time
  so_expires_at :: time
  so_confidence :: Confidence
  so_run_id :: string
  so_parent_run_id :: "string option"
  so_kind :: ActivityKind

definition PROCESS_LIVENESS_FRESH_FOR :: duration where
  "PROCESS_LIVENESS_FRESH_FOR = secs 30"

record ProcessLiveness =
  pl_alive :: bool
  pl_observed_at :: time

definition liveness_is_fresh_at :: "ProcessLiveness \<Rightarrow> time \<Rightarrow> bool" where
  "liveness_is_fresh_at p now \<longleftrightarrow>
     pl_alive p
     \<and> (case duration_since now (pl_observed_at p) of
          None \<Rightarrow> True
        | Some age \<Rightarrow> age \<le> PROCESS_LIVENESS_FRESH_FOR)"

datatype ParentPhase =
    PhActivelyWorking | PhWaitingOnDelegated | PhWaitingForUser
  | PhCompletedLocallyChildrenActive | PhFullyCompleted | PhUnknown

record StatusProjection =
  sj_live :: LiveObservation
  sj_phase :: ParentPhase
  sj_process_alive :: bool
  sj_selected_observed_at :: "time option"
  sj_selected_source :: "ObservationSource option"

record ReduceInput =
  ri_now :: time
  ri_primary_run_id :: string
  ri_process_liveness :: "ProcessLiveness option"
  ri_observations :: "StatusObservation list"

datatype RunActivityResult =
    RaConflict
  | RaActivity ActivityKind ObservationSource time

section \<open>Selecting the activity of one run\<close>

fun state_rank :: "ActivityKind \<Rightarrow> nat" where
  "state_rank KWorking = 3"
| "state_rank KCommandRunning = 3"
| "state_rank KTestsRunning = 3"
| "state_rank KWaitingInput = 2"
| "state_rank KWaitingApproval = 1"
| "state_rank KDone = 0"
| "state_rank KFailed = 0"

definition reversal :: "nat \<Rightarrow> nat" where
  "reversal rank = 255 - rank"

text \<open>The buckets of observations with the same time, in the order of their first member.\<close>

fun add_to_buckets ::
    "StatusObservation \<Rightarrow> (time \<times> StatusObservation list) list \<Rightarrow>
     (time \<times> StatusObservation list) list" where
  "add_to_buckets ob [] = [(so_observed_at ob, [ob])]"
| "add_to_buckets ob ((at, slot) # rest) =
     (if at = so_observed_at ob then (at, slot @ [ob]) # rest
      else (at, slot) # add_to_buckets ob rest)"

definition buckets_by_time :: "StatusObservation list \<Rightarrow> (time \<times> StatusObservation list) list" where
  "buckets_by_time obs = fold add_to_buckets obs []"

definition slot_conflicts :: "StatusObservation list \<Rightarrow> bool" where
  "slot_conflicts slot =
     (let non_exit = filter (\<lambda>ob. so_source ob \<noteq> OsProcessExit) slot;
          distinct_classes = remdups (map (\<lambda>ob. activity_class (so_kind ob)) non_exit);
          distinct_sources = remdups (map so_source non_exit)
      in length distinct_classes > 1 \<and> length distinct_sources > 1)"

text \<open>The key of \<open>min_by_key\<close>: source rank, then the newest, then the strongest state.\<close>

definition choice_key :: "StatusObservation \<Rightarrow> nat \<times> int \<times> nat" where
  "choice_key ob =
     (source_rank (so_source ob), - so_observed_at ob, reversal (state_rank (so_kind ob)))"

definition select_run_activity :: "StatusObservation list \<Rightarrow> string \<Rightarrow> RunActivityResult option" where
  "select_run_activity fresh run_id =
     (let run_obs = filter (\<lambda>ob. so_run_id ob = run_id) fresh in
      if run_obs = [] then None
      else if list_ex (\<lambda>(_, slot). slot_conflicts slot) (buckets_by_time run_obs)
      then Some RaConflict
      else case min_by_key choice_key run_obs of
             Some chosen \<Rightarrow>
               Some (RaActivity (so_kind chosen) (so_source chosen) (so_observed_at chosen))
           | None \<Rightarrow> None)"

fun is_run_active :: "RunActivityResult option \<Rightarrow> bool" where
  "is_run_active (Some (RaActivity k _ _)) = (activity_class k \<in> {ClRunning, ClWaiting})"
| "is_run_active (Some RaConflict) = True"
| "is_run_active None = False"

section \<open>The reducer\<close>

definition is_child_of :: "string \<Rightarrow> StatusObservation \<Rightarrow> bool" where
  "is_child_of primary ob \<longleftrightarrow> so_run_id ob \<noteq> primary \<and> so_parent_run_id ob = Some primary"

definition reduce_agent_status :: "ReduceInput \<Rightarrow> StatusProjection" where
  "reduce_agent_status inp =
     (let now = ri_now inp;
          primary = ri_primary_run_id inp;
          alive = (case ri_process_liveness inp of
                     Some l \<Rightarrow> liveness_is_fresh_at l now | None \<Rightarrow> False);
          fresh = filter (\<lambda>ob. so_expires_at ob \<ge> now) (ri_observations inp);
          child_ids = sort (remdups (map so_run_id (filter (is_child_of primary) fresh)));
          any_child_non_terminal =
            list_ex (\<lambda>rid. is_run_active (select_run_activity fresh rid)) child_ids;
          proj = (\<lambda>live phase at src.
            \<lparr>sj_live = live, sj_phase = phase, sj_process_alive = alive,
             sj_selected_observed_at = at, sj_selected_source = src\<rparr>);
          unknown = proj (live_observation LkUnknown ''unknown agent status'') PhUnknown None None
      in case select_run_activity fresh primary of
           None \<Rightarrow>
             if any_child_non_terminal
             then proj (live_observation LkWaitingForInput SUMMARY_WAITING_ON_DELEGATED)
                    PhWaitingOnDelegated None None
             else unknown
         | Some RaConflict \<Rightarrow> unknown
         | Some (RaActivity kind src at) \<Rightarrow>
             (case activity_class kind of
                ClRunning \<Rightarrow>
                  proj (case kind of
                          KCommandRunning \<Rightarrow> live_observation LkCommandRunning ''command running''
                        | KTestsRunning \<Rightarrow> live_observation LkTestsRunning ''tests running''
                        | _ \<Rightarrow> live_observation LkAgentRunning ''agent running'')
                    PhActivelyWorking (Some at) (Some src)
              | ClWaiting \<Rightarrow>
                  proj (case kind of
                          KWaitingApproval \<Rightarrow>
                            live_observation LkWaitingForApproval ''waiting for approval''
                        | _ \<Rightarrow> live_observation LkWaitingForInput ''waiting for input'')
                    PhWaitingForUser (Some at) (Some src)
              | ClTerminal \<Rightarrow>
                  if any_child_non_terminal
                  then proj (live_observation LkWaitingForInput SUMMARY_DELEGATED_STILL_ACTIVE)
                         PhCompletedLocallyChildrenActive (Some at) (Some src)
                  else if kind = KFailed
                  then proj (live_observation LkCommandFailed ''agent failed'')
                         PhFullyCompleted (Some at) (Some src)
                  else proj (live_observation LkDone ''done'')
                         PhFullyCompleted (Some at) (Some src)))"

section \<open>Lemmas: selection does not depend on the order of observations\<close>

lemma add_to_buckets_keys:
  "set (map fst (add_to_buckets ob bs)) = insert (so_observed_at ob) (set (map fst bs))"
  by (induction ob bs rule: add_to_buckets.induct) auto

lemma add_to_buckets_slot:
  "distinct (map fst bs) \<Longrightarrow>
   distinct (map fst (add_to_buckets ob bs)) \<and>
   map_of (add_to_buckets ob bs) at =
     (if at = so_observed_at ob
      then Some ((case map_of bs at of None \<Rightarrow> [] | Some sl \<Rightarrow> sl) @ [ob])
      else map_of bs at)"
proof (induction ob bs rule: add_to_buckets.induct)
  case (2 ob a slot rest)
  have keys: "set (map fst (add_to_buckets ob rest)) = insert (so_observed_at ob) (set (map fst rest))"
    by (rule add_to_buckets_keys)
  show ?case
  proof (cases "a = so_observed_at ob")
    case True
    with 2 show ?thesis by auto
  next
    case False
    with 2 keys show ?thesis by auto
  qed
qed simp

lemma buckets_fold:
  "distinct (map fst bs) \<Longrightarrow>
   distinct (map fst (fold add_to_buckets obs bs)) \<and>
   map_of (fold add_to_buckets obs bs) at =
     (if map_of bs at = None \<and> filter (\<lambda>ob. so_observed_at ob = at) obs = [] then None
      else Some ((case map_of bs at of None \<Rightarrow> [] | Some sl \<Rightarrow> sl)
                 @ filter (\<lambda>ob. so_observed_at ob = at) obs))"
proof (induction obs arbitrary: bs)
  case (Cons ob obs)
  have d: "distinct (map fst (add_to_buckets ob bs))"
    using add_to_buckets_slot [OF Cons.prems] by blast
  have m: "map_of (add_to_buckets ob bs) at =
     (if at = so_observed_at ob
      then Some ((case map_of bs at of None \<Rightarrow> [] | Some sl \<Rightarrow> sl) @ [ob])
      else map_of bs at)"
    using add_to_buckets_slot [OF Cons.prems] by blast
  show ?case using Cons.IH [OF d] m by (auto split: option.splits)
qed (auto split: option.splits)

lemma buckets_by_time_in:
  "(at, slot) \<in> set (buckets_by_time obs) \<longleftrightarrow>
   slot = filter (\<lambda>ob. so_observed_at ob = at) obs \<and> slot \<noteq> []"
proof -
  have d: "distinct (map fst (buckets_by_time obs))"
    and m: "map_of (buckets_by_time obs) at =
      (if filter (\<lambda>ob. so_observed_at ob = at) obs = [] then None
       else Some (filter (\<lambda>ob. so_observed_at ob = at) obs))"
    using buckets_fold [of "[]" obs at] by (simp_all add: buckets_by_time_def)
  have "(at, slot) \<in> set (buckets_by_time obs) \<longleftrightarrow> map_of (buckets_by_time obs) at = Some slot"
    using d by (simp add: map_of_eq_Some_iff)
  then show ?thesis using m by auto
qed

lemma slot_conflicts_set: "set a = set b \<Longrightarrow> slot_conflicts a = slot_conflicts b"
  by (simp add: slot_conflicts_def length_remdups_card_conv)

lemma conflict_set:
  assumes "set a = set b"
  shows "list_ex (\<lambda>(_, slot). slot_conflicts slot) (buckets_by_time a) \<longleftrightarrow>
         list_ex (\<lambda>(_, slot). slot_conflicts slot) (buckets_by_time b)"
proof -
  have ex: "list_ex (\<lambda>(_, slot). slot_conflicts slot) (buckets_by_time obs) \<longleftrightarrow>
      (\<exists>at. slot_conflicts (filter (\<lambda>ob. so_observed_at ob = at) obs))" for obs
  proof -
    have nonempty: "slot_conflicts slot \<Longrightarrow> slot \<noteq> []" for slot
      by (auto simp: slot_conflicts_def)
    show ?thesis
    proof
      assume "list_ex (\<lambda>(_, slot). slot_conflicts slot) (buckets_by_time obs)"
      then show "\<exists>at. slot_conflicts (filter (\<lambda>ob. so_observed_at ob = at) obs)"
        by (auto simp: list_ex_iff buckets_by_time_in)
    next
      assume "\<exists>at. slot_conflicts (filter (\<lambda>ob. so_observed_at ob = at) obs)"
      then obtain at where c: "slot_conflicts (filter (\<lambda>ob. so_observed_at ob = at) obs)" by blast
      have "(at, filter (\<lambda>ob. so_observed_at ob = at) obs) \<in> set (buckets_by_time obs)"
        unfolding buckets_by_time_in using nonempty [OF c] by (rule conjI [OF refl])
      with c show "list_ex (\<lambda>(_, slot). slot_conflicts slot) (buckets_by_time obs)"
        unfolding list_ex_iff by (auto intro: bexI [rotated])
    qed
  qed
  have "slot_conflicts (filter (\<lambda>ob. so_observed_at ob = at) a) =
        slot_conflicts (filter (\<lambda>ob. so_observed_at ob = at) b)" for at
    by (rule slot_conflicts_set) (use assms in auto)
  then show ?thesis by (simp add: ex)
qed

text \<open>The part of a run's activity that the order of the observations cannot change.\<close>

fun activity_core ::
    "RunActivityResult option \<Rightarrow> (ActivityClass \<times> ObservationSource \<times> time) option option" where
  "activity_core None = None"
| "activity_core (Some RaConflict) = Some None"
| "activity_core (Some (RaActivity k src at)) = Some (Some (activity_class k, src, at))"

lemma choice_key_core:
  "choice_key a = choice_key b \<Longrightarrow>
   so_source a = so_source b \<and> so_observed_at a = so_observed_at b
   \<and> activity_class (so_kind a) = activity_class (so_kind b)"
  by (cases "so_source a"; cases "so_source b"; cases "so_kind a"; cases "so_kind b")
    (simp_all add: choice_key_def reversal_def)

lemma select_run_activity_set:
  assumes "set a = set b"
  shows "activity_core (select_run_activity a run) = activity_core (select_run_activity b run)"
proof -
  let ?ra = "filter (\<lambda>ob. so_run_id ob = run) a" and ?rb = "filter (\<lambda>ob. so_run_id ob = run) b"
  have s: "set ?ra = set ?rb" using assms by auto
  show ?thesis
  proof (cases "?ra = []")
    case True
    then have "?rb = []" using s by (metis set_empty)
    with True show ?thesis by (simp add: select_run_activity_def)
  next
    case False
    then have nb: "?rb \<noteq> []" using s by (metis set_empty)
    obtain ma where ma: "min_by_key choice_key ?ra = Some ma"
      using False by (metis min_by_key_None not_None_eq)
    obtain mb where mb: "min_by_key choice_key ?rb = Some mb"
      using nb by (metis min_by_key_None not_None_eq)
    have "choice_key ma = choice_key mb"
      using min_by_key_Some [OF ma] min_by_key_Some [OF mb] s by (intro antisym) auto
    from choice_key_core [OF this] conflict_set [OF s] False nb ma mb
    show ?thesis by (simp add: select_run_activity_def Let_def)
  qed
qed

lemma is_run_active_core:
  "activity_core x = activity_core y \<Longrightarrow> is_run_active x = is_run_active y"
  by (cases "x" rule: is_run_active.cases; cases "y" rule: is_run_active.cases) auto

definition any_child_active :: "string \<Rightarrow> StatusObservation list \<Rightarrow> bool" where
  "any_child_active primary fresh \<longleftrightarrow>
     list_ex (\<lambda>rid. is_run_active (select_run_activity fresh rid))
       (sort (remdups (map so_run_id (filter (is_child_of primary) fresh))))"

lemma any_child_active_iff:
  "any_child_active primary fresh \<longleftrightarrow>
     (\<exists>ob \<in> set fresh. is_child_of primary ob \<and> is_run_active (select_run_activity fresh (so_run_id ob)))"
  by (auto simp: any_child_active_def list_ex_iff)

lemma any_child_active_set: "set a = set b \<Longrightarrow> any_child_active p a = any_child_active p b"
  using is_run_active_core [OF select_run_activity_set [of a b]] by (auto simp: any_child_active_iff)

text \<open>Phase and selected evidence as functions of the order-independent core.\<close>

definition phase_of :: "(ActivityClass \<times> ObservationSource \<times> time) option option \<Rightarrow> bool \<Rightarrow>
    ParentPhase \<times> time option \<times> ObservationSource option" where
  "phase_of core child =
     (case core of
        None \<Rightarrow> (if child then (PhWaitingOnDelegated, None, None) else (PhUnknown, None, None))
      | Some None \<Rightarrow> (PhUnknown, None, None)
      | Some (Some (cl, src, at)) \<Rightarrow>
          ((case cl of ClRunning \<Rightarrow> PhActivelyWorking | ClWaiting \<Rightarrow> PhWaitingForUser
            | ClTerminal \<Rightarrow> if child then PhCompletedLocallyChildrenActive else PhFullyCompleted),
           Some at, Some src))"

definition fresh_observations :: "ReduceInput \<Rightarrow> StatusObservation list" where
  "fresh_observations inp = filter (\<lambda>ob. so_expires_at ob \<ge> ri_now inp) (ri_observations inp)"

text \<open>The reducer by cases of the primary run's selected activity.\<close>

lemma reduce_fields:
  fixes inp :: ReduceInput
  defines "sel \<equiv> select_run_activity (fresh_observations inp) (ri_primary_run_id inp)"
    and "child \<equiv> any_child_active (ri_primary_run_id inp) (fresh_observations inp)"
  shows reduce_phase: "(sj_phase (reduce_agent_status inp),
        sj_selected_observed_at (reduce_agent_status inp), sj_selected_source (reduce_agent_status inp)) =
      phase_of (activity_core sel) child"
    and reduce_alive: "sj_process_alive (reduce_agent_status inp) =
      (case ri_process_liveness inp of Some l \<Rightarrow> liveness_is_fresh_at l (ri_now inp) | None \<Rightarrow> False)"
    and reduce_done: "lo_kind (sj_live (reduce_agent_status inp)) \<in> {LkDone, LkCommandFailed} \<longleftrightarrow>
      (\<exists>src at. activity_core sel = Some (Some (ClTerminal, src, at))) \<and> \<not> child"
  unfolding reduce_agent_status_def Let_def sel_def child_def
  by (cases "select_run_activity (fresh_observations inp) (ri_primary_run_id inp)" rule: activity_core.cases;
      simp add: phase_of_def any_child_active_def fresh_observations_def;
      simp split: ActivityClass.split ActivityKind.split)+

lemma activity_core_None: "activity_core x = None \<longleftrightarrow> x = None"
  by (cases x rule: activity_core.cases) auto

lemma phase_of_iff:
  "fst (phase_of core child) = PhFullyCompleted \<longleftrightarrow>
     (\<exists>src at. core = Some (Some (ClTerminal, src, at))) \<and> \<not> child"
  "fst (phase_of core child) = PhWaitingOnDelegated \<longleftrightarrow> core = None \<and> child"
  by (auto simp: phase_of_def split: option.splits ActivityClass.splits)

section \<open>Properties\<close>

text \<open>C26: The reducer is a function of the set of unexpired observations: reordering, duplicating or
  adding expired observations never changes the phase it reports, whether the process counts as alive,
  or the time and source of the evidence it selects.\<close>

theorem reduce_order_independent:
  assumes "set (fresh_observations a) = set (fresh_observations b)"
    and "ri_now a = ri_now b" and "ri_primary_run_id a = ri_primary_run_id b"
    and "ri_process_liveness a = ri_process_liveness b"
  shows "sj_phase (reduce_agent_status a) = sj_phase (reduce_agent_status b)
    \<and> sj_process_alive (reduce_agent_status a) = sj_process_alive (reduce_agent_status b)
    \<and> sj_selected_observed_at (reduce_agent_status a) = sj_selected_observed_at (reduce_agent_status b)
    \<and> sj_selected_source (reduce_agent_status a) = sj_selected_source (reduce_agent_status b)"
proof -
  have "phase_of (activity_core (select_run_activity (fresh_observations a) (ri_primary_run_id a)))
          (any_child_active (ri_primary_run_id a) (fresh_observations a)) =
        phase_of (activity_core (select_run_activity (fresh_observations b) (ri_primary_run_id b)))
          (any_child_active (ri_primary_run_id b) (fresh_observations b))"
    using select_run_activity_set [OF assms(1)] any_child_active_set [OF assms(1)] assms(3) by simp
  then have "(sj_phase (reduce_agent_status a), sj_selected_observed_at (reduce_agent_status a),
       sj_selected_source (reduce_agent_status a)) =
     (sj_phase (reduce_agent_status b), sj_selected_observed_at (reduce_agent_status b),
       sj_selected_source (reduce_agent_status b))"
    by (simp only: reduce_phase)
  moreover have "sj_process_alive (reduce_agent_status a) = sj_process_alive (reduce_agent_status b)"
    using assms(2,4) by (simp add: reduce_alive split: option.split)
  ultimately show ?thesis by simp
qed

definition sample_observation :: "string \<Rightarrow> string option \<Rightarrow> ActivityKind \<Rightarrow> time \<Rightarrow> StatusObservation" where
  "sample_observation run parent kind at =
     \<lparr>so_source = OsProviderLifecycle, so_observed_at = at, so_expires_at = at + 10,
      so_confidence = CfHigh, so_run_id = run, so_parent_run_id = parent, so_kind = kind\<rparr>"

theorem reduce_order_independent_witness:
  "sj_phase (reduce_agent_status
     \<lparr>ri_now = 5, ri_primary_run_id = ''p'', ri_process_liveness = None,
      ri_observations = [sample_observation ''p'' None KDone 1, sample_observation ''c'' (Some ''p'') KWorking 2]\<rparr>)
   = sj_phase (reduce_agent_status
     \<lparr>ri_now = 5, ri_primary_run_id = ''p'', ri_process_liveness = None,
      ri_observations = [sample_observation ''p'' None KFailed (-100),
        sample_observation ''c'' (Some ''p'') KWorking 2, sample_observation ''p'' None KDone 1]\<rparr>)"
  (is "sj_phase (reduce_agent_status ?a) = sj_phase (reduce_agent_status ?b)")
proof -
  have "set (fresh_observations ?a) = set (fresh_observations ?b)"
    by (auto simp: fresh_observations_def sample_observation_def)
  from reduce_order_independent [OF this] show ?thesis by simp
qed


end
