(* ===== verification/Live_Status.thy ===== *)
theory Live_Status
  imports Lifecycle Agent_Status
begin

text \<open>
  Live observations of a task: \<open>crates/ajax-core/src/live.rs\<close> (which of two observations wins) and
  \<open>live_application.rs\<close> (how the winner changes the task). The wall clock is read at most once per
  application, in \<open>mark_resource_missing\<close> or for the last activity; it is the argument \<open>now\<close>.
  \<open>acknowledge_attention\<close> also silences the notification episode and is in the theory \<open>Notify\<close>.
\<close>

section \<open>Which observation wins\<close>

fun is_waiting_status :: "LiveStatusKind \<Rightarrow> bool" where
  "is_waiting_status LkWaitingForApproval = True"
| "is_waiting_status LkWaitingForInput = True"
| "is_waiting_status _ = False"

fun is_failure_status :: "LiveStatusKind \<Rightarrow> bool" where
  "is_failure_status LkAuthRequired = True"
| "is_failure_status LkRateLimited = True"
| "is_failure_status LkContextLimit = True"
| "is_failure_status LkCiFailed = True"
| "is_failure_status LkCommandFailed = True"
| "is_failure_status LkBlocked = True"
| "is_failure_status LkMergeConflict = True"
| "is_failure_status _ = False"

fun is_passive_observation :: "LiveStatusKind \<Rightarrow> bool" where
  "is_passive_observation LkShellIdle = True"
| "is_passive_observation LkUnknown = True"
| "is_passive_observation _ = False"

definition should_keep_current_status :: "LiveStatusKind \<Rightarrow> LiveStatusKind \<Rightarrow> bool" where
  "should_keep_current_status current next =
     (if current = LkDone then is_passive_observation next
      else if current = LkTestsRunning then next \<in> {LkAgentRunning, LkCommandRunning}
      else if is_waiting_status current then is_passive_observation next
      else if is_failure_status current then is_passive_observation next
      else False)"

definition reduce_live_observation :: "LiveObservation option \<Rightarrow> LiveObservation \<Rightarrow> LiveObservation" where
  "reduce_live_observation current_opt next =
     (case current_opt of
        None \<Rightarrow> next
      | Some current \<Rightarrow>
          if kind_is_missing_substrate (lo_kind next) then next
          else if kind_is_missing_substrate (lo_kind current) then current
          else if should_keep_current_status (lo_kind current) (lo_kind next) then current
          else next)"

section \<open>Applying an observation to a task\<close>

fun refreshes_activity :: "LiveStatusKind \<Rightarrow> bool" where
  "refreshes_activity LkShellIdle = True"
| "refreshes_activity LkCommandRunning = True"
| "refreshes_activity LkTestsRunning = True"
| "refreshes_activity LkAgentRunning = True"
| "refreshes_activity LkWaitingForApproval = True"
| "refreshes_activity LkWaitingForInput = True"
| "refreshes_activity LkBlocked = True"
| "refreshes_activity LkRateLimited = True"
| "refreshes_activity LkAuthRequired = True"
| "refreshes_activity LkMergeConflict = True"
| "refreshes_activity LkCiFailed = True"
| "refreshes_activity LkContextLimit = True"
| "refreshes_activity LkCommandFailed = True"
| "refreshes_activity LkDone = True"
| "refreshes_activity _ = False"

definition has_missing_substrate_flag :: "Task \<Rightarrow> bool" where
  "has_missing_substrate_flag t = list_ex flag_is_missing_substrate (side_flags t)"

definition clear_recovered_live_flags :: "LiveStatusKind \<Rightarrow> Task \<Rightarrow> Task" where
  "clear_recovered_live_flags k t =
     (if k \<noteq> LkMergeConflict
         \<and> \<not> (case t_git_status t of Some g \<Rightarrow> gs_conflicted g | None \<Rightarrow> False)
      then remove_side_flag SfConflicted t else t)"

definition recovered_from_missing_substrate :: "Task \<Rightarrow> LiveStatusKind \<Rightarrow> bool" where
  "recovered_from_missing_substrate t next \<longleftrightarrow>
     (case t_live_status t of Some live \<Rightarrow> kind_is_missing_substrate (lo_kind live) | None \<Rightarrow> False)
     \<and> \<not> kind_is_missing_substrate next
     \<and> \<not> has_missing_substrate_flag t"

definition reduce_task_live_observation :: "Task \<Rightarrow> LiveObservation \<Rightarrow> LiveObservation" where
  "reduce_task_live_observation t next =
     (if recovered_from_missing_substrate t (lo_kind next) then next
      else reduce_live_observation (t_live_status t) next)"

text \<open>The match of \<open>apply_reduced_observation\<close>: flags and agent status for each kind (the unknown kind
  also clears the live status and returns).\<close>

definition running_effect :: "bool \<Rightarrow> Task \<Rightarrow> Task" where
  "running_effect missing t =
     remove_side_flag SfAgentDead (remove_side_flag SfNeedsInput
       (if missing then remove_side_flag SfAgentRunning (t\<lparr>t_agent_status := ArDead\<rparr>)
        else add_side_flag SfAgentRunning (t\<lparr>t_agent_status := ArRunning\<rparr>)))"

definition waiting_effect :: "string \<Rightarrow> bool \<Rightarrow> Task \<Rightarrow> Task" where
  "waiting_effect summary delegated t =
     remove_side_flag SfAgentRunning
       (if delegated then remove_side_flag SfNeedsInput (t\<lparr>t_agent_status := ArWaiting\<rparr>)
        else add_side_flag SfNeedsInput (t\<lparr>t_agent_status := ArWaiting\<rparr>))"

definition blocked_effect :: "Task \<Rightarrow> Task" where
  "blocked_effect t =
     remove_side_flag SfAgentRunning (add_side_flag SfNeedsInput (t\<lparr>t_agent_status := ArBlocked\<rparr>))"

definition failed_effect :: "SideFlag \<Rightarrow> Task \<Rightarrow> Task" where
  "failed_effect f t =
     remove_side_flag SfAgentRunning (remove_side_flag SfNeedsInput
       (add_side_flag f (t\<lparr>t_agent_status := ArBlocked\<rparr>)))"

definition shell_idle_effect :: "Task \<Rightarrow> Task" where
  "shell_idle_effect t =
     remove_side_flag SfAgentRunning
       (t\<lparr>t_agent_status :=
          if t_agent_status t \<in> {ArRunning, ArWaiting, ArBlocked} then ArDead else ArNotStarted\<rparr>)"

definition done_effect :: "Task \<Rightarrow> Task" where
  "done_effect t =
     remove_side_flag SfNeedsInput (remove_side_flag SfAgentRunning (t\<lparr>t_agent_status := ArDone\<rparr>))"

fun kind_effect :: "time \<Rightarrow> bool \<Rightarrow> LiveStatusKind \<Rightarrow> string \<Rightarrow> Task \<Rightarrow> Task" where
  "kind_effect now missing LkWorktreeMissing summary t = mark_resource_missing now SfWorktreeMissing t"
| "kind_effect now missing LkTmuxMissing summary t = mark_resource_missing now SfTmuxMissing t"
| "kind_effect now missing LkTaskWindowMissing summary t =
     mark_resource_missing now SfTaskWindowMissing t"
| "kind_effect now missing LkAgentRunning summary t = running_effect missing t"
| "kind_effect now missing LkCommandRunning summary t = running_effect missing t"
| "kind_effect now missing LkTestsRunning summary t = running_effect missing t"
| "kind_effect now missing LkWaitingForApproval summary t =
     waiting_effect summary (is_delegated_waiting_summary summary) t"
| "kind_effect now missing LkWaitingForInput summary t =
     waiting_effect summary (is_delegated_waiting_summary summary) t"
| "kind_effect now missing LkAuthRequired summary t = blocked_effect t"
| "kind_effect now missing LkRateLimited summary t = blocked_effect t"
| "kind_effect now missing LkContextLimit summary t = blocked_effect t"
| "kind_effect now missing LkCommandFailed summary t = blocked_effect t"
| "kind_effect now missing LkBlocked summary t = blocked_effect t"
| "kind_effect now missing LkCiFailed summary t = failed_effect SfTestsFailed t"
| "kind_effect now missing LkCiPending summary t = remove_side_flag SfTestsFailed t"
| "kind_effect now missing LkMergeConflict summary t = failed_effect SfConflicted t"
| "kind_effect now missing LkShellIdle summary t = shell_idle_effect t"
| "kind_effect now missing LkDone summary t = done_effect t"
| "kind_effect now missing LkUnknown summary t = remove_side_flag SfAgentRunning t"

definition apply_reduced_observation :: "time \<Rightarrow> LiveObservation \<Rightarrow> time \<Rightarrow> Task \<Rightarrow> Task" where
  "apply_reduced_observation now ob observed_at t =
     (let kind = lo_kind ob;
          refresh_activity = refreshes_activity kind;
          missing = has_missing_substrate_flag t;
          t1 = clear_recovered_live_flags kind t;
          t2 = kind_effect now missing kind (lo_summary ob) t1
      in if kind = LkUnknown
         then t2\<lparr>t_live_status := None, t_live_status_observed_at := None\<rparr>
         else
           let t3 = t2\<lparr>t_live_status := Some ob, t_live_status_observed_at := Some observed_at\<rparr>;
               t4 = (if refresh_activity
                     then remove_side_flag SfStale (t3\<lparr>t_last_activity_at := now\<rparr>) else t3)
           in sync_open_attempts observed_at t4)"

definition apply_observation_at :: "time \<Rightarrow> LiveObservation \<Rightarrow> time \<Rightarrow> Task \<Rightarrow> Task" where
  "apply_observation_at now ob observed_at t =
     apply_reduced_observation now (reduce_task_live_observation t ob) observed_at t"

definition apply_observation :: "clock \<Rightarrow> LiveObservation \<Rightarrow> Task \<Rightarrow> Task" where
  "apply_observation clk ob t = apply_observation_at (clk 1) ob (clk 0) t"

definition apply_authoritative_observation_at :: "time \<Rightarrow> LiveObservation \<Rightarrow> time \<Rightarrow> Task \<Rightarrow> Task" where
  "apply_authoritative_observation_at now ob observed_at t =
     (let t1 = apply_reduced_observation now ob observed_at t in
      if lo_kind ob \<in> {LkAgentRunning, LkCommandRunning, LkTestsRunning}
      then try_transition (transition_lifecycle t1 LcActive TrOperationResult) t1
      else t1)"

definition apply_authoritative_observation :: "clock \<Rightarrow> LiveObservation \<Rightarrow> Task \<Rightarrow> Task" where
  "apply_authoritative_observation clk ob t = apply_authoritative_observation_at (clk 1) ob (clk 0) t"

definition apply_trusted_observation_at :: "time \<Rightarrow> LiveObservation \<Rightarrow> time \<Rightarrow> Task \<Rightarrow> Task" where
  "apply_trusted_observation_at now ob observed_at t =
     (let t1 = apply_reduced_observation now ob observed_at t;
          lifecycle =
            (if lo_kind ob \<in> {LkAgentRunning, LkCommandRunning, LkTestsRunning} then Some LcActive
             else if lo_kind ob = LkDone then Some LcReviewable
             else None)
      in case lifecycle of
           Some lc \<Rightarrow> try_transition (transition_lifecycle t1 lc TrOperationResult) t1
         | None \<Rightarrow> t1)"

definition apply_trusted_observation :: "clock \<Rightarrow> LiveObservation \<Rightarrow> Task \<Rightarrow> Task" where
  "apply_trusted_observation clk ob t = apply_trusted_observation_at (clk 1) ob (clk 0) t"

definition retract_stale_agent_running_at :: "Task \<Rightarrow> Task" where
  "retract_stale_agent_running_at t =
     (if \<not> has_side_flag SfAgentRunning t \<and> t_agent_status t \<noteq> ArRunning then t
      else
        let t1 = remove_side_flag SfAgentRunning t in
        if t_agent_status t1 = ArRunning then t1\<lparr>t_agent_status := ArUnknown\<rparr> else t1)"

section \<open>Lemmas: what an observation leaves alone\<close>

lemmas effect_defs =
  running_effect_def waiting_effect_def blocked_effect_def failed_effect_def shell_idle_effect_def
  done_effect_def

lemma clear_recovered_frame [simp]:
  "t_agent_status (clear_recovered_live_flags k t) = t_agent_status t"
  "t_agent_attempts (clear_recovered_live_flags k t) = t_agent_attempts t"
  "t_lifecycle_status (clear_recovered_live_flags k t) = t_lifecycle_status t"
  "t_live_status (clear_recovered_live_flags k t) = t_live_status t"
  "t_metadata (clear_recovered_live_flags k t) = t_metadata t"
  "t_id (clear_recovered_live_flags k t) = t_id t"
  "t_git_status (clear_recovered_live_flags k t) = t_git_status t"
  "t_last_activity_at (clear_recovered_live_flags k t) = t_last_activity_at t"
  "t_attention_acknowledged_at (clear_recovered_live_flags k t) = t_attention_acknowledged_at t"
  "t_annotations (clear_recovered_live_flags k t) = t_annotations t"
  by (simp_all add: clear_recovered_live_flags_def)

lemma kind_effect_frame [simp]:
  "t_lifecycle_status (kind_effect now m k s t) = t_lifecycle_status t"
  "t_metadata (kind_effect now m k s t) = t_metadata t"
  "t_id (kind_effect now m k s t) = t_id t"
  "t_git_status (kind_effect now m k s t) = t_git_status t"
  "t_attention_acknowledged_at (kind_effect now m k s t) = t_attention_acknowledged_at t"
  "t_annotations (kind_effect now m k s t) = t_annotations t"
  by (cases k; simp add: effect_defs)+

lemma apply_reduced_frame [simp]:
  "t_lifecycle_status (apply_reduced_observation now ob at t) = t_lifecycle_status t"
  "t_metadata (apply_reduced_observation now ob at t) = t_metadata t"
  "t_id (apply_reduced_observation now ob at t) = t_id t"
  "t_git_status (apply_reduced_observation now ob at t) = t_git_status t"
  "t_attention_acknowledged_at (apply_reduced_observation now ob at t) = t_attention_acknowledged_at t"
  "t_annotations (apply_reduced_observation now ob at t) = t_annotations t"
  by (simp_all add: apply_reduced_observation_def Let_def)

lemma apply_reduced_live [simp]:
  "t_live_status (apply_reduced_observation now ob at t) =
     (if lo_kind ob = LkUnknown then None else Some ob)"
  by (simp add: apply_reduced_observation_def Let_def)

section \<open>Lemmas: the two task invariants\<close>

lemma apply_reduced_dead_closed:
  assumes "dead_agent_closed t"
  shows "dead_agent_closed (apply_reduced_observation now ob at t)"
proof (cases "lo_kind ob = LkUnknown")
  case True
  with assms show ?thesis
    by (simp add: apply_reduced_observation_def Let_def dead_agent_closed_def no_open_attempt_def)
next
  case False
  then show ?thesis by (simp add: apply_reduced_observation_def Let_def sync_open_attempts_dead)
qed

lemma clear_recovered_running:
  "running_has_substrate t \<Longrightarrow> running_has_substrate (clear_recovered_live_flags k t)"
  by (simp add: clear_recovered_live_flags_def running_remove)

lemma clear_recovered_missing:
  "has_missing_substrate_flag (clear_recovered_live_flags k t) = has_missing_substrate_flag t"
  by (auto simp: has_missing_substrate_flag_def list_ex_iff clear_recovered_live_flags_def)

lemma kind_effect_running:
  assumes "running_has_substrate t"
  shows "running_has_substrate (kind_effect now (has_missing_substrate_flag t) k s t)"
proof -
  have m: "has_missing_substrate_flag t \<longleftrightarrow> (\<exists>f \<in> t_side_flags t. flag_is_missing_substrate f)"
    by (simp add: has_missing_substrate_flag_def list_ex_iff)
  show ?thesis using assms m
    by (cases k) (auto simp: effect_defs running_has_substrate_iff)
qed

lemma apply_reduced_running:
  assumes "running_has_substrate t"
  shows "running_has_substrate (apply_reduced_observation now ob at t)"
proof -
  let ?u = "kind_effect now (has_missing_substrate_flag t) (lo_kind ob) (lo_summary ob)
              (clear_recovered_live_flags (lo_kind ob) t)"
  have "running_has_substrate ?u"
    using kind_effect_running [OF clear_recovered_running [OF assms]]
    by (simp add: clear_recovered_missing)
  then show ?thesis
    by (auto simp: apply_reduced_observation_def Let_def running_has_substrate_iff)
qed

lemma apply_reduced_frame_lifecycle_steps:
  "apply_trusted_observation_at now ob at t = apply_reduced_observation now ob at t
   \<or> lifecycle_step {TrOperationResult} (apply_reduced_observation now ob at t)
        (apply_trusted_observation_at now ob at t)"
  "apply_authoritative_observation_at now ob at t = apply_reduced_observation now ob at t
   \<or> lifecycle_step {TrOperationResult} (apply_reduced_observation now ob at t)
        (apply_authoritative_observation_at now ob at t)"
  by (auto simp: apply_trusted_observation_at_def apply_authoritative_observation_at_def Let_def
      try_transition_def lifecycle_step.simps split: sum.split)

section \<open>Lemmas: reducing a stream of observations\<close>

definition reduce_stream :: "LiveObservation option \<Rightarrow> LiveObservation list \<Rightarrow> LiveObservation option" where
  "reduce_stream current obs = fold (\<lambda>ob c. Some (reduce_live_observation c ob)) obs current"

definition reports_missing :: "LiveObservation option \<Rightarrow> bool" where
  "reports_missing c = (case c of Some ob \<Rightarrow> kind_is_missing_substrate (lo_kind ob) | None \<Rightarrow> False)"

lemma keep_not_missing:
  "should_keep_current_status c n \<Longrightarrow> \<not> kind_is_missing_substrate c"
  by (cases c) (auto simp: should_keep_current_status_def)

lemma reduce_missing:
  "kind_is_missing_substrate (lo_kind (reduce_live_observation c ob)) \<longleftrightarrow>
     reports_missing c \<or> kind_is_missing_substrate (lo_kind ob)"
  by (auto simp: reduce_live_observation_def reports_missing_def split: option.split)

lemma reduce_source: "reduce_live_observation c ob = ob \<or> Some (reduce_live_observation c ob) = c"
  by (auto simp: reduce_live_observation_def split: option.split)

lemma reduce_again:
  "reduce_live_observation (Some (reduce_live_observation c ob)) ob = reduce_live_observation c ob"
  by (auto simp: reduce_live_observation_def split: option.split)

lemma stream_Cons [simp]:
  "reduce_stream c (ob # obs) = reduce_stream (Some (reduce_live_observation c ob)) obs"
  "reduce_stream c [] = c"
  by (simp_all add: reduce_stream_def)

section \<open>Properties\<close>

text \<open>Merging a stream of observations never invents one, absorbs a repeated observation, and
  ends on a missing substrate exactly when the current observation or one of the stream reports one,
  whatever other reports come before or after it.\<close>

theorem missing_substrate_wins:
  "(reports_missing (reduce_stream c obs) \<longleftrightarrow>
      reports_missing c \<or> (\<exists>ob \<in> set obs. kind_is_missing_substrate (lo_kind ob)))
   \<and> reduce_stream c obs \<in> insert c (Some ` set obs)
   \<and> reduce_stream c (ob # ob # obs) = reduce_stream c (ob # obs)"
proof (intro conjI)
  show "reports_missing (reduce_stream c obs) \<longleftrightarrow>
      reports_missing c \<or> (\<exists>ob \<in> set obs. kind_is_missing_substrate (lo_kind ob))"
    by (induction obs arbitrary: c) (auto simp: reduce_missing reports_missing_def)
  show "reduce_stream c obs \<in> insert c (Some ` set obs)"
  proof (induction obs arbitrary: c)
    case (Cons ob obs)
    have "reduce_stream c (ob # obs) \<in> insert (Some (reduce_live_observation c ob)) (Some ` set obs)"
      using Cons.IH [of "Some (reduce_live_observation c ob)"] by simp
    then show ?case using reduce_source [of c ob] by auto
  qed simp
  show "reduce_stream c (ob # ob # obs) = reduce_stream c (ob # obs)"
    by (simp add: reduce_again)
qed

end
