(* ===== verification/Ui_State.thy ===== *)
theory Ui_State
  imports Agent_Status Task_Model
begin

text \<open>
  The status a task shows to its operator: \<open>crates/ajax-core/src/ui_state.rs\<close>. The function
  \<open>derive_task_status\<close> reads every field of the task in a fixed order of precedence; the lemmas at the
  end show what that order guarantees.
\<close>

section \<open>Status, explanation and attention band\<close>

datatype TaskStatus = StRunning | StWaiting | StIdle | StError | StUnknown

datatype AttentionBand = BandNeedsYou | BandReview | BandActive | BandIdle

record OperatorStatus =
  op_status :: TaskStatus
  op_explanation :: "string option"
  op_actionable :: bool

definition attention_band :: "OperatorStatus \<Rightarrow> LifecycleStatus \<Rightarrow> AttentionBand" where
  "attention_band s lifecycle =
     (if op_status s = StError then BandNeedsYou
      else if op_status s = StWaiting \<and> op_actionable s then BandNeedsYou
      else if lifecycle \<in> {LcReviewable, LcMergeable} then BandReview
      else if op_status s = StRunning then BandActive
      else if op_status s = StWaiting then BandActive
      else BandIdle)"

fun task_status_as_str :: "TaskStatus \<Rightarrow> string" where
  "task_status_as_str StRunning = ''Running''"
| "task_status_as_str StWaiting = ''Waiting''"
| "task_status_as_str StIdle = ''Idle''"
| "task_status_as_str StError = ''Error''"
| "task_status_as_str StUnknown = ''Unknown''"

definition err :: "string \<Rightarrow> OperatorStatus" where
  "err e = \<lparr>op_status = StError, op_explanation = Some e, op_actionable = True\<rparr>"

definition run :: "string \<Rightarrow> OperatorStatus" where
  "run e = \<lparr>op_status = StRunning, op_explanation = Some e, op_actionable = False\<rparr>"

definition ping :: "string \<Rightarrow> OperatorStatus" where
  "ping e = \<lparr>op_status = StWaiting, op_explanation = Some e, op_actionable = True\<rparr>"

definition soft :: "string \<Rightarrow> OperatorStatus" where
  "soft e = \<lparr>op_status = StWaiting, op_explanation = Some e, op_actionable = False\<rparr>"

definition idle :: OperatorStatus where
  "idle = \<lparr>op_status = StIdle, op_explanation = None, op_actionable = False\<rparr>"

definition unknown :: OperatorStatus where
  "unknown = \<lparr>op_status = StUnknown, op_explanation = None, op_actionable = False\<rparr>"

lemmas operator_status_defs = err_def run_def ping_def soft_def idle_def unknown_def

section \<open>Evidence helpers\<close>

definition AGENT_PROCESS_ALIVE_KEY :: string where
  "AGENT_PROCESS_ALIVE_KEY = ''agent_process_alive_at''"

definition agent_process_is_alive :: "Task \<Rightarrow> bool" where
  "agent_process_is_alive t \<longleftrightarrow> t_metadata t AGENT_PROCESS_ALIVE_KEY \<noteq> None"

definition has_no_status_evidence :: "Task \<Rightarrow> bool" where
  "has_no_status_evidence t \<longleftrightarrow>
     t_live_status t = None \<and> t_agent_status t = ArNotStarted
     \<and> \<not> has_side_flag SfAgentRunning t \<and> \<not> has_side_flag SfNeedsInput t
     \<and> \<not> agent_process_is_alive t"

definition live_evidence_is_acknowledged :: "Task \<Rightarrow> bool" where
  "live_evidence_is_acknowledged t =
     (case t_live_status t of
        None \<Rightarrow> False
      | Some live \<Rightarrow>
          if live_class (lo_kind live) \<noteq> LsWaiting then False
          else (case (t_live_status_observed_at t, t_attention_acknowledged_at t) of
                  (Some observed_at, Some acknowledged_at) \<Rightarrow> observed_at \<le> acknowledged_at
                | _ \<Rightarrow> False))"

definition workflow_boundary_is_acknowledged :: "Task \<Rightarrow> bool" where
  "workflow_boundary_is_acknowledged t =
     (case t_attention_acknowledged_at t of
        Some acknowledged_at \<Rightarrow> acknowledged_at \<ge> t_last_activity_at t
      | None \<Rightarrow> False)"

definition SUMMARY_BACKGROUND_WORK_RUNNING :: string where
  "SUMMARY_BACKGROUND_WORK_RUNNING = ''Background work running''"

fun canonical_running_explanation :: "LiveStatusKind \<Rightarrow> string option" where
  "canonical_running_explanation LkAgentRunning = Some ''Agent working''"
| "canonical_running_explanation LkCommandRunning = Some ''Running command''"
| "canonical_running_explanation LkTestsRunning = Some ''Running tests''"
| "canonical_running_explanation LkCiPending = Some ''CI running''"
| "canonical_running_explanation _ = None"

definition live_running_explanation :: "LiveObservation \<Rightarrow> string option" where
  "live_running_explanation live =
     (if lo_kind live = LkAgentRunning \<and> trim (lo_summary live) = SUMMARY_BACKGROUND_WORK_RUNNING
      then Some SUMMARY_BACKGROUND_WORK_RUNNING
      else canonical_running_explanation (lo_kind live))"

fun canonical_waiting_explanation :: "LiveStatusKind \<Rightarrow> (string \<times> bool) option" where
  "canonical_waiting_explanation LkWaitingForApproval = Some (''Waiting for approval'', True)"
| "canonical_waiting_explanation LkWaitingForInput = Some (''Waiting for input'', True)"
| "canonical_waiting_explanation LkAuthRequired = Some (''Authentication required'', False)"
| "canonical_waiting_explanation LkRateLimited = Some (''Rate limited'', False)"
| "canonical_waiting_explanation LkContextLimit = Some (''Context limit reached'', False)"
| "canonical_waiting_explanation LkDone = Some (''Response ready'', False)"
| "canonical_waiting_explanation _ = None"

fun canonical_error_explanation :: "LiveStatusKind \<Rightarrow> string option" where
  "canonical_error_explanation LkCiFailed = Some ''CI failed''"
| "canonical_error_explanation LkMergeConflict = Some ''Merge conflict''"
| "canonical_error_explanation LkCommandFailed = Some ''Command failed''"
| "canonical_error_explanation LkBlocked = Some ''Agent blocked''"
| "canonical_error_explanation _ = None"

definition canonical_checkout_mismatch_explanation :: "Task \<Rightarrow> string option" where
  "canonical_checkout_mismatch_explanation t =
     (if has_missing_substrate t then None else checkout_mismatch_explanation t)"

definition missing_substrate_label :: "Task \<Rightarrow> string option" where
  "missing_substrate_label t =
     (let health = rp_health (t_runtime_projection t); skip_ia = skip_interactive_agent t in
      if has_side_flag SfWorktreeMissing t \<or> health = RhMissingWorktree
      then Some ''worktree missing''
      else if has_side_flag SfBranchMissing t then Some ''branch missing''
      else if \<not> skip_ia \<and> (has_side_flag SfTmuxMissing t \<or> health = RhMissingSession)
      then Some ''tmux session missing''
      else if health = RhWrongTaskWindowPath then Some ''task window missing''
      else if \<not> skip_ia \<and> (has_side_flag SfTaskWindowMissing t \<or> health = RhMissingTaskWindow)
      then Some ''task window missing''
      else None)"

definition canonical_missing_substrate_explanation :: "Task \<Rightarrow> string option" where
  "canonical_missing_substrate_explanation t =
     map_option (\<lambda>label.
       if label = ''worktree missing'' then ''Worktree missing''
       else if label = ''branch missing'' then ''Branch missing''
       else if label = ''tmux session missing'' then ''Tmux session missing''
       else if label = ''task window missing'' then ''Task window missing''
       else ''Runtime resource missing'') (missing_substrate_label t)"

section \<open>The derivation\<close>

definition resources_expected :: "LifecycleStatus \<Rightarrow> bool" where
  "resources_expected lc \<longleftrightarrow> lc \<notin> {LcMerged, LcCleanable, LcRemoving, LcRemoved}"

text \<open>
  The early returns of \<open>derive_task_status\<close>, in three groups: what is broken, what is running, and
  what waits. Each group gives None where the code falls through to the next.
\<close>

definition substrate_status :: "Task \<Rightarrow> OperatorStatus option" where
  "substrate_status t =
     (if resources_expected (t_lifecycle_status t) then
        (case canonical_missing_substrate_explanation t of
           Some e \<Rightarrow> Some (err e)
         | None \<Rightarrow>
             if rp_observation_error (t_runtime_projection t) \<noteq> None
             then Some (err ''Status unavailable'')
             else map_option err (canonical_checkout_mismatch_explanation t))
      else None)"

definition error_status :: "Task \<Rightarrow> OperatorStatus option" where
  "error_status t =
     (case Option.bind (t_live_status t) (\<lambda>live. canonical_error_explanation (lo_kind live)) of
        Some e \<Rightarrow> Some (err e)
      | None \<Rightarrow>
          if has_side_flag SfTestsFailed t then Some (err ''Tests failed'')
          else if has_side_flag SfConflicted t then Some (err ''Merge conflict'')
          else if has_side_flag SfAgentDead t \<or> t_agent_status t = ArDead
          then Some (err ''Agent unavailable'')
          else if t_lifecycle_status t = LcError then Some (err ''Task failed'')
          else None)"

definition running_status :: "Task \<Rightarrow> OperatorStatus option" where
  "running_status t =
     (case Option.bind (t_live_status t) live_running_explanation of
        Some e \<Rightarrow> Some (run e)
      | None \<Rightarrow>
          if t_agent_status t = ArRunning \<or> has_side_flag SfAgentRunning t
          then Some (run ''Agent working'')
          else None)"

definition live_waiting_status :: "Task \<Rightarrow> OperatorStatus option" where
  "live_waiting_status t =
     (case t_live_status t of
        None \<Rightarrow> None
      | Some live \<Rightarrow>
          (case operator_explanation_for_summary (lo_summary live) of
             Some e \<Rightarrow> Some (soft e)
           | None \<Rightarrow>
               (case canonical_waiting_explanation (lo_kind live) of
                  Some (e, actionable) \<Rightarrow> Some (if actionable then ping e else soft e)
                | None \<Rightarrow> None)))"

definition settled_status :: "Task \<Rightarrow> OperatorStatus" where
  "settled_status t =
     (let live_acknowledged = live_evidence_is_acknowledged t in
      if t_lifecycle_status t \<in> {LcReviewable, LcMergeable} \<and> \<not> workflow_boundary_is_acknowledged t
      then soft ''Ready for review''
      else if \<not> live_acknowledged
              \<and> (has_side_flag SfNeedsInput t \<or> t_agent_status t = ArWaiting)
      then ping ''Waiting for input''
      else if \<not> live_acknowledged \<and> t_agent_status t = ArBlocked then err ''Agent blocked''
      else if \<not> live_acknowledged \<and> t_agent_status t = ArDone then soft ''Response ready''
      else if t_lifecycle_status t \<in> {LcActive, LcWaiting} \<and> has_no_status_evidence t
      then (if skip_interactive_agent t then idle else unknown)
      else idle)"

definition derive_task_status :: "Task \<Rightarrow> OperatorStatus" where
  "derive_task_status t =
     (if t_lifecycle_status t = LcTeardownIncomplete then err ''Teardown incomplete''
      else case substrate_status t of Some s \<Rightarrow> s
      | None \<Rightarrow> (case error_status t of Some s \<Rightarrow> s
      | None \<Rightarrow> (case running_status t of Some s \<Rightarrow> s
      | None \<Rightarrow>
          if \<not> resources_expected (t_lifecycle_status t) then idle
          else (case (if live_evidence_is_acknowledged t then None else live_waiting_status t) of
                  Some s \<Rightarrow> s
                | None \<Rightarrow> settled_status t))))"

definition derive_operator_status :: "Task \<Rightarrow> OperatorStatus" where
  "derive_operator_status t = derive_task_status t"

section \<open>Lemmas: the shape of a derived status\<close>

definition ping_explanations :: "string set" where
  "ping_explanations = {''Waiting for approval'', ''Waiting for input''}"

definition well_shaped :: "OperatorStatus \<Rightarrow> bool" where
  "well_shaped s \<longleftrightarrow>
     (op_explanation s = None \<longleftrightarrow> op_status s \<in> {StIdle, StUnknown})
     \<and> (op_actionable s \<longleftrightarrow>
          op_status s = StError
          \<or> op_status s = StWaiting \<and> op_explanation s \<in> Some ` ping_explanations)"

lemma well_shaped_simps [simp]:
  "well_shaped (err e)" "well_shaped (run e)" "well_shaped idle" "well_shaped unknown"
  "well_shaped (ping e) \<longleftrightarrow> e \<in> ping_explanations"
  "well_shaped (soft e) \<longleftrightarrow> e \<notin> ping_explanations"
  by (auto simp: well_shaped_def operator_status_defs)

lemma status_simps [simp]:
  "op_status (err e) = StError" "op_status (run e) = StRunning" "op_status (ping e) = StWaiting"
  "op_status (soft e) = StWaiting" "op_status idle = StIdle" "op_status unknown = StUnknown"
  "op_explanation (err e) = Some e" "op_explanation (run e) = Some e"
  "op_explanation (ping e) = Some e" "op_explanation (soft e) = Some e"
  "op_explanation idle = None" "op_explanation unknown = None"
  "op_actionable (err e)" "\<not> op_actionable (run e)" "op_actionable (ping e)"
  "\<not> op_actionable (soft e)" "\<not> op_actionable idle" "\<not> op_actionable unknown"
  by (simp_all add: operator_status_defs)

lemma substrate_status_err: "substrate_status t = Some s \<Longrightarrow> \<exists>e. s = err e"
  by (auto simp: substrate_status_def split: if_splits option.splits)

lemma error_status_err: "error_status t = Some s \<Longrightarrow> \<exists>e. s = err e"
  by (auto simp: error_status_def split: if_splits option.splits)

lemma running_status_run: "running_status t = Some s \<Longrightarrow> \<exists>e. s = run e"
  by (auto simp: running_status_def split: if_splits option.splits)

lemma delegated_explanation_soft:
  "operator_explanation_for_summary x = Some e \<Longrightarrow> e \<notin> ping_explanations"
  by (auto simp: operator_explanation_for_summary_def Let_def ping_explanations_def
      EXPLANATION_WAITING_ON_DELEGATED_def EXPLANATION_DELEGATED_STILL_ACTIVE_def split: if_splits)

lemma canonical_waiting_ping:
  "canonical_waiting_explanation k = Some (e, b) \<Longrightarrow> b \<longleftrightarrow> e \<in> ping_explanations"
  by (cases k) (auto simp: ping_explanations_def)

lemma canonical_waiting_class: "canonical_waiting_explanation k \<noteq> None \<longleftrightarrow> live_class k = LsWaiting"
  by (cases k) simp_all

lemma live_waiting_status_shape:
  "live_waiting_status t = Some s \<Longrightarrow> well_shaped s \<and> op_status s = StWaiting"
  by (auto simp: live_waiting_status_def dest: delegated_explanation_soft canonical_waiting_ping
      split: option.splits if_splits)

lemma settled_status_shape: "well_shaped (settled_status t)"
  by (simp add: settled_status_def Let_def ping_explanations_def)

lemmas status_split =
  derive_operator_status_def derive_task_status_def

lemma derive_well_shaped: "well_shaped (derive_operator_status t)"
proof -
  have "well_shaped s" if "substrate_status t = Some s" for s
    using substrate_status_err [OF that] by auto
  moreover have "well_shaped s" if "error_status t = Some s" for s
    using error_status_err [OF that] by auto
  moreover have "well_shaped s" if "running_status t = Some s" for s
    using running_status_run [OF that] by auto
  ultimately show ?thesis
    using settled_status_shape live_waiting_status_shape
    by (auto simp: status_split split: option.split)
qed

section \<open>Lemmas: what acknowledging attention can change\<close>

lemma ack_frame [simp]:
  "t_lifecycle_status (record_attention_acknowledgment at t) = t_lifecycle_status t"
  "t_agent_status (record_attention_acknowledgment at t) = t_agent_status t"
  "t_git_status (record_attention_acknowledgment at t) = t_git_status t"
  "t_tmux_status (record_attention_acknowledgment at t) = t_tmux_status t"
  "t_task_window_status (record_attention_acknowledgment at t) = t_task_window_status t"
  "t_runtime_projection (record_attention_acknowledgment at t) = t_runtime_projection t"
  "t_live_status (record_attention_acknowledgment at t) = t_live_status t"
  "t_live_status_observed_at (record_attention_acknowledgment at t) = t_live_status_observed_at t"
  "t_side_flags (record_attention_acknowledgment at t) = t_side_flags t"
  "t_metadata (record_attention_acknowledgment at t) = t_metadata t"
  "t_branch (record_attention_acknowledgment at t) = t_branch t"
  "t_last_activity_at (record_attention_acknowledgment at t) = t_last_activity_at t"
  "t_agent_attempts (record_attention_acknowledgment at t) = t_agent_attempts t"
  "t_annotations (record_attention_acknowledgment at t) = t_annotations t"
  "t_id (record_attention_acknowledgment at t) = t_id t"
  by (simp_all add: record_attention_acknowledgment_def)

lemma ack_at:
  "\<exists>a. t_attention_acknowledged_at (record_attention_acknowledgment at t) = Some a \<and> at \<le> a
     \<and> (\<forall>b. t_attention_acknowledged_at t = Some b \<longrightarrow> b \<le> a)"
  by (auto simp: record_attention_acknowledgment_def split: option.splits)

text \<open>The parts of the derivation depend on the fields they read, whatever task carries them.\<close>

lemmas evidence_reads =
  has_side_flag_def side_flags_def skip_interactive_agent_def has_missing_substrate_def
  has_missing_git_substrate_def has_missing_worktree_def has_missing_branch_def
  has_missing_non_branch_substrate_def runtime_health_missing_substrate_def
  live_reports_unrefuted_missing_substrate_def live_reports_unrefuted_worktree_missing_def
  durable_tmux_present_def durable_task_window_present_def durable_worktree_present_def
  checkout_mismatch_explanation_def has_checkout_mismatch_def agent_process_is_alive_def

lemma substrate_status_cong:
  assumes "t_side_flags t = t_side_flags u" "t_runtime_projection t = t_runtime_projection u"
    "t_git_status t = t_git_status u" "t_live_status t = t_live_status u"
    "t_tmux_status t = t_tmux_status u" "t_task_window_status t = t_task_window_status u"
    "t_branch t = t_branch u" "t_lifecycle_status t = t_lifecycle_status u"
    "skip_interactive_agent t = skip_interactive_agent u"
  shows "substrate_status t = substrate_status u"
proof -
  have "missing_substrate_label t = missing_substrate_label u"
    unfolding missing_substrate_label_def has_side_flag_def assms ..
  moreover have "has_missing_substrate t = has_missing_substrate u"
    unfolding has_missing_substrate_def
      has_missing_git_substrate_def has_missing_worktree_def has_missing_branch_def
      has_missing_non_branch_substrate_def runtime_health_missing_substrate_def
      live_reports_unrefuted_missing_substrate_def live_reports_unrefuted_worktree_missing_def
      durable_tmux_present_def durable_task_window_present_def durable_worktree_present_def
      has_side_flag_def side_flags_def assms ..
  moreover have "checkout_mismatch_explanation t = checkout_mismatch_explanation u"
    unfolding checkout_mismatch_explanation_def has_checkout_mismatch_def assms ..
  ultimately show ?thesis
    by (simp only: substrate_status_def canonical_missing_substrate_explanation_def
        canonical_checkout_mismatch_explanation_def assms)
qed

lemma error_status_cong:
  assumes "t_side_flags t = t_side_flags u" "t_agent_status t = t_agent_status u"
    "t_live_status t = t_live_status u" "t_lifecycle_status t = t_lifecycle_status u"
  shows "error_status t = error_status u"
  unfolding error_status_def has_side_flag_def assms ..

lemma running_status_cong:
  assumes "t_side_flags t = t_side_flags u" "t_agent_status t = t_agent_status u"
    "t_live_status t = t_live_status u"
  shows "running_status t = running_status u"
  unfolding running_status_def has_side_flag_def assms ..

lemma live_waiting_status_cong: "t_live_status t = t_live_status u \<Longrightarrow> live_waiting_status t = live_waiting_status u"
  by (simp add: live_waiting_status_def)

lemma live_ack_mono:
  "live_evidence_is_acknowledged t \<Longrightarrow> live_evidence_is_acknowledged (record_attention_acknowledgment at t)"
  using ack_at [of at t]
  by (auto simp: live_evidence_is_acknowledged_def split: option.splits if_splits)

lemma workflow_ack_mono:
  "workflow_boundary_is_acknowledged t \<Longrightarrow>
   workflow_boundary_is_acknowledged (record_attention_acknowledgment at t)"
  using ack_at [of at t] by (auto simp: workflow_boundary_is_acknowledged_def split: option.splits)

lemma live_acknowledged_waits:
  "live_evidence_is_acknowledged t \<Longrightarrow> \<exists>s. live_waiting_status t = Some s"
  by (auto simp: live_evidence_is_acknowledged_def live_waiting_status_def
      canonical_waiting_class [symmetric] split: option.splits if_splits)

lemma settled_acknowledged:
  "live_evidence_is_acknowledged t \<Longrightarrow>
   settled_status t =
     (if t_lifecycle_status t \<in> {LcReviewable, LcMergeable} \<and> \<not> workflow_boundary_is_acknowledged t
      then soft ''Ready for review'' else idle)"
  by (auto simp: settled_status_def Let_def has_no_status_evidence_def live_evidence_is_acknowledged_def)

lemma settled_unacknowledged_cong:
  "\<not> live_evidence_is_acknowledged t \<Longrightarrow> \<not> live_evidence_is_acknowledged (record_attention_acknowledgment at t) \<Longrightarrow>
   workflow_boundary_is_acknowledged (record_attention_acknowledgment at t) = workflow_boundary_is_acknowledged t
   \<or> t_lifecycle_status t \<notin> {LcReviewable, LcMergeable} \<Longrightarrow>
   settled_status (record_attention_acknowledgment at t) = settled_status t"
  by (auto simp: settled_status_def Let_def has_no_status_evidence_def has_side_flag_def
      skip_interactive_agent_def agent_process_is_alive_def)

lemma ack_substrate [simp]: "substrate_status (record_attention_acknowledgment at t) = substrate_status t"
  by (rule substrate_status_cong) (simp_all add: skip_interactive_agent_def)

lemma ack_error [simp]: "error_status (record_attention_acknowledgment at t) = error_status t"
  by (rule error_status_cong) simp_all

lemma ack_running [simp]: "running_status (record_attention_acknowledgment at t) = running_status t"
  by (rule running_status_cong) simp_all

lemma ack_live_waiting [simp]:
  "live_waiting_status (record_attention_acknowledgment at t) = live_waiting_status t"
  by (rule live_waiting_status_cong) simp

lemma live_ack_needs_waiting:
  "live_evidence_is_acknowledged (record_attention_acknowledgment at t) \<Longrightarrow>
   live_waiting_status t = None \<Longrightarrow> live_evidence_is_acknowledged t"
  using live_acknowledged_waits [of "record_attention_acknowledgment at t"] by simp

lemma settled_review:
  "t_lifecycle_status t \<in> {LcReviewable, LcMergeable} \<Longrightarrow> \<not> workflow_boundary_is_acknowledged t \<Longrightarrow>
   op_status (settled_status t) = StWaiting"
  by (simp add: settled_status_def Let_def)

lemma settled_ack:
  assumes "live_evidence_is_acknowledged t \<longleftrightarrow>
     live_evidence_is_acknowledged (record_attention_acknowledgment at t)"
  shows "settled_status (record_attention_acknowledgment at t) = settled_status t
    \<or> op_status (settled_status t) = StWaiting"
proof (cases "t_lifecycle_status t \<in> {LcReviewable, LcMergeable} \<and> \<not> workflow_boundary_is_acknowledged t")
  case True
  then show ?thesis using settled_review by blast
next
  case False
  have w: "workflow_boundary_is_acknowledged (record_attention_acknowledgment at t)
      = workflow_boundary_is_acknowledged t \<or> t_lifecycle_status t \<notin> {LcReviewable, LcMergeable}"
    using False workflow_ack_mono by blast
  show ?thesis
  proof (cases "live_evidence_is_acknowledged t")
    case True
    with assms w show ?thesis by (auto simp: settled_acknowledged)
  next
    case False
    with assms w show ?thesis by (simp add: settled_unacknowledged_cong)
  qed
qed

section \<open>Properties\<close>

text \<open>Every derived status is well shaped: exactly the idle and the unknown status carry no
  explanation, and exactly the errors and the two questions for the operator (input, approval) ask for
  action. The attention band follows: a task is in the band that needs the operator exactly when its
  status is actionable, whatever its lifecycle.\<close>

theorem derived_status_shape:
  "(op_explanation (derive_operator_status t) = None
      \<longleftrightarrow> op_status (derive_operator_status t) \<in> {StIdle, StUnknown})
   \<and> (op_actionable (derive_operator_status t) \<longleftrightarrow>
        op_status (derive_operator_status t) = StError
        \<or> op_status (derive_operator_status t) = StWaiting
          \<and> op_explanation (derive_operator_status t) \<in> Some ` ping_explanations)
   \<and> (attention_band (derive_operator_status t) lc = BandNeedsYou
        \<longleftrightarrow> op_actionable (derive_operator_status t))"
  using derive_well_shaped [of t] by (auto simp: well_shaped_def attention_band_def)

text \<open>Acknowledging a task never hides an error and never changes a task that is running, idle or
  unknown: only a waiting status can change.\<close>

theorem acknowledging_keeps_errors:
  "derive_operator_status (record_attention_acknowledgment at t) = derive_operator_status t
   \<or> op_status (derive_operator_status t) = StWaiting"
proof (cases "live_evidence_is_acknowledged t")
  case True
  then show ?thesis
    using live_ack_mono [OF True, of at] settled_ack [of t at]
    by (auto simp: status_split split: option.split)
next
  case False
  show ?thesis
  proof (cases "live_waiting_status t")
    case None
    then have "\<not> live_evidence_is_acknowledged (record_attention_acknowledgment at t)"
      using False live_ack_needs_waiting by blast
    then show ?thesis
      using False None settled_ack [of t at] by (auto simp: status_split split: option.split)
  next
    case (Some s)
    then show ?thesis
      using False live_waiting_status_shape [OF Some] by (auto simp: status_split split: option.split)
  qed
qed

text \<open>An acknowledgment that is not older than the live evidence and the last activity quiets the
  task: it shows no waiting status any more, whatever flags it carries.\<close>

theorem acknowledged_task_is_quiet:
  assumes "t_live_status t = Some live" and "live_class (lo_kind live) = LsWaiting"
    and "t_live_status_observed_at t = Some seen" and "seen \<le> at" and "t_last_activity_at t \<le> at"
  shows "op_status (derive_operator_status (record_attention_acknowledgment at t))
    \<in> {StIdle, StRunning, StError}"
proof -
  let ?u = "record_attention_acknowledgment at t"
  have a: "live_evidence_is_acknowledged ?u"
    using ack_at [of at t] assms by (auto simp: live_evidence_is_acknowledged_def)
  have w: "workflow_boundary_is_acknowledged ?u"
    using ack_at [of at t] assms by (auto simp: workflow_boundary_is_acknowledged_def)
  have "settled_status ?u = idle" using settled_acknowledged [OF a] w by simp
  then show ?thesis
    using a by (auto simp: status_split split: option.split
        dest!: substrate_status_err error_status_err running_status_run)
qed

definition waiting_sample :: Task where
  "waiting_sample =
     (task_new 0 ''a'' ''web'' ''h'' ''t'' ''b'' ''main'' ''/w'' ''s'' ''task'' AcCodex)
       \<lparr>t_lifecycle_status := LcReviewable, t_agent_status := ArWaiting, t_side_flags := {SfNeedsInput},
        t_live_status := Some (live_observation LkWaitingForInput ''waiting for input''),
        t_live_status_observed_at := Some 3, t_last_activity_at := 4\<rparr>"

theorem acknowledged_task_is_quiet_witness:
  "op_status (derive_operator_status (record_attention_acknowledgment 5 waiting_sample))
     \<in> {StIdle, StRunning, StError}"
  by (rule acknowledged_task_is_quiet [where seen = 3
        and live = "live_observation LkWaitingForInput ''waiting for input''"])
    (simp_all add: waiting_sample_def)

end
