(* ===== verification/Annotations.thy ===== *)
theory Annotations
  imports Ui_State
begin

text \<open>
  The annotations shown on a task row: \<open>annotate\<close> of \<open>crates/ajax-core/src/attention.rs\<close>. Each kind of
  annotation occurs once, with its preferred evidence; the list agrees with the derived operator
  status. The notification half of \<open>attention.rs\<close> is in the theory \<open>Notify\<close>.
\<close>

section \<open>Tables\<close>

definition annotation_kind_for_live_status :: "LiveStatusKind \<Rightarrow> AnnotationKind option" where
  "annotation_kind_for_live_status k =
     (if k = LkDone then Some AkReviewable
      else (case live_class k of
              LsWaiting \<Rightarrow> Some AkNeedsMe
            | LsError \<Rightarrow> Some AkBroken
            | LsMissingSubstrate \<Rightarrow> Some AkBroken
            | LsRunning \<Rightarrow> None
            | LsNeutral \<Rightarrow> None))"

fun annotation_kind_for_side_flag :: "SideFlag \<Rightarrow> AnnotationKind option" where
  "annotation_kind_for_side_flag SfNeedsInput = Some AkNeedsMe"
| "annotation_kind_for_side_flag SfAgentDead = Some AkBroken"
| "annotation_kind_for_side_flag SfTmuxMissing = Some AkBroken"
| "annotation_kind_for_side_flag SfWorktreeMissing = Some AkBroken"
| "annotation_kind_for_side_flag SfTaskWindowMissing = Some AkBroken"
| "annotation_kind_for_side_flag SfBranchMissing = Some AkBroken"
| "annotation_kind_for_side_flag SfConflicted = Some AkBroken"
| "annotation_kind_for_side_flag SfTestsFailed = Some AkBroken"
| "annotation_kind_for_side_flag SfDirty = None"
| "annotation_kind_for_side_flag SfAgentRunning = None"
| "annotation_kind_for_side_flag SfStale = None"
| "annotation_kind_for_side_flag SfUnpushed = None"

fun annotation_kind_for_agent_status :: "AgentRuntimeStatus \<Rightarrow> AnnotationKind option" where
  "annotation_kind_for_agent_status ArWaiting = Some AkNeedsMe"
| "annotation_kind_for_agent_status ArDead = Some AkBroken"
| "annotation_kind_for_agent_status ArBlocked = Some AkBroken"
| "annotation_kind_for_agent_status ArNotStarted = None"
| "annotation_kind_for_agent_status ArRunning = None"
| "annotation_kind_for_agent_status ArDone = None"
| "annotation_kind_for_agent_status ArUnknown = None"

fun annotation_kind_for_lifecycle :: "LifecycleStatus \<Rightarrow> AnnotationKind option" where
  "annotation_kind_for_lifecycle LcReviewable = Some AkReviewable"
| "annotation_kind_for_lifecycle LcMergeable = Some AkReviewable"
| "annotation_kind_for_lifecycle LcMerged = Some AkCleanable"
| "annotation_kind_for_lifecycle LcCleanable = Some AkCleanable"
| "annotation_kind_for_lifecycle _ = None"

fun substrate_gap_for_side_flag :: "SideFlag \<Rightarrow> SubstrateGap option" where
  "substrate_gap_for_side_flag SfWorktreeMissing = Some SgWorktreeMissing"
| "substrate_gap_for_side_flag SfTmuxMissing = Some SgTmuxMissing"
| "substrate_gap_for_side_flag SfTaskWindowMissing = Some SgTaskWindowMissing"
| "substrate_gap_for_side_flag SfBranchMissing = Some SgBranchMissing"
| "substrate_gap_for_side_flag _ = None"

fun substrate_gap_for_runtime_health :: "RuntimeHealth \<Rightarrow> SubstrateGap option" where
  "substrate_gap_for_runtime_health RhMissingWorktree = Some SgWorktreeMissing"
| "substrate_gap_for_runtime_health RhMissingSession = Some SgTmuxMissing"
| "substrate_gap_for_runtime_health RhMissingTaskWindow = Some SgTaskWindowMissing"
| "substrate_gap_for_runtime_health RhWrongTaskWindowPath = Some SgTaskWindowMissing"
| "substrate_gap_for_runtime_health RhHealthy = None"
| "substrate_gap_for_runtime_health RhUnobservable = None"
| "substrate_gap_for_runtime_health RhCheckoutMismatch = None"

fun evidence_preference :: "AnnotationKind \<Rightarrow> Evidence \<Rightarrow> nat" where
  "evidence_preference AkNeedsMe e =
     (case e of EvLiveStatus _ \<Rightarrow> 0 | EvAgentStatus _ \<Rightarrow> 1 | EvSideFlag _ \<Rightarrow> 2 | EvLifecycle _ \<Rightarrow> 3
      | EvSubstrate _ \<Rightarrow> 4 | EvRuntimeObservationFailed \<Rightarrow> 4 | EvCheckoutMismatch \<Rightarrow> 4)"
| "evidence_preference AkBroken e =
     (case e of EvLiveStatus _ \<Rightarrow> 0 | EvSubstrate _ \<Rightarrow> 1 | EvCheckoutMismatch \<Rightarrow> 1
      | EvRuntimeObservationFailed \<Rightarrow> 2 | EvSideFlag _ \<Rightarrow> 3 | EvAgentStatus _ \<Rightarrow> 4
      | EvLifecycle _ \<Rightarrow> 5)"
| "evidence_preference _ e =
     (case e of EvLifecycle _ \<Rightarrow> 0 | EvLiveStatus _ \<Rightarrow> 1 | EvAgentStatus _ \<Rightarrow> 2 | EvSideFlag _ \<Rightarrow> 3
      | EvSubstrate _ \<Rightarrow> 4 | EvRuntimeObservationFailed \<Rightarrow> 4 | EvCheckoutMismatch \<Rightarrow> 4)"

section \<open>Collecting\<close>

fun push_collapsed_annotation :: "Annotation list \<Rightarrow> Annotation \<Rightarrow> Annotation list" where
  "push_collapsed_annotation [] a = [a]"
| "push_collapsed_annotation (b # bs) a =
     (if an_kind b = an_kind a
      then (if evidence_preference (an_kind a) (an_evidence a)
               < evidence_preference (an_kind b) (an_evidence b)
            then a # bs else b # bs)
      else b # push_collapsed_annotation bs a)"

definition push_if :: "AnnotationKind option \<Rightarrow> Evidence \<Rightarrow> Annotation list \<Rightarrow> Annotation list" where
  "push_if kind e anns =
     (case kind of Some k \<Rightarrow> push_collapsed_annotation anns (annotation_new k e) | None \<Rightarrow> anns)"

text \<open>The pushes of \<open>annotate\<close>, in the order of the code.\<close>

definition push_observation_error :: "Task \<Rightarrow> Annotation list \<Rightarrow> Annotation list" where
  "push_observation_error t =
     push_if (if rp_observation_error (t_runtime_projection t) \<noteq> None then Some AkBroken else None)
       EvRuntimeObservationFailed"

definition push_waiting_agent :: "OperatorStatus \<Rightarrow> Task \<Rightarrow> Annotation list \<Rightarrow> Annotation list" where
  "push_waiting_agent status t =
     push_if (if op_status status = StWaiting \<and> t_agent_status t \<in> {ArWaiting, ArBlocked}
                 \<and> \<not> is_delegated_waiting_summary
                      (case op_explanation status of Some e \<Rightarrow> e | None \<Rightarrow> '''')
              then Some AkNeedsMe else None)
       (EvAgentStatus (t_agent_status t))"

definition push_live_status :: "Task \<Rightarrow> Annotation list \<Rightarrow> Annotation list" where
  "push_live_status t anns =
     (case t_live_status t of
        None \<Rightarrow> anns
      | Some live \<Rightarrow>
          if is_delegated_waiting_summary (lo_summary live) then anns
          else push_if (annotation_kind_for_live_status (lo_kind live))
                 (EvLiveStatus (lo_kind live)) anns)"

definition push_side_flag :: "SideFlag \<Rightarrow> Annotation list \<Rightarrow> Annotation list" where
  "push_side_flag f =
     push_if (annotation_kind_for_side_flag f)
       (case substrate_gap_for_side_flag f of Some g \<Rightarrow> EvSubstrate g | None \<Rightarrow> EvSideFlag f)"

definition push_runtime_health :: "Task \<Rightarrow> Annotation list \<Rightarrow> Annotation list" where
  "push_runtime_health t anns =
     (case substrate_gap_for_runtime_health (rp_health (t_runtime_projection t)) of
        Some gap \<Rightarrow> push_collapsed_annotation anns (annotation_new AkBroken (EvSubstrate gap))
      | None \<Rightarrow> anns)"

definition push_checkout_mismatch :: "Task \<Rightarrow> Annotation list \<Rightarrow> Annotation list" where
  "push_checkout_mismatch t =
     push_if (if \<not> has_missing_substrate t
                 \<and> (has_checkout_mismatch t
                    \<or> rp_health (t_runtime_projection t) = RhCheckoutMismatch)
              then Some AkBroken else None)
       EvCheckoutMismatch"

definition push_error_fallback :: "OperatorStatus \<Rightarrow> Task \<Rightarrow> Annotation list \<Rightarrow> Annotation list" where
  "push_error_fallback status t anns =
     push_if (if op_status status = StError \<and> \<not> list_ex (\<lambda>a. an_kind a = AkBroken) anns
              then Some AkBroken else None)
       (EvLifecycle (t_lifecycle_status t)) anns"

definition retained :: "OperatorStatus \<Rightarrow> Annotation \<Rightarrow> bool" where
  "retained status a =
     (case an_kind a of
        AkNeedsMe \<Rightarrow> op_status status = StWaiting
      | AkBroken \<Rightarrow> op_status status = StError
      | AkReviewable \<Rightarrow> True
      | AkCleanable \<Rightarrow> True)"

definition collect_annotations :: "OperatorStatus \<Rightarrow> Task \<Rightarrow> Annotation list" where
  "collect_annotations status t =
     (let a1 = push_observation_error t [];
          a2 = push_waiting_agent status t a1;
          a3 = push_live_status t a2;
          a4 = fold push_side_flag (side_flags t) a3;
          a5 = push_runtime_health t a4;
          a6 = push_checkout_mismatch t a5;
          a7 = push_if (annotation_kind_for_agent_status (t_agent_status t))
                 (EvLifecycle (t_lifecycle_status t)) a6;
          a8 = push_if (annotation_kind_for_lifecycle (t_lifecycle_status t))
                 (EvLifecycle (t_lifecycle_status t)) a7
      in push_error_fallback status t a8)"

definition annotate :: "Task \<Rightarrow> Annotation list" where
  "annotate t =
     (let status = derive_operator_status t
      in sort_key an_severity (filter (retained status) (collect_annotations status t)))"

section \<open>Lemmas\<close>

definition ann_ok :: "Annotation list \<Rightarrow> bool" where
  "ann_ok anns \<longleftrightarrow>
     distinct (map an_kind anns)
     \<and> list_all (\<lambda>a. a = annotation_new (an_kind a) (an_evidence a)) anns"

lemma ann_ok_Nil [simp]: "ann_ok []"
  by (simp add: ann_ok_def)

lemma push_kinds: "an_kind ` set (push_collapsed_annotation anns a) = insert (an_kind a) (an_kind ` set anns)"
  by (induction anns) auto

lemma push_ok:
  "ann_ok anns \<Longrightarrow> a = annotation_new (an_kind a) (an_evidence a) \<Longrightarrow>
   ann_ok (push_collapsed_annotation anns a)"
proof (induction anns)
  case (Cons b bs)
  then have ok: "ann_ok (push_collapsed_annotation bs a)" by (simp add: ann_ok_def)
  show ?case
    using Cons.prems ok push_kinds [of bs a] by (auto simp: ann_ok_def simp flip: set_map)
qed (simp add: ann_ok_def)

lemma push_if_ok: "ann_ok anns \<Longrightarrow> ann_ok (push_if k e anns)"
  by (simp add: push_if_def push_ok split: option.split)

lemma fold_push_ok: "ann_ok anns \<Longrightarrow> ann_ok (fold push_side_flag fs anns)"
  by (induction fs arbitrary: anns) (simp_all add: push_side_flag_def push_if_ok)

lemma push_steps_ok:
  "ann_ok anns \<Longrightarrow> ann_ok (push_live_status t anns)"
  "ann_ok anns \<Longrightarrow> ann_ok (push_runtime_health t anns)"
  "ann_ok anns \<Longrightarrow> ann_ok (push_observation_error t anns)"
  "ann_ok anns \<Longrightarrow> ann_ok (push_waiting_agent s t anns)"
  "ann_ok anns \<Longrightarrow> ann_ok (push_checkout_mismatch t anns)"
  "ann_ok anns \<Longrightarrow> ann_ok (push_error_fallback s t anns)"
  by (simp_all add: push_live_status_def push_runtime_health_def push_observation_error_def
      push_waiting_agent_def push_checkout_mismatch_def push_error_fallback_def push_if_ok push_ok
      split: option.split)

lemma fallback_broken:
  assumes "op_status s = StError"
  shows "AkBroken \<in> an_kind ` set (push_error_fallback s t anns)"
proof (cases "AkBroken \<in> an_kind ` set anns")
  case True
  then have "list_ex (\<lambda>a. an_kind a = AkBroken) anns" by (force simp: list_ex_iff)
  with True show ?thesis by (simp add: push_error_fallback_def push_if_def)
next
  case False
  then have "\<not> list_ex (\<lambda>a. an_kind a = AkBroken) anns" by (force simp: list_ex_iff)
  with assms show ?thesis by (simp add: push_error_fallback_def push_if_def push_kinds)
qed

lemma severity_inject: "severity_of a = severity_of b \<longleftrightarrow> a = b"
  by (cases a; cases b) simp_all

lemma ann_ok_filter: "ann_ok anns \<Longrightarrow> ann_ok (filter p anns)"
  by (auto simp: ann_ok_def list_all_iff intro: distinct_map_filter)

lemma distinct_map_sort_key: "distinct (map f xs) \<Longrightarrow> distinct (map f (sort_key g xs))"
proof -
  assume "distinct (map f xs)"
  moreover have "mset (map f (sort_key g xs)) = mset (map f xs)" by simp
  ultimately show ?thesis by (metis mset_eq_imp_distinct_iff)
qed

lemma ann_ok_sort: "ann_ok anns \<Longrightarrow> ann_ok (sort_key f anns)"
  by (simp add: ann_ok_def list_all_iff distinct_map_sort_key)

lemma collect_ok: "ann_ok (collect_annotations s t)"
  unfolding collect_annotations_def Let_def
  by (intro push_steps_ok push_if_ok fold_push_ok ann_ok_Nil)

lemma collect_broken:
  "op_status s = StError \<Longrightarrow> AkBroken \<in> an_kind ` set (collect_annotations s t)"
  unfolding collect_annotations_def Let_def by (rule fallback_broken)

lemma kinds_filter:
  "k \<in> an_kind ` set (filter p anns) \<longleftrightarrow> (\<exists>a \<in> set anns. p a \<and> an_kind a = k)"
  by auto

lemma annotate_kinds:
  "k \<in> an_kind ` set (annotate t) \<longleftrightarrow>
     (\<exists>a \<in> set (collect_annotations (derive_operator_status t) t).
        retained (derive_operator_status t) a \<and> an_kind a = k)"
  by (auto simp: annotate_def Let_def)

lemma annotate_ok: "ann_ok (annotate t)"
  unfolding annotate_def Let_def by (intro ann_ok_sort ann_ok_filter collect_ok)

lemma annotate_broken_iff:
  "AkBroken \<in> an_kind ` set (annotate t) \<longleftrightarrow> op_status (derive_operator_status t) = StError"
proof
  assume e: "op_status (derive_operator_status t) = StError"
  then obtain a where "a \<in> set (collect_annotations (derive_operator_status t) t)" "an_kind a = AkBroken"
    using collect_broken [of "derive_operator_status t" t] by (metis imageE)
  with e show "AkBroken \<in> an_kind ` set (annotate t)"
    unfolding annotate_kinds by (intro bexI [of _ a]) (simp_all add: retained_def)
qed (auto simp: annotate_kinds retained_def)

lemma annotate_needs_me:
  "AkNeedsMe \<in> an_kind ` set (annotate t) \<Longrightarrow> op_status (derive_operator_status t) = StWaiting"
  by (auto simp: annotate_kinds retained_def)

section \<open>Properties\<close>

text \<open>The annotations of a task are sorted by severity, hold each kind at most once, carry the
  severity and the suggested action of their kind, and agree with the status the operator sees: the
  task is marked broken exactly when its status is an error, and as needing the operator only when it
  waits (so never both).\<close>

theorem annotate_agrees_with_status:
  "sorted (map an_severity (annotate t)) \<and> distinct (map an_kind (annotate t))
   \<and> list_all (\<lambda>a. a = annotation_new (an_kind a) (an_evidence a)) (annotate t)
   \<and> (AkBroken \<in> an_kind ` set (annotate t) \<longleftrightarrow> op_status (derive_operator_status t) = StError)
   \<and> \<not> (AkNeedsMe \<in> an_kind ` set (annotate t) \<and> op_status (derive_operator_status t) \<noteq> StWaiting)"
proof (intro conjI)
  show "sorted (map an_severity (annotate t))" by (simp add: annotate_def Let_def)
  show "distinct (map an_kind (annotate t))"
    and "list_all (\<lambda>a. a = annotation_new (an_kind a) (an_evidence a)) (annotate t)"
    using annotate_ok [of t] by (simp_all add: ann_ok_def)
qed (use annotate_broken_iff annotate_needs_me in blast)+

end
