(* ===== verification/Ci_Monitor.thy ===== *)
theory Ci_Monitor
  imports Live_Status Annotations Diff_Review
begin

text \<open>
  The CI monitor of a task: \<open>crates/ajax-core/src/runtime_refresh/ci_monitor.rs\<close> with
  \<open>github_checks.rs\<close> and \<open>agent_notification.rs\<close>. The monitor's state lives as JSON in the metadata
  of the task; encoding and decoding (serde) are the parameters \<open>enc\<close> and \<open>dec\<close>, and what the proofs
  need of them is the round trip at the state in question. The \<open>gh\<close> runs go through a state-passing
  runner; the JSON of its output is read by the decoders of the theory \<open>Github\<close>, collected in
  \<open>decoders\<close>. Times inside the monitor are u64 Unix seconds.
\<close>

section \<open>State\<close>

definition CI_MONITOR_STATE_KEY :: string where
  "CI_MONITOR_STATE_KEY = ''ajax_ci_monitor''"

definition CI_CHECKS_PROBED_AT_KEY :: string where
  "CI_CHECKS_PROBED_AT_KEY = ''ci_checks_probed_at''"

definition CI_PROBE_ERROR_KEY :: string where
  "CI_PROBE_ERROR_KEY = ''ci_probe_error''"

definition ACTIVE_CHECK_INTERVAL_SECS :: nat where
  "ACTIVE_CHECK_INTERVAL_SECS = 10"

definition DISCOVERY_INTERVAL_SECS :: nat where
  "DISCOVERY_INTERVAL_SECS = 300"

datatype CiAttemptStatus = CaUnobserved | CaPending | CaFailed | CaPassed

datatype AgentNotificationDeliveryStatus = NdQueued | NdAccepted | NdError

record AgentNotificationDelivery =
  nd_notification_id :: string
  nd_status :: AgentNotificationDeliveryStatus
  nd_detail :: "string option"

datatype AgentNotification =
    NtCiFailed string task_id nat string "CiFailedCheck list"
  | NtMergeConflict string task_id nat string

record CiMonitorState =
  cm_pr_number :: "nat option"
  cm_head_sha :: "string option"
  cm_status :: CiAttemptStatus
  cm_failed_checks :: "CiFailedCheck list"
  cm_check_identities :: "string list"
  cm_has_pending :: bool
  cm_last_pr_discovery_at :: "nat option"
  cm_last_check_probe_at :: "nat option"
  cm_last_mergeable_probe_at :: "nat option"
  cm_episode_id :: "string option"
  cm_last_failure_identities :: "string list"
  cm_saw_pending_after_failure :: bool
  cm_last_notified_failure :: "string option"
  cm_delivery :: "AgentNotificationDelivery option"
  cm_merge_conflict :: bool

definition monitor_default :: CiMonitorState where
  "monitor_default =
     \<lparr>cm_pr_number = None, cm_head_sha = None, cm_status = CaUnobserved, cm_failed_checks = [],
      cm_check_identities = [], cm_has_pending = False, cm_last_pr_discovery_at = None,
      cm_last_check_probe_at = None, cm_last_mergeable_probe_at = None, cm_episode_id = None,
      cm_last_failure_identities = [], cm_saw_pending_after_failure = False,
      cm_last_notified_failure = None, cm_delivery = None, cm_merge_conflict = False\<rparr>"

type_synonym monitor_dec = "string \<Rightarrow> CiMonitorState option"
type_synonym monitor_enc = "CiMonitorState \<Rightarrow> string option"

section \<open>Notifications\<close>

fun notification_id :: "AgentNotification \<Rightarrow> string" where
  "notification_id (NtCiFailed e _ _ _ _) = e"
| "notification_id (NtMergeConflict e _ _ _) = e"

fun notification_task_id :: "AgentNotification \<Rightarrow> task_id" where
  "notification_task_id (NtCiFailed _ t _ _ _) = t"
| "notification_task_id (NtMergeConflict _ t _ _) = t"

text \<open>The dash between the name and the link is U+2014, three bytes in UTF-8.\<close>

definition em_dash :: string where
  "em_dash = '' '' @ [CHR 0xE2, CHR 0x80, CHR 0x94] @ '' ''"

definition check_row :: "CiFailedCheck \<Rightarrow> string" where
  "check_row c =
     (case (fc_link c, fc_identity c) of
        (Some link, Some identity) \<Rightarrow> ''- '' @ fc_name c @ em_dash @ link @ '' ('' @ identity @ '')''
      | (Some link, None) \<Rightarrow> ''- '' @ fc_name c @ em_dash @ link
      | (None, Some identity) \<Rightarrow> ''- '' @ fc_name c @ '' ('' @ identity @ '')''
      | (None, None) \<Rightarrow> ''- '' @ fc_name c)"

definition ci_failed_instructions :: string where
  "ci_failed_instructions =
     ''Inspect the logs for every failed check, determine whether each failure is caused by this branch, '' @
     ''fix every relevant failure, run the repository's local verification, commit the fix, and push the '' @
     ''branch. If a failure is unrelated, report the evidence instead of changing unrelated code.''"

definition merge_conflict_instructions :: string where
  "merge_conflict_instructions =
     ''Update this branch from its base branch, resolve every conflict, run the repository's local '' @
     ''verification, commit the resolution, and push the branch.''"

fun notification_prompt :: "AgentNotification \<Rightarrow> string" where
  "notification_prompt (NtCiFailed _ _ number sha checks) =
     ''CI failed for PR #'' @ show_nat number @ '' at head '' @ sha @ ''.'' @ [newline, newline]
     @ ''Failed checks:'' @ [newline]
     @ join [newline] (map check_row (sort_key failed_check_key checks)) @ [newline, newline]
     @ ci_failed_instructions"
| "notification_prompt (NtMergeConflict _ _ number sha) =
     ''PR #'' @ show_nat number @ '' at head '' @ sha @ '' has merge conflicts with its base branch.''
     @ [newline, newline] @ merge_conflict_instructions"

section \<open>GitHub evidence on the task\<close>

definition github_probe_is_retired :: "Task \<Rightarrow> bool" where
  "github_probe_is_retired t \<longleftrightarrow>
     t_lifecycle_status t \<in> {LcRemoved, LcMerged, LcCleanable}
     \<or> trim (t_branch t) = [] \<or> has_side_flag SfWorktreeMissing t"

definition is_github_ci_failure :: "LiveObservation \<Rightarrow> bool" where
  "is_github_ci_failure live \<longleftrightarrow> lo_kind live = LkCiFailed \<and> starts_with (lo_summary live) ''ci failed''"

definition is_github_owned_ci :: "LiveObservation \<Rightarrow> bool" where
  "is_github_owned_ci live \<longleftrightarrow> is_github_ci_failure live \<or> lo_kind live = LkCiPending"

definition is_local_check_failure :: "LiveObservation \<Rightarrow> bool" where
  "is_local_check_failure live \<longleftrightarrow> lo_kind live = LkCiFailed \<and> lo_summary live = ''check failed''"

definition live_is :: "(LiveObservation \<Rightarrow> bool) \<Rightarrow> Task \<Rightarrow> bool" where
  "live_is p t = (case t_live_status t of Some live \<Rightarrow> p live | None \<Rightarrow> False)"

definition is_unacknowledged_attention_gate :: "Task \<Rightarrow> LiveObservation \<Rightarrow> bool" where
  "is_unacknowledged_attention_gate t live \<longleftrightarrow>
     lo_kind live \<in> {LkWaitingForApproval, LkWaitingForInput}
     \<and> \<not> (case (t_live_status_observed_at t, t_attention_acknowledged_at t) of
            (Some observed_at, Some acknowledged_at) \<Rightarrow> observed_at \<le> acknowledged_at
          | _ \<Rightarrow> False)"

definition can_apply_github_override :: "Task \<Rightarrow> bool" where
  "can_apply_github_override t =
     (case t_live_status t of
        None \<Rightarrow> True
      | Some live \<Rightarrow>
          if is_github_ci_failure live then True
          else if is_unacknowledged_attention_gate t live then False
          else live_class (lo_kind live) \<notin> {LsError, LsMissingSubstrate})"

definition clear_live_when :: "(LiveObservation \<Rightarrow> bool) \<Rightarrow> Task \<Rightarrow> Task" where
  "clear_live_when p t =
     (if live_is p t then t\<lparr>t_live_status := None, t_live_status_observed_at := None\<rparr> else t)"

definition clear_github_ci_evidence :: "Task \<Rightarrow> Task" where
  "clear_github_ci_evidence t =
     (let t1 = clear_live_when is_github_owned_ci t in
      if \<not> live_is is_local_check_failure t1 then remove_side_flag SfTestsFailed t1 else t1)"

definition put_meta :: "string \<Rightarrow> string \<Rightarrow> Task \<Rightarrow> Task" where
  "put_meta k v t = t\<lparr>t_metadata := (t_metadata t)(k \<mapsto> v)\<rparr>"

definition del_meta :: "string \<Rightarrow> Task \<Rightarrow> Task" where
  "del_meta k t = t\<lparr>t_metadata := (t_metadata t)(k := None)\<rparr>"

definition apply_github_checks_observation :: "clock \<Rightarrow> CiChecksObservation \<Rightarrow> time \<Rightarrow> Task \<Rightarrow> Task" where
  "apply_github_checks_observation clk ob now t0 =
     (let t = put_meta CI_CHECKS_PROBED_AT_KEY (show_nat (unix_seconds now)) t0 in
      case ob of
        CoFailed summary \<Rightarrow>
          let t1 = del_meta CI_PROBE_ERROR_KEY t in
          if can_apply_github_override t1
          then apply_observation clk (live_observation LkCiFailed (''ci failed: '' @ summary)) t1
          else t1
      | CoPending \<Rightarrow>
          let t1 = del_meta CI_PROBE_ERROR_KEY t in
          if can_apply_github_override t1
          then apply_observation clk (live_observation LkCiPending ''ci running'') t1
          else t1
      | CoHealthy \<Rightarrow> clear_github_ci_evidence (del_meta CI_PROBE_ERROR_KEY t)
      | CoUnobservable reason \<Rightarrow>
          clear_live_when (\<lambda>live. lo_kind live = LkCiPending) (put_meta CI_PROBE_ERROR_KEY reason t))"

section \<open>Loading and storing the monitor state\<close>

definition complete_state :: "Task \<Rightarrow> CiMonitorState \<Rightarrow> CiMonitorState" where
  "complete_state t s0 =
     (let s1 = (if cm_last_check_probe_at s0 = None
                then s0\<lparr>cm_last_check_probe_at :=
                       Option.bind (t_metadata t CI_CHECKS_PROBED_AT_KEY) parse_u64\<rparr>
                else s0);
          s2 = (if cm_last_pr_discovery_at s1 = None
                then s1\<lparr>cm_last_pr_discovery_at := cm_last_check_probe_at s1\<rparr> else s1)
      in if cm_status s2 = CaUnobserved \<and> live_is is_github_ci_failure t
         then s2\<lparr>cm_status := CaFailed\<rparr> else s2)"

definition load_state :: "monitor_dec \<Rightarrow> Task \<Rightarrow> CiMonitorState" where
  "load_state dec t =
     complete_state t (case Option.bind (t_metadata t CI_MONITOR_STATE_KEY) dec of
                         Some s \<Rightarrow> s | None \<Rightarrow> monitor_default)"

definition store_state :: "monitor_enc \<Rightarrow> CiMonitorState \<Rightarrow> Task \<Rightarrow> Task \<times> bool" where
  "store_state enc s t =
     (case enc s of
        None \<Rightarrow> (t, False)
      | Some json \<Rightarrow>
          if t_metadata t CI_MONITOR_STATE_KEY = Some json then (t, False)
          else (put_meta CI_MONITOR_STATE_KEY json t, True))"

section \<open>Reducing a report\<close>

definition checks_due :: "CiMonitorState \<Rightarrow> nat \<Rightarrow> bool" where
  "checks_due s now =
     (if cm_status s = CaUnobserved \<and> cm_last_check_probe_at s = None then True
      else
        let interval = (if cm_status s \<in> {CaPending, CaFailed}
                        then ACTIVE_CHECK_INTERVAL_SECS else DISCOVERY_INTERVAL_SECS)
        in (case cm_last_check_probe_at s of None \<Rightarrow> True | Some at \<Rightarrow> now - at \<ge> interval))"

definition rerun_in_progress :: "CiMonitorState \<Rightarrow> bool" where
  "rerun_in_progress s \<longleftrightarrow>
     cm_saw_pending_after_failure s \<and> (cm_status s = CaPending \<or> cm_has_pending s)"

definition checks_in_flight :: "CiMonitorState \<Rightarrow> bool" where
  "checks_in_flight s \<longleftrightarrow> cm_status s = CaPending \<or> rerun_in_progress s"

definition episode_of :: "task_id \<Rightarrow> CiMonitorState \<Rightarrow> string" where
  "episode_of i s =
     (let identities = (if cm_check_identities s = [] then map fc_name (cm_failed_checks s)
                        else cm_check_identities s)
      in ''ci-failed:'' @ i @ '':''
         @ show_nat (case cm_pr_number s of Some n \<Rightarrow> n | None \<Rightarrow> 0) @ '':''
         @ (case cm_head_sha s of Some sha \<Rightarrow> sha | None \<Rightarrow> []) @ '':'' @ join '','' identities)"

definition start_episode :: "Task \<Rightarrow> CiMonitorState \<Rightarrow> CiMonitorState" where
  "start_episode t s =
     s\<lparr>cm_episode_id := Some (episode_of (t_id t) s),
       cm_last_failure_identities := cm_check_identities s,
       cm_saw_pending_after_failure := False, cm_delivery := None\<rparr>"

definition apply_failed ::
    "clock \<Rightarrow> CiMonitorState \<Rightarrow> Task \<Rightarrow> CiMonitorState \<Rightarrow> Task \<times> CiMonitorState" where
  "apply_failed clk previous t s =
     (let summary = join '', '' (map fc_name (cm_failed_checks s));
          t1 = (if \<not> rerun_in_progress s
                then apply_github_checks_observation (\<lambda>k. clk (Suc k)) (CoFailed summary) (clk 0) t
                else t);
          s1 = s\<lparr>cm_status := CaFailed\<rparr>;
          t2 = (if t_lifecycle_status t1 = LcMergeable then try_transition (mark_reviewable t1) t1 else t1);
          first_episode = (cm_episode_id previous = None);
          distinct_rerun = (cm_saw_pending_after_failure previous \<and> cm_check_identities s1 \<noteq> []
                            \<and> cm_check_identities s1 \<noteq> cm_last_failure_identities previous)
      in (t2, if first_episode \<or> distinct_rerun \<and> \<not> cm_has_pending s1 then start_episode t2 s1 else s1))"

definition apply_check_observation ::
    "clock \<Rightarrow> CiAttemptStatus \<Rightarrow> CiChecksObservation \<Rightarrow> Task \<Rightarrow> CiMonitorState \<Rightarrow> Task \<times> CiMonitorState" where
  "apply_check_observation clk status ob t s =
     (apply_github_checks_observation (\<lambda>k. clk (Suc k)) ob (clk 0) t, s\<lparr>cm_status := status\<rparr>)"

definition apply_pending :: "clock \<Rightarrow> Task \<Rightarrow> CiMonitorState \<Rightarrow> Task \<times> CiMonitorState" where
  "apply_pending clk t s =
     (let s1 = (if cm_episode_id s \<noteq> None then s\<lparr>cm_saw_pending_after_failure := True\<rparr> else s)
      in apply_check_observation clk CaPending CoPending t s1)"

definition apply_healthy :: "clock \<Rightarrow> Task \<Rightarrow> CiMonitorState \<Rightarrow> Task \<times> CiMonitorState" where
  "apply_healthy clk t s =
     (let (t1, s1) = apply_check_observation clk CaPassed CoHealthy t (s\<lparr>cm_has_pending := False\<rparr>) in
      (if t_lifecycle_status t1 = LcReviewable \<and> \<not> has_side_flag SfDirty t1
          \<and> \<not> has_side_flag SfConflicted t1 \<and> \<not> has_side_flag SfTestsFailed t1
       then try_transition (mark_mergeable t1) t1 else t1, s1))"

definition apply_report ::
    "clock \<Rightarrow> CiMonitorState \<Rightarrow> CiChecksReport \<Rightarrow> Task \<Rightarrow> CiMonitorState \<Rightarrow> Task \<times> CiMonitorState" where
  "apply_report clk previous report t s =
     (if cr_state report = CcUnobservable
      then ((case cr_error report of Some e \<Rightarrow> put_meta CI_PROBE_ERROR_KEY e t | None \<Rightarrow> t), s)
      else
        let t1 = del_meta CI_PROBE_ERROR_KEY t;
            s1 = s\<lparr>cm_failed_checks := cr_failed_checks report,
                   cm_check_identities := cr_check_identities report,
                   cm_has_pending := cr_has_pending report\<rparr>
        in case cr_state report of
             CcFailed \<Rightarrow> apply_failed clk previous t1 s1
           | CcPending \<Rightarrow> apply_pending clk t1 s1
           | CcHealthy \<Rightarrow> apply_healthy clk t1 s1
           | CcUnobservable \<Rightarrow> (t1, s1))"

definition attempt_reset :: "PullRequestRef \<Rightarrow> CiMonitorState \<Rightarrow> CiMonitorState" where
  "attempt_reset pr s =
     monitor_default\<lparr>cm_pr_number := Some (pr_number pr),
       cm_head_sha := Some (case pr_head_sha pr of Some sha \<Rightarrow> sha | None \<Rightarrow> []),
       cm_last_pr_discovery_at := cm_last_pr_discovery_at s\<rparr>"

definition is_new_attempt :: "PullRequestRef \<Rightarrow> CiMonitorState \<Rightarrow> bool" where
  "is_new_attempt pr s \<longleftrightarrow>
     cm_pr_number s \<noteq> Some (pr_number pr)
     \<or> cm_head_sha s \<noteq> Some (case pr_head_sha pr of Some sha \<Rightarrow> sha | None \<Rightarrow> [])"

definition reduce_report ::
    "monitor_dec \<Rightarrow> monitor_enc \<Rightarrow> clock \<Rightarrow> PullRequestRef \<Rightarrow> CiChecksReport \<Rightarrow> nat \<Rightarrow> Task \<Rightarrow> Task \<times> bool" where
  "reduce_report dec enc clk pr report observed_at t =
     (let previous = load_state dec t;
          new_attempt = is_new_attempt pr previous;
          s0 = (if new_attempt then attempt_reset pr previous else previous);
          episode_previous = (if new_attempt then monitor_default else previous);
          s1 = s0\<lparr>cm_last_check_probe_at := Some observed_at\<rparr>;
          t1 = put_meta CI_CHECKS_PROBED_AT_KEY (show_nat observed_at) t;
          (t2, s2) = apply_report clk episode_previous report t1 s1;
          (t3, stored) = store_state enc s2 t2
      in (t3, stored \<or> s2 \<noteq> previous))"

section \<open>Refreshing one task\<close>

text \<open>The JSON readers and writers of one refresh (serde), as one record.\<close>

record codecs =
  cd_dec :: monitor_dec
  cd_enc :: monitor_enc
  cd_prs_dec :: "string \<Rightarrow> PullRequestRef list option"
  cd_prs_enc :: "PullRequestRef list \<Rightarrow> string option"
  cd_list_rows :: "string \<Rightarrow> string + PrListRow list"
  cd_check_rows :: "string \<Rightarrow> CheckRow list option"
  cd_mergeable :: "string \<Rightarrow> string option"

definition retire_attempt :: "Task \<Rightarrow> CiMonitorState \<Rightarrow> Task \<times> CiMonitorState" where
  "retire_attempt t s =
     (clear_github_ci_evidence t,
      monitor_default\<lparr>cm_last_pr_discovery_at := cm_last_pr_discovery_at s\<rparr>)"

definition retire :: "codecs \<Rightarrow> Task \<Rightarrow> Task" where
  "retire cd t =
     (let (t1, s1) = retire_attempt t (load_state (cd_dec cd) t);
          s2 = s1\<lparr>cm_last_pr_discovery_at := None\<rparr>
      in if s2 = monitor_default \<and> t_metadata t1 CI_MONITOR_STATE_KEY = None then t1
         else fst (store_state (cd_enc cd) s2 t1))"

definition discovery_due :: "CiMonitorState \<Rightarrow> nat \<Rightarrow> bool" where
  "discovery_due s now =
     (case cm_last_pr_discovery_at s of
        None \<Rightarrow> True | Some at \<Rightarrow> now - at \<ge> DISCOVERY_INTERVAL_SECS)"

definition remember_listing :: "codecs \<Rightarrow> string + PullRequestRef list \<Rightarrow> Task \<Rightarrow> Task" where
  "remember_listing cd listing t =
     (case listing of
        Inr prs \<Rightarrow>
          del_meta CI_PROBE_ERROR_KEY
            (put_meta AJAX_PULL_REQUESTS_KEY
               (case cd_prs_enc cd prs of Some json \<Rightarrow> json | None \<Rightarrow> ''[]'') t)
      | Inl e \<Rightarrow> put_meta CI_PROBE_ERROR_KEY e t)"

definition open_pr :: "PullRequestRef list \<Rightarrow> PullRequestRef option" where
  "open_pr prs = max_by_key pr_number (filter (\<lambda>p. pr_state p = PrOpen) prs)"

definition discover_open_pr ::
    "codecs \<Rightarrow> string \<Rightarrow> 'r runner \<Rightarrow> nat \<Rightarrow> Task \<Rightarrow> CiMonitorState \<Rightarrow> 'r \<Rightarrow>
     PullRequestRef option \<times> Task \<times> CiMonitorState \<times> 'r" where
  "discover_open_pr cd program exec now t s r =
     (let (t1, s1, r1) =
        (if discovery_due s now then
           let (result, r') = exec r (pr_list program (t_worktree_path t) (pr_head_branch t))
           in (remember_listing cd (parse_pr_list (cd_list_rows cd) result) t,
               s\<lparr>cm_last_pr_discovery_at := Some now\<rparr>, r')
         else (t, s, r))
      in (open_pr (stored_pull_requests (cd_prs_dec cd) t1), t1, s1, r1))"

definition reconcile_lifecycle_from_prs :: "codecs \<Rightarrow> Task \<Rightarrow> Task" where
  "reconcile_lifecycle_from_prs cd t =
     (let prs = stored_pull_requests (cd_prs_dec cd) t;
          has_merged = list_ex (\<lambda>p. pr_state p = PrMerged) prs;
          has_open = list_ex (\<lambda>p. pr_state p = PrOpen) prs
      in if has_merged \<and> \<not> has_open \<and> t_lifecycle_status t \<in> {LcActive, LcReviewable, LcMergeable}
         then let t1 = try_transition (mark_merged t) t in t1\<lparr>t_annotations := annotate t1\<rparr>
         else if has_open \<and> t_lifecycle_status t = LcActive \<and> t_agent_status t = ArDone
                 \<and> \<not> has_side_flag SfAgentRunning t \<and> \<not> has_side_flag SfNeedsInput t
         then let t1 = try_transition (mark_reviewable t) t in t1\<lparr>t_annotations := annotate t1\<rparr>
         else t)"

definition refresh_merge_conflict ::
    "codecs \<Rightarrow> string \<Rightarrow> 'r runner \<Rightarrow> PullRequestRef \<Rightarrow> nat \<Rightarrow> Task \<Rightarrow> 'r \<Rightarrow> Task \<times> 'r" where
  "refresh_merge_conflict cd program exec pr now t r =
     (let s = load_state (cd_dec cd) t in
      case cm_last_mergeable_probe_at s of
        None \<Rightarrow> (fst (store_state (cd_enc cd) (s\<lparr>cm_last_mergeable_probe_at := Some now\<rparr>) t), r)
      | Some last_probe_at \<Rightarrow>
          if now - last_probe_at < DISCOVERY_INTERVAL_SECS then (t, r)
          else
            let s1 = s\<lparr>cm_last_mergeable_probe_at := Some now\<rparr>;
                t1 = fst (store_state (cd_enc cd) s1 t);
                (result, r1) = exec r (pr_mergeable program (t_worktree_path t1) (pr_number pr))
            in case parse_pr_mergeable (cd_mergeable cd) result of
                 MgConflicting \<Rightarrow> (fst (store_state (cd_enc cd) (s1\<lparr>cm_merge_conflict := True\<rparr>) t1), r1)
               | MgMergeable \<Rightarrow> (fst (store_state (cd_enc cd) (s1\<lparr>cm_merge_conflict := False\<rparr>) t1), r1)
               | MgUnknown \<Rightarrow> (t1, r1))"

definition has_head_sha :: "PullRequestRef \<Rightarrow> bool" where
  "has_head_sha pr = (case pr_head_sha pr of Some sha \<Rightarrow> trim sha \<noteq> [] | None \<Rightarrow> False)"

definition refresh_open_pr ::
    "codecs \<Rightarrow> string \<Rightarrow> 'r runner \<Rightarrow> clock \<Rightarrow> nat \<Rightarrow> PullRequestRef \<Rightarrow> CiMonitorState \<Rightarrow> Task \<Rightarrow> 'r \<Rightarrow>
     Task \<times> 'r" where
  "refresh_open_pr cd program exec clk now pr s t r =
     (if \<not> has_head_sha pr then (fst (store_state (cd_enc cd) s t), r)
      else if \<not> checks_due s now then (fst (store_state (cd_enc cd) s t), r)
      else
        let (result, r1) = exec r (pr_checks_for_pr program (t_worktree_path t) (pr_number pr));
            report = parse_pr_checks_report (cd_check_rows cd) result;
            t1 = fst (reduce_report (cd_dec cd) (cd_enc cd) clk pr report now t)
        in refresh_merge_conflict cd program exec pr now t1 r1)"

definition refresh_task ::
    "codecs \<Rightarrow> string \<Rightarrow> 'r runner \<Rightarrow> clock \<Rightarrow> nat \<Rightarrow> Task \<Rightarrow> 'r \<Rightarrow> Task \<times> 'r" where
  "refresh_task cd program exec clk now t r =
     (if github_probe_is_retired t then (retire cd t, r)
      else
        let (found, t1, s1, r1) = discover_open_pr cd program exec now t (load_state (cd_dec cd) t) r;
            t2 = reconcile_lifecycle_from_prs cd t1
        in case found of
             None \<Rightarrow>
               let (t3, s2) = retire_attempt t2 s1 in (fst (store_state (cd_enc cd) s2 t3), r1)
           | Some pr \<Rightarrow> refresh_open_pr cd program exec clk now pr s1 t2 r1)"

section \<open>Notifying the agent\<close>

definition pending_merge_conflict :: "Task \<Rightarrow> CiMonitorState \<Rightarrow> AgentNotification option" where
  "pending_merge_conflict t s =
     (case (cm_pr_number s, cm_head_sha s) of
        (Some number, Some sha) \<Rightarrow>
          let episode = ''merge-conflict:'' @ t_id t @ '':'' @ show_nat number @ '':'' @ sha in
          if cm_last_notified_failure s = Some episode then None
          else Some (NtMergeConflict episode (t_id t) number sha)
      | _ \<Rightarrow> None)"

definition pending_from_state :: "Task \<Rightarrow> CiMonitorState \<Rightarrow> AgentNotification option" where
  "pending_from_state t s =
     (if cm_merge_conflict s then pending_merge_conflict t s
      else case cm_episode_id s of
             None \<Rightarrow> None
           | Some episode \<Rightarrow>
               if cm_status s \<noteq> CaFailed \<or> cm_last_notified_failure s = Some episode
                  \<or> checks_in_flight s
               then None
               else (case (cm_pr_number s, cm_head_sha s) of
                       (Some number, Some sha) \<Rightarrow>
                         Some (NtCiFailed episode (t_id t) number sha (cm_failed_checks s))
                     | _ \<Rightarrow> None))"

definition pending_notification :: "monitor_dec \<Rightarrow> Task \<Rightarrow> AgentNotification option" where
  "pending_notification dec t = pending_from_state t (load_state dec t)"

definition record_delivery ::
    "monitor_dec \<Rightarrow> monitor_enc \<Rightarrow> AgentNotificationDelivery \<Rightarrow> Task \<Rightarrow> Task \<times> bool" where
  "record_delivery dec enc d t =
     (let s = load_state dec t in
      if cm_delivery s = Some d then (t, False)
      else
        let s1 = (if nd_status d \<in> {NdQueued, NdAccepted}
                  then s\<lparr>cm_last_notified_failure := Some (nd_notification_id d)\<rparr> else s)
        in store_state enc (s1\<lparr>cm_delivery := Some d\<rparr>) t)"

definition delivery_for_task :: "monitor_dec \<Rightarrow> Task \<Rightarrow> AgentNotificationDelivery option" where
  "delivery_for_task dec t = cm_delivery (load_state dec t)"

section \<open>Lemmas: loading what was stored\<close>

text \<open>What the proofs assume of the JSON library, for one state: it can be written, and reading the
  text gives it back.\<close>

definition round_trip :: "monitor_dec \<Rightarrow> monitor_enc \<Rightarrow> CiMonitorState \<Rightarrow> bool" where
  "round_trip dec enc s = (case enc s of Some json \<Rightarrow> dec json = Some s | None \<Rightarrow> False)"

lemma load_store:
  "round_trip dec enc s \<Longrightarrow>
   load_state dec (fst (store_state enc s t)) = complete_state (fst (store_state enc s t)) s"
  by (auto simp: round_trip_def load_state_def store_state_def put_meta_def split: option.splits)

lemma store_frame [simp]:
  "t_id (fst (store_state enc s t)) = t_id t"
  "t_live_status (fst (store_state enc s t)) = t_live_status t"
  by (simp_all add: store_state_def put_meta_def split: option.split)

lemma complete_fields [simp]:
  "cm_pr_number (complete_state t s) = cm_pr_number s"
  "cm_head_sha (complete_state t s) = cm_head_sha s"
  "cm_failed_checks (complete_state t s) = cm_failed_checks s"
  "cm_check_identities (complete_state t s) = cm_check_identities s"
  "cm_has_pending (complete_state t s) = cm_has_pending s"
  "cm_episode_id (complete_state t s) = cm_episode_id s"
  "cm_last_failure_identities (complete_state t s) = cm_last_failure_identities s"
  "cm_saw_pending_after_failure (complete_state t s) = cm_saw_pending_after_failure s"
  "cm_last_notified_failure (complete_state t s) = cm_last_notified_failure s"
  "cm_delivery (complete_state t s) = cm_delivery s"
  "cm_merge_conflict (complete_state t s) = cm_merge_conflict s"
  by (simp_all add: complete_state_def Let_def)

lemma complete_status [simp]:
  "cm_status s \<noteq> CaUnobserved \<Longrightarrow> cm_status (complete_state t s) = cm_status s"
  by (simp add: complete_state_def Let_def)

lemma meta_frame [simp]:
  "t_id (put_meta k v t) = t_id t" "t_id (del_meta k t) = t_id t"
  "t_live_status (put_meta k v t) = t_live_status t" "t_live_status (del_meta k t) = t_live_status t"
  "t_lifecycle_status (put_meta k v t) = t_lifecycle_status t"
  "t_lifecycle_status (del_meta k t) = t_lifecycle_status t"
  "t_side_flags (put_meta k v t) = t_side_flags t" "t_side_flags (del_meta k t) = t_side_flags t"
  "t_agent_status (put_meta k v t) = t_agent_status t" "t_agent_status (del_meta k t) = t_agent_status t"
  "t_agent_attempts (put_meta k v t) = t_agent_attempts t"
  "t_agent_attempts (del_meta k t) = t_agent_attempts t"
  by (simp_all add: put_meta_def del_meta_def)

lemma clear_live_when_id [simp]: "t_id (clear_live_when p t) = t_id t"
  by (simp add: clear_live_when_def)

lemma github_observation_id [simp]: "t_id (apply_github_checks_observation clk ob now t) = t_id t"
  by (simp add: apply_github_checks_observation_def clear_github_ci_evidence_def Let_def
      apply_observation_def apply_observation_at_def split: CiChecksObservation.split)

lemma try_named_id [simp]:
  "t_id (try_transition (mark_reviewable t) t) = t_id t"
  "t_id (try_transition (mark_mergeable t) t) = t_id t"
  by (simp_all add: mark_reviewable_def mark_mergeable_def)

lemma apply_failed_id [simp]: "t_id (fst (apply_failed clk previous t s)) = t_id t"
  by (simp add: apply_failed_def Let_def)

section \<open>Lemmas: what a failed report does to the state\<close>

definition failed_update :: "CiChecksReport \<Rightarrow> nat \<Rightarrow> CiMonitorState \<Rightarrow> CiMonitorState" where
  "failed_update report at s =
     s\<lparr>cm_last_check_probe_at := Some at, cm_failed_checks := cr_failed_checks report,
       cm_check_identities := cr_check_identities report, cm_has_pending := cr_has_pending report,
       cm_status := CaFailed\<rparr>"

definition failure_restarts :: "CiMonitorState \<Rightarrow> CiMonitorState \<Rightarrow> bool" where
  "failure_restarts previous s \<longleftrightarrow>
     cm_episode_id previous = None
     \<or> (cm_saw_pending_after_failure previous \<and> cm_check_identities s \<noteq> []
        \<and> cm_check_identities s \<noteq> cm_last_failure_identities previous) \<and> \<not> cm_has_pending s"

lemma apply_failed_state:
  "snd (apply_failed clk previous t s) =
     (let s1 = s\<lparr>cm_status := CaFailed\<rparr> in
      if failure_restarts previous s1 then start_episode t s1 else s1)"
  by (auto simp: apply_failed_def failure_restarts_def Let_def start_episode_def)

text \<open>The state that a failed report on the current attempt leaves in the task.\<close>

definition after_failed :: "monitor_dec \<Rightarrow> PullRequestRef \<Rightarrow> CiChecksReport \<Rightarrow> nat \<Rightarrow> Task \<Rightarrow> CiMonitorState" where
  "after_failed dec pr report at t =
     (let previous = load_state dec t;
          fresh = is_new_attempt pr previous;
          s = failed_update report at (if fresh then attempt_reset pr previous else previous)
      in if failure_restarts (if fresh then monitor_default else previous) s
         then start_episode t s else s)"

lemma start_episode_id: "t_id t = t_id u \<Longrightarrow> start_episode t s = start_episode u s"
  by (simp add: start_episode_def)

lemma reduce_failed_stores:
  assumes "cr_state report = CcFailed"
  obtains u where "fst (reduce_report dec enc clk pr report at t) =
      fst (store_state enc (after_failed dec pr report at t) u)" "t_id u = t_id t"
proof -
  let ?previous = "load_state dec t"
  let ?fresh = "is_new_attempt pr ?previous"
  let ?s = "(if ?fresh then attempt_reset pr ?previous else ?previous)\<lparr>cm_last_check_probe_at := Some at\<rparr>"
  let ?t1 = "del_meta CI_PROBE_ERROR_KEY (put_meta CI_CHECKS_PROBED_AT_KEY (show_nat at) t)"
  let ?s1 = "?s\<lparr>cm_failed_checks := cr_failed_checks report,
                 cm_check_identities := cr_check_identities report,
                 cm_has_pending := cr_has_pending report\<rparr>"
  let ?r = "apply_failed clk (if ?fresh then monitor_default else ?previous) ?t1 ?s1"
  have "fst (reduce_report dec enc clk pr report at t) = fst (store_state enc (snd ?r) (fst ?r))"
    using assms by (simp add: reduce_report_def apply_report_def Let_def split: prod.split)
  moreover have "snd ?r = after_failed dec pr report at t"
    by (simp add: apply_failed_state after_failed_def failed_update_def Let_def start_episode_def)
  ultimately show ?thesis using that [of "fst ?r"] by simp
qed

lemma pending_complete:
  assumes "cm_status s \<noteq> CaUnobserved"
  shows "pending_from_state t (complete_state u s) = pending_from_state t s"
  unfolding pending_from_state_def pending_merge_conflict_def checks_in_flight_def
    rerun_in_progress_def complete_fields complete_status [OF assms] ..

lemma pending_id:
  assumes "t_id t = t_id u"
  shows "pending_from_state t s = pending_from_state u s"
  unfolding pending_from_state_def pending_merge_conflict_def Let_def assms ..

lemma after_failed_status: "cm_status (after_failed dec pr report at t) = CaFailed"
  by (simp add: after_failed_def Let_def failed_update_def start_episode_def)

lemma pending_after_failed:
  assumes "cr_state report = CcFailed" and "round_trip dec enc (after_failed dec pr report at t)"
  shows "pending_notification dec (fst (reduce_report dec enc clk pr report at t)) =
    pending_from_state t (after_failed dec pr report at t)"
proof -
  obtain u where u: "fst (reduce_report dec enc clk pr report at t) =
      fst (store_state enc (after_failed dec pr report at t) u)" "t_id u = t_id t"
    using assms(1) by (rule reduce_failed_stores)
  have "pending_notification dec (fst (reduce_report dec enc clk pr report at t)) =
      pending_from_state (fst (store_state enc (after_failed dec pr report at t) u))
        (after_failed dec pr report at t)"
    using load_store [OF assms(2)]
    by (simp add: pending_notification_def u(1) pending_complete after_failed_status)
  also have "\<dots> = pending_from_state t (after_failed dec pr report at t)"
    by (rule pending_id) (simp add: u(2))
  finally show ?thesis .
qed

lemma new_attempt_restarts:
  "is_new_attempt pr (load_state dec t) \<Longrightarrow>
   after_failed dec pr report at t =
     start_episode t (failed_update report at (attempt_reset pr (load_state dec t)))"
  by (simp add: after_failed_def Let_def failure_restarts_def monitor_default_def)

text \<open>A failure that has been announced: the current attempt's episode is the one last notified, and
  no run has been pending since.\<close>

definition announced :: "PullRequestRef \<Rightarrow> string \<Rightarrow> CiMonitorState \<Rightarrow> bool" where
  "announced pr e s \<longleftrightarrow>
     \<not> is_new_attempt pr s \<and> cm_episode_id s = Some e \<and> cm_last_notified_failure s = Some e
     \<and> \<not> cm_saw_pending_after_failure s \<and> \<not> cm_merge_conflict s"

lemma announced_silent: "announced pr e s \<Longrightarrow> pending_from_state t s = None"
  by (simp add: announced_def pending_from_state_def)

lemma announced_complete [simp]: "announced pr e (complete_state u s) = announced pr e s"
  by (simp add: announced_def is_new_attempt_def)

lemma announced_after_failed:
  assumes "announced pr e (load_state dec t)"
  shows "announced pr e (after_failed dec pr report at t)"
proof -
  have "\<not> is_new_attempt pr (load_state dec t)" using assms by (simp add: announced_def)
  moreover have "\<not> failure_restarts (load_state dec t) s" for s
    using assms by (simp add: announced_def failure_restarts_def)
  ultimately show ?thesis
    using assms by (simp add: after_failed_def Let_def failed_update_def announced_def is_new_attempt_def)
qed

definition delivered_state :: "AgentNotificationDelivery \<Rightarrow> CiMonitorState \<Rightarrow> CiMonitorState" where
  "delivered_state d s =
     (if nd_status d \<in> {NdQueued, NdAccepted}
      then s\<lparr>cm_last_notified_failure := Some (nd_notification_id d)\<rparr> else s)\<lparr>cm_delivery := Some d\<rparr>"

lemma record_delivery_stores:
  "cm_delivery (load_state dec t) \<noteq> Some d \<Longrightarrow>
   record_delivery dec enc d t = store_state enc (delivered_state d (load_state dec t)) t"
  by (simp add: record_delivery_def delivered_state_def Let_def)

lemma delivered_pending:
  assumes "pending_from_state t s = Some n" and "nd_status d \<in> {NdQueued, NdAccepted}"
    and "nd_notification_id d = notification_id n"
  shows "pending_from_state t (complete_state u (delivered_state d s)) = None"
proof (cases "cm_merge_conflict s")
  case True
  with assms show ?thesis
    by (auto simp: pending_from_state_def pending_merge_conflict_def delivered_state_def Let_def
        split: option.splits if_splits)
next
  case False
  then have id: "cm_episode_id s = Some (notification_id n)"
    using assms(1) by (auto simp: pending_from_state_def split: option.splits if_splits)
  show ?thesis using False id assms(2,3)
    by (simp add: pending_from_state_def delivered_state_def)
qed

section \<open>Properties\<close>

text \<open>A failure of a new attempt (another pull request or another head commit) is announced at once:
  whatever the monitor held before, the report leaves a pending notification that names the pull
  request, the head commit and all the failed checks of the report.\<close>

theorem new_failure_is_notified:
  assumes "cr_state report = CcFailed" and "is_new_attempt pr (load_state dec t)"
    and "round_trip dec enc (after_failed dec pr report at t)"
  shows "\<exists>episode. pending_notification dec (fst (reduce_report dec enc clk pr report at t)) =
    Some (NtCiFailed episode (t_id t) (pr_number pr)
      (case pr_head_sha pr of Some sha \<Rightarrow> sha | None \<Rightarrow> []) (cr_failed_checks report))"
  using pending_after_failed [OF assms(1,3)] new_attempt_restarts [OF assms(2)]
  by (simp add: pending_from_state_def start_episode_def failed_update_def attempt_reset_def
      monitor_default_def checks_in_flight_def rerun_in_progress_def)

definition sample_pr :: PullRequestRef where
  "sample_pr = \<lparr>pr_number = 7, pr_title = ''t'', pr_url = ''u'', pr_state = PrOpen,
     pr_head_ref = ''b'', pr_head_sha = Some ''c0''\<rparr>"

definition sample_report :: CiChecksReport where
  "sample_report = \<lparr>cr_state = CcFailed,
     cr_failed_checks = [\<lparr>fc_name = ''build'', fc_link = None, fc_identity = None\<rparr>],
     cr_check_identities = [''run:1''], cr_has_pending = False, cr_error = None\<rparr>"

definition sample_task :: Task where
  "sample_task = task_new 0 ''a'' ''web'' ''h'' ''t'' ''b'' ''main'' ''/w'' ''s'' ''task'' AcCodex"

text \<open>A codec for one state: it is written as a fixed text.\<close>

definition one_enc :: "CiMonitorState \<Rightarrow> monitor_enc" where
  "one_enc s0 s = (if s = s0 then Some ''state'' else None)"

definition one_dec :: "CiMonitorState \<Rightarrow> monitor_dec" where
  "one_dec s0 json = (if json = ''state'' then Some s0 else None)"

lemma one_round_trip [simp]: "round_trip (one_dec s0) (one_enc s0) s0"
  by (simp add: round_trip_def one_enc_def one_dec_def)

definition sample_state :: CiMonitorState where
  "sample_state = start_episode sample_task
     (failed_update sample_report 9 (attempt_reset sample_pr monitor_default))"

lemma sample_load: "load_state (one_dec s0) sample_task = monitor_default"
  by (simp add: load_state_def complete_state_def monitor_default_def sample_task_def task_new_def
      live_is_def Let_def)

theorem new_failure_is_notified_witness:
  "\<exists>episode. pending_notification (one_dec sample_state)
      (fst (reduce_report (one_dec sample_state) (one_enc sample_state) (\<lambda>_. 0) sample_pr sample_report 9
        sample_task)) =
    Some (NtCiFailed episode ''a'' 7 ''c0'' [\<lparr>fc_name = ''build'', fc_link = None, fc_identity = None\<rparr>])"
proof -
  have new: "is_new_attempt sample_pr (load_state (one_dec sample_state) sample_task)"
    by (simp add: sample_load is_new_attempt_def monitor_default_def)
  have "after_failed (one_dec sample_state) sample_pr sample_report 9 sample_task = sample_state"
    using new_attempt_restarts [OF new, of sample_report 9]
    by (simp only: sample_load sample_state_def [symmetric])
  then have "round_trip (one_dec sample_state) (one_enc sample_state)
      (after_failed (one_dec sample_state) sample_pr sample_report 9 sample_task)" by simp
  from new_failure_is_notified [OF _ new this, of "\<lambda>_. 0"] show ?thesis
    by (simp add: sample_report_def sample_pr_def sample_task_def task_new_def)
qed

text \<open>An announced failure stays silent: another failed report of the same attempt, with whatever
  checks, announces nothing and leaves the failure announced, as long as no rerun was seen pending.\<close>

theorem announced_failure_stays_silent:
  assumes "announced pr e (load_state dec t)" and "cr_state report = CcFailed"
    and "round_trip dec enc (after_failed dec pr report at t)"
  shows "pending_notification dec (fst (reduce_report dec enc clk pr report at t)) = None
    \<and> announced pr e (load_state dec (fst (reduce_report dec enc clk pr report at t)))"
proof
  have a: "announced pr e (after_failed dec pr report at t)"
    using assms(1) by (rule announced_after_failed)
  show "pending_notification dec (fst (reduce_report dec enc clk pr report at t)) = None"
    using pending_after_failed [OF assms(2,3)] announced_silent [OF a] by simp
  obtain u where "fst (reduce_report dec enc clk pr report at t) =
      fst (store_state enc (after_failed dec pr report at t) u)"
    using assms(2) by (rule reduce_failed_stores)
  then show "announced pr e (load_state dec (fst (reduce_report dec enc clk pr report at t)))"
    using a load_store [OF assms(3)] by simp
qed

definition announced_state :: CiMonitorState where
  "announced_state =
     sample_state\<lparr>cm_last_notified_failure := cm_episode_id sample_state,
       cm_last_pr_discovery_at := Some 9\<rparr>"

definition monitored_task :: Task where
  "monitored_task = put_meta CI_MONITOR_STATE_KEY ''state'' sample_task"

lemma load_monitored:
  "dec ''state'' = Some s \<Longrightarrow> load_state dec monitored_task = complete_state monitored_task s"
  by (simp add: load_state_def monitored_task_def put_meta_def)

lemma complete_done:
  "cm_last_check_probe_at s \<noteq> None \<Longrightarrow> cm_last_pr_discovery_at s \<noteq> None \<Longrightarrow> cm_status s \<noteq> CaUnobserved \<Longrightarrow>
   complete_state t s = s"
  by (auto simp: complete_state_def Let_def)

lemmas sample_state_unfold =
  sample_state_def start_episode_def failed_update_def attempt_reset_def monitor_default_def

theorem announced_failure_stays_silent_witness:
  "pending_notification (one_dec announced_state)
     (fst (reduce_report (one_dec announced_state) (one_enc announced_state) (\<lambda>_. 0) sample_pr
       sample_report 9 monitored_task)) = None"
proof -
  let ?dec = "one_dec announced_state"
  have load: "load_state ?dec monitored_task = announced_state"
    using load_monitored [of ?dec announced_state] complete_done [of announced_state monitored_task]
    by (simp add: one_dec_def announced_state_def sample_state_unfold)
  obtain e where a: "announced sample_pr e announced_state"
    by (auto simp: announced_def is_new_attempt_def announced_state_def sample_state_unfold
        sample_pr_def)
  then have "after_failed ?dec sample_pr sample_report 9 monitored_task = announced_state"
    by (simp add: after_failed_def load announced_def failure_restarts_def Let_def)
      (simp add: announced_state_def sample_state_unfold)
  then have rt: "round_trip ?dec (one_enc announced_state)
      (after_failed ?dec sample_pr sample_report 9 monitored_task)" by simp
  have "announced sample_pr e (load_state ?dec monitored_task)" using a by (simp only: load)
  from announced_failure_stays_silent [OF this _ rt] show ?thesis by (simp add: sample_report_def)
qed

text \<open>A notification is delivered once: after a delivery of the pending notification is recorded as
  queued or accepted, nothing is pending.\<close>

theorem delivered_notification_is_not_repeated:
  assumes "pending_notification dec t = Some n" and "nd_status d \<in> {NdQueued, NdAccepted}"
    and "nd_notification_id d = notification_id n" and "cm_delivery (load_state dec t) \<noteq> Some d"
    and "round_trip dec enc (delivered_state d (load_state dec t))"
  shows "pending_notification dec (fst (record_delivery dec enc d t)) = None
    \<and> delivery_for_task dec (fst (record_delivery dec enc d t)) = Some d"
proof -
  let ?s = "delivered_state d (load_state dec t)"
  let ?u = "fst (store_state enc ?s t)"
  have u: "fst (record_delivery dec enc d t) = ?u"
    using record_delivery_stores [OF assms(4)] by simp
  have "pending_from_state ?u (complete_state ?u ?s) = pending_from_state t (complete_state ?u ?s)"
    by (rule pending_id) simp
  also have "\<dots> = None"
    using assms(1) by (intro delivered_pending [OF _ assms(2,3)]) (simp add: pending_notification_def)
  finally show ?thesis
    using load_store [OF assms(5)]
    by (simp add: u pending_notification_def delivery_for_task_def delivered_state_def)
qed

definition unannounced_state :: CiMonitorState where
  "unannounced_state = sample_state\<lparr>cm_last_pr_discovery_at := Some 9\<rparr>"

definition sample_delivery :: AgentNotificationDelivery where
  "sample_delivery =
     \<lparr>nd_notification_id = episode_of ''a'' sample_state, nd_status = NdQueued, nd_detail = None\<rparr>"

definition next_dec :: "CiMonitorState \<Rightarrow> CiMonitorState \<Rightarrow> monitor_dec" where
  "next_dec s0 s1 json = (if json = ''state'' then Some s0 else if json = ''next'' then Some s1 else None)"

definition next_enc :: "CiMonitorState \<Rightarrow> monitor_enc" where
  "next_enc s1 s = (if s = s1 then Some ''next'' else None)"

lemma sample_state_fields:
  "cm_episode_id sample_state = Some (episode_of ''a'' sample_state)"
  "\<not> cm_merge_conflict sample_state" "cm_status sample_state = CaFailed"
  "cm_last_notified_failure sample_state = None" "\<not> cm_saw_pending_after_failure sample_state"
  "cm_pr_number sample_state = Some 7" "cm_head_sha sample_state = Some ''c0''"
  "t_id monitored_task = ''a''" "cm_delivery sample_state = None"
  by (simp_all add: sample_state_unfold episode_of_def sample_task_def task_new_def sample_pr_def
      monitored_task_def)

lemma unannounced_pending:
  "pending_from_state monitored_task unannounced_state =
     Some (NtCiFailed (episode_of ''a'' sample_state) ''a'' 7 ''c0'' (cm_failed_checks sample_state))"
  by (simp add: unannounced_state_def pending_from_state_def sample_state_fields checks_in_flight_def
      rerun_in_progress_def)

theorem delivered_notification_is_not_repeated_witness:
  "pending_notification (next_dec unannounced_state (delivered_state sample_delivery unannounced_state))
     (fst (record_delivery (next_dec unannounced_state (delivered_state sample_delivery unannounced_state))
       (next_enc (delivered_state sample_delivery unannounced_state)) sample_delivery monitored_task)) = None"
proof -
  let ?s1 = "delivered_state sample_delivery unannounced_state"
  let ?dec = "next_dec unannounced_state ?s1"
  have load: "load_state ?dec monitored_task = unannounced_state"
    using load_monitored [of ?dec unannounced_state] complete_done [of unannounced_state monitored_task]
    by (simp add: next_dec_def unannounced_state_def sample_state_unfold)
  have rt: "round_trip ?dec (next_enc ?s1) ?s1"
    by (simp add: round_trip_def next_enc_def next_dec_def)
  have pending: "pending_notification ?dec monitored_task =
      Some (NtCiFailed (episode_of ''a'' sample_state) ''a'' 7 ''c0'' (cm_failed_checks sample_state))"
    by (simp only: pending_notification_def load unannounced_pending)
  have none: "cm_delivery (load_state ?dec monitored_task) \<noteq> Some sample_delivery"
    unfolding load by (simp add: unannounced_state_def sample_state_unfold)
  from delivered_notification_is_not_repeated [OF pending _ _ none, unfolded load, OF _ _ rt]
  show ?thesis by (simp add: sample_delivery_def)
qed

lemma checks_due_discovery [simp]:
  "checks_due (s\<lparr>cm_last_pr_discovery_at := x\<rparr>) now = checks_due s now"
  by (simp add: checks_due_def)

text \<open>The time of a pull request discovery is lost when the checks of the open pull request are due
  in the same refresh: the result does not depend on the discovery time held in the local state.\<close>

theorem discovery_time_is_dropped:
  assumes "has_head_sha pr" and "checks_due s now"
  shows "refresh_open_pr cd program exec clk now pr (s\<lparr>cm_last_pr_discovery_at := x\<rparr>) t r =
    refresh_open_pr cd program exec clk now pr s t r"
  using assms by (simp add: refresh_open_pr_def)

lemma sample_pr_has_sha: "has_head_sha sample_pr"
proof -
  have "trim ''c0'' \<noteq> []" by code_simp
  then show ?thesis by (simp add: has_head_sha_def sample_pr_def)
qed

definition sample_codecs :: codecs where
  "sample_codecs =
     \<lparr>cd_dec = (\<lambda>_. None), cd_enc = (\<lambda>_. None), cd_prs_dec = (\<lambda>_. None), cd_prs_enc = (\<lambda>_. None),
      cd_list_rows = (\<lambda>_. Inr []), cd_check_rows = (\<lambda>_. Some []), cd_mergeable = (\<lambda>_. None)\<rparr>"

theorem discovery_time_is_dropped_witness:
  "refresh_open_pr sample_codecs ''gh'' (\<lambda>n _. (Inl (CeSpawnFailed ''gone''), Suc n)) (\<lambda>_. 0) 400 sample_pr
     (monitor_default\<lparr>cm_last_pr_discovery_at := Some 400\<rparr>) sample_task (0 :: nat) =
   refresh_open_pr sample_codecs ''gh'' (\<lambda>n _. (Inl (CeSpawnFailed ''gone''), Suc n)) (\<lambda>_. 0) 400 sample_pr
     monitor_default sample_task 0"
  by (rule discovery_time_is_dropped [OF sample_pr_has_sha])
    (simp add: checks_due_def monitor_default_def)

end
