(* ===== verification/Operator_Actions.thy ===== *)
theory Operator_Actions
  imports Task_Policy Git_Tmux Ci_Monitor
begin

text \<open>
  What the operator is offered: the available and the recommended actions of
  \<open>crates/ajax-core/src/recommended.rs\<close> and the remediations of \<open>remediation.rs\<close>. The readers of the
  stored pull requests and of the CI monitor state (serde) are the parameters \<open>decode\<close> and \<open>dec\<close>;
  commands run through the state-passing runner.
\<close>

section \<open>Available actions (recommended.rs)\<close>

record OperatorActionPlan =
  pl_action :: OperatorAction
  pl_reason :: string
  pl_available_actions :: "OperatorAction list"

definition has_only_shell_substrate_gap :: "Task \<Rightarrow> bool" where
  "has_only_shell_substrate_gap t \<longleftrightarrow> \<not> has_missing_git_substrate t"

definition is_adoptable_branch_move :: "Task \<Rightarrow> bool" where
  "is_adoptable_branch_move t \<longleftrightarrow> has_adoptable_branch_move t \<and> \<not> has_missing_non_branch_substrate t"

definition live_known_invalid :: "bool \<Rightarrow> Task \<Rightarrow> LiveStatusKind \<Rightarrow> bool" where
  "live_known_invalid ignores_tmux t kind =
     (case kind of
        LkTmuxMissing \<Rightarrow> \<not> ignores_tmux
          \<and> \<not> (case t_tmux_status t of Some s \<Rightarrow> ts_exists s | None \<Rightarrow> False)
      | LkTaskWindowMissing \<Rightarrow> \<not> ignores_tmux
          \<and> \<not> (case t_task_window_status t of
                Some s \<Rightarrow> tw_exists s \<and> tw_points_at_expected_path s | None \<Rightarrow> False)
      | LkWorktreeMissing \<Rightarrow>
          \<not> (case t_git_status t of Some s \<Rightarrow> gs_worktree_exists s | None \<Rightarrow> False)
      | _ \<Rightarrow> False)"

definition task_is_known_invalid :: "Task \<Rightarrow> bool" where
  "task_is_known_invalid t =
     (if is_adoptable_branch_move t then False
      else
        let ignores_tmux = skip_interactive_agent t in
        \<not> ignores_tmux \<and> (has_side_flag SfTmuxMissing t \<or> has_side_flag SfTaskWindowMissing t)
        \<or> has_side_flag SfWorktreeMissing t
        \<or> has_side_flag SfBranchMissing t
        \<or> \<not> ignores_tmux \<and> (case t_tmux_status t of Some s \<Rightarrow> \<not> ts_exists s | None \<Rightarrow> False)
        \<or> (case t_git_status t of Some s \<Rightarrow> \<not> gs_worktree_exists s \<or> \<not> gs_branch_exists s | None \<Rightarrow> False)
        \<or> \<not> ignores_tmux \<and> (case t_task_window_status t of
              Some s \<Rightarrow> \<not> tw_exists s \<or> \<not> tw_points_at_expected_path s | None \<Rightarrow> False)
        \<or> (case t_live_status t of
             Some live \<Rightarrow> live_known_invalid ignores_tmux t (lo_kind live) | None \<Rightarrow> False))"

definition ship_blocked ::
    "(string \<Rightarrow> PullRequestRef list option) \<Rightarrow> monitor_dec \<Rightarrow> Task \<Rightarrow> bool" where
  "ship_blocked decode dec t \<longleftrightarrow>
     (case t_live_status t of Some live \<Rightarrow> lo_kind live = LkCiFailed | None \<Rightarrow> False)
     \<or> cm_status (load_state dec t) = CaFailed
     \<or> has_open_pull_request decode t"

definition eligible_actions ::
    "(string \<Rightarrow> PullRequestRef list option) \<Rightarrow> monitor_dec \<Rightarrow> Task \<Rightarrow> OperatorAction list" where
  "eligible_actions decode dec t =
     map snd
       (filter (\<lambda>(_, action). \<not> (ship_blocked decode dec t \<and> action = OaShip))
         (filter (\<lambda>(op, _). is_allowed (task_operation_eligibility t op))
           [(ToOpen, OaResume), (ToMerge, OaShip), (ToClean, OaDrop), (ToRemove, OaDrop)]))"

definition available_operator_actions ::
    "(string \<Rightarrow> PullRequestRef list option) \<Rightarrow> monitor_dec \<Rightarrow> Task \<Rightarrow> OperatorAction list" where
  "available_operator_actions decode dec t =
     (if is_adoptable_branch_move t then
        (if has_missing_branch t then [OaRepair, OaDrop] else [OaRepair, OaResume, OaDrop])
      else if \<not> has_missing_substrate t
              \<and> (has_checkout_mismatch t \<or> rp_health (t_runtime_projection t) = RhCheckoutMismatch)
      then [OaRepair, OaResume, OaDrop]
      else
        let worktree_repairable = has_missing_worktree t \<and> \<not> has_missing_branch t in
        if task_is_known_invalid t \<and> \<not> worktree_repairable then [OaDrop]
        else if has_missing_substrate t \<and> \<not> has_only_shell_substrate_gap t then [OaRepair, OaDrop]
        else
          let actions = (if has_missing_substrate t
                            \<or> rp_observation_error (t_runtime_projection t) \<noteq> None
                         then [OaRepair] else [])
          in remdups_adj (actions @ eligible_actions decode dec t))"

section \<open>The recommended action\<close>

definition durable_facts_refute_live_missing :: "Task \<Rightarrow> LiveStatusKind \<Rightarrow> bool" where
  "durable_facts_refute_live_missing t kind =
     (case kind of
        LkTmuxMissing \<Rightarrow> (case t_tmux_status t of Some s \<Rightarrow> ts_exists s | None \<Rightarrow> False)
      | LkTaskWindowMissing \<Rightarrow>
          (case t_task_window_status t of
             Some s \<Rightarrow> tw_exists s \<and> tw_points_at_expected_path s | None \<Rightarrow> False)
      | LkWorktreeMissing \<Rightarrow> (case t_git_status t of Some s \<Rightarrow> gs_worktree_exists s | None \<Rightarrow> False)
      | _ \<Rightarrow> False)"

fun blocker_reason_for_live :: "LiveStatusKind \<Rightarrow> string option" where
  "blocker_reason_for_live LkWaitingForApproval = Some ''waiting for approval''"
| "blocker_reason_for_live LkWaitingForInput = Some ''waiting for input''"
| "blocker_reason_for_live LkAuthRequired = Some ''authentication required''"
| "blocker_reason_for_live LkRateLimited = Some ''rate limited''"
| "blocker_reason_for_live LkContextLimit = Some ''context limit reached''"
| "blocker_reason_for_live LkMergeConflict = Some ''merge conflict needs attention''"
| "blocker_reason_for_live LkCommandFailed = Some ''command failed''"
| "blocker_reason_for_live LkCiFailed = Some ''ci failed''"
| "blocker_reason_for_live LkBlocked = Some ''agent is blocked''"
| "blocker_reason_for_live LkWorktreeMissing = Some ''worktree missing''"
| "blocker_reason_for_live LkTmuxMissing = Some ''tmux session missing''"
| "blocker_reason_for_live LkTaskWindowMissing = Some ''task window missing''"
| "blocker_reason_for_live _ = None"

definition durable_blocker_reason :: "Task \<Rightarrow> string option" where
  "durable_blocker_reason t =
     (if has_side_flag SfNeedsInput t then Some ''agent needs input''
      else if has_side_flag SfConflicted t then Some ''git conflicts detected''
      else if has_side_flag SfTestsFailed t then Some ''tests failed''
      else if has_side_flag SfAgentDead t then Some ''agent appears dead''
      else if has_side_flag SfTaskWindowMissing t then Some ''task window missing''
      else if has_side_flag SfTmuxMissing t then Some ''tmux session missing''
      else if has_side_flag SfWorktreeMissing t then Some ''worktree missing''
      else if has_side_flag SfBranchMissing t then Some ''branch missing''
      else (case t_agent_status t of
              ArWaiting \<Rightarrow> Some ''agent is waiting''
            | ArBlocked \<Rightarrow> Some ''agent is blocked''
            | ArDead \<Rightarrow> Some ''agent appears dead''
            | _ \<Rightarrow> None))"

definition primary_blocker_reason :: "Task \<Rightarrow> string option" where
  "primary_blocker_reason t =
     (case (case t_live_status t of
              Some live \<Rightarrow>
                if durable_facts_refute_live_missing t (lo_kind live) then None
                else blocker_reason_for_live (lo_kind live)
            | None \<Rightarrow> None) of
        Some reason \<Rightarrow> Some reason
      | None \<Rightarrow> durable_blocker_reason t)"

definition fallback_operator_action ::
    "(string \<Rightarrow> PullRequestRef list option) \<Rightarrow> Task \<Rightarrow> OperatorAction" where
  "fallback_operator_action decode t =
     (if rp_observation_error (t_runtime_projection t) \<noteq> None then OaRepair
      else
        let lc = t_lifecycle_status t in
        if lc = LcMergeable \<and> \<not> has_open_pull_request decode t then OaShip
        else if lc = LcReviewable \<and> \<not> has_open_pull_request decode t
                \<and> sr_classification (merge_safety t) = ScSafe then OaShip
        else if lc = LcReviewable then OaReview
        else if lc \<in> {LcCleanable, LcRemoving, LcRemoved} then OaDrop
        else if lc = LcMerged \<and> (is_allowed (task_operation_eligibility t ToClean)
                                \<or> is_allowed (task_operation_eligibility t ToRemove)) then OaDrop
        else OaResume)"

definition or_text :: "string \<Rightarrow> string option \<Rightarrow> string" where
  "or_text d s = (case s of Some x \<Rightarrow> x | None \<Rightarrow> d)"

definition fallback_operator_reason ::
    "(string \<Rightarrow> PullRequestRef list option) \<Rightarrow> Task \<Rightarrow> string" where
  "fallback_operator_reason decode t =
     (if rp_observation_error (t_runtime_projection t) \<noteq> None then ''repair''
      else (case fallback_operator_action decode t of
              OaShip \<Rightarrow> ''ship''
            | OaReview \<Rightarrow> ''review''
            | OaDrop \<Rightarrow> ''drop''
            | OaRepair \<Rightarrow> or_text ''repair'' (primary_blocker_reason t)
            | _ \<Rightarrow>
                (case op_status (derive_operator_status t) of
                   StRunning \<Rightarrow> ''monitor''
                 | StWaiting \<Rightarrow> ''needs_input''
                 | StError \<Rightarrow> or_text ''resolve_blocker'' (primary_blocker_reason t)
                 | _ \<Rightarrow> ''resume'')))"

fun action_evidence_label :: "Evidence \<Rightarrow> string" where
  "action_evidence_label (EvLiveStatus LkWaitingForApproval) = ''waiting_for_approval''"
| "action_evidence_label (EvLiveStatus LkWaitingForInput) = ''waiting_for_input''"
| "action_evidence_label (EvLiveStatus LkAuthRequired) = ''auth_required''"
| "action_evidence_label (EvLiveStatus LkRateLimited) = ''rate_limited''"
| "action_evidence_label (EvLiveStatus LkContextLimit) = ''context_limit''"
| "action_evidence_label (EvLiveStatus LkCommandFailed) = ''command_failed''"
| "action_evidence_label (EvLiveStatus LkBlocked) = ''blocked''"
| "action_evidence_label (EvLiveStatus LkWorktreeMissing) = ''worktree_missing''"
| "action_evidence_label (EvLiveStatus LkTmuxMissing) = ''tmux_missing''"
| "action_evidence_label (EvLiveStatus LkTaskWindowMissing) = ''task_window_missing''"
| "action_evidence_label (EvLiveStatus LkMergeConflict) = ''merge_conflict''"
| "action_evidence_label (EvLiveStatus LkCiFailed) = ''ci_failed''"
| "action_evidence_label (EvLiveStatus LkDone) = ''done''"
| "action_evidence_label (EvLiveStatus LkShellIdle) = ''live_status''"
| "action_evidence_label (EvLiveStatus LkCommandRunning) = ''live_status''"
| "action_evidence_label (EvLiveStatus LkTestsRunning) = ''live_status''"
| "action_evidence_label (EvLiveStatus LkAgentRunning) = ''live_status''"
| "action_evidence_label (EvLiveStatus LkCiPending) = ''live_status''"
| "action_evidence_label (EvLiveStatus LkUnknown) = ''live_status''"
| "action_evidence_label (EvAgentStatus ArNotStarted) = ''agent_not_started''"
| "action_evidence_label (EvAgentStatus ArRunning) = ''agent_running''"
| "action_evidence_label (EvAgentStatus ArWaiting) = ''agent_waiting''"
| "action_evidence_label (EvAgentStatus ArBlocked) = ''agent_blocked''"
| "action_evidence_label (EvAgentStatus ArDone) = ''agent_done''"
| "action_evidence_label (EvAgentStatus ArDead) = ''agent_dead''"
| "action_evidence_label (EvAgentStatus ArUnknown) = ''agent_status_not_observed''"
| "action_evidence_label (EvSideFlag SfDirty) = ''dirty''"
| "action_evidence_label (EvSideFlag SfAgentRunning) = ''agent_running''"
| "action_evidence_label (EvSideFlag SfAgentDead) = ''agent_dead''"
| "action_evidence_label (EvSideFlag SfNeedsInput) = ''needs_input''"
| "action_evidence_label (EvSideFlag SfTestsFailed) = ''tests_failed''"
| "action_evidence_label (EvSideFlag SfTmuxMissing) = ''tmux_missing''"
| "action_evidence_label (EvSideFlag SfWorktreeMissing) = ''worktree_missing''"
| "action_evidence_label (EvSideFlag SfTaskWindowMissing) = ''task_window_missing''"
| "action_evidence_label (EvSideFlag SfBranchMissing) = ''branch_missing''"
| "action_evidence_label (EvSideFlag SfStale) = ''stale''"
| "action_evidence_label (EvSideFlag SfConflicted) = ''conflicted''"
| "action_evidence_label (EvSideFlag SfUnpushed) = ''unpushed''"
| "action_evidence_label (EvLifecycle LcCreated) = ''created''"
| "action_evidence_label (EvLifecycle LcProvisioning) = ''provisioning''"
| "action_evidence_label (EvLifecycle LcActive) = ''active''"
| "action_evidence_label (EvLifecycle LcWaiting) = ''waiting''"
| "action_evidence_label (EvLifecycle LcReviewable) = ''reviewable''"
| "action_evidence_label (EvLifecycle LcMergeable) = ''mergeable''"
| "action_evidence_label (EvLifecycle LcMerged) = ''merged''"
| "action_evidence_label (EvLifecycle LcCleanable) = ''cleanable''"
| "action_evidence_label (EvLifecycle LcRemoving) = ''removing''"
| "action_evidence_label (EvLifecycle LcTeardownIncomplete) = ''teardown incomplete''"
| "action_evidence_label (EvLifecycle LcRemoved) = ''removed''"
| "action_evidence_label (EvLifecycle LcOrphaned) = ''orphaned''"
| "action_evidence_label (EvLifecycle LcError) = ''error''"
| "action_evidence_label (EvSubstrate SgWorktreeMissing) = ''worktree_missing''"
| "action_evidence_label (EvSubstrate SgTmuxMissing) = ''tmux_missing''"
| "action_evidence_label (EvSubstrate SgTaskWindowMissing) = ''task_window_missing''"
| "action_evidence_label (EvSubstrate SgBranchMissing) = ''branch_missing''"
| "action_evidence_label EvRuntimeObservationFailed = ''runtime_observation_failed''"
| "action_evidence_label EvCheckoutMismatch = ''checkout_mismatch''"

definition operator_action ::
    "(string \<Rightarrow> PullRequestRef list option) \<Rightarrow> monitor_dec \<Rightarrow> Task \<Rightarrow> OperatorActionPlan" where
  "operator_action decode dec t =
     (let available = available_operator_actions decode dec t in
      if task_is_known_invalid t
      then \<lparr>pl_action = OaDrop, pl_reason = ''invalid_task'', pl_available_actions = available\<rparr>
      else
        let primary = min_by_key an_severity (annotate t);
            candidate = (case map_option an_suggests primary of
                           Some a \<Rightarrow> if a \<in> set available then a else fallback_operator_action decode t
                         | None \<Rightarrow> fallback_operator_action decode t);
            action = (if candidate \<in> set available then candidate
                      else case available of a # _ \<Rightarrow> a | [] \<Rightarrow> candidate);
            reason = (case primary of
                        Some a \<Rightarrow> action_evidence_label (an_evidence a)
                      | None \<Rightarrow> fallback_operator_reason decode t)
        in if OaResume \<in> set available
           then \<lparr>pl_action = OaResume,
                 pl_reason = (if reason = ''ship'' \<or> reason = ''review'' then ''resume'' else reason),
                 pl_available_actions = available\<rparr>
           else \<lparr>pl_action = action, pl_reason = reason, pl_available_actions = available\<rparr>)"

section \<open>Remediations (remediation.rs)\<close>

definition FIX_CI :: string where
  "FIX_CI = ''fix-ci''"

definition RESOLVE_MERGE_CONFLICTS :: string where
  "RESOLVE_MERGE_CONFLICTS = ''resolve-merge-conflicts''"

definition CREATE_PR :: string where
  "CREATE_PR = ''create-pr''"

definition MERGE_PR :: string where
  "MERGE_PR = ''merge-pr''"

record RemediationOption =
  ro_id :: string
  ro_label :: string
  ro_skill_name :: string

datatype RemediationError =
    ReUnknownRemediation string
  | ReTaskNotFound string
  | ReUnsupportedCapability string
  | ReCommandRun string

definition is_remediation_action :: "string \<Rightarrow> bool" where
  "is_remediation_action action \<longleftrightarrow>
     action = FIX_CI \<or> action = RESOLVE_MERGE_CONFLICTS \<or> action = CREATE_PR"

definition is_open_chat_task :: "Task \<Rightarrow> bool" where
  "is_open_chat_task t \<longleftrightarrow> task_kind t = KindChat \<and> t_lifecycle_status t \<notin> {LcMerged, LcRemoved}"

definition has_work_to_publish :: "Task \<Rightarrow> bool" where
  "has_work_to_publish t =
     (case t_git_status t of Some git \<Rightarrow> gs_dirty git \<or> has_unpushed_work git | None \<Rightarrow> False)"

definition agent_is_running :: "Task \<Rightarrow> bool" where
  "agent_is_running t \<longleftrightarrow>
     has_side_flag SfAgentRunning t
     \<or> (case t_live_status t of Some live \<Rightarrow> live_class (lo_kind live) = LsRunning | None \<Rightarrow> False)"

definition offers_create_pr :: "(string \<Rightarrow> PullRequestRef list option) \<Rightarrow> Task \<Rightarrow> bool" where
  "offers_create_pr decode t \<longleftrightarrow>
     is_open_chat_task t
     \<and> t_lifecycle_status t \<notin> {LcRemoving, LcTeardownIncomplete, LcError, LcOrphaned}
     \<and> has_work_to_publish t
     \<and> \<not> agent_is_running t
     \<and> list_all (\<lambda>p. pr_state p = PrClosed) (stored_pull_requests decode t)"

definition offers_merge_pr :: "(string \<Rightarrow> PullRequestRef list option) \<Rightarrow> Task \<Rightarrow> bool" where
  "offers_merge_pr decode t \<longleftrightarrow> is_open_chat_task t \<and> has_open_pull_request decode t"

definition has_merge_conflict :: "Task \<Rightarrow> bool" where
  "has_merge_conflict t \<longleftrightarrow>
     has_side_flag SfConflicted t
     \<or> (case t_git_status t of Some s \<Rightarrow> gs_conflicted s | None \<Rightarrow> False)
     \<or> (case t_live_status t of Some live \<Rightarrow> lo_kind live = LkMergeConflict | None \<Rightarrow> False)"

definition has_ci_failure :: "Task \<Rightarrow> bool" where
  "has_ci_failure t \<longleftrightarrow>
     has_side_flag SfTestsFailed t
     \<or> (case t_live_status t of Some live \<Rightarrow> lo_kind live = LkCiFailed | None \<Rightarrow> False)"

definition remediations_for_task ::
    "(string \<Rightarrow> PullRequestRef list option) \<Rightarrow> Task \<Rightarrow> RemediationOption list" where
  "remediations_for_task decode t =
     (if has_merge_conflict t
      then [\<lparr>ro_id = RESOLVE_MERGE_CONFLICTS, ro_label = ''Resolve merge conflicts'',
             ro_skill_name = ''resolve-merge-conflicts''\<rparr>] else [])
     @ (if has_ci_failure t
        then [\<lparr>ro_id = FIX_CI, ro_label = ''Fix CI'', ro_skill_name = ''gh-fix-ci''\<rparr>] else [])
     @ (if offers_create_pr decode t
        then [\<lparr>ro_id = CREATE_PR, ro_label = ''Create PR'', ro_skill_name = []\<rparr>] else [])
     @ (if offers_merge_pr decode t
        then [\<lparr>ro_id = MERGE_PR, ro_label = ''Merge PR'', ro_skill_name = []\<rparr>] else [])"

definition format_brief :: "string \<Rightarrow> Task \<Rightarrow> string \<Rightarrow> string option" where
  "format_brief remediation_id t skill_path =
     (let handle = qualified_handle t; base = t_base_branch t in
      if remediation_id = FIX_CI
      then Some (''Use the gh-fix-ci skill at '' @ skill_path @ '' for task '' @ handle @ ''. ''
        @ ''Inspect failing GitHub Actions checks for this branch'' @ [CHR 0x27] @ ''s PR, summarize failures, ''
        @ ''propose a fix plan, and implement only after approval.'')
      else if remediation_id = RESOLVE_MERGE_CONFLICTS
      then Some (''Use the resolve-merge-conflicts skill at '' @ skill_path @ '' for task '' @ handle
        @ '' (base branch '' @ base @ ''). Compare ancestor, ours, and theirs for each conflicted file; ''
        @ ''preserve valid behavior from both sides; run project validation before finishing.'')
      else if remediation_id = CREATE_PR
      then Some (''Create a pull request for task '' @ handle @ '' (base branch '' @ base
        @ ''). Commit any uncommitted ''
        @ ''work on this branch, push the branch, then open a pull request for it with ''
        @ [CHR 0x60] @ ''gh pr create'' @ [CHR 0x60]
        @ '': use a conventional-commit title (type(scope): summary) and a body ''
        @ ''that summarizes the change. Report the pull request URL when done.'')
      else None)"

definition skill_name :: "string \<Rightarrow> string option" where
  "skill_name remediation_id =
     (if remediation_id = FIX_CI then Some ''gh-fix-ci''
      else if remediation_id = RESOLVE_MERGE_CONFLICTS then Some ''resolve-merge-conflicts''
      else None)"

text \<open>The registry is given by its list of tasks.\<close>

definition find_task :: "Task list \<Rightarrow> string \<Rightarrow> RemediationError + Task" where
  "find_task tasks handle =
     (case find (\<lambda>t. qualified_handle t = handle) tasks of
        Some t \<Rightarrow> Inr t | None \<Rightarrow> Inl (ReTaskNotFound handle))"

definition chat_remediation_brief ::
    "Task list \<Rightarrow> string \<Rightarrow> string \<Rightarrow> (string \<Rightarrow> string option) \<Rightarrow> RemediationError + Task \<times> string" where
  "chat_remediation_brief tasks handle remediation_id skill_path =
     (if remediation_id \<noteq> CREATE_PR \<and> skill_name remediation_id = None
      then Inl (ReUnknownRemediation remediation_id)
      else case find_task tasks handle of
             Inl e \<Rightarrow> Inl e
           | Inr t \<Rightarrow>
               (case (if remediation_id = CREATE_PR then Some []
                      else Option.bind (skill_name remediation_id) skill_path) of
                  None \<Rightarrow> Inl (ReUnsupportedCapability
                            ''required agent skill is not installed on the companion host'')
                | Some path \<Rightarrow>
                    (case format_brief remediation_id t path of
                       Some brief \<Rightarrow> Inr (t, brief)
                     | None \<Rightarrow> Inl (ReUnknownRemediation remediation_id))))"

record RemediationOutcome =
  rm_state_changed :: bool
  rm_output :: string

definition format_remediation_output :: "CommandOutput \<Rightarrow> string \<Rightarrow> string" where
  "format_remediation_output output remediation_id =
     (let label = (if remediation_id = FIX_CI then ''Fix CI''
                   else if remediation_id = RESOLVE_MERGE_CONFLICTS then ''Resolve merge conflicts''
                   else remediation_id);
          out_text = trim (co_stdout output);
          err_text = trim (co_stderr output)
      in join [newline, newline]
           ((label @ '': sent skill brief to task agent'')
            # (if out_text \<noteq> [] then [out_text] else [])
            @ (if err_text \<noteq> [] then [err_text] else [])))"

definition execute_remediation ::
    "'r runner \<Rightarrow> Task list \<Rightarrow> string \<Rightarrow> string \<Rightarrow> string \<Rightarrow> 'r \<Rightarrow>
     (RemediationError + RemediationOutcome) \<times> 'r" where
  "execute_remediation exec tasks handle remediation_id skill_path r =
     (if \<not> is_remediation_action remediation_id then (Inl (ReUnknownRemediation remediation_id), r)
      else case find_task tasks handle of
             Inl e \<Rightarrow> (Inl e, r)
           | Inr t \<Rightarrow>
               (case format_brief remediation_id t skill_path of
                  None \<Rightarrow> (Inl (ReUnknownRemediation remediation_id), r)
                | Some brief \<Rightarrow>
                    if \<not> (case t_tmux_status t of Some s \<Rightarrow> ts_exists s | None \<Rightarrow> False)
                    then (Inl (ReUnsupportedCapability
                            ''remediation requires an active tmux task session; open the task in native Cockpit first''), r)
                    else
                      (case exec r (send_agent_command ''tmux'' (t_tmux_session t) (t_task_window t) brief) of
                         (Inl e, r1) \<Rightarrow> (Inl (ReCommandRun (show_run_error e)), r1)
                       | (Inr output, r1) \<Rightarrow>
                           (Inr \<lparr>rm_state_changed = False,
                                 rm_output = format_remediation_output output remediation_id\<rparr>, r1))))"

section \<open>Lemmas\<close>

lemma adoptable_is_mismatch: "has_adoptable_branch_move t \<Longrightarrow> has_checkout_mismatch t"
  by (auto simp: has_adoptable_branch_move_def has_checkout_mismatch_def split: option.splits)

lemma missing_worktree_is_gap: "has_missing_worktree t \<Longrightarrow> has_missing_substrate t \<and> \<not> has_only_shell_substrate_gap t"
  by (simp add: has_missing_substrate_def has_missing_git_substrate_def has_only_shell_substrate_gap_def)

lemma eligible_list:
  "eligible_actions decode dec t =
     (if is_allowed (task_operation_eligibility t ToOpen) then [OaResume] else [])
     @ (if is_allowed (task_operation_eligibility t ToMerge) \<and> \<not> ship_blocked decode dec t then [OaShip] else [])
     @ (if is_allowed (task_operation_eligibility t ToClean) then [OaDrop] else [])
     @ (if is_allowed (task_operation_eligibility t ToRemove) then [OaDrop] else [])"
  by (simp add: eligible_actions_def)

lemma eligible_set:
  "set (eligible_actions decode dec t) =
     (if is_allowed (task_operation_eligibility t ToOpen) then {OaResume} else {})
     \<union> (if is_allowed (task_operation_eligibility t ToMerge) \<and> \<not> ship_blocked decode dec t then {OaShip} else {})
     \<union> (if is_allowed (task_operation_eligibility t ToClean)
          \<or> is_allowed (task_operation_eligibility t ToRemove) then {OaDrop} else {})"
  by (cases "is_allowed (task_operation_eligibility t ToOpen)";
      cases "is_allowed (task_operation_eligibility t ToMerge) \<and> \<not> ship_blocked decode dec t";
      cases "is_allowed (task_operation_eligibility t ToClean)";
      cases "is_allowed (task_operation_eligibility t ToRemove)")
    (simp_all only: eligible_list if_True if_False append_Nil append_Nil2 append_Cons simp_thms, auto)

lemma available_cases:
  obtains (fixed) "available_operator_actions decode dec t \<in>
      set [[OaRepair, OaDrop], [OaRepair, OaResume, OaDrop], [OaDrop]]"
  | (eligible) pre where "pre \<in> {[], [OaRepair]}"
      "available_operator_actions decode dec t = remdups_adj (pre @ eligible_actions decode dec t)"
      "\<not> task_is_known_invalid t"
proof (cases "available_operator_actions decode dec t \<in>
    set [[OaRepair, OaDrop], [OaRepair, OaResume, OaDrop], [OaDrop]]")
  case True
  then show ?thesis by (rule fixed)
next
  case False
  let ?pre = "if has_missing_substrate t \<or> rp_observation_error (t_runtime_projection t) \<noteq> None
    then [OaRepair] else []"
  have "available_operator_actions decode dec t = remdups_adj (?pre @ eligible_actions decode dec t)"
    "\<not> task_is_known_invalid t"
    using False missing_worktree_is_gap [of t]
    by (auto simp: available_operator_actions_def Let_def split: if_splits)
  then show ?thesis by (intro eligible [of ?pre]) auto
qed

lemma distinct_eligible:
  "pre \<in> {[], [OaRepair]} \<Longrightarrow> distinct (remdups_adj (pre @ eligible_actions decode dec t))"
  by (auto simp: eligible_list)

lemma available_drop:
  "t_lifecycle_status t \<noteq> LcRemoved \<or> task_is_known_invalid t \<Longrightarrow>
   OaDrop \<in> set (available_operator_actions decode dec t)"
  by (cases rule: available_cases [of decode dec t]) (auto simp: eligible_set remove_allowed)

lemma available_kinds:
  "set (available_operator_actions decode dec t) \<subseteq> {OaRepair, OaResume, OaShip, OaDrop}"
  by (cases rule: available_cases [of decode dec t]) (auto simp: eligible_set split: if_splits)

lemma available_distinct: "distinct (available_operator_actions decode dec t)"
  by (cases rule: available_cases [of decode dec t]) (auto simp: distinct_eligible)

lemma available_ship:
  "OaShip \<in> set (available_operator_actions decode dec t) \<Longrightarrow>
   is_allowed (task_operation_eligibility t ToMerge) \<and> \<not> ship_blocked decode dec t
   \<and> \<not> task_is_known_invalid t"
  by (cases rule: available_cases [of decode dec t]) (auto simp: eligible_set split: if_splits)

lemma recommended_cases:
  "pl_action (operator_action decode dec t) \<in> set (available_operator_actions decode dec t)
   \<or> available_operator_actions decode dec t = []
     \<and> pl_action (operator_action decode dec t) = OaDrop \<and> t_lifecycle_status t = LcRemoved"
proof (cases "available_operator_actions decode dec t = []")
  case True
  then have removed: "t_lifecycle_status t = LcRemoved" and valid: "\<not> task_is_known_invalid t"
    using available_drop [of t decode dec] by auto
  have "rp_observation_error (t_runtime_projection t) = None"
    using True by (auto simp: available_operator_actions_def Let_def split: if_splits)
  then have "fallback_operator_action decode t = OaDrop"
    using removed by (simp add: fallback_operator_action_def)
  with True removed valid show ?thesis by (auto simp: operator_action_def Let_def split: option.split)
next
  case False
  then obtain a as where "available_operator_actions decode dec t = a # as" by (auto simp: neq_Nil_conv)
  then show ?thesis
    using available_drop [of t decode dec] by (auto simp: operator_action_def Let_def)
qed

section \<open>Properties\<close>

text \<open>The operator can always get rid of a task: the drop is offered for every task that is not removed.
  The offered actions are distinct and never the start or the review of a task; shipping is offered only
  when the merge is eligible, no pull request is open, CI has not failed and the task is not known to be
  invalid; and the recommended action is one of the offered ones, except that a removed task without any
  offer is recommended to be dropped.\<close>

theorem recommended_action_is_offered:
  "\<not> (t_lifecycle_status t \<noteq> LcRemoved \<and> OaDrop \<notin> set (available_operator_actions decode dec t))
   \<and> distinct (available_operator_actions decode dec t)
   \<and> set (available_operator_actions decode dec t) \<subseteq> {OaRepair, OaResume, OaShip, OaDrop}
   \<and> \<not> (OaShip \<in> set (available_operator_actions decode dec t)
         \<and> \<not> (is_allowed (task_operation_eligibility t ToMerge) \<and> \<not> ship_blocked decode dec t
               \<and> \<not> task_is_known_invalid t))
   \<and> (pl_action (operator_action decode dec t) \<in> set (available_operator_actions decode dec t)
      \<or> available_operator_actions decode dec t = []
        \<and> pl_action (operator_action decode dec t) = OaDrop \<and> t_lifecycle_status t = LcRemoved)"
  using available_drop [of t decode dec] available_distinct available_kinds available_ship
    recommended_cases by blast

text \<open>The two entrances to remediations accept the same ones: a brief is refused as unknown exactly
  when the identifier is none of the three remediation actions, by the chat as by the terminal. Of the
  options offered for a task only the merge is not such an action, each names the skill its brief uses, no
  option is offered twice, and creating and merging a pull request are never offered together.\<close>

theorem remediations_are_consistent:
  "(chat_remediation_brief tasks handle i skill_path = Inl (ReUnknownRemediation i)
      \<longleftrightarrow> \<not> is_remediation_action i)
   \<and> (fst (execute_remediation exec tasks handle i path r) = Inl (ReUnknownRemediation i)
      \<longleftrightarrow> \<not> is_remediation_action i)
   \<and> ro_id ` set (remediations_for_task decode t) - {MERGE_PR} \<subseteq> Collect is_remediation_action
   \<and> list_all (\<lambda>ro. ro_skill_name ro = or_text [] (skill_name (ro_id ro))) (remediations_for_task decode t)
   \<and> distinct (map ro_id (remediations_for_task decode t))
   \<and> \<not> {CREATE_PR, MERGE_PR} \<subseteq> ro_id ` set (remediations_for_task decode t)"
proof -
  note ids = FIX_CI_def RESOLVE_MERGE_CONFLICTS_def CREATE_PR_def MERGE_PR_def
  have brief: "format_brief i t' p = None \<longleftrightarrow> \<not> is_remediation_action i" for t' p
    by (simp add: format_brief_def is_remediation_action_def Let_def)
  have skill: "skill_name i \<noteq> None \<longleftrightarrow> is_remediation_action i \<and> i \<noteq> CREATE_PR"
    by (auto simp: skill_name_def is_remediation_action_def ids)
  have "chat_remediation_brief tasks handle i skill_path = Inl (ReUnknownRemediation i)
      \<longleftrightarrow> \<not> is_remediation_action i"
  proof (cases "is_remediation_action i")
    case True
    then have "\<not> (i \<noteq> CREATE_PR \<and> skill_name i = None)" using skill by blast
    moreover obtain f where "\<And>t' p. format_brief i t' p = Some (f t' p)"
    proof (rule that [of "\<lambda>t' p. the (format_brief i t' p)"])
      show "format_brief i t' p = Some (the (format_brief i t' p))" for t' p
        using brief [of t' p] True by (cases "format_brief i t' p") simp_all
    qed
    ultimately show ?thesis
      using True
      by (cases "i = CREATE_PR") (auto simp: chat_remediation_brief_def find_task_def split: option.split sum.split)
  next
    case False
    then have "i \<noteq> CREATE_PR" "skill_name i = None"
      using skill by (auto simp: is_remediation_action_def)
    with False show ?thesis by (simp add: chat_remediation_brief_def)
  qed
  moreover have "fst (execute_remediation exec tasks handle i path r) = Inl (ReUnknownRemediation i)
      \<longleftrightarrow> \<not> is_remediation_action i"
    using brief by (auto simp: execute_remediation_def find_task_def split: option.splits sum.splits prod.splits)
  moreover have "\<not> (offers_create_pr decode t \<and> offers_merge_pr decode t)"
    by (auto simp: offers_create_pr_def offers_merge_pr_def has_open_pull_request_def list_all_iff list_ex_iff)
  moreover have "ro_id ` set (remediations_for_task decode t) - {MERGE_PR} \<subseteq> Collect is_remediation_action"
    "list_all (\<lambda>ro. ro_skill_name ro = or_text [] (skill_name (ro_id ro))) (remediations_for_task decode t)"
    "distinct (map ro_id (remediations_for_task decode t))"
    by (auto simp: remediations_for_task_def is_remediation_action_def skill_name_def or_text_def ids)
  moreover have "CREATE_PR \<in> ro_id ` set (remediations_for_task decode t) \<longleftrightarrow> offers_create_pr decode t"
    "MERGE_PR \<in> ro_id ` set (remediations_for_task decode t) \<longleftrightarrow> offers_merge_pr decode t"
    by (auto simp: remediations_for_task_def ids)
  ultimately show ?thesis by blast
qed

end
