(* ===== verification/Notify.thy ===== *)
theory Notify
  imports Ci_Monitor
begin

text \<open>
  When a task notifies its operator: the notification half of \<open>crates/ajax-core/src/attention.rs\<close> and
  \<open>acknowledge_attention\<close> of \<open>live_application.rs\<close>. The episode lives in four metadata keys of the
  task; the suppression of CI errors reads the monitor state, so the functions take the decoder of the
  theory \<open>Ci_Monitor\<close>. Seconds are u64: the sums with the two dwell times wrap at 2 to the 64.
\<close>

section \<open>The operations\<close>

definition LAST_NOTIFIED_STATUS_KEY :: string where
  "LAST_NOTIFIED_STATUS_KEY = ''last_notified_status''"

definition LAST_NOTIFIED_AT_KEY :: string where
  "LAST_NOTIFIED_AT_KEY = ''last_notified_at''"

definition NOTIFY_QUIET_SINCE_KEY :: string where
  "NOTIFY_QUIET_SINCE_KEY = ''notify_quiet_since''"

definition NOTIFY_CANDIDATE_SINCE_KEY :: string where
  "NOTIFY_CANDIDATE_SINCE_KEY = ''notify_candidate_since''"

lemmas notify_keys =
  LAST_NOTIFIED_STATUS_KEY_def LAST_NOTIFIED_AT_KEY_def NOTIFY_QUIET_SINCE_KEY_def
  NOTIFY_CANDIDATE_SINCE_KEY_def

definition EPISODE_CLEAR_DWELL_SECS :: nat where
  "EPISODE_CLEAR_DWELL_SECS = 30"

definition NOTIFY_CONFIRMATION_DWELL_SECS :: nat where
  "NOTIFY_CONFIRMATION_DWELL_SECS = 15"

record AttentionTransition =
  at_repo :: string
  at_handle :: string
  at_status :: TaskStatus
  at_explanation :: "string option"
  at_client :: string

definition episode_stamp :: "OperatorStatus \<Rightarrow> string" where
  "episode_stamp s = task_status_as_str (op_status s)"

definition github_ci_failure :: "Task \<Rightarrow> bool" where
  "github_ci_failure t =
     live_is (\<lambda>live. lo_kind live = LkCiFailed \<and> starts_with (lo_summary live) ''ci failed'') t"

definition merge_conflict :: "Task \<Rightarrow> bool" where
  "merge_conflict t \<longleftrightarrow>
     live_is (\<lambda>live. lo_kind live = LkMergeConflict) t \<or> has_side_flag SfConflicted t"

definition merge_conflict_unconfirmed :: "Task \<Rightarrow> bool" where
  "merge_conflict_unconfirmed t =
     (if \<not> live_is (\<lambda>live. lo_kind live = LkMergeConflict) t then False
      else (case t_git_status t of Some git \<Rightarrow> \<not> gs_conflicted git | None \<Rightarrow> True))"

definition merge_conflict_notify_suppressed :: "monitor_dec \<Rightarrow> Task \<Rightarrow> bool" where
  "merge_conflict_notify_suppressed dec t =
     (if merge_conflict_unconfirmed t then True else rerun_in_progress (load_state dec t))"

definition should_suppress_error_attention :: "monitor_dec \<Rightarrow> Task \<Rightarrow> OperatorStatus \<Rightarrow> bool" where
  "should_suppress_error_attention dec t s =
     (if op_status s \<noteq> StError then False
      else if github_ci_failure t then checks_in_flight (load_state dec t)
      else merge_conflict t \<and> merge_conflict_notify_suppressed dec t)"

definition clear_notify_candidate :: "Task \<Rightarrow> Task" where
  "clear_notify_candidate t = del_meta NOTIFY_CANDIDATE_SINCE_KEY t"

definition confirm_notify_candidate :: "time \<Rightarrow> Task \<Rightarrow> bool \<times> Task" where
  "confirm_notify_candidate now t =
     (let now_secs = unix_seconds now in
      case Option.bind (t_metadata t NOTIFY_CANDIDATE_SINCE_KEY) parse_u64 of
        Some since \<Rightarrow>
          if now_secs \<ge> (since + NOTIFY_CONFIRMATION_DWELL_SECS) mod 2 ^ 64
          then (True, clear_notify_candidate t)
          else (False, t)
      | None \<Rightarrow> (False, put_meta NOTIFY_CANDIDATE_SINCE_KEY (show_nat now_secs) t))"

definition clear_notify_episode_if_quiet :: "time \<Rightarrow> Task \<Rightarrow> Task" where
  "clear_notify_episode_if_quiet now t =
     (if t_metadata t LAST_NOTIFIED_STATUS_KEY = None then del_meta NOTIFY_QUIET_SINCE_KEY t
      else
        let now_secs = unix_seconds now in
        case Option.bind (t_metadata t NOTIFY_QUIET_SINCE_KEY) parse_u64 of
          Some since \<Rightarrow>
            if now_secs \<ge> (since + EPISODE_CLEAR_DWELL_SECS) mod 2 ^ 64
            then del_meta NOTIFY_QUIET_SINCE_KEY
                   (del_meta LAST_NOTIFIED_AT_KEY (del_meta LAST_NOTIFIED_STATUS_KEY t))
            else t
        | None \<Rightarrow> put_meta NOTIFY_QUIET_SINCE_KEY (show_nat now_secs) t)"

definition transition_of :: "Task \<Rightarrow> OperatorStatus \<Rightarrow> AttentionTransition" where
  "transition_of t s =
     \<lparr>at_repo = t_repo t, at_handle = t_handle t, at_status = op_status s,
      at_explanation = op_explanation s,
      at_client = to_ascii_lowercase (debug_agent (t_selected_agent t))\<rparr>"

definition take_attention_transition_at ::
    "monitor_dec \<Rightarrow> time \<Rightarrow> Task \<Rightarrow> AttentionTransition option \<times> Task" where
  "take_attention_transition_at dec now t =
     (if t_lifecycle_status t \<in> {LcRemoving, LcRemoved} then (None, t)
      else
        let s = derive_operator_status t in
        if op_status s \<in> {StWaiting, StError} then
          if \<not> op_actionable s then (None, clear_notify_candidate t)
          else if should_suppress_error_attention dec t s then (None, clear_notify_candidate t)
          else
            let t1 = del_meta NOTIFY_QUIET_SINCE_KEY t; stamp = episode_stamp s in
            if t_metadata t1 LAST_NOTIFIED_STATUS_KEY = Some stamp
            then (None, clear_notify_candidate t1)
            else (case confirm_notify_candidate now t1 of
                    (False, t2) \<Rightarrow> (None, t2)
                  | (True, t2) \<Rightarrow>
                      let t3 = put_meta LAST_NOTIFIED_STATUS_KEY stamp t2;
                          t4 = put_meta LAST_NOTIFIED_AT_KEY (show_nat (unix_seconds now)) t3
                      in (Some (transition_of t4 s), t4))
        else (None, clear_notify_episode_if_quiet now (clear_notify_candidate t)))"

definition silence_notify_episode :: "time \<Rightarrow> Task \<Rightarrow> Task" where
  "silence_notify_episode now t =
     (let s = derive_operator_status t in
      if \<not> op_actionable s then t
      else clear_notify_candidate
             (del_meta NOTIFY_QUIET_SINCE_KEY
               (put_meta LAST_NOTIFIED_AT_KEY (show_nat (unix_seconds now))
                 (put_meta LAST_NOTIFIED_STATUS_KEY (episode_stamp s) t))))"

definition acknowledge_attention :: "time \<Rightarrow> Task \<Rightarrow> Task" where
  "acknowledge_attention at t = record_attention_acknowledgment at (silence_notify_episode at t)"

section \<open>Lemmas: the episode keys do not influence the status\<close>

text \<open>Two tasks that differ in the episode keys only.\<close>

definition episode_keys :: "string set" where
  "episode_keys =
     {LAST_NOTIFIED_STATUS_KEY, LAST_NOTIFIED_AT_KEY, NOTIFY_QUIET_SINCE_KEY, NOTIFY_CANDIDATE_SINCE_KEY}"

lemma episode_keys_fresh [simp]:
  "SKIP_INTERACTIVE_AGENT_KEY \<notin> episode_keys" "AGENT_PROCESS_ALIVE_KEY \<notin> episode_keys"
  "CI_MONITOR_STATE_KEY \<notin> episode_keys" "CI_CHECKS_PROBED_AT_KEY \<notin> episode_keys"
  by (simp_all add: episode_keys_def notify_keys SKIP_INTERACTIVE_AGENT_KEY_def
      AGENT_PROCESS_ALIVE_KEY_def CI_MONITOR_STATE_KEY_def CI_CHECKS_PROBED_AT_KEY_def)

lemma episode_keys_in [simp]:
  "LAST_NOTIFIED_STATUS_KEY \<in> episode_keys" "LAST_NOTIFIED_AT_KEY \<in> episode_keys"
  "NOTIFY_QUIET_SINCE_KEY \<in> episode_keys" "NOTIFY_CANDIDATE_SINCE_KEY \<in> episode_keys"
  by (simp_all add: episode_keys_def)

lemma key_distinct [simp]:
  "LAST_NOTIFIED_STATUS_KEY \<noteq> LAST_NOTIFIED_AT_KEY" "LAST_NOTIFIED_AT_KEY \<noteq> LAST_NOTIFIED_STATUS_KEY"
  "LAST_NOTIFIED_STATUS_KEY \<noteq> NOTIFY_QUIET_SINCE_KEY" "NOTIFY_QUIET_SINCE_KEY \<noteq> LAST_NOTIFIED_STATUS_KEY"
  "LAST_NOTIFIED_STATUS_KEY \<noteq> NOTIFY_CANDIDATE_SINCE_KEY"
  "NOTIFY_CANDIDATE_SINCE_KEY \<noteq> LAST_NOTIFIED_STATUS_KEY"
  "NOTIFY_QUIET_SINCE_KEY \<noteq> NOTIFY_CANDIDATE_SINCE_KEY" "NOTIFY_CANDIDATE_SINCE_KEY \<noteq> NOTIFY_QUIET_SINCE_KEY"
  by (simp_all add: notify_keys)

definition same_but_episode :: "Task \<Rightarrow> Task \<Rightarrow> bool" where
  "same_but_episode t u \<longleftrightarrow>
     t\<lparr>t_metadata := (t_metadata t) |` (- episode_keys)\<rparr> = u\<lparr>t_metadata := (t_metadata u) |` (- episode_keys)\<rparr>"

lemma same_refl [simp]: "same_but_episode t t"
  by (simp add: same_but_episode_def)

lemma same_sym: "same_but_episode t u \<Longrightarrow> same_but_episode u t"
  by (simp add: same_but_episode_def)

lemma same_put [simp]: "k \<in> episode_keys \<Longrightarrow> same_but_episode (put_meta k v t) u = same_but_episode t u"
  by (auto simp: same_but_episode_def put_meta_def restrict_map_def fun_eq_iff intro!: arg_cong2 [of _ _ _ _ "(=)"])

lemma same_del [simp]: "k \<in> episode_keys \<Longrightarrow> same_but_episode (del_meta k t) u = same_but_episode t u"
  by (auto simp: same_but_episode_def del_meta_def restrict_map_def fun_eq_iff intro!: arg_cong2 [of _ _ _ _ "(=)"])

lemma same_fields:
  assumes "same_but_episode t u"
  shows "t_side_flags t = t_side_flags u" "t_runtime_projection t = t_runtime_projection u"
    "t_git_status t = t_git_status u" "t_live_status t = t_live_status u"
    "t_tmux_status t = t_tmux_status u" "t_task_window_status t = t_task_window_status u"
    "t_branch t = t_branch u" "t_lifecycle_status t = t_lifecycle_status u"
    "t_agent_status t = t_agent_status u" "t_last_activity_at t = t_last_activity_at u"
    "t_live_status_observed_at t = t_live_status_observed_at u"
    "t_attention_acknowledged_at t = t_attention_acknowledged_at u"
    "t_repo t = t_repo u" "t_handle t = t_handle u" "t_selected_agent t = t_selected_agent u"
proof -
  have e: "t\<lparr>t_metadata := (t_metadata t) |` (- episode_keys)\<rparr> = u\<lparr>t_metadata := (t_metadata u) |` (- episode_keys)\<rparr>"
    using assms by (simp add: same_but_episode_def)
  show "t_side_flags t = t_side_flags u" using arg_cong [OF e, of t_side_flags] by simp
  show "t_runtime_projection t = t_runtime_projection u"
    using arg_cong [OF e, of t_runtime_projection] by simp
  show "t_git_status t = t_git_status u" using arg_cong [OF e, of t_git_status] by simp
  show "t_live_status t = t_live_status u" using arg_cong [OF e, of t_live_status] by simp
  show "t_tmux_status t = t_tmux_status u" using arg_cong [OF e, of t_tmux_status] by simp
  show "t_task_window_status t = t_task_window_status u"
    using arg_cong [OF e, of t_task_window_status] by simp
  show "t_branch t = t_branch u" using arg_cong [OF e, of t_branch] by simp
  show "t_lifecycle_status t = t_lifecycle_status u" using arg_cong [OF e, of t_lifecycle_status] by simp
  show "t_agent_status t = t_agent_status u" using arg_cong [OF e, of t_agent_status] by simp
  show "t_last_activity_at t = t_last_activity_at u" using arg_cong [OF e, of t_last_activity_at] by simp
  show "t_live_status_observed_at t = t_live_status_observed_at u"
    using arg_cong [OF e, of t_live_status_observed_at] by simp
  show "t_attention_acknowledged_at t = t_attention_acknowledged_at u"
    using arg_cong [OF e, of t_attention_acknowledged_at] by simp
  show "t_repo t = t_repo u" using arg_cong [OF e, of t_repo] by simp
  show "t_handle t = t_handle u" using arg_cong [OF e, of t_handle] by simp
  show "t_selected_agent t = t_selected_agent u" using arg_cong [OF e, of t_selected_agent] by simp
qed

lemma same_meta:
  assumes "same_but_episode t u" and "k \<notin> episode_keys"
  shows "t_metadata t k = t_metadata u k"
proof -
  have "t\<lparr>t_metadata := (t_metadata t) |` (- episode_keys)\<rparr> = u\<lparr>t_metadata := (t_metadata u) |` (- episode_keys)\<rparr>"
    using assms(1) by (simp add: same_but_episode_def)
  from arg_cong [OF this, of t_metadata]
  have "((t_metadata t) |` (- episode_keys)) k = ((t_metadata u) |` (- episode_keys)) k" by simp
  then show ?thesis using assms(2) by simp
qed

lemma same_status:
  assumes "same_but_episode t u"
  shows "derive_operator_status t = derive_operator_status u"
proof -
  note f = same_fields [OF assms]
  have skip: "skip_interactive_agent t = skip_interactive_agent u"
    unfolding skip_interactive_agent_def same_meta [OF assms episode_keys_fresh(1)] ..
  have alive: "agent_process_is_alive t = agent_process_is_alive u"
    unfolding agent_process_is_alive_def same_meta [OF assms episode_keys_fresh(2)] ..
  have parts: "substrate_status t = substrate_status u" "error_status t = error_status u"
    "running_status t = running_status u" "live_waiting_status t = live_waiting_status u"
    by (rule substrate_status_cong error_status_cong running_status_cong live_waiting_status_cong;
        fact f skip)+
  have ack: "live_evidence_is_acknowledged t = live_evidence_is_acknowledged u"
    unfolding live_evidence_is_acknowledged_def f ..
  have settled: "settled_status t = settled_status u"
    unfolding settled_status_def workflow_boundary_is_acknowledged_def
      has_no_status_evidence_def has_side_flag_def f skip alive ack ..
  show ?thesis unfolding status_split f parts ack settled ..
qed

lemma same_suppress:
  assumes "same_but_episode t u"
  shows "should_suppress_error_attention dec t s = should_suppress_error_attention dec u s"
proof -
  note f = same_fields [OF assms]
  have "load_state dec t = load_state dec u"
    unfolding load_state_def complete_state_def live_is_def f
      same_meta [OF assms episode_keys_fresh(3)] same_meta [OF assms episode_keys_fresh(4)] ..
  then show ?thesis
    unfolding should_suppress_error_attention_def github_ci_failure_def merge_conflict_def
      merge_conflict_notify_suppressed_def merge_conflict_unconfirmed_def live_is_def has_side_flag_def f
    by simp
qed

text \<open>A task that would notify now, but for the dwell time and the last stamp.\<close>

definition notifiable :: "monitor_dec \<Rightarrow> Task \<Rightarrow> bool" where
  "notifiable dec t \<longleftrightarrow>
     t_lifecycle_status t \<notin> {LcRemoving, LcRemoved}
     \<and> op_status (derive_operator_status t) \<in> {StWaiting, StError}
     \<and> op_actionable (derive_operator_status t)
     \<and> \<not> should_suppress_error_attention dec t (derive_operator_status t)"

lemma same_notifiable: "same_but_episode t u \<Longrightarrow> notifiable dec t = notifiable dec u"
  using same_fields(8) [of t u] by (simp add: notifiable_def same_status same_suppress)

definition last_stamp :: "Task \<Rightarrow> string option" where
  "last_stamp t = t_metadata t LAST_NOTIFIED_STATUS_KEY"

definition candidate :: "Task \<Rightarrow> nat option" where
  "candidate t = Option.bind (t_metadata t NOTIFY_CANDIDATE_SINCE_KEY) parse_u64"

lemma candidate_frame [simp]:
  "last_stamp (del_meta NOTIFY_QUIET_SINCE_KEY t) = last_stamp t"
  "candidate (del_meta NOTIFY_QUIET_SINCE_KEY t) = candidate t"
  "last_stamp (clear_notify_candidate t) = last_stamp t"
  by (simp_all add: last_stamp_def candidate_def del_meta_def clear_notify_candidate_def)

lemma take_notifies_iff:
  "fst (take_attention_transition_at dec now t) \<noteq> None \<longleftrightarrow>
     notifiable dec t \<and> last_stamp t \<noteq> Some (episode_stamp (derive_operator_status t))
     \<and> (\<exists>since. candidate t = Some since
          \<and> (since + NOTIFY_CONFIRMATION_DWELL_SECS) mod 2 ^ 64 \<le> unix_seconds now)"
proof -
  let ?u = "del_meta NOTIFY_QUIET_SINCE_KEY t"
  have l: "t_metadata ?u LAST_NOTIFIED_STATUS_KEY = last_stamp t"
    using candidate_frame(1) [of t] by (simp add: last_stamp_def)
  have c: "Option.bind (t_metadata ?u NOTIFY_CANDIDATE_SINCE_KEY) parse_u64 = candidate t"
    using candidate_frame(2) [of t] by (simp add: candidate_def)
  show ?thesis
    by (simp add: take_attention_transition_at_def notifiable_def Let_def l confirm_notify_candidate_def c
        split: option.split)
qed

lemma take_same: "same_but_episode (snd (take_attention_transition_at dec now t)) t"
  by (simp add: take_attention_transition_at_def clear_notify_candidate_def confirm_notify_candidate_def
      clear_notify_episode_if_quiet_def Let_def split: option.split bool.split)

lemma take_stamp:
  "fst (take_attention_transition_at dec now t) \<noteq> None \<Longrightarrow>
   last_stamp (snd (take_attention_transition_at dec now t)) = Some (episode_stamp (derive_operator_status t))"
  by (auto simp: take_attention_transition_at_def last_stamp_def put_meta_def Let_def
      split: if_splits prod.splits bool.splits)

lemma silence_same: "same_but_episode (silence_notify_episode now t) t"
  by (simp add: silence_notify_episode_def Let_def clear_notify_candidate_def)

lemma silence_stamp:
  "op_actionable (derive_operator_status t) \<Longrightarrow>
   last_stamp (silence_notify_episode now t) = Some (episode_stamp (derive_operator_status t))"
  by (simp add: silence_notify_episode_def Let_def) (simp add: last_stamp_def del_meta_def put_meta_def)

section \<open>Properties\<close>


definition candidate_task :: Task where
  "candidate_task =
     put_meta NOTIFY_CANDIDATE_SINCE_KEY (show_nat 0)
       (sample_task\<lparr>t_lifecycle_status := LcActive, t_agent_status := ArWaiting,
          t_side_flags := {SfNeedsInput}\<rparr>)"

lemma candidate_task_fields:
  "t_lifecycle_status candidate_task = LcActive" "t_agent_status candidate_task = ArWaiting"
  "t_side_flags candidate_task = {SfNeedsInput}" "t_live_status candidate_task = None"
  "t_git_status candidate_task = None" "t_runtime_projection candidate_task = projection_default"
  "t_tmux_status candidate_task = None" "t_task_window_status candidate_task = None"
  by (simp_all add: candidate_task_def sample_task_def task_new_def put_meta_def)

lemma candidate_task_status: "derive_operator_status candidate_task = ping ''Waiting for input''"
proof -
  have "substrate_status candidate_task = None"
    by (simp add: substrate_status_def canonical_missing_substrate_explanation_def
        missing_substrate_label_def canonical_checkout_mismatch_explanation_def
        checkout_mismatch_explanation_def has_checkout_mismatch_def has_side_flag_def
        candidate_task_fields projection_default_def Let_def)
  moreover have "error_status candidate_task = None" "running_status candidate_task = None"
    "live_waiting_status candidate_task = None"
    by (simp_all add: error_status_def running_status_def live_waiting_status_def has_side_flag_def
        candidate_task_fields)
  moreover have "settled_status candidate_task = ping ''Waiting for input''"
    by (simp add: settled_status_def has_side_flag_def candidate_task_fields
        live_evidence_is_acknowledged_def)
  ultimately show ?thesis
    by (simp add: status_split candidate_task_fields resources_expected_def)
qed

lemma candidate_task_candidate: "candidate candidate_task = Some 0"
  by (simp add: candidate_def candidate_task_def put_meta_def)

lemma ping_notifiable:
  "derive_operator_status t = ping e \<Longrightarrow> t_lifecycle_status t = LcActive \<Longrightarrow> notifiable dec t"
  by (simp add: notifiable_def should_suppress_error_attention_def)


text \<open>Silencing an episode (which acknowledging does) prevents its notification at any later time:
  the next call takes nothing, whatever the clock says.\<close>

theorem silenced_episode_never_notifies:
  "fst (take_attention_transition_at dec later (silence_notify_episode now t)) = None"
proof (cases "op_actionable (derive_operator_status t)")
  case True
  have "derive_operator_status (silence_notify_episode now t) = derive_operator_status t"
    by (rule same_status [OF silence_same])
  then have "\<not> fst (take_attention_transition_at dec later (silence_notify_episode now t)) \<noteq> None"
    using silence_stamp [OF True] by (simp only: take_notifies_iff) simp
  then show ?thesis by simp
next
  case False
  then have "silence_notify_episode now t = t" by (simp add: silence_notify_episode_def Let_def)
  moreover have "\<not> fst (take_attention_transition_at dec later t) \<noteq> None"
    using False by (simp only: take_notifies_iff notifiable_def) simp
  ultimately show ?thesis by simp
qed

text \<open>The confirmation dwell is exact. The first call on a new episode takes nothing and starts the
  candidate; if the task does not change, the next call takes the notification exactly when fifteen
  seconds have passed on the clock.\<close>

theorem confirmation_dwell_is_exact:
  assumes "notifiable dec t" and "last_stamp t \<noteq> Some (episode_stamp (derive_operator_status t))"
    and "candidate t = None" and "unix_seconds now + 15 < 2 ^ 64"
  shows "fst (take_attention_transition_at dec now t) = None
    \<and> (fst (take_attention_transition_at dec later (snd (take_attention_transition_at dec now t))) \<noteq> None
       \<longleftrightarrow> unix_seconds now + 15 \<le> unix_seconds later)"
proof
  let ?t1 = "del_meta NOTIFY_QUIET_SINCE_KEY t"
  let ?u = "put_meta NOTIFY_CANDIDATE_SINCE_KEY (show_nat (unix_seconds now)) ?t1"
  have l: "t_metadata ?t1 LAST_NOTIFIED_STATUS_KEY = last_stamp t"
    using candidate_frame(1) [of t] by (simp add: last_stamp_def)
  have c: "Option.bind (t_metadata ?t1 NOTIFY_CANDIDATE_SINCE_KEY) parse_u64 = None"
    using candidate_frame(2) [of t] assms(3) by (simp add: candidate_def)
  have take: "take_attention_transition_at dec now t = (None, ?u)"
    using assms(1,2)
    by (simp add: take_attention_transition_at_def notifiable_def Let_def l confirm_notify_candidate_def c)
  then show "fst (take_attention_transition_at dec now t) = None" by simp
  have same: "same_but_episode ?u t" by simp
  have "notifiable dec ?u" using same_notifiable [OF same] assms(1) by simp
  moreover have "last_stamp ?u = last_stamp t"
    by (simp add: last_stamp_def put_meta_def del_meta_def)
  moreover have "candidate ?u = Some (unix_seconds now)"
    using assms(4) by (simp add: candidate_def) (simp add: put_meta_def)
  ultimately show "fst (take_attention_transition_at dec later (snd (take_attention_transition_at dec now t))) \<noteq> None
       \<longleftrightarrow> unix_seconds now + 15 \<le> unix_seconds later"
    using assms(2,4) same_status [OF same]
    by (simp only: take snd_conv take_notifies_iff) (simp add: NOTIFY_CONFIRMATION_DWELL_SECS_def)
qed

definition fresh_task :: Task where
  "fresh_task = del_meta NOTIFY_CANDIDATE_SINCE_KEY candidate_task"

theorem confirmation_dwell_is_exact_witness:
  "fst (take_attention_transition_at (\<lambda>_. None) 16000000000
      (snd (take_attention_transition_at (\<lambda>_. None) 0 fresh_task))) \<noteq> None"
proof -
  have same: "same_but_episode fresh_task candidate_task" by (simp add: fresh_task_def)
  have n: "notifiable (\<lambda>_. None) fresh_task"
    unfolding same_notifiable [OF same]
    by (rule ping_notifiable [OF candidate_task_status])
      (simp add: candidate_task_def sample_task_def put_meta_def)
  have l: "last_stamp fresh_task \<noteq> Some (episode_stamp (derive_operator_status fresh_task))"
    by (simp add: fresh_task_def last_stamp_def del_meta_def candidate_task_def put_meta_def
        sample_task_def task_new_def)
  have c: "candidate fresh_task = None"
    by (simp add: fresh_task_def candidate_def del_meta_def)
  from confirmation_dwell_is_exact [OF n l c, of 0 16000000000] show ?thesis
    by (simp add: unix_seconds_def)
qed

end
