(* ===== verification/Monitor_Events.thy ===== *)
theory Monitor_Events
  imports Notify
begin

text \<open>
  Monitor events and their effect on one task: \<open>crates/ajax-core/src/events.rs\<close>. The second half
  collects everything that changes the observed part of a task into one step relation and proves its
  two invariants; the registry version of an event is in the theory \<open>Registry\<close>. Durations and paths
  in an event are data that no function reads.
\<close>

section \<open>Events\<close>

datatype AgentEvent =
    AeStarted string
  | AeThinking
  | AeToolCall string
  | AeWaitingForApproval "string option"
  | AeWaitingForInput string
  | AeMessage string
  | AeCompleted
  | AeFailed string

datatype RepoEvent =
    ReFileChanged string
  | ReGitSnapshot string GitStatus string

datatype ProcessEvent =
    PeStarted "nat option"
  | PeStdout string
  | PeStderr string
  | PeExited "int option"
  | PeHung duration

datatype MonitorEvent = MeAgent AgentEvent | MeRepo RepoEvent | MeProcess ProcessEvent

definition invokes_test_runner :: "string \<Rightarrow> bool" where
  "invokes_test_runner invocation =
     list_ex (contains_str invocation)
       [''cargo test'', ''cargo nextest'', ''nextest run'', ''npm test'', ''pnpm test'', ''yarn test'',
        ''pytest'', ''rspec'']"

definition tool_call_observation :: "string \<Rightarrow> LiveObservation" where
  "tool_call_observation name =
     (if invokes_test_runner name then live_observation LkTestsRunning (''tests running: '' @ name)
      else live_observation LkCommandRunning (''tool running: '' @ name))"

fun live_observation_from_event :: "MonitorEvent \<Rightarrow> LiveObservation option" where
  "live_observation_from_event (MeAgent (AeStarted _)) =
     Some (live_observation LkAgentRunning ''agent running'')"
| "live_observation_from_event (MeAgent AeThinking) =
     Some (live_observation LkAgentRunning ''agent running'')"
| "live_observation_from_event (MeAgent (AeMessage _)) =
     Some (live_observation LkAgentRunning ''agent running'')"
| "live_observation_from_event (MeAgent (AeToolCall name)) = Some (tool_call_observation name)"
| "live_observation_from_event (MeAgent (AeWaitingForApproval _)) =
     Some (live_observation LkWaitingForApproval ''waiting for approval'')"
| "live_observation_from_event (MeAgent (AeWaitingForInput _)) =
     Some (live_observation LkWaitingForInput ''waiting for input'')"
| "live_observation_from_event (MeAgent AeCompleted) = Some (live_observation LkDone ''done'')"
| "live_observation_from_event (MeAgent (AeFailed message)) =
     Some (live_observation LkCommandFailed (''agent failed: '' @ message))"
| "live_observation_from_event (MeProcess (PeStarted _)) =
     Some (live_observation LkCommandRunning ''process running'')"
| "live_observation_from_event (MeProcess (PeStdout _)) =
     Some (live_observation LkCommandRunning ''process running'')"
| "live_observation_from_event (MeProcess (PeStderr line)) =
     Some (live_observation LkCommandRunning (''stderr: '' @ line))"
| "live_observation_from_event (MeProcess (PeExited code)) =
     (if code = Some 0 then Some (live_observation LkDone ''done'')
      else Some (live_observation LkCommandFailed ''process failed''))"
| "live_observation_from_event (MeProcess (PeHung _)) =
     Some (live_observation LkBlocked ''process hung'')"
| "live_observation_from_event (MeRepo (ReFileChanged _)) = None"
| "live_observation_from_event (MeRepo (ReGitSnapshot _ status _)) =
     (if gs_conflicted status
      then Some (live_observation LkMergeConflict ''git conflict needs attention'') else None)"

text \<open>The git evidence of an event is applied first; each phase has its own clock.\<close>

definition apply_monitor_event_to_task :: "clock \<Rightarrow> clock \<Rightarrow> MonitorEvent \<Rightarrow> Task \<Rightarrow> Task \<times> bool" where
  "apply_monitor_event_to_task gclk oclk event t =
     (let (t1, changed) = (case event of
                             MeRepo (ReGitSnapshot _ status _) \<Rightarrow> (apply_git_status gclk status t, True)
                           | _ \<Rightarrow> (t, False))
      in case live_observation_from_event event of
           None \<Rightarrow> (t1, changed)
         | Some ob \<Rightarrow> (apply_trusted_observation oclk ob t1, True))"

section \<open>Every change of the observed state of a task\<close>

inductive task_step :: "Task \<Rightarrow> Task \<Rightarrow> bool" where
  git: "task_step t (apply_git_status clk g t)"
| tmux: "task_step t (apply_tmux_status clk s t)"
| window: "task_step t (apply_task_window_status clk w t)"
| observe: "task_step t (apply_observation_at now ob at t)"
| authoritative: "task_step t (apply_authoritative_observation_at now ob at t)"
| trusted: "task_step t (apply_trusted_observation_at now ob at t)"
| retract: "task_step t (retract_stale_agent_running_at t)"
| chat: "task_step t (set_skip_interactive_agent now skip t)"
| model: "task_step t (set_session_model m t)"
| event: "task_step t (fst (apply_monitor_event_to_task gclk oclk e t))"
| checks: "task_step t (apply_github_checks_observation clk ob now t)"
| acknowledge: "task_step t (acknowledge_attention at t)"
| notify: "task_step t (snd (take_attention_transition_at dec now t))"
| lifecycle: "lifecycle_step working_reasons t u \<Longrightarrow> task_step t u"

section \<open>Lemmas: each operation keeps the two invariants\<close>

definition observed_ok :: "Task \<Rightarrow> bool" where
  "observed_ok t \<longleftrightarrow> dead_agent_closed t \<and> running_has_substrate t"

lemma observed_ok_cong:
  "t_agent_status t = t_agent_status u \<Longrightarrow> t_agent_attempts t = t_agent_attempts u \<Longrightarrow>
   t_side_flags t = t_side_flags u \<Longrightarrow> observed_ok t = observed_ok u"
  using dead_agent_closed_cong [of t u] running_has_substrate_cong [of t u] by (simp add: observed_ok_def)

lemma observed_remove: "observed_ok t \<Longrightarrow> observed_ok (remove_side_flag f t)"
  by (simp add: observed_ok_def running_remove dead_agent_closed_def no_open_attempt_def)

lemma observed_mark:
  "observed_ok t \<Longrightarrow> f \<noteq> SfAgentRunning \<Longrightarrow> observed_ok (mark_resource_missing now f t)"
  by (simp add: observed_ok_def mark_resource_missing_dead_closed running_mark)

lemma observed_clear_live: "observed_ok (clear_live_status_if k t) = observed_ok t"
  by (rule observed_ok_cong) simp_all

lemma observed_refresh: "observed_ok (refresh_runtime_projection now t) = observed_ok t"
  by (rule observed_ok_cong) simp_all

lemma observed_flag_to:
  "observed_ok t \<Longrightarrow> \<not> flag_is_missing_substrate f \<Longrightarrow> f \<noteq> SfAgentRunning \<Longrightarrow> observed_ok (set_flag_to b f t)"
  by (simp add: observed_ok_def running_set_flag dead_agent_closed_def no_open_attempt_def)

lemma observed_tmux:
  assumes "observed_ok t"
  shows "observed_ok (apply_tmux_status clk s t)"
proof -
  have set: "observed_ok (u\<lparr>t_tmux_status := s\<rparr>) = observed_ok u" for u
    by (rule observed_ok_cong) simp_all
  show ?thesis
    using assms
    by (simp add: apply_tmux_status_def Let_def observed_refresh set observed_clear_live observed_remove
        observed_mark)
qed

lemma observed_window:
  assumes "observed_ok t"
  shows "observed_ok (apply_task_window_status clk w t)"
proof -
  have set: "observed_ok (u\<lparr>t_task_window_status := w\<rparr>) = observed_ok u" for u
    by (rule observed_ok_cong) simp_all
  show ?thesis
    using assms
    by (simp add: apply_task_window_status_def Let_def observed_refresh set observed_clear_live
        observed_remove observed_mark)
qed

lemma observed_git:
  assumes "observed_ok t"
  shows "observed_ok (apply_git_status clk g t)"
proof -
  obtain t0 s where a: "adopt_moved_branch g t = (t0, s)" by (cases "adopt_moved_branch g t")
  have set: "observed_ok (u\<lparr>t_git_status := Some s\<rparr>) = observed_ok u" for u
    by (rule observed_ok_cong) simp_all
  have "observed_ok t0"
    using assms observed_ok_cong [of t0 t] adopt_moved_branch_fields [OF a] by simp
  then show ?thesis
    by (simp add: apply_git_status_def a Let_def observed_refresh set observed_clear_live observed_remove
        observed_mark observed_flag_to)
qed

lemma observed_reduced: "observed_ok t \<Longrightarrow> observed_ok (apply_reduced_observation now ob at t)"
  by (simp add: observed_ok_def apply_reduced_dead_closed apply_reduced_running)

lemma lifecycle_step_frame:
  "lifecycle_step R t u \<Longrightarrow>
   t_agent_status u = t_agent_status t \<and> t_agent_attempts u = t_agent_attempts t
   \<and> t_side_flags u = t_side_flags t"
  by (auto elim!: lifecycle_stepE dest!: transition_lifecycle_Inr)

lemma observed_lifecycle: "lifecycle_step R t u \<Longrightarrow> observed_ok t \<Longrightarrow> observed_ok u"
  using lifecycle_step_frame [of R t u] observed_ok_cong [of u t] by simp

lemma observed_trusted: "observed_ok t \<Longrightarrow> observed_ok (apply_trusted_observation_at now ob at t)"
  using apply_reduced_frame_lifecycle_steps(1) [of now ob at t] observed_reduced [of t now ob at]
    observed_lifecycle by metis

lemma observed_authoritative:
  "observed_ok t \<Longrightarrow> observed_ok (apply_authoritative_observation_at now ob at t)"
  using apply_reduced_frame_lifecycle_steps(2) [of now ob at t] observed_reduced [of t now ob at]
    observed_lifecycle by metis

lemma observed_retract: "observed_ok t \<Longrightarrow> observed_ok (retract_stale_agent_running_at t)"
  by (auto simp: retract_stale_agent_running_at_def Let_def observed_ok_def dead_agent_closed_def
      no_open_attempt_def running_has_substrate_iff)

lemma observed_chat:
  assumes "observed_ok t"
  shows "observed_ok (set_skip_interactive_agent now skip t)"
proof -
  have set: "observed_ok (u\<lparr>t_metadata := m\<rparr>) = observed_ok u" for u m
    by (rule observed_ok_cong) simp_all
  show ?thesis
    using assms
    by (simp add: set_skip_interactive_agent_def Let_def observed_refresh observed_clear_live
        observed_remove set)
qed

lemma observed_model: "observed_ok (set_session_model m t) = observed_ok t"
  by (rule observed_ok_cong) (simp_all add: set_session_model_def split: option.split)

lemma observed_meta [simp]:
  "observed_ok (put_meta k v t) = observed_ok t" "observed_ok (del_meta k t) = observed_ok t"
  by (rule observed_ok_cong; simp)+

lemma observed_clear_when [simp]: "observed_ok (clear_live_when p t) = observed_ok t"
  by (rule observed_ok_cong) (simp_all add: clear_live_when_def)

lemma observed_checks: "observed_ok t \<Longrightarrow> observed_ok (apply_github_checks_observation clk ob now t)"
  by (simp add: apply_github_checks_observation_def clear_github_ci_evidence_def Let_def
      apply_observation_def apply_observation_at_def observed_reduced observed_remove
      split: CiChecksObservation.split)

lemma observed_event: "observed_ok t \<Longrightarrow> observed_ok (fst (apply_monitor_event_to_task gclk oclk e t))"
  by (simp add: apply_monitor_event_to_task_def apply_trusted_observation_def observed_trusted observed_git
      split: MonitorEvent.split RepoEvent.split option.split)

lemma observed_ack: "observed_ok (acknowledge_attention at t) = observed_ok t"
  by (rule observed_ok_cong)
    (simp_all add: acknowledge_attention_def silence_notify_episode_def clear_notify_candidate_def Let_def)

lemma observed_same: "same_but_episode u t \<Longrightarrow> t_agent_attempts u = t_agent_attempts t \<Longrightarrow> observed_ok u = observed_ok t"
  using same_fields(1,9) [of u t] by (intro observed_ok_cong) simp_all

lemma take_attempts [simp]:
  "t_agent_attempts (snd (take_attention_transition_at dec now t)) = t_agent_attempts t"
  by (simp add: take_attention_transition_at_def clear_notify_candidate_def confirm_notify_candidate_def
      clear_notify_episode_if_quiet_def Let_def split: option.split bool.split)

interpretation observed: invariant_system task_step observed_ok
proof unfold_locales
  fix t u
  assume step: "task_step t u" and ok: "observed_ok t"
  show "observed_ok u"
    using step
  proof cases
    case (observe now ob at)
    then show ?thesis using ok by (simp add: apply_observation_at_def observed_reduced)
  next
    case (notify dec now)
    then show ?thesis using ok observed_same [OF take_same] by simp
  next
    case lifecycle
    then show ?thesis using ok observed_lifecycle by blast
  qed (use ok in \<open>simp_all add: observed_git observed_tmux observed_window observed_authoritative
      observed_trusted observed_retract observed_chat observed_model observed_event observed_checks
      observed_ack\<close>)
qed

section \<open>Lemmas: the lifecycle under observations\<close>

lemma git_lifecycle [simp]: "t_lifecycle_status (apply_git_status clk g t) = t_lifecycle_status t"
proof -
  obtain t0 s where a: "adopt_moved_branch g t = (t0, s)" by (cases "adopt_moved_branch g t")
  then show ?thesis
    using adopt_moved_branch_fields(6) [OF a] by (simp add: apply_git_status_def Let_def)
qed

lemma substrate_lifecycle [simp]:
  "t_lifecycle_status (apply_tmux_status clk s t) = t_lifecycle_status t"
  "t_lifecycle_status (apply_task_window_status clk w t) = t_lifecycle_status t"
  "t_lifecycle_status (apply_observation_at now ob at t) = t_lifecycle_status t"
  "t_lifecycle_status (retract_stale_agent_running_at t) = t_lifecycle_status t"
  "t_lifecycle_status (set_skip_interactive_agent now skip t) = t_lifecycle_status t"
  "t_lifecycle_status (set_session_model m t) = t_lifecycle_status t"
  by (simp_all add: apply_tmux_status_def apply_task_window_status_def apply_observation_at_def
      retract_stale_agent_running_at_def set_skip_interactive_agent_def set_session_model_def Let_def
      split: option.split)

lemma checks_lifecycle [simp]:
  "t_lifecycle_status (apply_github_checks_observation clk ob now t) = t_lifecycle_status t"
  by (simp add: apply_github_checks_observation_def clear_github_ci_evidence_def clear_live_when_def
      apply_observation_def Let_def split: CiChecksObservation.split)

lemma ack_lifecycle [simp]: "t_lifecycle_status (acknowledge_attention at t) = t_lifecycle_status t"
  by (simp add: acknowledge_attention_def silence_notify_episode_def clear_notify_candidate_def Let_def)

lemma result_step_teardown:
  "lifecycle_step {TrOperationResult} t u \<Longrightarrow> in_teardown (t_lifecycle_status t) \<Longrightarrow>
   in_teardown (t_lifecycle_status u)"
  by (rule teardown.preserved) (auto elim!: lifecycle_stepE intro: lifecycle_step.move simp: working_reasons_def)

lemma trusted_teardown:
  "in_teardown (t_lifecycle_status t) \<Longrightarrow>
   in_teardown (t_lifecycle_status (apply_trusted_observation_at now ob at t))"
  "in_teardown (t_lifecycle_status t) \<Longrightarrow>
   in_teardown (t_lifecycle_status (apply_authoritative_observation_at now ob at t))"
  using apply_reduced_frame_lifecycle_steps [of now ob at t] result_step_teardown
  by (metis apply_reduced_frame(1))+

lemma event_teardown:
  "in_teardown (t_lifecycle_status t) \<Longrightarrow>
   in_teardown (t_lifecycle_status (fst (apply_monitor_event_to_task gclk oclk e t)))"
  by (simp add: apply_monitor_event_to_task_def apply_trusted_observation_def trusted_teardown
      split: MonitorEvent.split RepoEvent.split option.split)

interpretation torn: invariant_system task_step "\<lambda>t. in_teardown (t_lifecycle_status t)"
proof unfold_locales
  fix t u
  assume step: "task_step t u" and ok: "in_teardown (t_lifecycle_status t)"
  show "in_teardown (t_lifecycle_status u)"
    using step
  proof cases
    case (notify dec now)
    then show ?thesis using ok same_fields(8) [OF take_same] by simp
  next
    case lifecycle
    then show ?thesis using ok teardown.preserved by blast
  qed (use ok in \<open>simp_all add: trusted_teardown event_teardown\<close>)
qed

section \<open>Properties\<close>

text \<open>C23: Two invariants of the observed state hold along every sequence of git, tmux and window
  evidence, observations of every authority, monitor events, CI reports, retractions, mode changes,
  acknowledgments, notifications and lifecycle transitions: a dead agent has no open attempt, and a task
  flagged as running has all its substrate.\<close>

theorem observed_state_invariants:
  assumes "runs task_step t u" and "dead_agent_closed t" and "running_has_substrate t"
  shows "dead_agent_closed u \<and> running_has_substrate u"
  using observed.runs_preserve [OF assms(1)] assms(2,3) by (simp add: observed_ok_def)

definition running_task :: Task where
  "running_task =
     sample_task\<lparr>t_agent_status := ArRunning, t_side_flags := {SfAgentRunning},
       t_agent_attempts := [attempt_new AcCodex ''codex'' 0]\<rparr>"

theorem observed_state_invariants_witness:
  "dead_agent_closed (apply_tmux_status (\<lambda>_. 0) None running_task)
   \<and> running_has_substrate (apply_tmux_status (\<lambda>_. 0) None running_task)"
  by (rule observed_state_invariants [of running_task], rule runs_single, rule task_step.tmux)
    (simp_all add: running_task_def dead_agent_closed_def running_has_substrate_iff)

text \<open>Nothing that is observed revives a task: once a task is being removed or is removed, no
  sequence of those steps takes it back to work.\<close>

theorem observation_never_revives:
  assumes "runs task_step t u" and "in_teardown (t_lifecycle_status t)"
  shows "in_teardown (t_lifecycle_status u)"
  using assms by (rule torn.runs_preserve)

theorem observation_never_revives_witness:
  "in_teardown (t_lifecycle_status (apply_trusted_observation_at 0
     (live_observation LkDone ''done'') 0 (sample_task\<lparr>t_lifecycle_status := LcRemoving\<rparr>)))"
  by (rule observation_never_revives [of "sample_task\<lparr>t_lifecycle_status := LcRemoving\<rparr>"],
      rule runs_single, rule task_step.trusted)
    (simp add: in_teardown_def)

end
