(* ===== verification/Registry.thy ===== *)
theory Registry
  imports Monitor_Events
begin

text \<open>
  The registry of tasks: the trait \<open>Registry\<close> and \<open>InMemoryRegistry\<close> of
  \<open>crates/ajax-core/src/registry.rs\<close>, and \<open>apply_monitor_event_to_registry\<close> of \<open>events.rs\<close>, which is
  written against the trait. The trait is a locale; the in-memory registry is its interpretation.
  \<open>get_task_mut\<close> is an update by a function. A failing operation returns the error alone: it leaves
  the registry as it was.
\<close>

section \<open>State\<close>

datatype RegistryEventKind = EkTaskCreated | EkLifecycleChanged | EkSubstrateChanged | EkUserNote

record RegistryEvent =
  re_task_id :: task_id
  re_kind :: RegistryEventKind
  re_message :: string
  re_occurred_at :: time

definition event_new :: "time \<Rightarrow> task_id \<Rightarrow> RegistryEventKind \<Rightarrow> string \<Rightarrow> RegistryEvent" where
  "event_new now i kind message =
     \<lparr>re_task_id = i, re_kind = kind, re_message = message, re_occurred_at = now\<rparr>"

datatype RegistryError =
    ErDuplicateTask task_id
  | ErTaskNotFound task_id
  | ErInvalidLifecycleTransition LifecycleTransitionError

record InMemoryRegistry =
  rg_tasks :: "(task_id, Task) btree"
  rg_events :: "RegistryEvent list"
  rg_step_receipts :: "(StepReceiptIdentity, StepReceipt) btree"

definition registry_default :: InMemoryRegistry where
  "registry_default = \<lparr>rg_tasks = [], rg_events = [], rg_step_receipts = []\<rparr>"

section \<open>Operations\<close>

definition refresh_task_annotations :: "Task \<Rightarrow> Task" where
  "refresh_task_annotations t = t\<lparr>t_annotations := annotate t\<rparr>"

definition get_task :: "task_id \<Rightarrow> InMemoryRegistry \<Rightarrow> Task option" where
  "get_task i r = bt_get i (rg_tasks r)"

definition get_task_mut :: "task_id \<Rightarrow> (Task \<Rightarrow> Task) \<Rightarrow> InMemoryRegistry \<Rightarrow> InMemoryRegistry" where
  "get_task_mut i f r =
     (case bt_get i (rg_tasks r) of
        Some t \<Rightarrow> r\<lparr>rg_tasks := bt_insert i (f t) (rg_tasks r)\<rparr>
      | None \<Rightarrow> r)"

definition list_tasks :: "InMemoryRegistry \<Rightarrow> Task list" where
  "list_tasks r = bt_values (rg_tasks r)"

definition forget_records :: "task_id \<Rightarrow> InMemoryRegistry \<Rightarrow> InMemoryRegistry" where
  "forget_records i r =
     r\<lparr>rg_events := filter (\<lambda>e. re_task_id e \<noteq> i) (rg_events r),
       rg_step_receipts := bt_retain (\<lambda>identity _. fst identity \<noteq> i) (rg_step_receipts r)\<rparr>"

definition push_event :: "RegistryEvent \<Rightarrow> InMemoryRegistry \<Rightarrow> InMemoryRegistry" where
  "push_event e r = r\<lparr>rg_events := rg_events r @ [e]\<rparr>"

definition create_task :: "clock \<Rightarrow> Task \<Rightarrow> InMemoryRegistry \<Rightarrow> RegistryError + InMemoryRegistry" where
  "create_task clk t r =
     (let i = t_id t in
      if (case bt_get i (rg_tasks r) of
            Some existing \<Rightarrow> t_lifecycle_status existing \<noteq> LcRemoved | None \<Rightarrow> False)
      then Inl (ErDuplicateTask i)
      else
        let t1 = refresh_task_annotations (refresh_runtime_projection (clk 0) t);
            r1 = r\<lparr>rg_tasks := bt_insert i t1 (rg_tasks r)\<rparr>
        in Inr (push_event (event_new (clk 1) i EkTaskCreated ''task created'') (forget_records i r1)))"

definition delete_task :: "task_id \<Rightarrow> InMemoryRegistry \<Rightarrow> RegistryError + InMemoryRegistry" where
  "delete_task i r =
     (if bt_get i (rg_tasks r) = None then Inl (ErTaskNotFound i)
      else Inr (forget_records i (r\<lparr>rg_tasks := bt_remove i (rg_tasks r)\<rparr>)))"

definition update_lifecycle ::
    "clock \<Rightarrow> task_id \<Rightarrow> LifecycleStatus \<Rightarrow> InMemoryRegistry \<Rightarrow> RegistryError + InMemoryRegistry" where
  "update_lifecycle clk i status r =
     (case bt_get i (rg_tasks r) of
        None \<Rightarrow> Inl (ErTaskNotFound i)
      | Some t \<Rightarrow>
          (case transition_lifecycle t status TrGeneric of
             Inl e \<Rightarrow> Inl (ErInvalidLifecycleTransition e)
           | Inr t1 \<Rightarrow>
               let t2 = refresh_task_annotations (remove_side_flag SfStale (t1\<lparr>t_last_activity_at := clk 0\<rparr>))
               in Inr (push_event
                    (event_new (clk 1) i EkLifecycleChanged
                       (''lifecycle changed to '' @ debug_lifecycle status))
                    (r\<lparr>rg_tasks := bt_insert i t2 (rg_tasks r)\<rparr>))))"

definition record_event ::
    "time \<Rightarrow> task_id \<Rightarrow> RegistryEventKind \<Rightarrow> string \<Rightarrow> InMemoryRegistry \<Rightarrow> RegistryError + InMemoryRegistry" where
  "record_event now i kind message r =
     (if bt_get i (rg_tasks r) = None then Inl (ErTaskNotFound i)
      else Inr (push_event (event_new now i kind message) r))"

text \<open>The three updates of substrate evidence: apply it, refresh the annotations, log the change.\<close>

definition update_substrate ::
    "time \<Rightarrow> (Task \<Rightarrow> Task) \<Rightarrow> string \<Rightarrow> task_id \<Rightarrow> InMemoryRegistry \<Rightarrow> RegistryError + InMemoryRegistry" where
  "update_substrate now f message i r =
     (case bt_get i (rg_tasks r) of
        None \<Rightarrow> Inl (ErTaskNotFound i)
      | Some t \<Rightarrow>
          Inr (push_event (event_new now i EkSubstrateChanged message)
                 (r\<lparr>rg_tasks := bt_insert i (refresh_task_annotations (f t)) (rg_tasks r)\<rparr>)))"

definition update_git_status ::
    "clock \<Rightarrow> task_id \<Rightarrow> GitStatus \<Rightarrow> InMemoryRegistry \<Rightarrow> RegistryError + InMemoryRegistry" where
  "update_git_status clk i status =
     update_substrate (clk 3) (apply_git_status clk status) ''git evidence changed'' i"

definition update_tmux_status ::
    "clock \<Rightarrow> task_id \<Rightarrow> TmuxStatus option \<Rightarrow> InMemoryRegistry \<Rightarrow> RegistryError + InMemoryRegistry" where
  "update_tmux_status clk i status =
     update_substrate (clk 2) (apply_tmux_status clk status) ''tmux evidence changed'' i"

definition update_task_window_status ::
    "clock \<Rightarrow> task_id \<Rightarrow> TaskWindowStatus option \<Rightarrow> InMemoryRegistry \<Rightarrow> RegistryError + InMemoryRegistry" where
  "update_task_window_status clk i status =
     update_substrate (clk 2) (apply_task_window_status clk status) ''task evidence changed'' i"

definition apply_live_observation ::
    "clock \<Rightarrow> task_id \<Rightarrow> LiveObservation \<Rightarrow> InMemoryRegistry \<Rightarrow> RegistryError + InMemoryRegistry" where
  "apply_live_observation clk i ob r =
     (case bt_get i (rg_tasks r) of
        None \<Rightarrow> Inl (ErTaskNotFound i)
      | Some t \<Rightarrow>
          let t1 = refresh_task_annotations (apply_observation clk ob t);
              r1 = r\<lparr>rg_tasks := bt_insert i t1 (rg_tasks r)\<rparr>
          in Inr (if t_lifecycle_status t1 \<noteq> t_lifecycle_status t
                  then push_event (event_new (clk 2) i EkLifecycleChanged
                         (''lifecycle changed to '' @ debug_lifecycle (t_lifecycle_status t1))) r1
                  else r1))"

definition list_events :: "InMemoryRegistry \<Rightarrow> RegistryEvent list" where
  "list_events r = rg_events r"

definition events_for_task :: "task_id \<Rightarrow> InMemoryRegistry \<Rightarrow> RegistryEvent list" where
  "events_for_task i r = filter (\<lambda>e. re_task_id e = i) (rg_events r)"

definition record_step_receipt :: "StepReceipt \<Rightarrow> InMemoryRegistry \<Rightarrow> RegistryError + InMemoryRegistry" where
  "record_step_receipt receipt r =
     (if bt_get (sp_task_id receipt) (rg_tasks r) = None then Inl (ErTaskNotFound (sp_task_id receipt))
      else Inr (r\<lparr>rg_step_receipts := bt_insert (receipt_identity receipt) receipt (rg_step_receipts r)\<rparr>))"

definition receipt_sort_key :: "StepReceipt \<Rightarrow> time \<times> TaskOperationKind \<times> string \<times> string" where
  "receipt_sort_key p = (sp_created_at p, sp_operation p, sp_step_key p, sp_target p)"

definition step_receipts_for_task :: "task_id \<Rightarrow> InMemoryRegistry \<Rightarrow> StepReceipt list" where
  "step_receipts_for_task i r =
     sort_key receipt_sort_key (filter (\<lambda>p. sp_task_id p = i) (bt_values (rg_step_receipts r)))"

section \<open>A monitor event, written against the trait\<close>

text \<open>The trait's operations that the event handler calls are its arguments. The second and the third
  look-up of the code fail only if the task disappeared in between.\<close>

definition observe_in_registry ::
    "(task_id \<Rightarrow> 'r \<Rightarrow> Task option) \<Rightarrow> (task_id \<Rightarrow> (Task \<Rightarrow> Task) \<Rightarrow> 'r \<Rightarrow> 'r) \<Rightarrow>
     (time \<Rightarrow> task_id \<Rightarrow> RegistryEventKind \<Rightarrow> string \<Rightarrow> 'r \<Rightarrow> RegistryError + 'r) \<Rightarrow>
     clock \<Rightarrow> time \<Rightarrow> task_id \<Rightarrow> LiveObservation \<Rightarrow> Task \<Rightarrow> 'r \<Rightarrow> RegistryError + 'r \<times> bool" where
  "observe_in_registry get modify rec_event oclk now i ob before r =
     (let r2 = modify i (\<lambda>t. refresh_task_annotations (apply_trusted_observation oclk ob t)) r
      in (case get i r2 of
            None \<Rightarrow> Inl (ErTaskNotFound i)
          | Some after \<Rightarrow>
              if t_lifecycle_status after \<noteq> t_lifecycle_status before
              then (case rec_event now i EkLifecycleChanged
                           (''lifecycle changed to '' @ debug_lifecycle (t_lifecycle_status after)) r2 of
                      Inl e \<Rightarrow> Inl e
                    | Inr r3 \<Rightarrow> Inr (r3, True))
              else Inr (r2, True)))"

definition apply_monitor_event_to_registry ::
    "(task_id \<Rightarrow> 'r \<Rightarrow> Task option) \<Rightarrow> (task_id \<Rightarrow> (Task \<Rightarrow> Task) \<Rightarrow> 'r \<Rightarrow> 'r) \<Rightarrow>
     (clock \<Rightarrow> task_id \<Rightarrow> GitStatus \<Rightarrow> 'r \<Rightarrow> RegistryError + 'r) \<Rightarrow>
     (time \<Rightarrow> task_id \<Rightarrow> RegistryEventKind \<Rightarrow> string \<Rightarrow> 'r \<Rightarrow> RegistryError + 'r) \<Rightarrow>
     clock \<Rightarrow> clock \<Rightarrow> time \<Rightarrow> task_id \<Rightarrow> MonitorEvent \<Rightarrow> 'r \<Rightarrow> RegistryError + 'r \<times> bool" where
  "apply_monitor_event_to_registry get modify upd_git rec_event gclk oclk now i event r =
     (case (case event of
              MeRepo (ReGitSnapshot _ status _) \<Rightarrow>
                (case upd_git gclk i status r of Inl e \<Rightarrow> Inl e | Inr r1 \<Rightarrow> Inr (r1, True))
            | _ \<Rightarrow> Inr (r, False)) of
        Inl e \<Rightarrow> Inl e
      | Inr (r1, changed) \<Rightarrow>
          (case get i r1 of
             None \<Rightarrow> Inl (ErTaskNotFound i)
           | Some before \<Rightarrow>
               (case live_observation_from_event event of
                  None \<Rightarrow> Inr (r1, changed)
                | Some ob \<Rightarrow> observe_in_registry get modify rec_event oclk now i ob before r1)))"

section \<open>Lemmas: annotations do not influence what they are computed from\<close>

lemma skip_ann [simp]: "skip_interactive_agent (t\<lparr>t_annotations := a\<rparr>) = skip_interactive_agent t"
  by (simp add: skip_interactive_agent_def)

lemma flag_ann [simp]:
  "has_side_flag f (t\<lparr>t_annotations := a\<rparr>) = has_side_flag f t"
  "side_flags (t\<lparr>t_annotations := a\<rparr>) = side_flags t"
  by (simp_all add: has_side_flag_def side_flags_def)

lemma ann_fields:
  "t_side_flags (t\<lparr>t_annotations := a\<rparr>) = t_side_flags t"
  "t_agent_status (t\<lparr>t_annotations := a\<rparr>) = t_agent_status t"
  "t_runtime_projection (t\<lparr>t_annotations := a\<rparr>) = t_runtime_projection t"
  "t_git_status (t\<lparr>t_annotations := a\<rparr>) = t_git_status t"
  "t_live_status (t\<lparr>t_annotations := a\<rparr>) = t_live_status t"
  "t_live_status_observed_at (t\<lparr>t_annotations := a\<rparr>) = t_live_status_observed_at t"
  "t_attention_acknowledged_at (t\<lparr>t_annotations := a\<rparr>) = t_attention_acknowledged_at t"
  "t_last_activity_at (t\<lparr>t_annotations := a\<rparr>) = t_last_activity_at t"
  "t_tmux_status (t\<lparr>t_annotations := a\<rparr>) = t_tmux_status t"
  "t_task_window_status (t\<lparr>t_annotations := a\<rparr>) = t_task_window_status t"
  "t_branch (t\<lparr>t_annotations := a\<rparr>) = t_branch t"
  "t_metadata (t\<lparr>t_annotations := a\<rparr>) = t_metadata t"
  "t_lifecycle_status (t\<lparr>t_annotations := a\<rparr>) = t_lifecycle_status t"
  by simp_all

lemma substrate_ann [simp]:
  "has_missing_substrate (t\<lparr>t_annotations := a\<rparr>) = has_missing_substrate t"
  "has_checkout_mismatch (t\<lparr>t_annotations := a\<rparr>) = has_checkout_mismatch t"
  unfolding has_missing_substrate_def has_missing_git_substrate_def has_missing_worktree_def
    has_missing_branch_def has_missing_non_branch_substrate_def runtime_health_missing_substrate_def
    live_reports_unrefuted_missing_substrate_def live_reports_unrefuted_worktree_missing_def
    durable_tmux_present_def durable_task_window_present_def durable_worktree_present_def
    has_checkout_mismatch_def skip_ann flag_ann ann_fields
  by (rule refl)+

lemma derive_ann [simp]: "derive_operator_status (t\<lparr>t_annotations := a\<rparr>) = derive_operator_status t"
proof -
  let ?u = "t\<lparr>t_annotations := a\<rparr>"
  have parts: "substrate_status ?u = substrate_status t" "error_status ?u = error_status t"
    "running_status ?u = running_status t" "live_waiting_status ?u = live_waiting_status t"
    by (rule substrate_status_cong error_status_cong running_status_cong live_waiting_status_cong; simp)+
  have ack: "live_evidence_is_acknowledged ?u = live_evidence_is_acknowledged t"
    unfolding live_evidence_is_acknowledged_def ann_fields ..
  have settled: "settled_status ?u = settled_status t"
    unfolding settled_status_def ack workflow_boundary_is_acknowledged_def has_no_status_evidence_def
      agent_process_is_alive_def skip_ann flag_ann ann_fields ..
  have lc: "t_lifecycle_status ?u = t_lifecycle_status t" by simp
  show ?thesis unfolding status_split parts ack settled lc ..
qed

lemma annotate_ann [simp]: "annotate (t\<lparr>t_annotations := a\<rparr>) = annotate t"
  by (simp add: annotate_def collect_annotations_def push_observation_error_def push_waiting_agent_def
      push_live_status_def push_runtime_health_def push_checkout_mismatch_def push_error_fallback_def)

definition annotated :: "Task \<Rightarrow> bool" where
  "annotated t \<longleftrightarrow> t_annotations t = annotate t"

lemma refresh_annotated [simp]: "annotated (refresh_task_annotations t)"
  by (simp add: annotated_def refresh_task_annotations_def)

lemma refresh_id [simp]: "t_id (refresh_task_annotations t) = t_id t"
  by (simp add: refresh_task_annotations_def)

lemma refresh_ann: "refresh_task_annotations (t\<lparr>t_annotations := a\<rparr>) = refresh_task_annotations t"
  by (simp add: refresh_task_annotations_def)

lemma annotated_refresh: "annotated t \<Longrightarrow> refresh_task_annotations t = t"
  by (simp add: annotated_def refresh_task_annotations_def)

lemma flag_commute:
  "add_side_flag f (t\<lparr>t_annotations := a\<rparr>) = (add_side_flag f t)\<lparr>t_annotations := a\<rparr>"
  "remove_side_flag f (t\<lparr>t_annotations := a\<rparr>) = (remove_side_flag f t)\<lparr>t_annotations := a\<rparr>"
  by (simp_all add: add_side_flag_def remove_side_flag_def)

lemma sync_commute:
  "sync_open_attempts at (t\<lparr>t_annotations := a\<rparr>) = (sync_open_attempts at t)\<lparr>t_annotations := a\<rparr>"
  by (simp add: sync_open_attempts_def close_open_attempts_def
      reopen_last_launch_attempt_if_closed_before_start_def Let_def split: AgentRuntimeStatus.split)

lemma mark_commute:
  "mark_resource_missing now f (t\<lparr>t_annotations := a\<rparr>) = (mark_resource_missing now f t)\<lparr>t_annotations := a\<rparr>"
proof -
  have dead: "(u\<lparr>t_annotations := a\<rparr>)\<lparr>t_agent_status := ArDead\<rparr> = (u\<lparr>t_agent_status := ArDead\<rparr>)\<lparr>t_annotations := a\<rparr>" for u
    by simp
  show ?thesis
    unfolding mark_resource_missing_def Let_def flag_commute dead sync_commute by simp
qed

lemma kind_effect_commute:
  "kind_effect now m k s (t\<lparr>t_annotations := a\<rparr>) = (kind_effect now m k s t)\<lparr>t_annotations := a\<rparr>"
  by (cases k) (simp_all add: effect_defs mark_commute add_side_flag_def remove_side_flag_def)

lemma clear_recovered_commute:
  "clear_recovered_live_flags k (t\<lparr>t_annotations := a\<rparr>) = (clear_recovered_live_flags k t)\<lparr>t_annotations := a\<rparr>"
  by (simp add: clear_recovered_live_flags_def flag_commute)

lemma apply_reduced_commute:
  "apply_reduced_observation now ob at (t\<lparr>t_annotations := a\<rparr>) =
     (apply_reduced_observation now ob at t)\<lparr>t_annotations := a\<rparr>"
proof -
  have m: "has_missing_substrate_flag (t\<lparr>t_annotations := a\<rparr>) = has_missing_substrate_flag t"
    by (simp add: has_missing_substrate_flag_def)
  have u: "(u\<lparr>t_annotations := a\<rparr>)\<lparr>t_live_status := l, t_live_status_observed_at := x\<rparr> =
      (u\<lparr>t_live_status := l, t_live_status_observed_at := x\<rparr>)\<lparr>t_annotations := a\<rparr>" for u l x
    by simp
  have v: "(u\<lparr>t_annotations := a\<rparr>)\<lparr>t_last_activity_at := now\<rparr> =
      (u\<lparr>t_last_activity_at := now\<rparr>)\<lparr>t_annotations := a\<rparr>" for u
    by simp
  show ?thesis
    unfolding apply_reduced_observation_def Let_def m clear_recovered_commute kind_effect_commute u v
      flag_commute if_distrib [of "\<lambda>u. u\<lparr>t_annotations := a\<rparr>", symmetric] sync_commute ..
qed

lemma try_transition_commute:
  "try_transition (transition_lifecycle (t\<lparr>t_annotations := a\<rparr>) s r) (t\<lparr>t_annotations := a\<rparr>) =
     (try_transition (transition_lifecycle t s r) t)\<lparr>t_annotations := a\<rparr>"
  by (simp add: try_transition_def transition_lifecycle_def split: sum.split)

lemma trusted_commute:
  "apply_trusted_observation clk ob (t\<lparr>t_annotations := a\<rparr>) =
     (apply_trusted_observation clk ob t)\<lparr>t_annotations := a\<rparr>"
  by (simp add: apply_trusted_observation_def apply_trusted_observation_at_def Let_def
      apply_reduced_commute try_transition_commute)

lemma trusted_id: "t_id (apply_trusted_observation clk ob t) = t_id t"
  by (simp add: apply_trusted_observation_def apply_trusted_observation_at_def Let_def split: option.split)

lemma trusted_refreshed:
  "refresh_task_annotations (apply_trusted_observation clk ob (refresh_task_annotations t)) =
     refresh_task_annotations (apply_trusted_observation clk ob t)"
proof -
  have "apply_trusted_observation clk ob (refresh_task_annotations t) =
      (apply_trusted_observation clk ob t)\<lparr>t_annotations := annotate t\<rparr>"
    unfolding refresh_task_annotations_def by (rule trusted_commute)
  then show ?thesis by (simp add: refresh_ann)
qed

section \<open>The trait as an interface\<close>

definition event_result :: "clock \<Rightarrow> clock \<Rightarrow> MonitorEvent \<Rightarrow> Task \<Rightarrow> Task" where
  "event_result gclk oclk e t = refresh_task_annotations (fst (apply_monitor_event_to_task gclk oclk e t))"

text \<open>What the event handler relies on: a look-up sees exactly the updates of its own task, and every
  operation keeps the registry valid as long as an update keeps the identity and the annotations of the
  task up to date.\<close>

locale registry_trait =
  fixes get :: "task_id \<Rightarrow> 'r \<Rightarrow> Task option"
    and modify :: "task_id \<Rightarrow> (Task \<Rightarrow> Task) \<Rightarrow> 'r \<Rightarrow> 'r"
    and upd_git :: "clock \<Rightarrow> task_id \<Rightarrow> GitStatus \<Rightarrow> 'r \<Rightarrow> RegistryError + 'r"
    and rec_event :: "time \<Rightarrow> task_id \<Rightarrow> RegistryEventKind \<Rightarrow> string \<Rightarrow> 'r \<Rightarrow> RegistryError + 'r"
    and valid :: "'r \<Rightarrow> bool"
  assumes get_modify: "valid r \<Longrightarrow>
      get j (modify i f r) = (if j = i then map_option f (get i r) else get j r)"
    and valid_modify: "valid r \<Longrightarrow> get i r = Some t \<Longrightarrow> t_id (f t) = t_id t \<Longrightarrow> annotated (f t) \<Longrightarrow>
      valid (modify i f r)"
    and valid_get: "valid r \<Longrightarrow> get i r = Some t \<Longrightarrow> annotated t"
    and git_missing: "valid r \<Longrightarrow> get i r = None \<Longrightarrow> upd_git clk i g r = Inl (ErTaskNotFound i)"
    and git_found: "valid r \<Longrightarrow> get i r = Some t \<Longrightarrow>
      \<exists>s. upd_git clk i g r = Inr s \<and> valid s
        \<and> (\<forall>j. get j s = (if j = i then Some (refresh_task_annotations (apply_git_status clk g t))
                           else get j r))"
    and event_found: "valid r \<Longrightarrow> get i r = Some t \<Longrightarrow>
      \<exists>s. rec_event now i k m r = Inr s \<and> valid s \<and> (\<forall>j. get j s = get j r)"
begin

lemma event_missing:
  assumes "valid r" and "get i r = None"
  shows "apply_monitor_event_to_registry get modify upd_git rec_event gclk oclk now i e r = Inl (ErTaskNotFound i)"
  using assms git_missing [OF assms]
  by (simp add: apply_monitor_event_to_registry_def split: MonitorEvent.split RepoEvent.split)

text \<open>The second half of the handler, on a registry that holds the task.\<close>

lemma observe_found:
  assumes v: "valid r" and g: "get i r = Some t"
  shows "\<exists>s. observe_in_registry get modify rec_event oclk now i ob t r = Inr (s, True)
    \<and> valid s \<and> (\<forall>j. get j s = (if j = i then Some (refresh_task_annotations (apply_trusted_observation oclk ob t))
                                else get j r))"
proof -
  let ?f = "\<lambda>t. refresh_task_annotations (apply_trusted_observation oclk ob t)"
  let ?r2 = "modify i ?f r"
  have v2: "valid ?r2" by (rule valid_modify [OF v g]) (simp_all add: trusted_id)
  have get2: "get j ?r2 = (if j = i then Some (?f t) else get j r)" for j
    using get_modify [OF v] g by simp
  have g2: "get i ?r2 = Some (?f t)" using get2 by simp
  obtain s where s: "rec_event now i EkLifecycleChanged
      (''lifecycle changed to '' @ debug_lifecycle (t_lifecycle_status (?f t))) ?r2 = Inr s"
    "valid s" "\<forall>j. get j s = get j ?r2"
    using event_found [OF v2 g2] by blast
  show ?thesis
  proof (cases "t_lifecycle_status (?f t) = t_lifecycle_status t")
    case True
    then show ?thesis using v2 g2 get2 by (intro exI [of _ ?r2]) (simp add: observe_in_registry_def Let_def)
  next
    case False
    then show ?thesis using s g2 get2 by (intro exI [of _ s]) (simp add: observe_in_registry_def Let_def)
  qed
qed

lemma event_found_result:
  assumes v: "valid r" and g: "get i r = Some t"
  shows "\<exists>s. apply_monitor_event_to_registry get modify upd_git rec_event gclk oclk now i e r =
        Inr (s, snd (apply_monitor_event_to_task gclk oclk e t))
    \<and> valid s \<and> (\<forall>j. get j s = (if j = i then Some (event_result gclk oclk e t) else get j r))"
proof (cases "\<exists>p status d. e = MeRepo (ReGitSnapshot p status d)")
  case True
  then obtain p status d where e: "e = MeRepo (ReGitSnapshot p status d)" by blast
  obtain s where s: "upd_git gclk i status r = Inr s" "valid s"
    "\<forall>j. get j s = (if j = i then Some (refresh_task_annotations (apply_git_status gclk status t)) else get j r)"
    using git_found [OF v g] by blast
  then have gs: "get i s = Some (refresh_task_annotations (apply_git_status gclk status t))" by simp
  show ?thesis
  proof (cases "live_observation_from_event e")
    case None
    then have "\<not> gs_conflicted status" by (simp add: e split: if_splits)
    then show ?thesis using s gs
      by (intro exI [of _ s])
        (simp add: apply_monitor_event_to_registry_def apply_monitor_event_to_task_def event_result_def e)
  next
    case (Some ob)
    obtain u where u: "observe_in_registry get modify rec_event oclk now i ob
        (refresh_task_annotations (apply_git_status gclk status t)) s = Inr (u, True)" "valid u"
      "\<forall>j. get j u = (if j = i then Some (refresh_task_annotations (apply_trusted_observation oclk ob
          (refresh_task_annotations (apply_git_status gclk status t)))) else get j s)"
      using observe_found [OF s(2) gs] by blast
    have "gs_conflicted status" and ob: "ob = live_observation LkMergeConflict ''git conflict needs attention''"
      using Some by (simp_all add: e split: if_splits)
    then show ?thesis using s u gs
      by (intro exI [of _ u])
        (simp add: apply_monitor_event_to_registry_def apply_monitor_event_to_task_def event_result_def e
          trusted_refreshed)
  qed
next
  case False
  then have first: "(case e of
        MeRepo (ReGitSnapshot _ status _) \<Rightarrow>
          (case upd_git gclk i status r of Inl e \<Rightarrow> Inl e | Inr r1 \<Rightarrow> Inr (r1, True))
      | _ \<Rightarrow> Inr (r, False)) = (Inr (r, False) :: RegistryError + 'r \<times> bool)"
    and task: "(case e of
        MeRepo (ReGitSnapshot _ status _) \<Rightarrow> (apply_git_status gclk status t, True)
      | _ \<Rightarrow> (t, False)) = (t, False)"
    by (auto split: MonitorEvent.split RepoEvent.split)
  show ?thesis
  proof (cases "live_observation_from_event e")
    case None
    have "refresh_task_annotations t = t" using valid_get [OF v g] by (rule annotated_refresh)
    then show ?thesis using None v g
      by (simp add: apply_monitor_event_to_registry_def apply_monitor_event_to_task_def event_result_def
          first task)
  next
    case (Some ob)
    obtain u where "observe_in_registry get modify rec_event oclk now i ob t r = Inr (u, True)" "valid u"
      "\<forall>j. get j u = (if j = i then Some (refresh_task_annotations (apply_trusted_observation oclk ob t))
                       else get j r)"
      using observe_found [OF v g] by blast
    then show ?thesis using Some v g
      by (intro exI [of _ u])
        (simp add: apply_monitor_event_to_registry_def apply_monitor_event_to_task_def event_result_def
          first task)
  qed
qed

end

section \<open>The in-memory registry provides the interface\<close>

definition has_task :: "task_id \<Rightarrow> InMemoryRegistry \<Rightarrow> bool" where
  "has_task i r \<longleftrightarrow> bt_get i (rg_tasks r) \<noteq> None"

definition registry_ok :: "InMemoryRegistry \<Rightarrow> bool" where
  "registry_ok r \<longleftrightarrow>
     bt_inv (rg_tasks r) \<and> bt_inv (rg_step_receipts r)
     \<and> (\<forall>i t. get_task i r = Some t \<longrightarrow> t_id t = i \<and> annotated t)
     \<and> (\<forall>e \<in> set (rg_events r). has_task (re_task_id e) r)
     \<and> (\<forall>k p. bt_get k (rg_step_receipts r) = Some p \<longrightarrow> k = receipt_identity p \<and> has_task (sp_task_id p) r)"

lemma registry_okD:
  assumes "registry_ok r"
  shows "bt_inv (rg_tasks r)" "bt_inv (rg_step_receipts r)"
    "get_task i r = Some t \<Longrightarrow> t_id t = i" "get_task i r = Some t \<Longrightarrow> annotated t"
    "e \<in> set (rg_events r) \<Longrightarrow> has_task (re_task_id e) r"
    "bt_get k (rg_step_receipts r) = Some p \<Longrightarrow> k = receipt_identity p"
    "bt_get k (rg_step_receipts r) = Some p \<Longrightarrow> has_task (sp_task_id p) r"
  using assms unfolding registry_ok_def by blast+

lemma registry_ok_default: "registry_ok registry_default"
  by (simp add: registry_ok_def registry_default_def get_task_def)

text \<open>Storing a task under its own identity, and logging an event of a stored task.\<close>

definition put_task :: "Task \<Rightarrow> InMemoryRegistry \<Rightarrow> InMemoryRegistry" where
  "put_task t r = r\<lparr>rg_tasks := bt_insert (t_id t) t (rg_tasks r)\<rparr>"

lemma get_put_task:
  "bt_inv (rg_tasks r) \<Longrightarrow> get_task j (put_task t r) = (if j = t_id t then Some t else get_task j r)"
  by (simp add: get_task_def put_task_def bt_get_insert)

lemma has_put_task: "bt_inv (rg_tasks r) \<Longrightarrow> has_task j (put_task t r) \<longleftrightarrow> j = t_id t \<or> has_task j r"
  by (simp add: has_task_def put_task_def bt_get_insert)

lemma ok_put_task:
  assumes ok: "registry_ok r" and a: "annotated t"
  shows "registry_ok (put_task t r)"
proof -
  note d = registry_okD [OF ok]
  have frame: "rg_events (put_task t r) = rg_events r" "rg_step_receipts (put_task t r) = rg_step_receipts r"
    by (simp_all add: put_task_def)
  show ?thesis
    unfolding registry_ok_def frame get_put_task [OF d(1)] has_put_task [OF d(1)]
    using d a by (auto simp: put_task_def bt_inv_insert)
qed

lemma push_event_simps [simp]:
  "rg_tasks (push_event e r) = rg_tasks r" "rg_step_receipts (push_event e r) = rg_step_receipts r"
  "rg_events (push_event e r) = rg_events r @ [e]" "get_task i (push_event e r) = get_task i r"
  "has_task i (push_event e r) = has_task i r"
  by (simp_all add: push_event_def get_task_def has_task_def)

lemma ok_push_event: "registry_ok r \<Longrightarrow> has_task (re_task_id e) r \<Longrightarrow> registry_ok (push_event e r)"
  by (auto simp: registry_ok_def)

lemma event_new_id [simp]: "re_task_id (event_new now i k m) = i"
  by (simp add: event_new_def)

text \<open>Dropping the events and receipts of a task, after it was stored or removed.\<close>

lemma forget_frame [simp]:
  "rg_tasks (forget_records i r) = rg_tasks r" "get_task j (forget_records i r) = get_task j r"
  "has_task j (forget_records i r) = has_task j r"
  by (simp_all add: forget_records_def get_task_def has_task_def)

lemma ok_forget:
  assumes "bt_inv (rg_tasks r)" and "bt_inv (rg_step_receipts r)"
    and "\<And>j t. get_task j r = Some t \<Longrightarrow> t_id t = j \<and> annotated t"
    and "\<And>e. e \<in> set (rg_events r) \<Longrightarrow> re_task_id e \<noteq> i \<Longrightarrow> has_task (re_task_id e) r"
    and "\<And>k p. bt_get k (rg_step_receipts r) = Some p \<Longrightarrow>
      k = receipt_identity p \<and> (sp_task_id p \<noteq> i \<longrightarrow> has_task (sp_task_id p) r)"
  shows "registry_ok (forget_records i r)"
proof -
  have inv: "bt_inv (bt_retain p (rg_step_receipts r))" for p
    using assms(2) by (rule bt.inv_retain)
  have get: "bt_get k (rg_step_receipts r) = Some p \<and> fst k \<noteq> i"
    if "bt_get k (bt_retain (\<lambda>identity _. fst identity \<noteq> i) (rg_step_receipts r)) = Some p" for k p
    using bt.retain_sound [OF assms(2) that] by simp
  have rec: "k = receipt_identity p \<and> has_task (sp_task_id p) r"
    if "bt_get k (bt_retain (\<lambda>identity _. fst identity \<noteq> i) (rg_step_receipts r)) = Some p" for k p
  proof -
    have "bt_get k (rg_step_receipts r) = Some p" and i: "fst k \<noteq> i" using get [OF that] by simp_all
    from assms(5) [OF this(1)] i show ?thesis by (auto simp: receipt_identity_def)
  qed
  show ?thesis
    unfolding registry_ok_def forget_frame
    using assms(1,3,4) inv rec by (auto simp: forget_records_def)
qed

lemma update_substrate_put:
  "get_task i r = Some t \<Longrightarrow> t_id (f t) = i \<Longrightarrow>
   update_substrate now f m i r =
     Inr (push_event (event_new now i EkSubstrateChanged m) (put_task (refresh_task_annotations (f t)) r))"
  by (simp add: update_substrate_def get_task_def put_task_def)

lemma ok_update_substrate:
  assumes "registry_ok r" and "update_substrate now f m i r = Inr s"
    and "\<And>t. get_task i r = Some t \<Longrightarrow> t_id (f t) = t_id t"
  shows "registry_ok s"
proof -
  obtain t where t: "get_task i r = Some t"
    using assms(2) by (auto simp: update_substrate_def get_task_def split: option.splits)
  have i: "t_id (f t) = i" using assms(3) [OF t] registry_okD(3) [OF assms(1) t] by simp
  have "registry_ok (put_task (refresh_task_annotations (f t)) r)"
    using assms(1) by (simp add: ok_put_task)
  then have "registry_ok (push_event (event_new now i EkSubstrateChanged m)
      (put_task (refresh_task_annotations (f t)) r))"
    using i registry_okD(1) [OF assms(1)] by (intro ok_push_event) (simp_all add: has_put_task)
  then show ?thesis using assms(2) update_substrate_put [of i r t f now m, OF t i] by simp
qed

lemma git_id [simp]: "t_id (apply_git_status clk g t) = t_id t"
proof -
  obtain t0 s where a: "adopt_moved_branch g t = (t0, s)" by (cases "adopt_moved_branch g t")
  then show ?thesis
    using adopt_moved_branch_fields(7) [OF a] by (simp add: apply_git_status_def Let_def)
qed

lemma substrate_id [simp]:
  "t_id (apply_tmux_status clk x t) = t_id t" "t_id (apply_task_window_status clk w t) = t_id t"
  "t_id (apply_observation clk ob t) = t_id t"
  by (simp_all add: apply_tmux_status_def apply_task_window_status_def apply_observation_def
      apply_observation_at_def Let_def)

interpretation registry: registry_trait get_task get_task_mut update_git_status record_event registry_ok
proof unfold_locales
  fix r i t and j :: task_id and f :: "Task \<Rightarrow> Task" and clk g now k m
  assume ok: "registry_ok r"
  note inv = registry_okD(1) [OF ok]
  show "get_task j (get_task_mut i f r) = (if j = i then map_option f (get_task i r) else get_task j r)"
    using inv by (simp add: get_task_def get_task_mut_def bt_get_insert split: option.split)
  show "get_task i r = None \<Longrightarrow> update_git_status clk i g r = Inl (ErTaskNotFound i)"
    by (simp add: update_git_status_def update_substrate_def get_task_def)
  show "get_task i r = Some t \<Longrightarrow> annotated t" using registry_okD(4) [OF ok] .
  assume t: "get_task i r = Some t"
  have i: "t_id t = i" using registry_okD(3) [OF ok t] .
  show "t_id (f t) = t_id t \<Longrightarrow> annotated (f t) \<Longrightarrow> registry_ok (get_task_mut i f r)"
    using ok_put_task [OF ok, of "f t"] t i by (simp add: get_task_mut_def put_task_def get_task_def)
  have g: "update_git_status clk i g r = Inr (push_event (event_new (clk 3) i EkSubstrateChanged
      ''git evidence changed'') (put_task (refresh_task_annotations (apply_git_status clk g t)) r))"
    unfolding update_git_status_def
    using update_substrate_put [of i r t "apply_git_status clk g", OF t] by (simp add: i)
  then show "\<exists>s. update_git_status clk i g r = Inr s \<and> registry_ok s
      \<and> (\<forall>j. get_task j s = (if j = i then Some (refresh_task_annotations (apply_git_status clk g t))
                              else get_task j r))"
    using ok_update_substrate [OF ok g [unfolded update_git_status_def]] i inv
    by (simp add: get_put_task)
  show "\<exists>s. record_event now i k m r = Inr s \<and> registry_ok s \<and> (\<forall>j. get_task j s = get_task j r)"
    using t ok ok_push_event [OF ok, of "event_new now i k m"]
    by (simp add: record_event_def get_task_def has_task_def)
qed

section \<open>Every operation keeps the registry valid\<close>

inductive registry_step :: "InMemoryRegistry \<Rightarrow> InMemoryRegistry \<Rightarrow> bool" where
  create: "create_task clk t r = Inr s \<Longrightarrow> registry_step r s"
| delete: "delete_task i r = Inr s \<Longrightarrow> registry_step r s"
| lifecycle: "update_lifecycle clk i status r = Inr s \<Longrightarrow> registry_step r s"
| log: "record_event now i k m r = Inr s \<Longrightarrow> registry_step r s"
| git: "update_git_status clk i g r = Inr s \<Longrightarrow> registry_step r s"
| tmux: "update_tmux_status clk i x r = Inr s \<Longrightarrow> registry_step r s"
| window: "update_task_window_status clk i w r = Inr s \<Longrightarrow> registry_step r s"
| live: "apply_live_observation clk i ob r = Inr s \<Longrightarrow> registry_step r s"
| receipt: "record_step_receipt p r = Inr s \<Longrightarrow> registry_step r s"
| monitor: "apply_monitor_event_to_registry get_task get_task_mut update_git_status record_event
      gclk oclk now i e r = Inr (s, changed) \<Longrightarrow> registry_step r s"

lemma create_task_Inr:
  assumes "create_task clk t r = Inr s"
  shows "s = push_event (event_new (clk 1) (t_id t) EkTaskCreated ''task created'')
      (forget_records (t_id t)
        (put_task (refresh_task_annotations (refresh_runtime_projection (clk 0) t)) r))"
  using assms by (simp add: create_task_def put_task_def Let_def split: if_splits)

lemma put_task_frame [simp]:
  "rg_events (put_task t r) = rg_events r" "rg_step_receipts (put_task t r) = rg_step_receipts r"
  by (simp_all add: put_task_def)

lemma ok_create: "registry_ok r \<Longrightarrow> create_task clk t r = Inr s \<Longrightarrow> registry_ok s"
proof -
  let ?t = "refresh_task_annotations (refresh_runtime_projection (clk 0) t)"
  assume ok: "registry_ok r" and s: "create_task clk t r = Inr s"
  have p: "registry_ok (put_task ?t r)" using ok by (simp add: ok_put_task)
  note d = registry_okD [OF p]
  have "registry_ok (forget_records (t_id t) (put_task ?t r))"
    using d by (intro ok_forget) blast+
  then show "registry_ok s"
    unfolding create_task_Inr [OF s] using registry_okD(1) [OF ok]
    by (intro ok_push_event) (simp_all add: has_put_task)
qed

lemma ok_delete:
  assumes ok: "registry_ok r" and s: "delete_task i r = Inr s"
  shows "registry_ok s"
proof -
  let ?m = "r\<lparr>rg_tasks := bt_remove i (rg_tasks r)\<rparr>"
  note d = registry_okD [OF ok]
  have get: "get_task j ?m = (if j = i then None else get_task j r)" for j
    using bt.get_del [OF d(1)] by (simp add: get_task_def)
  have has: "has_task j ?m \<longleftrightarrow> j \<noteq> i \<and> has_task j r" for j
    using bt.get_del [OF d(1)] by (simp add: has_task_def)
  have "registry_ok (forget_records i ?m)"
  proof (rule ok_forget)
    show "bt_inv (rg_tasks ?m)" using bt.inv_del [OF d(1)] by simp
    show "bt_inv (rg_step_receipts ?m)" using d(2) by simp
    show "get_task j ?m = Some t \<Longrightarrow> t_id t = j \<and> annotated t" for j t
      using d(3,4) unfolding get by (auto split: if_splits)
    show "e \<in> set (rg_events ?m) \<Longrightarrow> re_task_id e \<noteq> i \<Longrightarrow> has_task (re_task_id e) ?m" for e
      using d(5) unfolding has by simp
    show "bt_get k (rg_step_receipts ?m) = Some p \<Longrightarrow>
        k = receipt_identity p \<and> (sp_task_id p \<noteq> i \<longrightarrow> has_task (sp_task_id p) ?m)" for k p
      using d(6,7) unfolding has by simp
  qed
  then show ?thesis using s by (simp add: delete_task_def split: if_splits)
qed

lemma ok_lifecycle:
  assumes ok: "registry_ok r" and s: "update_lifecycle clk i status r = Inr s"
  shows "registry_ok s"
proof -
  obtain t u where t: "get_task i r = Some t" and u: "transition_lifecycle t status TrGeneric = Inr u"
    using s by (auto simp: update_lifecycle_def get_task_def split: option.splits sum.splits)
  let ?u = "refresh_task_annotations (remove_side_flag SfStale (u\<lparr>t_last_activity_at := clk 0\<rparr>))"
  have "t_id u = i"
    using transition_lifecycle_Inr [OF u] registry_okD(3) [OF ok t] by simp
  then have i: "t_id ?u = i" by simp
  have "s = push_event (event_new (clk 1) i EkLifecycleChanged
      (''lifecycle changed to '' @ debug_lifecycle status)) (put_task ?u r)"
    using s t u i by (simp add: update_lifecycle_def get_task_def put_task_def Let_def)
  then show ?thesis
    using ok_put_task [OF ok, of ?u] registry_okD(1) [OF ok] i
    by (simp add: ok_push_event has_put_task)
qed

lemma ok_live:
  assumes ok: "registry_ok r" and s: "apply_live_observation clk i ob r = Inr s"
  shows "registry_ok s"
proof -
  obtain t where t: "get_task i r = Some t"
    using s by (auto simp: apply_live_observation_def get_task_def split: option.splits)
  let ?u = "refresh_task_annotations (apply_observation clk ob t)"
  have i: "t_id ?u = i" using registry_okD(3) [OF ok t] by simp
  have p: "registry_ok (put_task ?u r)" using ok by (simp add: ok_put_task)
  have "s = put_task ?u r \<or> (\<exists>now m. s = push_event (event_new now i EkLifecycleChanged m) (put_task ?u r))"
    using s t i by (auto simp: apply_live_observation_def get_task_def put_task_def Let_def split: if_splits)
  then show ?thesis
    using p registry_okD(1) [OF ok] i by (auto simp: has_put_task intro!: ok_push_event)
qed

lemma ok_receipt:
  assumes ok: "registry_ok r" and s: "record_step_receipt p r = Inr s"
  shows "registry_ok s"
proof -
  note d = registry_okD [OF ok]
  have h: "has_task (sp_task_id p) r"
    and eq: "s = r\<lparr>rg_step_receipts := bt_insert (receipt_identity p) p (rg_step_receipts r)\<rparr>"
    using s by (auto simp: record_step_receipt_def has_task_def split: if_splits)
  have frame: "rg_tasks s = rg_tasks r" "rg_events s = rg_events r" "get_task j s = get_task j r"
    "has_task j s = has_task j r" for j
    by (simp_all add: eq get_task_def has_task_def)
  have rec: "bt_get k (rg_step_receipts s) = (if k = receipt_identity p then Some p
      else bt_get k (rg_step_receipts r))" for k
    by (simp add: eq bt_get_insert [OF d(2)])
  have "bt_inv (rg_step_receipts s)" using d(2) by (simp add: eq bt_inv_insert)
  then show ?thesis
    unfolding registry_ok_def frame rec using d h by (metis option.inject)
qed

lemma ok_monitor:
  assumes ok: "registry_ok r" and s: "apply_monitor_event_to_registry get_task get_task_mut
      update_git_status record_event gclk oclk now i e r = Inr (s, changed)"
  shows "registry_ok s"
proof (cases "get_task i r")
  case None
  with registry.event_missing [OF ok] s show ?thesis by simp
next
  case (Some t)
  with registry.event_found_result [OF ok Some, of gclk oclk now e] s show ?thesis by auto
qed

interpretation valid_registry: invariant_system registry_step registry_ok
proof unfold_locales
  fix r s
  assume step: "registry_step r s" and ok: "registry_ok r"
  show "registry_ok s"
    using step
  proof cases
    case (log now i k m)
    then show ?thesis using ok ok_push_event [OF ok, of "event_new now i k m"]
      by (auto simp: record_event_def has_task_def split: if_splits)
  next
    case (git clk i g)
    then show ?thesis unfolding update_git_status_def
      by (rule ok_update_substrate [OF ok]) (simp add: registry_okD(3) [OF ok])
  next
    case (tmux clk i x)
    then show ?thesis unfolding update_tmux_status_def
      by (rule ok_update_substrate [OF ok]) (simp add: registry_okD(3) [OF ok])
  next
    case (window clk i w)
    then show ?thesis unfolding update_task_window_status_def
      by (rule ok_update_substrate [OF ok]) (simp add: registry_okD(3) [OF ok])
  qed (fact ok_create [OF ok] ok_delete [OF ok] ok_lifecycle [OF ok] ok_live [OF ok] ok_receipt [OF ok]
      ok_monitor [OF ok])+
qed

section \<open>Lemmas: the records of one task\<close>

lemma events_forget:
  "events_for_task j (forget_records i r) = (if j = i then [] else events_for_task j r)"
  by (auto simp: events_for_task_def forget_records_def filter_empty_conv intro: filter_cong)

lemma receipts_values:
  assumes "registry_ok r"
  shows "p \<in> set (bt_values (rg_step_receipts r)) \<longleftrightarrow> bt_get (receipt_identity p) (rg_step_receipts r) = Some p"
proof
  assume "p \<in> set (bt_values (rg_step_receipts r))"
  then obtain k where "(k, p) \<in> set (rg_step_receipts r)" by (auto simp: bt_values_def)
  then have "bt_get k (rg_step_receipts r) = Some p"
    by (simp add: bt_get_iff [OF registry_okD(2) [OF assms]])
  with registry_okD(6) [OF assms this] show "bt_get (receipt_identity p) (rg_step_receipts r) = Some p"
    by simp
next
  assume "bt_get (receipt_identity p) (rg_step_receipts r) = Some p"
  then have "(receipt_identity p, p) \<in> set (rg_step_receipts r)"
    by (simp add: bt_get_iff [OF registry_okD(2) [OF assms]])
  then show "p \<in> set (bt_values (rg_step_receipts r))" by (force simp: bt_values_def)
qed

lemma receipts_for_task_iff:
  assumes "registry_ok r"
  shows "p \<in> set (step_receipts_for_task i r) \<longleftrightarrow>
    sp_task_id p = i \<and> bt_get (receipt_identity p) (rg_step_receipts r) = Some p"
  using receipts_values [OF assms] by (auto simp: step_receipts_for_task_def)

lemma receipts_distinct:
  assumes "registry_ok r"
  shows "distinct (map receipt_identity (step_receipts_for_task i r))"
proof -
  note inv = registry_okD(2) [OF assms]
  have keys: "map receipt_identity (map snd m) = map fst m" if "\<forall>(k, p) \<in> set m. k = receipt_identity p"
    for m :: "(StepReceiptIdentity, StepReceipt) btree"
    using that by (induction m) auto
  have "\<forall>(k, p) \<in> set (rg_step_receipts r). k = receipt_identity p"
  proof clarify
    fix a b c d p
    assume "((a, b, c, d), p) \<in> set (rg_step_receipts r)"
    then have "bt_get (a, b, c, d) (rg_step_receipts r) = Some p" by (simp add: bt_get_iff [OF inv])
    then show "(a, b, c, d) = receipt_identity p" by (rule registry_okD(6) [OF assms])
  qed
  then have "map receipt_identity (bt_values (rg_step_receipts r)) = map fst (rg_step_receipts r)"
    using keys by (simp add: bt_values_def)
  moreover have "distinct (map fst (rg_step_receipts r))"
    using inv by (simp add: bt_inv_def strict_sorted_iff)
  ultimately have "distinct (map receipt_identity (bt_values (rg_step_receipts r)))" by simp
  then show ?thesis
    unfolding step_receipts_for_task_def by (intro distinct_map_sort_key distinct_map_filter)
qed

section \<open>Properties\<close>


definition sample_registry :: InMemoryRegistry where
  "sample_registry =
     push_event (event_new 0 ''a'' EkTaskCreated ''task created'')
       (put_task (refresh_task_annotations (refresh_runtime_projection 0 sample_task)) registry_default)"

lemma sample_task_id [simp]: "t_id sample_task = ''a''"
  by (simp add: sample_task_def task_new_def)

lemma sample_created: "create_task (\<lambda>_. 0) sample_task registry_default = Inr sample_registry"
  by (simp add: create_task_def registry_default_def sample_registry_def put_task_def forget_records_def
      bt_retain_def Let_def bt_get_def)

lemma sample_stored: "bt_get ''a'' (rg_tasks sample_registry) \<noteq> None"
  by (simp add: sample_registry_def put_task_def registry_default_def push_event_def
      bt_get_def)

lemma sample_delete: "\<exists>s. delete_task ''a'' sample_registry = Inr s"
  unfolding delete_task_def if_not_P [OF sample_stored] by blast

lemma sample_receipt: "sp_task_id p = ''a'' \<Longrightarrow> \<exists>s. record_step_receipt p sample_registry = Inr s"
  unfolding record_step_receipt_def by (simp only: sample_stored if_False simp_thms) blast


text \<open>A monitor event applied through the registry does to the task exactly what the event does to a
  task on its own, refreshes the annotations, reports the same change, and touches no other task; for an
  unknown task it fails and changes nothing.\<close>

theorem registry_event_is_task_event:
  assumes "registry_ok r"
  shows "case get_task i r of
      None \<Rightarrow> apply_monitor_event_to_registry get_task get_task_mut update_git_status record_event
                gclk oclk now i e r = Inl (ErTaskNotFound i)
    | Some t \<Rightarrow>
        \<exists>s. apply_monitor_event_to_registry get_task get_task_mut update_git_status record_event
              gclk oclk now i e r = Inr (s, snd (apply_monitor_event_to_task gclk oclk e t))
          \<and> get_task i s = Some (refresh_task_annotations (fst (apply_monitor_event_to_task gclk oclk e t)))
          \<and> (\<forall>j. j \<noteq> i \<longrightarrow> get_task j s = get_task j r)"
proof (cases "get_task i r")
  case None
  with registry.event_missing [OF assms] show ?thesis by simp
next
  case (Some t)
  with registry.event_found_result [OF assms Some, of gclk oclk now e] show ?thesis
    by (auto simp: event_result_def)
qed

theorem registry_event_is_task_event_witness:
  "\<exists>s. apply_monitor_event_to_registry get_task get_task_mut update_git_status record_event
      (\<lambda>_. 0) (\<lambda>_. 0) 0 ''a'' (MeAgent AeThinking) sample_registry = Inr (s, True)"
proof -
  have ok: "registry_ok sample_registry"
    using ok_create [OF registry_ok_default sample_created] .
  have "get_task ''a'' sample_registry =
      Some (refresh_task_annotations (refresh_runtime_projection 0 sample_task))"
    by (simp add: sample_registry_def registry_default_def get_put_task)
  moreover have "snd (apply_monitor_event_to_task (\<lambda>_. 0) (\<lambda>_. 0) (MeAgent AeThinking) t) = True" for t
    by (simp add: apply_monitor_event_to_task_def)
  ultimately show ?thesis
    using registry_event_is_task_event [OF ok, where i = "''a''" and gclk = "\<lambda>_. 0"
        and oclk = "\<lambda>_. 0" and now = 0 and e = "MeAgent AeThinking"]
    by (simp only: option.case) blast
qed

text \<open>Deleting a task forgets everything about it and nothing about the others: its record, events
  and receipts are gone, every other task and its events stay as they were.\<close>

theorem deleted_task_leaves_nothing:
  assumes "registry_ok r" and "delete_task i r = Inr s"
  shows "get_task i s = None \<and> events_for_task i s = [] \<and> step_receipts_for_task i s = []
    \<and> (\<forall>j. j \<noteq> i \<longrightarrow> get_task j s = get_task j r \<and> events_for_task j s = events_for_task j r)"
proof -
  let ?m = "r\<lparr>rg_tasks := bt_remove i (rg_tasks r)\<rparr>"
  have s: "s = forget_records i ?m" using assms(2) by (simp add: delete_task_def split: if_splits)
  have get: "get_task j s = (if j = i then None else get_task j r)" for j
    using bt.get_del [OF registry_okD(1) [OF assms(1)]] by (simp add: s get_task_def)
  have events: "events_for_task j s = (if j = i then [] else events_for_task j r)" for j
    unfolding s events_forget by (simp add: events_for_task_def)
  have ok: "registry_ok s" using ok_delete [OF assms] .
  have "step_receipts_for_task i s = []"
  proof (rule ccontr)
    assume "step_receipts_for_task i s \<noteq> []"
    then obtain p where "p \<in> set (step_receipts_for_task i s)" by (cases "step_receipts_for_task i s") auto
    then have p: "sp_task_id p = i" "bt_get (receipt_identity p) (rg_step_receipts s) = Some p"
      by (simp_all only: receipts_for_task_iff [OF ok])
    have "has_task i s" using registry_okD(7) [OF ok p(2)] by (simp only: p(1))
    with get [of i] show False by (simp add: has_task_def get_task_def)
  qed
  moreover have "get_task i s = None" "events_for_task i s = []" by (simp_all only: get events if_True simp_thms)
  moreover have "get_task j s = get_task j r \<and> events_for_task j s = events_for_task j r" if "j \<noteq> i" for j
    using that by (simp only: get events if_False simp_thms)
  ultimately show ?thesis by blast
qed

theorem deleted_task_leaves_nothing_witness:
  "\<exists>s. delete_task ''a'' sample_registry = Inr s \<and> get_task ''a'' s = None \<and> events_for_task ''a'' s = []"
proof -
  have ok: "registry_ok sample_registry"
    using ok_create [OF registry_ok_default sample_created] .
  obtain s where s: "delete_task ''a'' sample_registry = Inr s" using sample_delete ..
  note gone = deleted_task_leaves_nothing [OF ok s]
  show ?thesis by (intro exI conjI, rule s, rule conjunct1 [OF gone], rule conjunct1 [OF conjunct2 [OF gone]])
qed

text \<open>A recorded receipt is listed for its task, replaces an earlier receipt of the same identity and
  no other, and the list stays in the order of time, operation, step and target.\<close>

theorem receipt_is_listed_once:
  assumes "registry_ok r" and "record_step_receipt p r = Inr s"
  shows "p \<in> set (step_receipts_for_task (sp_task_id p) s)
    \<and> distinct (map receipt_identity (step_receipts_for_task i s))
    \<and> sorted (map receipt_sort_key (step_receipts_for_task i s))
    \<and> set (step_receipts_for_task i s) - {p} =
        {q \<in> set (step_receipts_for_task i r). receipt_identity q \<noteq> receipt_identity p} - {p}"
proof -
  have ok: "registry_ok s" using ok_receipt [OF assms] .
  have rec: "bt_get k (rg_step_receipts s) = (if k = receipt_identity p then Some p
      else bt_get k (rg_step_receipts r))" for k
    using assms(2) by (auto simp: record_step_receipt_def bt_get_insert [OF registry_okD(2) [OF assms(1)]]
        split: if_splits)
  have "set (step_receipts_for_task i s) - {p} =
      {q \<in> set (step_receipts_for_task i r). receipt_identity q \<noteq> receipt_identity p} - {p}"
    by (auto simp: receipts_for_task_iff [OF ok] receipts_for_task_iff [OF assms(1)] rec split: if_splits)
  moreover have "p \<in> set (step_receipts_for_task (sp_task_id p) s)"
    by (simp add: receipts_for_task_iff [OF ok] rec)
  moreover have "sorted (map receipt_sort_key (step_receipts_for_task i s))"
    by (simp add: step_receipts_for_task_def)
  ultimately show ?thesis using receipts_distinct [OF ok] by blast
qed

theorem receipt_is_listed_once_witness:
  "\<exists>s. record_step_receipt (receipt_new ''a'' TkStart ''k'' ''x'' SrSucceeded ''{}'' 1) sample_registry = Inr s
     \<and> receipt_new ''a'' TkStart ''k'' ''x'' SrSucceeded ''{}'' 1 \<in> set (step_receipts_for_task ''a'' s)"
proof -
  let ?p = "receipt_new ''a'' TkStart ''k'' ''x'' SrSucceeded ''{}'' 1"
  have ok: "registry_ok sample_registry"
    using ok_create [OF registry_ok_default sample_created] .
  have task: "sp_task_id ?p = ''a''" by (simp only: receipt_new_def StepReceipt.simps)
  obtain s where s: "record_step_receipt ?p sample_registry = Inr s" using sample_receipt [OF task] ..
  note listed = receipt_is_listed_once [OF ok s, unfolded task]
  show ?thesis by (intro exI conjI, rule s, rule conjunct1 [OF listed])
qed

end
