(* ===== verification/Execution.thy ===== *)
theory Execution
  imports Ajax_Prelude
begin

text \<open>
  The execution state machine and the policy of recovery: \<open>crates/ajax-core/src/execution.rs\<close>. Labels of
  states and operations are read back by their parsers, as instances of the locale \<open>label_codec\<close>.
\<close>

section \<open>States\<close>

definition CHECKPOINT_SCHEMA_VERSION :: nat where
  "CHECKPOINT_SCHEMA_VERSION = 1"

datatype ExecutionState =
  XsPending | XsRunning | XsWaiting | XsCompleting | XsCompleted | XsFailed | XsCancelled | XsInterrupted

fun state_as_str :: "ExecutionState \<Rightarrow> string" where
  "state_as_str XsPending = ''pending''"
| "state_as_str XsRunning = ''running''"
| "state_as_str XsWaiting = ''waiting''"
| "state_as_str XsCompleting = ''completing''"
| "state_as_str XsCompleted = ''completed''"
| "state_as_str XsFailed = ''failed''"
| "state_as_str XsCancelled = ''cancelled''"
| "state_as_str XsInterrupted = ''interrupted''"

definition state_parse :: "string \<Rightarrow> ExecutionState option" where
  "state_parse value =
     (if value = ''pending'' then Some XsPending
      else if value = ''running'' then Some XsRunning
      else if value = ''waiting'' then Some XsWaiting
      else if value = ''completing'' then Some XsCompleting
      else if value = ''completed'' then Some XsCompleted
      else if value = ''failed'' then Some XsFailed
      else if value = ''cancelled'' then Some XsCancelled
      else if value = ''interrupted'' then Some XsInterrupted
      else None)"

definition is_terminal :: "ExecutionState \<Rightarrow> bool" where
  "is_terminal s \<longleftrightarrow> s \<in> {XsCompleted, XsFailed, XsCancelled}"

datatype InvalidTransition = ItDisallowed ExecutionState ExecutionState

definition transition_allowed :: "ExecutionState \<Rightarrow> ExecutionState \<Rightarrow> bool" where
  "transition_allowed from to =
     (case from of
        XsPending \<Rightarrow> to \<in> {XsRunning, XsCancelled}
      | XsRunning \<Rightarrow> to \<in> {XsWaiting, XsCompleting, XsFailed, XsCancelled, XsInterrupted}
      | XsWaiting \<Rightarrow> to \<in> {XsRunning, XsFailed, XsCancelled, XsInterrupted}
      | XsCompleting \<Rightarrow> to \<in> {XsCompleted, XsFailed, XsInterrupted}
      | XsInterrupted \<Rightarrow> to \<in> {XsPending, XsCancelled, XsFailed}
      | _ \<Rightarrow> False)"

definition transition :: "ExecutionState \<Rightarrow> ExecutionState \<Rightarrow> InvalidTransition + unit" where
  "transition from to = (if transition_allowed from to then Inr () else Inl (ItDisallowed from to))"

definition children_allow_completion :: "ExecutionState list \<Rightarrow> bool" where
  "children_allow_completion children \<longleftrightarrow> \<not> list_ex (\<lambda>s. \<not> is_terminal s) children"

section \<open>Operations and recovery\<close>

datatype ReplayPolicy = RpSafe | RpUnsafe | RpReconcile

fun policy_as_str :: "ReplayPolicy \<Rightarrow> string" where
  "policy_as_str RpSafe = ''safe''"
| "policy_as_str RpUnsafe = ''unsafe''"
| "policy_as_str RpReconcile = ''reconcile''"

definition policy_parse :: "string \<Rightarrow> ReplayPolicy" where
  "policy_parse value =
     (if value = ''safe'' then RpSafe else if value = ''reconcile'' then RpReconcile else RpUnsafe)"

datatype Operation =
    OpSessionStart | OpSessionRestore | OpStateQuery | OpHistoryFetch | OpPromptDispatch
  | OpPermissionAnswer | OpCancel

fun operation_as_str :: "Operation \<Rightarrow> string" where
  "operation_as_str OpSessionStart = ''session_start''"
| "operation_as_str OpSessionRestore = ''session_restore''"
| "operation_as_str OpStateQuery = ''state_query''"
| "operation_as_str OpHistoryFetch = ''history_fetch''"
| "operation_as_str OpPromptDispatch = ''prompt_dispatch''"
| "operation_as_str OpPermissionAnswer = ''permission_answer''"
| "operation_as_str OpCancel = ''cancel''"

definition operation_parse :: "string \<Rightarrow> Operation option" where
  "operation_parse value =
     (if value = ''session_start'' then Some OpSessionStart
      else if value = ''session_restore'' then Some OpSessionRestore
      else if value = ''state_query'' then Some OpStateQuery
      else if value = ''history_fetch'' then Some OpHistoryFetch
      else if value = ''prompt_dispatch'' then Some OpPromptDispatch
      else if value = ''permission_answer'' then Some OpPermissionAnswer
      else if value = ''cancel'' then Some OpCancel
      else None)"

fun default_replay_policy :: "Operation \<Rightarrow> bool \<Rightarrow> ReplayPolicy" where
  "default_replay_policy OpSessionStart _ = RpSafe"
| "default_replay_policy OpSessionRestore _ = RpSafe"
| "default_replay_policy OpStateQuery _ = RpSafe"
| "default_replay_policy OpHistoryFetch _ = RpSafe"
| "default_replay_policy OpPromptDispatch supports_reconciliation =
     (if supports_reconciliation then RpReconcile else RpUnsafe)"
| "default_replay_policy OpPermissionAnswer _ = RpUnsafe"
| "default_replay_policy OpCancel _ = RpUnsafe"

record UnfinishedCheckpoint =
  uc_operation :: "Operation option"
  uc_policy :: ReplayPolicy
  uc_schema_version :: nat
  uc_has_result :: bool

datatype InterruptReason =
  IrUnsupportedSchema | IrUnknownOperation | IrUnsafeAmbiguous | IrReconcileInconclusive

datatype RecoveryAction =
  RaCancel | RaResumeFromResult | RaReplay | RaReconcile | RaAdoptExternal | RaInterrupt InterruptReason

definition resolve_recovery :: "UnfinishedCheckpoint \<Rightarrow> bool \<Rightarrow> RecoveryAction" where
  "resolve_recovery c cancel_requested =
     (if uc_schema_version c > CHECKPOINT_SCHEMA_VERSION then RaInterrupt IrUnsupportedSchema
      else if uc_has_result c then RaResumeFromResult
      else if cancel_requested then RaCancel
      else (case uc_operation c of
              None \<Rightarrow> RaInterrupt IrUnknownOperation
            | Some _ \<Rightarrow>
                (case uc_policy c of
                   RpSafe \<Rightarrow> RaReplay
                 | RpReconcile \<Rightarrow> RaReconcile
                 | RpUnsafe \<Rightarrow> RaInterrupt IrUnsafeAmbiguous)))"

datatype ReconcileOutcome = RoExecuted | RoNotExecuted | RoUnknown

fun resolve_reconciled :: "ReconcileOutcome \<Rightarrow> RecoveryAction" where
  "resolve_reconciled RoExecuted = RaAdoptExternal"
| "resolve_reconciled RoNotExecuted = RaReplay"
| "resolve_reconciled RoUnknown = RaInterrupt IrReconcileInconclusive"

section \<open>Lemmas\<close>

interpretation state_codec: label_codec state_as_str state_parse
proof unfold_locales
  show "state_parse (state_as_str x) = Some x" for x by (cases x) (simp_all add: state_parse_def)
  show "state_parse s = Some x \<Longrightarrow> state_as_str x = s" for s x
    by (auto simp: state_parse_def split: if_splits)
qed

interpretation operation_codec: label_codec operation_as_str operation_parse
proof unfold_locales
  show "operation_parse (operation_as_str x) = Some x" for x
    by (cases x) (simp_all add: operation_parse_def)
  show "operation_parse s = Some x \<Longrightarrow> operation_as_str x = s" for s x
    by (auto simp: operation_parse_def split: if_splits)
qed

lemma policy_parse_label [simp]: "policy_parse (policy_as_str p) = p"
  by (cases p) (simp_all add: policy_parse_def)

lemma terminal_blocks: "is_terminal s \<Longrightarrow> \<not> transition_allowed s u"
  by (auto simp: is_terminal_def transition_allowed_def)

lemma transition_iff [simp]: "transition s u = Inr x \<longleftrightarrow> transition_allowed s u"
  by (cases x) (simp add: transition_def)

lemma children_allow_iff: "children_allow_completion ss \<longleftrightarrow> (\<forall>s \<in> set ss. is_terminal s)"
  by (auto simp: children_allow_completion_def list_ex_iff)

section \<open>Properties\<close>

text \<open>Recovery never repeats an effect it cannot account for: an interrupted operation is replayed only
  when its checkpoint says that replaying is safe, or after the agent was asked and answered that it did not
  execute; an operation with a recorded result is never replayed; and with the default policy neither a
  permission answer nor a cancellation, nor a prompt to an agent that cannot be asked, is replayed at all.\<close>

theorem recovery_never_repeats_effects:
  "(resolve_recovery c cancel = RaReplay \<longleftrightarrow>
      uc_schema_version c \<le> CHECKPOINT_SCHEMA_VERSION \<and> \<not> uc_has_result c \<and> \<not> cancel
      \<and> uc_operation c \<noteq> None \<and> uc_policy c = RpSafe)
   \<and> (resolve_reconciled outcome = RaReplay \<longleftrightarrow> outcome = RoNotExecuted)
   \<and> (resolve_recovery c cancel = RaReconcile \<longleftrightarrow>
      uc_schema_version c \<le> CHECKPOINT_SCHEMA_VERSION \<and> \<not> uc_has_result c \<and> \<not> cancel
      \<and> uc_operation c \<noteq> None \<and> uc_policy c = RpReconcile)
   \<and> resolve_recovery (c\<lparr>uc_operation := Some OpPermissionAnswer, uc_policy := default_replay_policy OpPermissionAnswer b\<rparr>) cancel
       \<notin> {RaReplay, RaReconcile}
   \<and> resolve_recovery (c\<lparr>uc_operation := Some OpCancel, uc_policy := default_replay_policy OpCancel b\<rparr>) cancel
       \<notin> {RaReplay, RaReconcile}
   \<and> resolve_recovery (c\<lparr>uc_operation := Some OpPromptDispatch, uc_policy := default_replay_policy OpPromptDispatch False\<rparr>) cancel
       \<notin> {RaReplay, RaReconcile}"
proof (intro conjI)
  show "resolve_reconciled outcome = RaReplay \<longleftrightarrow> outcome = RoNotExecuted" by (cases outcome) simp_all
qed (auto simp: resolve_recovery_def split: option.split ReplayPolicy.split)

end
