(* ===== verification/Execution_Store.thy ===== *)
theory Execution_Store
  imports Execution
begin

text \<open>
  The durable store of executions: \<open>crates/ajax-core/src/registry/sqlite/execution_store.rs\<close> and
  \<open>execution_recovery.rs\<close>, over the tables of \<open>migrations.rs\<close>. A table is the list of its rows in the
  order of their row numbers; each SQL statement of the code is one operation on the lists, written from
  its text. Columns of type INTEGER are 64 bits wide (\<open>int\<close> with checked addition), states and policies
  are stored as their labels. A transaction works on a copy of the tables, and a failure leaves the
  tables as they were. Opening, migrating and I/O failures are not modelled.
\<close>

section \<open>Tables\<close>

record RunRow =
  ar_run_id :: string
  ar_task_id :: string
  ar_harness :: string
  ar_model :: string
  ar_native_session_id :: "string option"
  ar_capabilities_json :: string
  ar_child_pid :: "int option"
  ar_child_pgid :: "int option"
  ar_owner_boot_id :: "string option"
  ar_schema_version :: int
  ar_next_event_seq :: int
  ar_created_unix_ms :: int
  ar_unreadable_history_rows :: int
  ar_child_started :: "string option"

record TaskRow =
  xt_task_exec_id :: string
  xt_run_id :: string
  xt_parent_id :: "string option"
  xt_kind :: string
  xt_state :: string
  xt_cancel_requested :: bool
  xt_outcome_json :: "string option"

record PromptRow =
  ps_submission_id :: nat
  ps_run_id :: string
  ps_idempotency_key :: string
  ps_task_exec_id :: string
  ps_content_json :: string

record CheckpointRow =
  cp_task_exec_id :: string
  cp_version :: int
  cp_operation :: string
  cp_replay_policy :: string
  cp_external_operation_id :: "string option"
  cp_schema_version :: int
  cp_intent_json :: string
  cp_result_json :: "string option"

record EventRow =
  ev_run_id :: string
  ev_seq :: int
  ev_payload_json :: string

record OwnerRow =
  ow_boot_id :: string
  ow_pid :: int
  ow_heartbeat_unix_ms :: int

text \<open>\<open>db_last_submission\<close> is the counter of the AUTOINCREMENT column.\<close>

record db =
  db_runs :: "RunRow list"
  db_tasks :: "TaskRow list"
  db_prompts :: "PromptRow list"
  db_last_submission :: nat
  db_checkpoints :: "CheckpointRow list"
  db_events :: "EventRow list"
  db_owner :: "OwnerRow option"

definition db_empty :: db where
  "db_empty = \<lparr>db_runs = [], db_tasks = [], db_prompts = [], db_last_submission = 0,
              db_checkpoints = [], db_events = [], db_owner = None\<rparr>"

definition i64_in_range :: "int \<Rightarrow> bool" where
  "i64_in_range i \<longleftrightarrow> - (2 ^ 63) \<le> i \<and> i < 2 ^ 63"

definition checked_add_i64 :: "int \<Rightarrow> int \<Rightarrow> int option" where
  "checked_add_i64 a b = (if i64_in_range (a + b) then Some (a + b) else None)"

text \<open>\<open>i64::try_from\<close> on a u64.\<close>

definition i64_of_u64 :: "nat \<Rightarrow> int option" where
  "i64_of_u64 n = (if n < 2 ^ 63 then Some (int n) else None)"

section \<open>Commits\<close>

record NewRun =
  nr_run_id :: string
  nr_task_id :: string
  nr_harness :: string
  nr_model :: string
  nr_created_unix_ms :: int

record NewExecutionTask =
  nt_task_exec_id :: string
  nt_parent_id :: "string option"
  nt_kind :: string

record NewPrompt =
  np_idempotency_key :: string
  np_task_exec_id :: string
  np_content_json :: string

record PromptContentUpdate =
  pu_idempotency_key :: string
  pu_content_json :: string

record EventRewrite =
  er_seq :: nat
  er_payload :: string

record TaskTransition =
  tt_task_exec_id :: string
  tt_to :: ExecutionState
  tt_outcome_json :: "string option"

record CheckpointIntent =
  ci_task_exec_id :: string
  ci_operation :: Operation
  ci_replay_policy :: ReplayPolicy
  ci_external_operation_id :: "string option"
  ci_intent_json :: string

record CheckpointResult =
  cr_task_exec_id :: string
  cr_result_json :: string

text \<open>An optional field that holds an option is \<open>Option<Option<_>>\<close>: absent, cleared or set.\<close>

record RunUpdate =
  ru_harness :: "string option"
  ru_native_session_id :: "string option option"
  ru_capabilities_json :: "string option"
  ru_model :: "string option"
  ru_child :: "(int \<times> int) option option"
  ru_child_started :: "string option option"
  ru_owner_boot_id :: "string option option"

record ExecutionCommit =
  ec_run_id :: string
  ec_owner_fence :: "string option"
  ec_new_tasks :: "NewExecutionTask list"
  ec_prompts :: "NewPrompt list"
  ec_transitions :: "TaskTransition list"
  ec_cancel_requests :: "string list"
  ec_prompt_content_updates :: "PromptContentUpdate list"
  ec_prompt_content_clears :: "string list"
  ec_checkpoint_intents :: "CheckpointIntent list"
  ec_checkpoint_results :: "CheckpointResult list"
  ec_events :: "string list"
  ec_event_rewrites :: "EventRewrite list"
  ec_run_update :: "RunUpdate option"

definition commit_default :: ExecutionCommit where
  "commit_default =
     \<lparr>ec_run_id = [], ec_owner_fence = None, ec_new_tasks = [], ec_prompts = [], ec_transitions = [],
      ec_cancel_requests = [], ec_prompt_content_updates = [], ec_prompt_content_clears = [],
      ec_checkpoint_intents = [], ec_checkpoint_results = [], ec_events = [], ec_event_rewrites = [],
      ec_run_update = None\<rparr>"

record CommitReceipt =
  rc_event_seqs :: "nat list"
  rc_duplicate_prompts :: "string list"

datatype RegistrySnapshotError =
    SeEncode string
  | SeDecode string
  | SeDatabase string
  | SeIo string
  | SeRevisionConflict nat nat
  | SeIncompatibleSchema int int
  | SeLegacySqlitePayloadSchema
  | SeEmptyRegistryOverwrite

datatype ExecutionCommitError =
    XeFenced
  | XeUnknownRun string
  | XeUnknownTask string
  | XeInvalidTransition string ExecutionState ExecutionState
  | XeChildrenNotTerminal string
  | XeNoOpenCheckpoint string
  | XePromptNotQueued string
  | XeStore RegistrySnapshotError

section \<open>Statements of a commit\<close>

definition update_where :: "('a \<Rightarrow> bool) \<Rightarrow> ('a \<Rightarrow> 'a) \<Rightarrow> 'a list \<Rightarrow> 'a list" where
  "update_where p f = map (\<lambda>x. if p x then f x else x)"

definition parse_state :: "string \<Rightarrow> RegistrySnapshotError + ExecutionState" where
  "parse_state text =
     (case state_parse text of
        Some s \<Rightarrow> Inr s | None \<Rightarrow> Inl (SeDecode (''execution_tasks.state: '' @ text)))"

definition parse_state_x :: "string \<Rightarrow> ExecutionCommitError + ExecutionState" where
  "parse_state_x text = (case parse_state text of Inl e \<Rightarrow> Inl (XeStore e) | Inr s \<Rightarrow> Inr s)"

definition task_state :: "db \<Rightarrow> string \<Rightarrow> string \<Rightarrow> ExecutionCommitError + ExecutionState" where
  "task_state d run_id i =
     (case find (\<lambda>t. xt_task_exec_id t = i \<and> xt_run_id t = run_id) (db_tasks d) of
        None \<Rightarrow> Inl (XeUnknownTask i)
      | Some t \<Rightarrow> parse_state_x (xt_state t))"

fun parse_states :: "string list \<Rightarrow> ExecutionCommitError + ExecutionState list" where
  "parse_states [] = Inr []"
| "parse_states (t # ts) =
     and_then (parse_state_x t) (\<lambda>s. and_then (parse_states ts) (\<lambda>ss. Inr (s # ss)))"

definition children_allow_completion_for :: "db \<Rightarrow> string \<Rightarrow> ExecutionCommitError + bool" where
  "children_allow_completion_for d i =
     and_then (parse_states (map xt_state (filter (\<lambda>t. xt_parent_id t = Some i) (db_tasks d))))
       (\<lambda>ss. Inr (children_allow_completion ss))"

definition delete_events_after :: "string \<Rightarrow> int \<Rightarrow> db \<Rightarrow> db" where
  "delete_events_after run_id keep_through d =
     d\<lparr>db_events := filter (\<lambda>e. \<not> (ev_run_id e = run_id \<and> ev_seq e > keep_through)) (db_events d)\<rparr>"

definition prompt_key_present :: "db \<Rightarrow> string \<Rightarrow> string \<Rightarrow> bool" where
  "prompt_key_present d run_id key =
     list_ex (\<lambda>p. ps_run_id p = run_id \<and> ps_idempotency_key p = key) (db_prompts d)"

text \<open>The loop over the prompts with its set of keys; the result is in the order of the prompts.\<close>

fun duplicates_from :: "db \<Rightarrow> string \<Rightarrow> string set \<Rightarrow> NewPrompt list \<Rightarrow> string list" where
  "duplicates_from d run_id seen [] = []"
| "duplicates_from d run_id seen (p # ps) =
     (let key = np_idempotency_key p in
      if prompt_key_present d run_id key then key # duplicates_from d run_id seen ps
      else if key \<in> seen then key # duplicates_from d run_id seen ps
      else duplicates_from d run_id (insert key seen) ps)"

definition insert_task :: "string \<Rightarrow> NewExecutionTask \<Rightarrow> db \<Rightarrow> ExecutionCommitError + db" where
  "insert_task run_id t d =
     (if list_ex (\<lambda>x. xt_task_exec_id x = nt_task_exec_id t) (db_tasks d)
      then Inl (XeStore (SeDatabase ''UNIQUE constraint failed: execution_tasks.task_exec_id''))
      else Inr (d\<lparr>db_tasks := db_tasks d @
                  [\<lparr>xt_task_exec_id = nt_task_exec_id t, xt_run_id = run_id,
                    xt_parent_id = nt_parent_id t, xt_kind = nt_kind t,
                    xt_state = state_as_str XsPending, xt_cancel_requested = False,
                    xt_outcome_json = None\<rparr>]\<rparr>))"

definition insert_prompt :: "string \<Rightarrow> NewPrompt \<Rightarrow> db \<Rightarrow> ExecutionCommitError + db" where
  "insert_prompt run_id p d =
     and_then (task_state d run_id (np_task_exec_id p)) (\<lambda>_.
       if prompt_key_present d run_id (np_idempotency_key p)
       then Inl (XeStore (SeDatabase
         ''UNIQUE constraint failed: prompt_submissions.run_id, prompt_submissions.idempotency_key''))
       else
         let i = db_last_submission d + 1 in
         Inr (d\<lparr>db_prompts := db_prompts d @
                  [\<lparr>ps_submission_id = i, ps_run_id = run_id,
                    ps_idempotency_key = np_idempotency_key p, ps_task_exec_id = np_task_exec_id p,
                    ps_content_json = np_content_json p\<rparr>],
                db_last_submission := i\<rparr>))"

definition task_checkpoints :: "db \<Rightarrow> string \<Rightarrow> CheckpointRow list" where
  "task_checkpoints d i = filter (\<lambda>c. cp_task_exec_id c = i) (db_checkpoints d)"

text \<open>\<open>COALESCE(MAX(version), 0)\<close>; the maximum of no rows is NULL.\<close>

definition max_version :: "db \<Rightarrow> string \<Rightarrow> int option" where
  "max_version d i =
     (case map cp_version (task_checkpoints d i) of [] \<Rightarrow> None | v # vs \<Rightarrow> Some (fold max vs v))"

definition set_result :: "string \<Rightarrow> CheckpointResult \<Rightarrow> db \<Rightarrow> ExecutionCommitError + db" where
  "set_result run_id res d =
     (let i = cr_task_exec_id res in
      and_then (task_state d run_id i) (\<lambda>_.
        case find (\<lambda>c. max_version d i = Some (cp_version c) \<and> cp_result_json c = None)
               (task_checkpoints d i) of
          None \<Rightarrow> Inl (XeNoOpenCheckpoint i)
        | Some c \<Rightarrow>
            Inr (d\<lparr>db_checkpoints :=
                   update_where (\<lambda>x. cp_task_exec_id x = i \<and> cp_version x = cp_version c)
                     (\<lambda>x. x\<lparr>cp_result_json := Some (cr_result_json res)\<rparr>) (db_checkpoints d)\<rparr>)))"

definition update_prompt :: "string \<Rightarrow> PromptContentUpdate \<Rightarrow> db \<Rightarrow> ExecutionCommitError + db" where
  "update_prompt run_id u d =
     (let key = pu_idempotency_key u;
          here = (\<lambda>p. ps_run_id p = run_id \<and> ps_idempotency_key p = key)
      in case find here (db_prompts d) of
           None \<Rightarrow> Inl (XeUnknownTask key)
         | Some p \<Rightarrow>
             and_then (task_state d run_id (ps_task_exec_id p)) (\<lambda>s.
               if s \<noteq> XsPending then Inl (XePromptNotQueued key)
               else Inr (d\<lparr>db_prompts := update_where here
                             (\<lambda>x. x\<lparr>ps_content_json := pu_content_json u\<rparr>) (db_prompts d)\<rparr>)))"

definition apply_transition :: "string \<Rightarrow> TaskTransition \<Rightarrow> db \<Rightarrow> ExecutionCommitError + db" where
  "apply_transition run_id t d =
     (let i = tt_task_exec_id t; to = tt_to t;
          updated = d\<lparr>db_tasks := update_where (\<lambda>x. xt_task_exec_id x = i)
                        (\<lambda>x. x\<lparr>xt_state := state_as_str to, xt_outcome_json := tt_outcome_json t\<rparr>)
                        (db_tasks d)\<rparr>
      in and_then (task_state d run_id i) (\<lambda>from.
           case transition from to of
             Inl _ \<Rightarrow> Inl (XeInvalidTransition i from to)
           | Inr _ \<Rightarrow>
               if to \<in> {XsCompleting, XsCompleted}
               then and_then (children_allow_completion_for d i) (\<lambda>allowed.
                      if allowed then Inr updated else Inl (XeChildrenNotTerminal i))
               else Inr updated))"

definition request_cancel :: "string \<Rightarrow> string \<Rightarrow> db \<Rightarrow> ExecutionCommitError + db" where
  "request_cancel run_id i d =
     and_then (task_state d run_id i) (\<lambda>_.
       Inr (d\<lparr>db_tasks := update_where (\<lambda>x. xt_task_exec_id x = i)
                (\<lambda>x. x\<lparr>xt_cancel_requested := True\<rparr>) (db_tasks d)\<rparr>))"

definition clear_prompt :: "string \<Rightarrow> string \<Rightarrow> db \<Rightarrow> ExecutionCommitError + db" where
  "clear_prompt run_id key d =
     (if \<not> prompt_key_present d run_id key then Inl (XeUnknownTask key)
      else Inr (d\<lparr>db_prompts := update_where (\<lambda>p. ps_run_id p = run_id \<and> ps_idempotency_key p = key)
                     (\<lambda>p. p\<lparr>ps_content_json := ''{}''\<rparr>) (db_prompts d)\<rparr>))"

definition insert_intent :: "string \<Rightarrow> CheckpointIntent \<Rightarrow> db \<Rightarrow> ExecutionCommitError + db" where
  "insert_intent run_id c d =
     (let i = ci_task_exec_id c in
      and_then (task_state d run_id i) (\<lambda>_.
        case checked_add_i64 (case max_version d i of Some v \<Rightarrow> v | None \<Rightarrow> 0) 1 of
          None \<Rightarrow> Inl (XeStore (SeEncode ''checkpoint version overflow''))
        | Some version \<Rightarrow>
            if list_ex (\<lambda>x. cp_version x = version) (task_checkpoints d i)
            then Inl (XeStore (SeDatabase
              ''UNIQUE constraint failed: execution_checkpoints.task_exec_id, execution_checkpoints.version''))
            else Inr (d\<lparr>db_checkpoints := db_checkpoints d @
                   [\<lparr>cp_task_exec_id = i, cp_version = version,
                     cp_operation = operation_as_str (ci_operation c),
                     cp_replay_policy = policy_as_str (ci_replay_policy c),
                     cp_external_operation_id = ci_external_operation_id c,
                     cp_schema_version = int CHECKPOINT_SCHEMA_VERSION,
                     cp_intent_json = ci_intent_json c, cp_result_json = None\<rparr>]\<rparr>)))"

definition set_if :: "'a option \<Rightarrow> ('a \<Rightarrow> RunRow \<Rightarrow> RunRow) \<Rightarrow> RunRow \<Rightarrow> RunRow" where
  "set_if v f r = (case v of Some x \<Rightarrow> f x r | None \<Rightarrow> r)"

text \<open>The updates of single columns, in the order of the code.\<close>

definition update_run_row :: "RunUpdate \<Rightarrow> RunRow \<Rightarrow> RunRow" where
  "update_run_row u r =
     set_if (ru_owner_boot_id u) (\<lambda>v x. x\<lparr>ar_owner_boot_id := v\<rparr>)
    (set_if (ru_child_started u) (\<lambda>v x. x\<lparr>ar_child_started := v\<rparr>)
    (set_if (ru_child u) (\<lambda>v x. x\<lparr>ar_child_pid := map_option fst v, ar_child_pgid := map_option snd v\<rparr>)
    (set_if (ru_model u) (\<lambda>v x. x\<lparr>ar_model := v\<rparr>)
    (set_if (ru_capabilities_json u) (\<lambda>v x. x\<lparr>ar_capabilities_json := v\<rparr>)
    (set_if (ru_native_session_id u) (\<lambda>v x. x\<lparr>ar_native_session_id := v\<rparr>)
    (set_if (ru_harness u) (\<lambda>v x. x\<lparr>ar_harness := v\<rparr>) r))))))"

definition update_run :: "string \<Rightarrow> RunUpdate option \<Rightarrow> db \<Rightarrow> db" where
  "update_run run_id u d =
     (case u of
        None \<Rightarrow> d
      | Some x \<Rightarrow> d\<lparr>db_runs := update_where (\<lambda>r. ar_run_id r = run_id) (update_run_row x) (db_runs d)\<rparr>)"

text \<open>The loop over the events: the tables, the next sequence number and the numbers used.\<close>

definition insert_event_row :: "string \<Rightarrow> int \<Rightarrow> string \<Rightarrow> db \<Rightarrow> RegistrySnapshotError + db" where
  "insert_event_row run_id n payload d =
     (if list_ex (\<lambda>e. ev_run_id e = run_id \<and> ev_seq e = n) (db_events d)
      then Inl (SeDatabase ''UNIQUE constraint failed: execution_events.run_id, execution_events.seq'')
      else Inr (d\<lparr>db_events := db_events d @
                  [\<lparr>ev_run_id = run_id, ev_seq = n, ev_payload_json = payload\<rparr>]\<rparr>))"

definition insert_event ::
    "string \<Rightarrow> string \<Rightarrow> db \<times> int \<times> nat list \<Rightarrow> ExecutionCommitError + db \<times> int \<times> nat list" where
  "insert_event run_id payload acc =
     (case acc of (d, n, seqs) \<Rightarrow>
        (case checked_add_i64 n 1 of
           None \<Rightarrow> Inl (XeStore (SeEncode ''event sequence overflow''))
         | Some next \<Rightarrow>
             (case insert_event_row run_id n payload d of
                Inl e \<Rightarrow> Inl (XeStore e)
              | Inr d1 \<Rightarrow>
                  if n < 0
                  then Inl (XeStore (SeDecode (''event seq '' @ show_int n @ '' does not fit in u64'')))
                  else Inr (d1, next, seqs @ [nat n]))))"

definition set_next_seq :: "string \<Rightarrow> int \<Rightarrow> db \<Rightarrow> db" where
  "set_next_seq run_id n d =
     d\<lparr>db_runs := update_where (\<lambda>r. ar_run_id r = run_id) (\<lambda>r. r\<lparr>ar_next_event_seq := n\<rparr>) (db_runs d)\<rparr>"

definition rewrite_event :: "string \<Rightarrow> EventRewrite \<Rightarrow> db \<Rightarrow> db" where
  "rewrite_event run_id w d =
     (case i64_of_u64 (er_seq w) of
        None \<Rightarrow> d
      | Some n \<Rightarrow> d\<lparr>db_events := update_where (\<lambda>e. ev_run_id e = run_id \<and> ev_seq e = n)
                     (\<lambda>e. e\<lparr>ev_payload_json := er_payload w\<rparr>) (db_events d)\<rparr>)"

section \<open>\<open>commit_execution\<close>\<close>

definition find_run :: "db \<Rightarrow> string \<Rightarrow> RunRow option" where
  "find_run d run_id = find (\<lambda>r. ar_run_id r = run_id) (db_runs d)"

definition commit_tables ::
    "ExecutionCommit \<Rightarrow> int \<Rightarrow> db \<Rightarrow> ExecutionCommitError + CommitReceipt \<times> db" where
  "commit_tables c start d =
     (let run_id = ec_run_id c in
      and_then (for_each (insert_task run_id) (ec_new_tasks c) d) (\<lambda>d1.
      and_then (for_each (insert_prompt run_id) (ec_prompts c) d1) (\<lambda>d2.
      and_then (for_each (set_result run_id) (ec_checkpoint_results c) d2) (\<lambda>d3.
      and_then (for_each (update_prompt run_id) (ec_prompt_content_updates c) d3) (\<lambda>d4.
      and_then (for_each (apply_transition run_id) (ec_transitions c) d4) (\<lambda>d5.
      and_then (for_each (request_cancel run_id) (ec_cancel_requests c) d5) (\<lambda>d6.
      and_then (for_each (clear_prompt run_id) (ec_prompt_content_clears c) d6) (\<lambda>d7.
      and_then (for_each (insert_intent run_id) (ec_checkpoint_intents c) d7) (\<lambda>d8.
      and_then (for_each (insert_event run_id) (ec_events c)
                 (update_run run_id (ec_run_update c) d8, start, [])) (\<lambda>(d9, next, seqs).
        Inr (\<lparr>rc_event_seqs = seqs, rc_duplicate_prompts = []\<rparr>,
             fold (rewrite_event run_id) (ec_event_rewrites c) (set_next_seq run_id next d9))))))))))))"

definition fenced :: "string option \<Rightarrow> db \<Rightarrow> bool" where
  "fenced fence d =
     (case fence of Some f \<Rightarrow> map_option ow_boot_id (db_owner d) \<noteq> Some f | None \<Rightarrow> False)"

definition effective_fence :: "string option \<Rightarrow> ExecutionCommit \<Rightarrow> string option" where
  "effective_fence store_fence c = (case ec_owner_fence c of Some f \<Rightarrow> Some f | None \<Rightarrow> store_fence)"

text \<open>The transaction: the receipt or the error, and the tables afterwards. \<open>store_fence\<close> is the fence of
  the store; a commit with duplicate prompts returns without writing.\<close>

definition commit_execution ::
    "string option \<Rightarrow> ExecutionCommit \<Rightarrow> db \<Rightarrow> (ExecutionCommitError + CommitReceipt) \<times> db" where
  "commit_execution store_fence c d =
     (if fenced (effective_fence store_fence c) d then (Inl XeFenced, d)
      else case find_run d (ec_run_id c) of
             None \<Rightarrow> (Inl (XeUnknownRun (ec_run_id c)), d)
           | Some run \<Rightarrow>
               let duplicates = duplicates_from d (ec_run_id c) {} (ec_prompts c) in
               if duplicates \<noteq> []
               then (Inr \<lparr>rc_event_seqs = [], rc_duplicate_prompts = duplicates\<rparr>, d)
               else (case commit_tables c (ar_next_event_seq run) d of
                       Inl e \<Rightarrow> (Inl e, d)
                     | Inr (receipt, d1) \<Rightarrow> (Inr receipt, d1)))"

section \<open>The other operations of the store\<close>

definition create_run :: "NewRun \<Rightarrow> db \<Rightarrow> (RegistrySnapshotError + unit) \<times> db" where
  "create_run n d =
     (if find_run d (nr_run_id n) \<noteq> None
      then (Inl (SeDatabase ''UNIQUE constraint failed: agent_runs.run_id''), d)
      else (Inr (), d\<lparr>db_runs := db_runs d @
              [\<lparr>ar_run_id = nr_run_id n, ar_task_id = nr_task_id n, ar_harness = nr_harness n,
                ar_model = nr_model n, ar_native_session_id = None, ar_capabilities_json = ''{}'',
                ar_child_pid = None, ar_child_pgid = None, ar_owner_boot_id = None,
                ar_schema_version = int CHECKPOINT_SCHEMA_VERSION, ar_next_event_seq = 1,
                ar_created_unix_ms = nr_created_unix_ms n, ar_unreadable_history_rows = 0,
                ar_child_started = None\<rparr>]\<rparr>))"

text \<open>\<open>ORDER BY seq\<close>: the key of the table makes the order unique.\<close>

definition execution_events_since :: "db \<Rightarrow> string \<Rightarrow> nat \<Rightarrow> RegistrySnapshotError + (nat \<times> string) list" where
  "execution_events_since d run_id after_seq =
     (case i64_of_u64 after_seq of
        None \<Rightarrow> Inr []
      | Some n \<Rightarrow>
          let rows = sort_key ev_seq (filter (\<lambda>e. ev_run_id e = run_id \<and> ev_seq e > n) (db_events d))
          in if list_ex (\<lambda>e. ev_seq e < 0) rows
             then Inl (SeDecode ''out of range integral type conversion attempted'')
             else Inr (map (\<lambda>e. (nat (ev_seq e), ev_payload_json e)) rows))"

definition truncate_events_after :: "string \<Rightarrow> nat \<Rightarrow> db \<Rightarrow> nat \<times> db" where
  "truncate_events_after run_id n d =
     (case i64_of_u64 n of
        None \<Rightarrow> (0, d)
      | Some keep_through \<Rightarrow>
          (case checked_add_i64 keep_through 1 of
             None \<Rightarrow> (0, d)
           | Some next \<Rightarrow>
               let d1 = delete_events_after run_id keep_through d;
                   d2 = d1\<lparr>db_runs := update_where (\<lambda>r. ar_run_id r = run_id \<and> ar_next_event_seq r > next)
                          (\<lambda>r. r\<lparr>ar_next_event_seq := next\<rparr>) (db_runs d1)\<rparr>
               in (length (db_events d) - length (db_events d1), d2)))"

definition append_event :: "string \<Rightarrow> string \<Rightarrow> db \<times> int \<Rightarrow> RegistrySnapshotError + db \<times> int" where
  "append_event run_id payload acc =
     (case acc of (d, n) \<Rightarrow>
        and_then (insert_event_row run_id n payload d) (\<lambda>d1.
          case checked_add_i64 n 1 of
            None \<Rightarrow> Inl (SeEncode ''event sequence overflow'')
          | Some next \<Rightarrow> Inr (d1, next)))"

definition truncate_and_append_events_after ::
    "string \<Rightarrow> nat \<Rightarrow> string list \<Rightarrow> db \<Rightarrow> (RegistrySnapshotError + unit) \<times> db" where
  "truncate_and_append_events_after run_id n payloads d =
     (case i64_of_u64 n of
        None \<Rightarrow> (Inl (SeEncode ''event sequence overflow''), d)
      | Some keep_through \<Rightarrow>
          (case checked_add_i64 keep_through 1 of
             None \<Rightarrow> (Inl (SeEncode ''event sequence overflow''), d)
           | Some first \<Rightarrow>
               (case for_each (append_event run_id) payloads
                       (delete_events_after run_id keep_through d, first) of
                  Inl e \<Rightarrow> (Inl e, d)
                | Inr (d1, next) \<Rightarrow> (Inr (), set_next_seq run_id next d1))))"

definition execution_task_state :: "db \<Rightarrow> string \<Rightarrow> RegistrySnapshotError + ExecutionState option" where
  "execution_task_state d i =
     (case find (\<lambda>t. xt_task_exec_id t = i) (db_tasks d) of
        None \<Rightarrow> Inr None
      | Some t \<Rightarrow> (case parse_state (xt_state t) of Inl e \<Rightarrow> Inl e | Inr s \<Rightarrow> Inr (Some s)))"

section \<open>Lemmas: tables with a key\<close>

lemma map_update_where: "(\<And>x. k (f x) = k x) \<Longrightarrow> map k (update_where p f xs) = map k xs"
  by (induction xs) (auto simp: update_where_def)

lemma find_update_where:
  "(\<And>x. k (f x) = k x) \<Longrightarrow>
   find (\<lambda>x. k x = i) (update_where p f xs) = map_option (\<lambda>x. if p x then f x else x) (find (\<lambda>x. k x = i) xs)"
  by (induction xs) (auto simp: update_where_def)

lemma find_append: "find p (xs @ ys) = (case find p xs of None \<Rightarrow> find p ys | Some x \<Rightarrow> Some x)"
  by (induction xs) auto

lemma find_key: "distinct (map k xs) \<Longrightarrow> x \<in> set xs \<Longrightarrow> find (\<lambda>y. k y = k x) xs = Some x"
  by (induction xs) force+

lemma set_update_where: "set (update_where p f xs) = (\<lambda>x. if p x then f x else x) ` set xs"
  by (simp add: update_where_def)

lemma filter_update_where:
  "(\<And>x. q (f x) = q x) \<Longrightarrow> filter q (update_where p f xs) = update_where p f (filter q xs)"
  by (induction xs) (auto simp: update_where_def)

lemma update_where_none: "(\<And>x. x \<in> set xs \<Longrightarrow> \<not> p x) \<Longrightarrow> update_where p f xs = xs"
  by (induction xs) (auto simp: update_where_def)

section \<open>Lemmas: what each statement writes\<close>

lemmas statement_defs =
  insert_task_def insert_prompt_def set_result_def update_prompt_def apply_transition_def
  request_cancel_def clear_prompt_def insert_intent_def

text \<open>The tables a statement does not name stay as they are.\<close>

lemma insert_task_frame:
  "insert_task r t d = Inr u \<Longrightarrow> u = d\<lparr>db_tasks := db_tasks u\<rparr>"
  by (auto simp: insert_task_def return_iff)

lemma insert_prompt_frame:
  "insert_prompt r p d = Inr u \<Longrightarrow> u = d\<lparr>db_prompts := db_prompts u, db_last_submission := db_last_submission u\<rparr>"
  by (auto simp: insert_prompt_def return_iff Let_def)

lemma set_result_frame: "set_result r x d = Inr u \<Longrightarrow> u = d\<lparr>db_checkpoints := db_checkpoints u\<rparr>"
  by (auto simp: set_result_def return_iff Let_def)

lemma update_prompt_frame: "update_prompt r x d = Inr u \<Longrightarrow> u = d\<lparr>db_prompts := db_prompts u\<rparr>"
  by (auto simp: update_prompt_def return_iff Let_def)

lemma apply_transition_frame: "apply_transition r x d = Inr u \<Longrightarrow> u = d\<lparr>db_tasks := db_tasks u\<rparr>"
  by (auto simp: apply_transition_def return_iff Let_def split: sum.splits if_splits)

lemma request_cancel_frame: "request_cancel r x d = Inr u \<Longrightarrow> u = d\<lparr>db_tasks := db_tasks u\<rparr>"
  by (auto simp: request_cancel_def return_iff)

lemma clear_prompt_frame: "clear_prompt r x d = Inr u \<Longrightarrow> u = d\<lparr>db_prompts := db_prompts u\<rparr>"
  by (auto simp: clear_prompt_def return_iff)

lemma insert_intent_frame: "insert_intent r x d = Inr u \<Longrightarrow> u = d\<lparr>db_checkpoints := db_checkpoints u\<rparr>"
  by (auto simp: insert_intent_def return_iff Let_def)

text \<open>So each table is written by its own statements only.\<close>

lemma db_frames:
  "u = d\<lparr>db_tasks := a\<rparr> \<Longrightarrow> db_runs u = db_runs d \<and> db_prompts u = db_prompts d
     \<and> db_last_submission u = db_last_submission d \<and> db_checkpoints u = db_checkpoints d
     \<and> db_events u = db_events d \<and> db_owner u = db_owner d"
  "u = d\<lparr>db_prompts := b\<rparr> \<Longrightarrow> db_runs u = db_runs d \<and> db_tasks u = db_tasks d
     \<and> db_last_submission u = db_last_submission d \<and> db_checkpoints u = db_checkpoints d
     \<and> db_events u = db_events d \<and> db_owner u = db_owner d"
  "u = d\<lparr>db_prompts := b, db_last_submission := n\<rparr> \<Longrightarrow> db_runs u = db_runs d \<and> db_tasks u = db_tasks d
     \<and> db_checkpoints u = db_checkpoints d \<and> db_events u = db_events d \<and> db_owner u = db_owner d"
  "u = d\<lparr>db_checkpoints := c\<rparr> \<Longrightarrow> db_runs u = db_runs d \<and> db_tasks u = db_tasks d
     \<and> db_prompts u = db_prompts d \<and> db_last_submission u = db_last_submission d
     \<and> db_events u = db_events d \<and> db_owner u = db_owner d"
  by simp_all

text \<open>A predicate that every statement of a commit keeps is kept by the commit.\<close>

definition fresh_event :: "string \<Rightarrow> int \<Rightarrow> string \<Rightarrow> db \<Rightarrow> db" where
  "fresh_event run_id n payload d =
     d\<lparr>db_events := db_events d @ [\<lparr>ev_run_id = run_id, ev_seq = n, ev_payload_json = payload\<rparr>]\<rparr>"

lemma insert_event_row_iff:
  "insert_event_row r n p d = Inr u \<longleftrightarrow>
     \<not> list_ex (\<lambda>e. ev_run_id e = r \<and> ev_seq e = n) (db_events d) \<and> u = fresh_event r n p d"
  by (auto simp: insert_event_row_def fresh_event_def)

lemma insert_event_iff:
  "insert_event r p (d, n, seqs) = Inr v \<longleftrightarrow>
     i64_in_range (n + 1) \<and> 0 \<le> n \<and> \<not> list_ex (\<lambda>e. ev_run_id e = r \<and> ev_seq e = n) (db_events d)
     \<and> v = (fresh_event r n p d, n + 1, seqs @ [nat n])"
  by (auto simp: insert_event_def return_iff insert_event_row_iff checked_add_i64_def split: if_splits)

lemma commit_stages:
  assumes "commit_tables c start d = Inr (rc, u)"
  obtains d1 d2 d3 d4 d5 d6 d7 d8 d9 nxt seqs where
    "for_each (insert_task (ec_run_id c)) (ec_new_tasks c) d = Inr d1"
    "for_each (insert_prompt (ec_run_id c)) (ec_prompts c) d1 = Inr d2"
    "for_each (set_result (ec_run_id c)) (ec_checkpoint_results c) d2 = Inr d3"
    "for_each (update_prompt (ec_run_id c)) (ec_prompt_content_updates c) d3 = Inr d4"
    "for_each (apply_transition (ec_run_id c)) (ec_transitions c) d4 = Inr d5"
    "for_each (request_cancel (ec_run_id c)) (ec_cancel_requests c) d5 = Inr d6"
    "for_each (clear_prompt (ec_run_id c)) (ec_prompt_content_clears c) d6 = Inr d7"
    "for_each (insert_intent (ec_run_id c)) (ec_checkpoint_intents c) d7 = Inr d8"
    "for_each (insert_event (ec_run_id c)) (ec_events c)
       (update_run (ec_run_id c) (ec_run_update c) d8, start, []) = Inr (d9, nxt, seqs)"
    "rc = \<lparr>rc_event_seqs = seqs, rc_duplicate_prompts = []\<rparr>"
    "u = fold (rewrite_event (ec_run_id c)) (ec_event_rewrites c) (set_next_seq (ec_run_id c) nxt d9)"
  using assms by (auto simp: commit_tables_def Let_def return_iff split: prod.splits)

lemma events_loop_invariant:
  assumes "for_each (insert_event r) ps (d, n, seqs) = Inr (u, m, ss)" and "P d"
    and "\<And>d n p. P d \<Longrightarrow> P (fresh_event r n p d)"
  shows "P u"
  using for_each_invariant [OF assms(1), of "\<lambda>(d, _). P d"] assms(2,3)
  by (auto simp: insert_event_iff)

lemma fold_invariant: "P d \<Longrightarrow> (\<And>x u. x \<in> set xs \<Longrightarrow> P u \<Longrightarrow> P (f x u)) \<Longrightarrow> P (fold f xs d)"
  by (induction xs arbitrary: d) auto

lemma commit_after_tasks:
  assumes commit: "commit_tables c start d = Inr (rc, u)"
    and "\<And>d1. for_each (insert_task (ec_run_id c)) (ec_new_tasks c) d = Inr d1 \<Longrightarrow> P d1"
    and "\<And>p d u. insert_prompt (ec_run_id c) p d = Inr u \<Longrightarrow> P d \<Longrightarrow> P u"
    and "\<And>x d u. set_result (ec_run_id c) x d = Inr u \<Longrightarrow> P d \<Longrightarrow> P u"
    and "\<And>x d u. update_prompt (ec_run_id c) x d = Inr u \<Longrightarrow> P d \<Longrightarrow> P u"
    and "\<And>x d u. apply_transition (ec_run_id c) x d = Inr u \<Longrightarrow> P d \<Longrightarrow> P u"
    and "\<And>x d u. request_cancel (ec_run_id c) x d = Inr u \<Longrightarrow> P d \<Longrightarrow> P u"
    and "\<And>x d u. clear_prompt (ec_run_id c) x d = Inr u \<Longrightarrow> P d \<Longrightarrow> P u"
    and "\<And>x d u. insert_intent (ec_run_id c) x d = Inr u \<Longrightarrow> P d \<Longrightarrow> P u"
    and "\<And>x d. P d \<Longrightarrow> P (update_run (ec_run_id c) x d)"
    and "\<And>n p d. P d \<Longrightarrow> P (fresh_event (ec_run_id c) n p d)"
    and "\<And>n d. P d \<Longrightarrow> P (set_next_seq (ec_run_id c) n d)"
    and "\<And>w d. P d \<Longrightarrow> P (rewrite_event (ec_run_id c) w d)"
  shows "P u"
proof -
  obtain d1 d2 d3 d4 d5 d6 d7 d8 d9 nxt seqs where stages:
    "for_each (insert_task (ec_run_id c)) (ec_new_tasks c) d = Inr d1"
    "for_each (insert_prompt (ec_run_id c)) (ec_prompts c) d1 = Inr d2"
    "for_each (set_result (ec_run_id c)) (ec_checkpoint_results c) d2 = Inr d3"
    "for_each (update_prompt (ec_run_id c)) (ec_prompt_content_updates c) d3 = Inr d4"
    "for_each (apply_transition (ec_run_id c)) (ec_transitions c) d4 = Inr d5"
    "for_each (request_cancel (ec_run_id c)) (ec_cancel_requests c) d5 = Inr d6"
    "for_each (clear_prompt (ec_run_id c)) (ec_prompt_content_clears c) d6 = Inr d7"
    "for_each (insert_intent (ec_run_id c)) (ec_checkpoint_intents c) d7 = Inr d8"
    "for_each (insert_event (ec_run_id c)) (ec_events c)
       (update_run (ec_run_id c) (ec_run_update c) d8, start, []) = Inr (d9, nxt, seqs)"
    "rc = \<lparr>rc_event_seqs = seqs, rc_duplicate_prompts = []\<rparr>"
    "u = fold (rewrite_event (ec_run_id c)) (ec_event_rewrites c) (set_next_seq (ec_run_id c) nxt d9)"
    using commit by (rule commit_stages)
  have p1: "P d1" by (rule assms(2) [OF stages(1)])
  have p2: "P d2" by (rule for_each_invariant [where P = P, OF stages(2) p1]) (rule assms(3); assumption)
  have p3: "P d3" by (rule for_each_invariant [where P = P, OF stages(3) p2]) (rule assms(4); assumption)
  have p4: "P d4" by (rule for_each_invariant [where P = P, OF stages(4) p3]) (rule assms(5); assumption)
  have p5: "P d5" by (rule for_each_invariant [where P = P, OF stages(5) p4]) (rule assms(6); assumption)
  have p6: "P d6" by (rule for_each_invariant [where P = P, OF stages(6) p5]) (rule assms(7); assumption)
  have p7: "P d7" by (rule for_each_invariant [where P = P, OF stages(7) p6]) (rule assms(8); assumption)
  have p8: "P d8" by (rule for_each_invariant [where P = P, OF stages(8) p7]) (rule assms(9); assumption)
  have p9: "P d9"
    by (rule events_loop_invariant [where P = P, OF stages(9)]) (rule assms(10) [OF p8], rule assms(11))
  show ?thesis
    unfolding stages(11) by (rule fold_invariant [where P = P]) (rule assms(12) [OF p9], rule assms(13))
qed

lemma commit_tables_invariant:
  assumes commit: "commit_tables c start d = Inr (rc, u)" and start: "P d"
    and "\<And>t d u. t \<in> set (ec_new_tasks c) \<Longrightarrow> insert_task (ec_run_id c) t d = Inr u \<Longrightarrow> P d \<Longrightarrow> P u"
    and "\<And>p d u. insert_prompt (ec_run_id c) p d = Inr u \<Longrightarrow> P d \<Longrightarrow> P u"
    and "\<And>x d u. set_result (ec_run_id c) x d = Inr u \<Longrightarrow> P d \<Longrightarrow> P u"
    and "\<And>x d u. update_prompt (ec_run_id c) x d = Inr u \<Longrightarrow> P d \<Longrightarrow> P u"
    and "\<And>x d u. apply_transition (ec_run_id c) x d = Inr u \<Longrightarrow> P d \<Longrightarrow> P u"
    and "\<And>x d u. request_cancel (ec_run_id c) x d = Inr u \<Longrightarrow> P d \<Longrightarrow> P u"
    and "\<And>x d u. clear_prompt (ec_run_id c) x d = Inr u \<Longrightarrow> P d \<Longrightarrow> P u"
    and "\<And>x d u. insert_intent (ec_run_id c) x d = Inr u \<Longrightarrow> P d \<Longrightarrow> P u"
    and "\<And>x d. P d \<Longrightarrow> P (update_run (ec_run_id c) x d)"
    and "\<And>n p d. P d \<Longrightarrow> P (fresh_event (ec_run_id c) n p d)"
    and "\<And>n d. P d \<Longrightarrow> P (set_next_seq (ec_run_id c) n d)"
    and "\<And>w d. P d \<Longrightarrow> P (rewrite_event (ec_run_id c) w d)"
  shows "P u"
  by (rule commit_after_tasks [OF commit, of P],
      rule for_each_invariant [where P = P, OF _ start], assumption, rule assms(3), assumption+)
    (fact assms(4-14))+

section \<open>Lemmas: the states of the tasks\<close>

definition stored_state :: "db \<Rightarrow> string \<Rightarrow> ExecutionState option" where
  "stored_state d i =
     (case find (\<lambda>t. xt_task_exec_id t = i) (db_tasks d) of
        None \<Rightarrow> None | Some t \<Rightarrow> state_parse (xt_state t))"

lemma find_id: "find (\<lambda>x. k x = i) xs = Some x \<Longrightarrow> k x = i"
  by (auto simp: find_Some_iff)

definition tasks_ok :: "db \<Rightarrow> bool" where
  "tasks_ok d \<longleftrightarrow>
     distinct (map xt_task_exec_id (db_tasks d))
     \<and> list_all (\<lambda>t. state_parse (xt_state t) \<noteq> None) (db_tasks d)"

lemma tasks_ok_cong: "db_tasks u = db_tasks d \<Longrightarrow> tasks_ok u = tasks_ok d"
  by (simp add: tasks_ok_def)

lemma stored_state_cong: "db_tasks u = db_tasks d \<Longrightarrow> stored_state u = stored_state d"
  by (simp add: stored_state_def fun_eq_iff)

lemma stored_state_row:
  assumes "tasks_ok d" "t \<in> set (db_tasks d)"
  shows "stored_state d (xt_task_exec_id t) = state_parse (xt_state t)"
  using assms find_key [of xt_task_exec_id "db_tasks d" t] by (simp add: stored_state_def tasks_ok_def)

lemma task_state_stored:
  assumes "tasks_ok d" "task_state d r i = Inr s"
  shows "stored_state d i = Some s"
proof -
  obtain t where t: "find (\<lambda>t. xt_task_exec_id t = i \<and> xt_run_id t = r) (db_tasks d) = Some t"
      "state_parse (xt_state t) = Some s"
    using assms(2) by (auto simp: task_state_def parse_state_x_def parse_state_def return_iff
        split: option.splits)
  then have "t \<in> set (db_tasks d)" "xt_task_exec_id t = i" by (auto simp: find_Some_iff)
  with t(2) stored_state_row [OF assms(1)] show ?thesis by auto
qed

lemma insert_task_state:
  assumes "insert_task r t d = Inr u"
  shows "stored_state u i = (if i = nt_task_exec_id t then Some XsPending else stored_state d i)"
    and "stored_state d (nt_task_exec_id t) = None" and "tasks_ok d \<Longrightarrow> tasks_ok u"
proof -
  have new: "\<not> list_ex (\<lambda>x. xt_task_exec_id x = nt_task_exec_id t) (db_tasks d)"
    using assms by (auto simp: insert_task_def return_iff)
  then have "find (\<lambda>x. xt_task_exec_id x = nt_task_exec_id t) (db_tasks d) = None"
    by (auto simp: find_None_iff list_ex_iff)
  then show "stored_state u i = (if i = nt_task_exec_id t then Some XsPending else stored_state d i)"
    "stored_state d (nt_task_exec_id t) = None"
    using assms state_codec.parse_label [of XsPending]
    by (auto simp: insert_task_def return_iff stored_state_def find_append split: option.split)
  show "tasks_ok d \<Longrightarrow> tasks_ok u"
    using assms new state_codec.parse_label [of XsPending]
    by (fastforce simp: insert_task_def return_iff tasks_ok_def list_ex_iff)
qed

lemma stored_state_update:
  assumes "\<And>t. xt_task_exec_id (f t) = xt_task_exec_id t"
  shows "stored_state (d\<lparr>db_tasks := update_where p f (db_tasks d)\<rparr>) i =
    (case find (\<lambda>t. xt_task_exec_id t = i) (db_tasks d) of
       None \<Rightarrow> None | Some t \<Rightarrow> state_parse (xt_state (if p t then f t else t)))"
  using find_update_where [of xt_task_exec_id f i p "db_tasks d"] assms
  by (simp add: stored_state_def split: option.split)

lemma tasks_ok_update:
  assumes "tasks_ok d" "\<And>t. xt_task_exec_id (f t) = xt_task_exec_id t"
    "\<And>t. state_parse (xt_state t) \<noteq> None \<Longrightarrow> state_parse (xt_state (f t)) \<noteq> None"
  shows "tasks_ok (d\<lparr>db_tasks := update_where p f (db_tasks d)\<rparr>)"
proof -
  have "list_all (\<lambda>t. state_parse (xt_state t) \<noteq> None) (update_where p f (db_tasks d))"
    unfolding list_all_iff set_update_where using assms(1,3) unfolding tasks_ok_def list_all_iff by auto
  with assms(1,2) show ?thesis by (simp add: tasks_ok_def map_update_where)
qed

lemma cancel_state:
  assumes "request_cancel r x d = Inr u"
  shows "stored_state u i = stored_state d i" and "tasks_ok d \<Longrightarrow> tasks_ok u"
proof -
  have u: "u = d\<lparr>db_tasks := update_where (\<lambda>y. xt_task_exec_id y = x)
      (\<lambda>y. y\<lparr>xt_cancel_requested := True\<rparr>) (db_tasks d)\<rparr>"
    using assms by (auto simp: request_cancel_def return_iff)
  show "stored_state u i = stored_state d i"
    unfolding u by (subst stored_state_update) (simp_all add: stored_state_def split: option.split)
  show "tasks_ok d \<Longrightarrow> tasks_ok u" unfolding u by (rule tasks_ok_update) simp_all
qed

lemma transition_effect:
  assumes "tasks_ok d" "apply_transition r x d = Inr u"
  shows "stored_state u i = (if i = tt_task_exec_id x then Some (tt_to x) else stored_state d i)"
    and "\<exists>s. stored_state d (tt_task_exec_id x) = Some s \<and> transition_allowed s (tt_to x)"
    and "tasks_ok u"
proof -
  obtain s where s: "task_state d r (tt_task_exec_id x) = Inr s" "transition_allowed s (tt_to x)"
    and u: "u = d\<lparr>db_tasks := update_where (\<lambda>y. xt_task_exec_id y = tt_task_exec_id x)
        (\<lambda>y. y\<lparr>xt_state := state_as_str (tt_to x), xt_outcome_json := tt_outcome_json x\<rparr>) (db_tasks d)\<rparr>"
    using assms(2) by (auto simp: apply_transition_def return_iff Let_def split: sum.splits if_splits)
  have stored: "stored_state d (tt_task_exec_id x) = Some s" by (rule task_state_stored [OF assms(1) s(1)])
  with s(2) show "\<exists>s. stored_state d (tt_task_exec_id x) = Some s \<and> transition_allowed s (tt_to x)" by blast
  show "stored_state u i = (if i = tt_task_exec_id x then Some (tt_to x) else stored_state d i)"
    unfolding u using stored
    by (subst stored_state_update)
      (auto simp: stored_state_def state_codec.parse_label dest: find_id split: option.splits)
  show "tasks_ok u"
    unfolding u using assms(1) by (rule tasks_ok_update) (simp_all add: state_codec.parse_label)
qed

lemma states_frame:
  assumes "db_tasks u = db_tasks d"
  shows "stored_state u i = stored_state d i" "tasks_ok u = tasks_ok d"
  using assms by (simp_all add: stored_state_def tasks_ok_def)

lemma tasks_unchanged:
  "insert_prompt r p d = Inr u \<Longrightarrow> db_tasks u = db_tasks d"
  "set_result r x d = Inr u \<Longrightarrow> db_tasks u = db_tasks d"
  "update_prompt r y d = Inr u \<Longrightarrow> db_tasks u = db_tasks d"
  "clear_prompt r k d = Inr u \<Longrightarrow> db_tasks u = db_tasks d"
  "insert_intent r z d = Inr u \<Longrightarrow> db_tasks u = db_tasks d"
  "db_tasks (update_run r v d) = db_tasks d"
  "db_tasks (fresh_event r n q d) = db_tasks d"
  "db_tasks (set_next_seq r n d) = db_tasks d"
  "db_tasks (rewrite_event r w d) = db_tasks d"
  using db_frames(2) [OF update_prompt_frame, of r y d u] db_frames(2) [OF clear_prompt_frame, of r k d u]
    db_frames(3) [OF insert_prompt_frame, of r p d u] db_frames(4) [OF set_result_frame, of r x d u]
    db_frames(4) [OF insert_intent_frame, of r z d u]
  by (auto simp: update_run_def fresh_event_def set_next_seq_def rewrite_event_def split: option.split)

text \<open>A predicate of the tasks table alone.\<close>

lemma commit_tasks_invariant:
  assumes commit: "commit_tables c start d = Inr (rc, u)"
    and tables: "\<And>d u. db_tasks u = db_tasks d \<Longrightarrow> P d \<Longrightarrow> P u"
    and new: "\<And>d1. for_each (insert_task (ec_run_id c)) (ec_new_tasks c) d = Inr d1 \<Longrightarrow> P d1"
    and moved: "\<And>x d u. apply_transition (ec_run_id c) x d = Inr u \<Longrightarrow> P d \<Longrightarrow> P u"
    and cancelled: "\<And>x d u. request_cancel (ec_run_id c) x d = Inr u \<Longrightarrow> P d \<Longrightarrow> P u"
  shows "P u"
  by (rule commit_after_tasks [OF commit, of P])
    (erule new moved cancelled tables [OF tasks_unchanged(1)] tables [OF tasks_unchanged(2)]
       tables [OF tasks_unchanged(3)] tables [OF tasks_unchanged(4)] tables [OF tasks_unchanged(5)]
       tables [OF tasks_unchanged(6)] tables [OF tasks_unchanged(7)] tables [OF tasks_unchanged(8)]
       tables [OF tasks_unchanged(9)], assumption?)+

lemma new_tasks_keep:
  assumes "for_each (insert_task r) ts d = Inr u" "tasks_ok d" "stored_state d i = Some s"
  shows "tasks_ok u \<and> stored_state u i = Some s"
proof (rule for_each_invariant [OF assms(1)])
  fix t u v
  assume "insert_task r t u = Inr v" "tasks_ok u \<and> stored_state u i = Some s"
  then show "tasks_ok v \<and> stored_state v i = Some s"
    using insert_task_state [of r t u v] by auto
qed (simp add: assms(2,3))

lemma commit_keeps_terminal:
  assumes "commit_tables c start d = Inr (rc, u)" "tasks_ok d" "stored_state d i = Some s" "is_terminal s"
  shows "tasks_ok u \<and> stored_state u i = Some s"
proof (rule commit_tasks_invariant [OF assms(1)])
  fix x d u
  assume step: "apply_transition (ec_run_id c) x d = Inr u" and ok: "tasks_ok d \<and> stored_state d i = Some s"
  then have "i \<noteq> tt_task_exec_id x"
    using transition_effect(2) [of d _ x u] terminal_blocks [OF assms(4)] by fastforce
  with ok transition_effect [OF _ step] show "tasks_ok u \<and> stored_state u i = Some s" by simp
next
  fix x d u
  assume "request_cancel (ec_run_id c) x d = Inr u" "tasks_ok d \<and> stored_state d i = Some s"
  then show "tasks_ok u \<and> stored_state u i = Some s" by (simp add: cancel_state)
next
  show "tasks_ok d1 \<and> stored_state d1 i = Some s"
    if "for_each (insert_task (ec_run_id c)) (ec_new_tasks c) d = Inr d1" for d1
    by (rule new_tasks_keep [OF that assms(2,3)])
qed (simp add: stored_state_def tasks_ok_def)

lemma commit_tasks_ok:
  assumes "commit_tables c start d = Inr (rc, u)" "tasks_ok d"
  shows "tasks_ok u"
proof (rule commit_tasks_invariant [OF assms(1)])
  show "tasks_ok d1" if "for_each (insert_task (ec_run_id c)) (ec_new_tasks c) d = Inr d1" for d1
    by (rule for_each_invariant [where P = tasks_ok, OF that assms(2)]) (rule insert_task_state(3))
  show "tasks_ok u" if "apply_transition (ec_run_id c) x d = Inr u" "tasks_ok d" for x d u
    by (rule transition_effect(3) [OF that(2,1)])
  show "tasks_ok u" if "request_cancel (ec_run_id c) x d = Inr u" "tasks_ok d" for x d u
    by (rule cancel_state(2) [OF that])
qed (simp add: tasks_ok_def)

section \<open>Lemmas: parents and children\<close>

definition closing :: "ExecutionState option \<Rightarrow> bool" where
  "closing s \<longleftrightarrow> s = Some XsCompleting \<or> s = Some XsCompleted"

definition settled :: "ExecutionState option \<Rightarrow> bool" where
  "settled s = (case s of Some x \<Rightarrow> is_terminal x | None \<Rightarrow> False)"

text \<open>A task that completes or has completed has only children in a terminal state.\<close>

definition parents_ok :: "db \<Rightarrow> bool" where
  "parents_ok d \<longleftrightarrow>
     (\<forall>t \<in> set (db_tasks d). \<forall>p. xt_parent_id t = Some p \<longrightarrow> closing (stored_state d p) \<longrightarrow>
        settled (stored_state d (xt_task_exec_id t)))"

lemma parents_ok_code [code]:
  "parents_ok d \<longleftrightarrow>
     list_all (\<lambda>t. case xt_parent_id t of
         None \<Rightarrow> True
       | Some p \<Rightarrow> \<not> closing (stored_state d p) \<or> settled (stored_state d (xt_task_exec_id t))) (db_tasks d)"
  by (auto simp: parents_ok_def list_all_iff split: option.splits)

definition open_parent :: "db \<Rightarrow> NewExecutionTask \<Rightarrow> bool" where
  "open_parent d t = (case nt_parent_id t of Some p \<Rightarrow> \<not> closing (stored_state d p) | None \<Rightarrow> True)"

lemma parse_states_Inr: "parse_states ts = Inr ss \<Longrightarrow> map state_parse ts = map Some ss"
  by (induction ts arbitrary: ss)
    (auto simp: return_iff parse_state_x_def parse_state_def split: option.splits)

lemma children_settled:
  assumes "tasks_ok d" "children_allow_completion_for d i = Inr True"
    and "t \<in> set (db_tasks d)" "xt_parent_id t = Some i"
  shows "settled (stored_state d (xt_task_exec_id t))"
proof -
  obtain ss where ss: "parse_states (map xt_state (filter (\<lambda>t. xt_parent_id t = Some i) (db_tasks d))) = Inr ss"
    "\<forall>s \<in> set ss. is_terminal s"
    using assms(2) by (auto simp: children_allow_completion_for_def return_iff children_allow_iff)
  have "state_parse (xt_state t) \<in> set (map Some ss)"
    using assms(3,4) unfolding parse_states_Inr [OF ss(1), symmetric] by force
  then obtain s where "state_parse (xt_state t) = Some s" "is_terminal s" using ss(2) by auto
  then show ?thesis using stored_state_row [OF assms(1,3)] by (simp add: settled_def)
qed

lemma transition_rows:
  "apply_transition r x d = Inr u \<Longrightarrow>
   map (\<lambda>t. (xt_task_exec_id t, xt_parent_id t)) (db_tasks u) = map (\<lambda>t. (xt_task_exec_id t, xt_parent_id t)) (db_tasks d)"
  by (auto simp: apply_transition_def return_iff Let_def map_update_where split: sum.splits if_splits)

lemma transition_guard:
  assumes "apply_transition r x d = Inr u" "closing (Some (tt_to x))"
  shows "children_allow_completion_for d (tt_task_exec_id x) = Inr True"
  using assms by (auto simp: apply_transition_def closing_def return_iff Let_def split: sum.splits if_splits)

lemma rows_transfer:
  assumes "map (\<lambda>t. (xt_task_exec_id t, xt_parent_id t)) (db_tasks u) = map (\<lambda>t. (xt_task_exec_id t, xt_parent_id t)) (db_tasks d)"
    and "t \<in> set (db_tasks u)"
  obtains t' where "t' \<in> set (db_tasks d)" "xt_task_exec_id t' = xt_task_exec_id t" "xt_parent_id t' = xt_parent_id t"
proof -
  have "(xt_task_exec_id t, xt_parent_id t) \<in> set (map (\<lambda>t. (xt_task_exec_id t, xt_parent_id t)) (db_tasks d))"
    unfolding assms(1) [symmetric] using assms(2) by simp
  then show ?thesis using that by auto
qed

lemma settled_not_moved:
  assumes "tasks_ok d" "apply_transition r x d = Inr u" "settled (stored_state d i)"
  shows "i \<noteq> tt_task_exec_id x"
  using transition_effect(2) [OF assms(1,2)] assms(3) terminal_blocks by (auto simp: settled_def)

lemma transition_parents:
  assumes "tasks_ok d" "parents_ok d" "apply_transition r x d = Inr u"
  shows "parents_ok u"
  unfolding parents_ok_def
proof (intro ballI allI impI)
  fix t p
  assume t: "t \<in> set (db_tasks u)" "xt_parent_id t = Some p" "closing (stored_state u p)"
  obtain t' where t': "t' \<in> set (db_tasks d)" "xt_task_exec_id t' = xt_task_exec_id t" "xt_parent_id t' = Some p"
    using rows_transfer [OF transition_rows [OF assms(3)] t(1)] t(2) by metis
  note state = transition_effect(1) [OF assms(1,3)]
  have "settled (stored_state d (xt_task_exec_id t'))"
  proof (cases "p = tt_task_exec_id x")
    case True
    then have "closing (Some (tt_to x))" using t(3) by (simp add: state)
    from children_settled [OF assms(1) transition_guard [OF assms(3) this] t'(1)] t'(3) True
    show ?thesis by simp
  next
    case False
    then have "closing (stored_state d p)" using t(3) by (simp add: state)
    with assms(2) t' show ?thesis by (auto simp: parents_ok_def)
  qed
  then show "settled (stored_state u (xt_task_exec_id t))"
    using settled_not_moved [OF assms(1,3)] t'(2) state by metis
qed

lemma new_task_parents:
  assumes "tasks_ok d" "parents_ok d" "insert_task r t d = Inr u" "open_parent d t"
  shows "parents_ok u"
  unfolding parents_ok_def
proof (intro ballI allI impI)
  fix x p
  assume x: "x \<in> set (db_tasks u)" "xt_parent_id x = Some p" "closing (stored_state u p)"
  note state = insert_task_state(1,2) [OF assms(3)]
  have p: "closing (stored_state d p)"
    using x(3) by (auto simp: state(1) closing_def split: if_splits)
  have "x \<in> set (db_tasks d)"
  proof (rule ccontr)
    assume "x \<notin> set (db_tasks d)"
    then have "xt_parent_id x = nt_parent_id t"
      using x(1) assms(3) by (auto simp: insert_task_def return_iff)
    with p x(2) assms(4) show False by (simp add: open_parent_def)
  qed
  with assms(2) x(2) p have "settled (stored_state d (xt_task_exec_id x))" by (auto simp: parents_ok_def)
  then show "settled (stored_state u (xt_task_exec_id x))"
    using state by (auto simp: settled_def)
qed

lemma new_tasks_parents:
  assumes "for_each (insert_task r) ts d = Inr u" "tasks_ok d" "parents_ok d" "list_all (open_parent d) ts"
  shows "parents_ok u"
  using assms
proof (induction ts arbitrary: d)
  case (Cons t ts)
  then obtain v where v: "insert_task r t d = Inr v" "for_each (insert_task r) ts v = Inr u"
    by (auto simp: return_iff)
  have "list_all (open_parent v) ts"
    using Cons.prems(4) insert_task_state(1) [OF v(1)]
    by (auto simp: list_all_iff open_parent_def closing_def split: option.splits)
  with Cons.IH [OF v(2)] new_task_parents [OF _ _ v(1)] insert_task_state(3) [OF v(1)] Cons.prems
  show ?case by simp
qed simp

lemma commit_parents:
  assumes "commit_tables c start d = Inr (rc, u)" "tasks_ok d" "parents_ok d"
    and "list_all (open_parent d) (ec_new_tasks c)"
  shows "parents_ok u"
proof -
  have "tasks_ok u \<and> parents_ok u"
  proof (rule commit_tasks_invariant [OF assms(1)])
    fix d1
    assume new: "for_each (insert_task (ec_run_id c)) (ec_new_tasks c) d = Inr d1"
    have "tasks_ok d1"
      by (rule for_each_invariant [where P = tasks_ok, OF new assms(2)]) (rule insert_task_state(3))
    with new_tasks_parents [OF new assms(2,3,4)] show "tasks_ok d1 \<and> parents_ok d1" by simp
  next
    fix x d u
    assume step: "apply_transition (ec_run_id c) x d = Inr u" and "tasks_ok d \<and> parents_ok d"
    with transition_parents [OF _ _ step] transition_effect(3) [OF _ step]
    show "tasks_ok u \<and> parents_ok u" by simp
  next
    fix x d u
    assume step: "request_cancel (ec_run_id c) x d = Inr u" and ok: "tasks_ok d \<and> parents_ok d"
    have rows: "map (\<lambda>t. (xt_task_exec_id t, xt_parent_id t)) (db_tasks u) =
        map (\<lambda>t. (xt_task_exec_id t, xt_parent_id t)) (db_tasks d)"
      using step by (auto simp: request_cancel_def return_iff map_update_where)
    have "parents_ok u"
      unfolding parents_ok_def
    proof (intro ballI allI impI)
      fix t p
      assume "t \<in> set (db_tasks u)" "xt_parent_id t = Some p" "closing (stored_state u p)"
      then show "settled (stored_state u (xt_task_exec_id t))"
        using rows_transfer [OF rows] ok unfolding parents_ok_def cancel_state(1) [OF step] by metis
    qed
    with cancel_state(2) [OF step] ok show "tasks_ok u \<and> parents_ok u" by simp
  qed (simp add: tasks_ok_def parents_ok_def stored_state_def)
  then show ?thesis ..
qed

section \<open>Lemmas: prompts\<close>

definition prompt_keys :: "db \<Rightarrow> (string \<times> string) list" where
  "prompt_keys d = map (\<lambda>p. (ps_run_id p, ps_idempotency_key p)) (db_prompts d)"

lemma prompt_present_iff: "prompt_key_present d r k \<longleftrightarrow> (r, k) \<in> set (prompt_keys d)"
  by (auto simp: prompt_key_present_def prompt_keys_def list_ex_iff)

lemma insert_prompts_keys:
  "for_each (insert_prompt r) ps d = Inr u \<Longrightarrow>
   prompt_keys u = prompt_keys d @ map (\<lambda>p. (r, np_idempotency_key p)) ps"
proof (induction ps arbitrary: d)
  case (Cons p ps)
  then obtain v where v: "insert_prompt r p d = Inr v" "for_each (insert_prompt r) ps v = Inr u"
    by (auto simp: return_iff)
  have "prompt_keys v = prompt_keys d @ [(r, np_idempotency_key p)]"
    using v(1) by (auto simp: insert_prompt_def return_iff Let_def prompt_keys_def)
  with Cons.IH [OF v(2)] show ?case by simp
qed simp

lemma prompt_keys_frame:
  "insert_task r t d = Inr u \<Longrightarrow> prompt_keys u = prompt_keys d"
  "set_result r x d = Inr u \<Longrightarrow> prompt_keys u = prompt_keys d"
  "update_prompt r y d = Inr u \<Longrightarrow> prompt_keys u = prompt_keys d"
  "apply_transition r m d = Inr u \<Longrightarrow> prompt_keys u = prompt_keys d"
  "request_cancel r i d = Inr u \<Longrightarrow> prompt_keys u = prompt_keys d"
  "clear_prompt r k d = Inr u \<Longrightarrow> prompt_keys u = prompt_keys d"
  "insert_intent r z d = Inr u \<Longrightarrow> prompt_keys u = prompt_keys d"
  using db_frames(1) [OF insert_task_frame, of r t d u] db_frames(4) [OF set_result_frame, of r x d u]
    db_frames(1) [OF apply_transition_frame, of r m d u] db_frames(1) [OF request_cancel_frame, of r i d u]
    db_frames(4) [OF insert_intent_frame, of r z d u]
  by (auto simp: prompt_keys_def map_update_where update_prompt_def clear_prompt_def return_iff Let_def)

lemma commit_prompt_keys:
  assumes "commit_tables c start d = Inr (rc, u)"
  shows "prompt_keys u = prompt_keys d @ map (\<lambda>p. (ec_run_id c, np_idempotency_key p)) (ec_prompts c)"
proof -
  obtain d1 d2 d3 d4 d5 d6 d7 d8 d9 nxt seqs where stages:
    "for_each (insert_task (ec_run_id c)) (ec_new_tasks c) d = Inr d1"
    "for_each (insert_prompt (ec_run_id c)) (ec_prompts c) d1 = Inr d2"
    "for_each (set_result (ec_run_id c)) (ec_checkpoint_results c) d2 = Inr d3"
    "for_each (update_prompt (ec_run_id c)) (ec_prompt_content_updates c) d3 = Inr d4"
    "for_each (apply_transition (ec_run_id c)) (ec_transitions c) d4 = Inr d5"
    "for_each (request_cancel (ec_run_id c)) (ec_cancel_requests c) d5 = Inr d6"
    "for_each (clear_prompt (ec_run_id c)) (ec_prompt_content_clears c) d6 = Inr d7"
    "for_each (insert_intent (ec_run_id c)) (ec_checkpoint_intents c) d7 = Inr d8"
    "for_each (insert_event (ec_run_id c)) (ec_events c)
       (update_run (ec_run_id c) (ec_run_update c) d8, start, []) = Inr (d9, nxt, seqs)"
    "rc = \<lparr>rc_event_seqs = seqs, rc_duplicate_prompts = []\<rparr>"
    "u = fold (rewrite_event (ec_run_id c)) (ec_event_rewrites c) (set_next_seq (ec_run_id c) nxt d9)"
    using assms by (rule commit_stages)
  let ?keep = "\<lambda>v. prompt_keys v = prompt_keys d2"
  have "prompt_keys d1 = prompt_keys d" by (rule for_each_frame [OF stages(1)]) (rule prompt_keys_frame(1))
  moreover have "prompt_keys d3 = prompt_keys d2"
    by (rule for_each_frame [OF stages(3)]) (rule prompt_keys_frame(2))
  moreover have "prompt_keys d4 = prompt_keys d3"
    by (rule for_each_frame [OF stages(4)]) (rule prompt_keys_frame(3))
  moreover have "prompt_keys d5 = prompt_keys d4"
    by (rule for_each_frame [OF stages(5)]) (rule prompt_keys_frame(4))
  moreover have "prompt_keys d6 = prompt_keys d5"
    by (rule for_each_frame [OF stages(6)]) (rule prompt_keys_frame(5))
  moreover have "prompt_keys d7 = prompt_keys d6"
    by (rule for_each_frame [OF stages(7)]) (rule prompt_keys_frame(6))
  moreover have "prompt_keys d8 = prompt_keys d7"
    by (rule for_each_frame [OF stages(8)]) (rule prompt_keys_frame(7))
  moreover have "prompt_keys d9 = prompt_keys d8"
    by (rule events_loop_invariant [where P = "\<lambda>v. prompt_keys v = prompt_keys d8", OF stages(9)])
      (auto simp: prompt_keys_def update_run_def fresh_event_def split: option.split)
  moreover have "prompt_keys u = prompt_keys d9"
    unfolding stages(11)
    by (rule fold_invariant [where P = "\<lambda>v. prompt_keys v = prompt_keys d9"])
      (auto simp: prompt_keys_def rewrite_event_def set_next_seq_def split: option.split)
  ultimately show ?thesis using insert_prompts_keys [OF stages(2)] by simp
qed

lemma duplicates_present:
  "p \<in> set ps \<Longrightarrow> prompt_key_present d r (np_idempotency_key p) \<Longrightarrow>
   np_idempotency_key p \<in> set (duplicates_from d r seen ps)"
  by (induction ps arbitrary: seen) (auto simp: Let_def)

lemma duplicates_none:
  "duplicates_from d r seen ps = [] \<Longrightarrow>
   distinct (map np_idempotency_key ps) \<and> seen \<inter> np_idempotency_key ` set ps = {}
   \<and> (\<forall>p \<in> set ps. \<not> prompt_key_present d r (np_idempotency_key p))"
  by (induction ps arbitrary: seen) (auto simp: Let_def split: if_splits)

section \<open>Lemmas: events\<close>

definition event_at :: "string \<Rightarrow> int \<Rightarrow> string \<Rightarrow> EventRow" where
  "event_at r n payload = \<lparr>ev_run_id = r, ev_seq = n, ev_payload_json = payload\<rparr>"

fun event_rows :: "string \<Rightarrow> int \<Rightarrow> string list \<Rightarrow> EventRow list" where
  "event_rows r n [] = []"
| "event_rows r n (p # ps) = event_at r n p # event_rows r (n + 1) ps"

lemma events_loop:
  "for_each (insert_event r) ps (d, n, seqs) = Inr (u, m, ss) \<Longrightarrow>
   u = d\<lparr>db_events := db_events d @ event_rows r n ps\<rparr> \<and> m = n + int (length ps)
   \<and> ss = seqs @ [nat n..<nat n + length ps]"
proof (induction ps arbitrary: d n seqs)
  case (Cons p ps)
  then have "0 \<le> n" and rest: "for_each (insert_event r) ps (fresh_event r n p d, n + 1, seqs @ [nat n]) = Inr (u, m, ss)"
    by (auto simp: return_iff insert_event_iff)
  have "[nat n..<nat n + length (p # ps)] = nat n # [nat (n + 1)..<nat (n + 1) + length ps]"
    using \<open>0 \<le> n\<close> by (simp add: upt_conv_Cons nat_add_distrib del: upt_Suc)
  with Cons.IH [OF rest] show ?case by (simp add: fresh_event_def event_at_def del: upt_Suc)
qed simp

definition event_key :: "EventRow \<Rightarrow> string \<times> int" where
  "event_key e = (ev_run_id e, ev_seq e)"

definition numbered :: "db \<Rightarrow> EventRow \<Rightarrow> bool" where
  "numbered d e =
     (case find_run d (ev_run_id e) of
        Some r \<Rightarrow> 1 \<le> ev_seq e \<and> ev_seq e < ar_next_event_seq r | None \<Rightarrow> False)"

definition events_ok :: "db \<Rightarrow> bool" where
  "events_ok d \<longleftrightarrow>
     distinct (map ar_run_id (db_runs d)) \<and> distinct (map event_key (db_events d))
     \<and> list_all (\<lambda>r. 1 \<le> ar_next_event_seq r) (db_runs d)
     \<and> list_all (numbered d) (db_events d)"

lemma update_run_row_keeps [simp]:
  "ar_run_id (update_run_row x r) = ar_run_id r" "ar_next_event_seq (update_run_row x r) = ar_next_event_seq r"
  by (simp_all add: update_run_row_def set_if_def split: option.split)

lemma event_keys_rows: "map event_key (event_rows r n ps) = map (\<lambda>i. (r, n + int i)) [0..<length ps]"
  by (induction ps arbitrary: n)
    (simp_all add: event_at_def event_key_def upt_conv_Cons map_Suc_upt [symmetric] del: upt_Suc)

lemma rewrite_frame [simp]:
  "map event_key (db_events (rewrite_event r w d)) = map event_key (db_events d)"
  "db_runs (rewrite_event r w d) = db_runs d"
  by (simp_all add: rewrite_event_def map_update_where event_key_def split: option.split)

lemma rewrites_frame [simp]:
  "map event_key (db_events (fold (rewrite_event r) ws d)) = map event_key (db_events d)"
  "db_runs (fold (rewrite_event r) ws d) = db_runs d"
  by (induction ws arbitrary: d) simp_all

lemma numbered_keys:
  assumes "map event_key (db_events u) = map event_key (db_events d)" "db_runs u = db_runs d"
  shows "list_all (numbered u) (db_events u) = list_all (numbered d) (db_events d)"
proof -
  have key: "numbered d e = (case find_run d (fst (event_key e)) of
      Some r \<Rightarrow> 1 \<le> snd (event_key e) \<and> snd (event_key e) < ar_next_event_seq r | None \<Rightarrow> False)" for e d
    by (cases "find_run d (ev_run_id e)") (simp_all add: numbered_def event_key_def)
  have all: "list_all (numbered d) es = list_all (\<lambda>k. case find_run d (fst k) of
      Some r \<Rightarrow> 1 \<le> snd k \<and> snd k < ar_next_event_seq r | None \<Rightarrow> False) (map event_key es)" for es d
    by (simp add: list_all_iff key)
  show ?thesis unfolding all assms(1) using assms(2) by (simp add: find_run_def)
qed

lemma events_ok_cong:
  assumes "map event_key (db_events u) = map event_key (db_events d)" "db_runs u = db_runs d"
  shows "events_ok u = events_ok d"
  using numbered_keys [OF assms] assms by (simp add: events_ok_def)

lemma rewrites_events_only:
  "db_events a = db_events b \<Longrightarrow> db_events (fold (rewrite_event r) ws a) = db_events (fold (rewrite_event r) ws b)"
proof (induction ws arbitrary: a b)
  case (Cons w ws)
  have "db_events (rewrite_event r w a) = db_events (rewrite_event r w b)"
    using Cons.prems by (simp add: rewrite_event_def split: option.split)
  from Cons.IH [OF this] show ?case by simp
qed simp

definition log_part :: "db \<Rightarrow> RunRow list \<times> EventRow list \<times> OwnerRow option" where
  "log_part d = (db_runs d, db_events d, db_owner d)"

lemma log_frame:
  "insert_task r t d = Inr u \<Longrightarrow> log_part u = log_part d"
  "insert_prompt r p d = Inr u \<Longrightarrow> log_part u = log_part d"
  "set_result r x d = Inr u \<Longrightarrow> log_part u = log_part d"
  "update_prompt r y d = Inr u \<Longrightarrow> log_part u = log_part d"
  "apply_transition r m d = Inr u \<Longrightarrow> log_part u = log_part d"
  "request_cancel r i d = Inr u \<Longrightarrow> log_part u = log_part d"
  "clear_prompt r k d = Inr u \<Longrightarrow> log_part u = log_part d"
  "insert_intent r z d = Inr u \<Longrightarrow> log_part u = log_part d"
  using db_frames(1) [OF insert_task_frame, of r t d u] db_frames(3) [OF insert_prompt_frame, of r p d u]
    db_frames(4) [OF set_result_frame, of r x d u] db_frames(2) [OF update_prompt_frame, of r y d u]
    db_frames(1) [OF apply_transition_frame, of r m d u] db_frames(1) [OF request_cancel_frame, of r i d u]
    db_frames(2) [OF clear_prompt_frame, of r k d u] db_frames(4) [OF insert_intent_frame, of r z d u]
  unfolding log_part_def by auto

lemma commit_log:
  assumes "commit_tables c start d = Inr (rc, u)"
  shows "rc = \<lparr>rc_event_seqs = [nat start..<nat start + length (ec_events c)], rc_duplicate_prompts = []\<rparr>"
    and "db_events u = db_events (fold (rewrite_event (ec_run_id c)) (ec_event_rewrites c)
      (d\<lparr>db_events := db_events d @ event_rows (ec_run_id c) start (ec_events c)\<rparr>))"
    and "db_runs u = db_runs (set_next_seq (ec_run_id c) (start + int (length (ec_events c)))
      (update_run (ec_run_id c) (ec_run_update c) d))"
    and "db_owner u = db_owner d"
proof -
  obtain d1 d2 d3 d4 d5 d6 d7 d8 d9 nxt seqs where stages:
    "for_each (insert_task (ec_run_id c)) (ec_new_tasks c) d = Inr d1"
    "for_each (insert_prompt (ec_run_id c)) (ec_prompts c) d1 = Inr d2"
    "for_each (set_result (ec_run_id c)) (ec_checkpoint_results c) d2 = Inr d3"
    "for_each (update_prompt (ec_run_id c)) (ec_prompt_content_updates c) d3 = Inr d4"
    "for_each (apply_transition (ec_run_id c)) (ec_transitions c) d4 = Inr d5"
    "for_each (request_cancel (ec_run_id c)) (ec_cancel_requests c) d5 = Inr d6"
    "for_each (clear_prompt (ec_run_id c)) (ec_prompt_content_clears c) d6 = Inr d7"
    "for_each (insert_intent (ec_run_id c)) (ec_checkpoint_intents c) d7 = Inr d8"
    "for_each (insert_event (ec_run_id c)) (ec_events c)
       (update_run (ec_run_id c) (ec_run_update c) d8, start, []) = Inr (d9, nxt, seqs)"
    "rc = \<lparr>rc_event_seqs = seqs, rc_duplicate_prompts = []\<rparr>"
    "u = fold (rewrite_event (ec_run_id c)) (ec_event_rewrites c) (set_next_seq (ec_run_id c) nxt d9)"
    using assms by (rule commit_stages)
  have "log_part d1 = log_part d" by (rule for_each_frame [OF stages(1)]) (rule log_frame(1))
  moreover have "log_part d2 = log_part d1" by (rule for_each_frame [OF stages(2)]) (rule log_frame(2))
  moreover have "log_part d3 = log_part d2" by (rule for_each_frame [OF stages(3)]) (rule log_frame(3))
  moreover have "log_part d4 = log_part d3" by (rule for_each_frame [OF stages(4)]) (rule log_frame(4))
  moreover have "log_part d5 = log_part d4" by (rule for_each_frame [OF stages(5)]) (rule log_frame(5))
  moreover have "log_part d6 = log_part d5" by (rule for_each_frame [OF stages(6)]) (rule log_frame(6))
  moreover have "log_part d7 = log_part d6" by (rule for_each_frame [OF stages(7)]) (rule log_frame(7))
  moreover have "log_part d8 = log_part d7" by (rule for_each_frame [OF stages(8)]) (rule log_frame(8))
  ultimately have d8: "db_runs d8 = db_runs d" "db_events d8 = db_events d" "db_owner d8 = db_owner d"
    by (simp_all add: log_part_def)
  let ?v = "update_run (ec_run_id c) (ec_run_update c) d8"
  have v: "db_events ?v = db_events d" "db_owner ?v = db_owner d"
    "db_runs ?v = db_runs (update_run (ec_run_id c) (ec_run_update c) d)"
    using d8 by (simp_all add: update_run_def split: option.split)
  note loop = events_loop [OF stages(9)]
  show "rc = \<lparr>rc_event_seqs = [nat start..<nat start + length (ec_events c)], rc_duplicate_prompts = []\<rparr>"
    using stages(10) loop by simp
  show "db_runs u = db_runs (set_next_seq (ec_run_id c) (start + int (length (ec_events c)))
      (update_run (ec_run_id c) (ec_run_update c) d))"
    using loop v(3) unfolding stages(11) by (simp add: set_next_seq_def)
  have "db_owner (fold (rewrite_event r) ws w) = db_owner w" for r ws w
    by (induction ws arbitrary: w) (simp_all add: rewrite_event_def split: option.split)
  then show "db_owner u = db_owner d" using loop v(2) unfolding stages(11) by (simp add: set_next_seq_def)
  show "db_events u = db_events (fold (rewrite_event (ec_run_id c)) (ec_event_rewrites c)
      (d\<lparr>db_events := db_events d @ event_rows (ec_run_id c) start (ec_events c)\<rparr>))"
    unfolding stages(11) by (rule rewrites_events_only) (use loop v(1) in \<open>simp add: set_next_seq_def\<close>)
qed

lemma find_run_update:
  assumes "\<And>y. ar_run_id (f y) = ar_run_id y"
  shows "find_run (d\<lparr>db_runs := update_where (\<lambda>y. ar_run_id y = r) f (db_runs d)\<rparr>) i =
    (if i = r then map_option f (find_run d i) else find_run d i)"
proof -
  have *: "find_run (d\<lparr>db_runs := update_where (\<lambda>y. ar_run_id y = r) f (db_runs d)\<rparr>) i =
      map_option (\<lambda>y. if ar_run_id y = r then f y else y) (find_run d i)"
    unfolding find_run_def by (simp add: find_update_where [of ar_run_id f, OF assms])
  show ?thesis
  proof (cases "find_run d i")
    case (Some y)
    then have "ar_run_id y = i" unfolding find_run_def by (rule find_id)
    with * Some show ?thesis by auto
  qed (use * in auto)
qed

lemma find_run_next:
  assumes "find_run d r = Some run"
  shows "\<exists>run'. find_run (set_next_seq r n (update_run r x d)) r = Some run' \<and> ar_next_event_seq run' = n"
    and "i \<noteq> r \<Longrightarrow> find_run (set_next_seq r n (update_run r x d)) i = find_run d i"
proof -
  define v where "v = update_run r x d"
  have v: "find_run v r \<noteq> None" "i \<noteq> r \<Longrightarrow> find_run v i = find_run d i"
    using assms by (auto simp: v_def update_run_def find_run_update split: option.split)
  show "\<exists>run'. find_run (set_next_seq r n (update_run r x d)) r = Some run' \<and> ar_next_event_seq run' = n"
    "i \<noteq> r \<Longrightarrow> find_run (set_next_seq r n (update_run r x d)) i = find_run d i"
    using v unfolding v_def [symmetric] by (auto simp: set_next_seq_def find_run_update)
qed

lemma find_run_runs: "db_runs u = db_runs d \<Longrightarrow> find_run u r = find_run d r"
  by (simp add: find_run_def)

lemma run_in: "find_run d r = Some run \<Longrightarrow> run \<in> set (db_runs d) \<and> ar_run_id run = r"
  by (auto simp: find_run_def find_Some_iff)

lemma runs_next:
  "db_runs (set_next_seq r n (update_run r x d)) = update_where (\<lambda>y. ar_run_id y = r)
     (\<lambda>y. (case x of None \<Rightarrow> y | Some u \<Rightarrow> update_run_row u y)\<lparr>ar_next_event_seq := n\<rparr>) (db_runs d)"
  by (cases x) (auto simp: set_next_seq_def update_run_def update_where_def)

lemma commit_events_ok:
  assumes commit: "commit_tables c (ar_next_event_seq run) d = Inr (rc, u)"
    and run: "find_run d (ec_run_id c) = Some run" and ok: "events_ok d"
  shows "events_ok u"
    and "\<exists>run'. find_run u (ec_run_id c) = Some run'
      \<and> ar_next_event_seq run' = ar_next_event_seq run + int (length (ec_events c))"
proof -
  let ?r = "ec_run_id c" and ?n = "ar_next_event_seq run" and ?k = "int (length (ec_events c))"
  note effect = commit_log [OF commit]
  have n: "1 \<le> ?n" using run_in [OF run] ok by (auto simp: events_ok_def list_all_iff)
  note found = find_run_next [OF run, where n = "?n + ?k" and x = "ec_run_update c"]
  have find: "find_run u i = find_run (set_next_seq ?r (?n + ?k) (update_run ?r (ec_run_update c) d)) i" for i
    using effect(3) by (rule find_run_runs)
  then show "\<exists>run'. find_run u ?r = Some run' \<and> ar_next_event_seq run' = ?n + ?k" using found(1) by simp
  then obtain run' where run': "find_run u ?r = Some run'" "ar_next_event_seq run' = ?n + ?k" by blast
  have keys: "map event_key (db_events u) =
      map event_key (db_events d) @ map (\<lambda>i. (?r, ?n + int i)) [0..<length (ec_events c)]"
    unfolding effect(2) by (simp add: event_keys_rows)
  have old: "fst (event_key e) = ?r \<Longrightarrow> snd (event_key e) < ?n" if "e \<in> set (db_events d)" for e
    using ok that run by (auto simp: events_ok_def list_all_iff numbered_def event_key_def)
  have fresh: "event_key e \<noteq> (?r, ?n + int i)" if "e \<in> set (db_events d)" for e i
    using old [OF that] by (cases "event_key e") auto
  have "distinct (map event_key (db_events d))" using ok by (simp add: events_ok_def)
  moreover have "distinct (map (\<lambda>i. (?r, ?n + int i)) [0..<length (ec_events c)])"
    by (simp add: distinct_map inj_on_def)
  moreover have "set (map event_key (db_events d)) \<inter> set (map (\<lambda>i. (?r, ?n + int i)) [0..<length (ec_events c)]) = {}"
  proof (rule equals0I, elim IntE)
    fix x
    assume "x \<in> set (map event_key (db_events d))" "x \<in> set (map (\<lambda>i. (?r, ?n + int i)) [0..<length (ec_events c)])"
    then obtain e i where "e \<in> set (db_events d)" "event_key e = (?r, ?n + int i)" by auto
    with fresh show False by blast
  qed
  ultimately have "distinct (map event_key (db_events u))" unfolding keys by (simp only: distinct_append)
  moreover have "list_all (numbered u) (db_events u)"
    unfolding list_all_iff
  proof
    fix e
    assume "e \<in> set (db_events u)"
    then have "event_key e \<in> set (map event_key (db_events u))" by simp
    then consider (old) e' where "e' \<in> set (db_events d)" "event_key e' = event_key e"
      | (new) i where "event_key e = (?r, ?n + int i)" "i < length (ec_events c)"
      unfolding keys by auto
    then show "numbered u e"
    proof cases
      case old
      then have "numbered d e'" using ok by (simp add: events_ok_def list_all_iff)
      moreover have "numbered d e = numbered d e'" using old(2) by (simp add: numbered_def event_key_def split: option.split)
      ultimately have d: "numbered d e" by simp
      show ?thesis
      proof (cases "ev_run_id e = ?r")
        case True
        with d run run' show ?thesis by (simp add: numbered_def)
      next
        case False
        with d found(2) find show ?thesis by (simp add: numbered_def)
      qed
    next
      case new
      then show ?thesis using n run' by (auto simp: numbered_def event_key_def)
    qed
  qed
  moreover have "distinct (map ar_run_id (db_runs u))" "list_all (\<lambda>r. 1 \<le> ar_next_event_seq r) (db_runs u)"
    using ok n unfolding effect(3) runs_next
    by (auto simp: events_ok_def map_update_where list_all_iff set_update_where split: option.split)
  ultimately show "events_ok u" by (simp add: events_ok_def)
qed

section \<open>Lemmas: a whole commit\<close>

lemma commit_cases:
  assumes "commit_execution fence c d = (res, u)"
  obtains (failed) e where "res = Inl e" "u = d"
    | (duplicate) ks where "res = Inr \<lparr>rc_event_seqs = [], rc_duplicate_prompts = ks\<rparr>" "u = d" "ks \<noteq> []"
        "ks = duplicates_from d (ec_run_id c) {} (ec_prompts c)" "\<not> fenced (effective_fence fence c) d"
        "find_run d (ec_run_id c) \<noteq> None"
    | (written) run rc where "res = Inr rc" "find_run d (ec_run_id c) = Some run"
        "commit_tables c (ar_next_event_seq run) d = Inr (rc, u)" "\<not> fenced (effective_fence fence c) d"
        "duplicates_from d (ec_run_id c) {} (ec_prompts c) = []"
proof (cases "fenced (effective_fence fence c) d")
  case True
  with assms failed show ?thesis by (auto simp: commit_execution_def)
next
  case unfenced: False
  show ?thesis
  proof (cases "find_run d (ec_run_id c)")
    case None
    with unfenced assms failed show ?thesis by (auto simp: commit_execution_def)
  next
    case (Some run)
    let ?ks = "duplicates_from d (ec_run_id c) {} (ec_prompts c)"
    show ?thesis
    proof (cases "?ks = []")
      case False
      with unfenced Some assms have "res = Inr \<lparr>rc_event_seqs = [], rc_duplicate_prompts = ?ks\<rparr>" "u = d"
        by (auto simp: commit_execution_def)
      with False unfenced Some show ?thesis using duplicate by simp
    next
      case fresh: True
      show ?thesis
      proof (cases "commit_tables c (ar_next_event_seq run) d")
        case (Inl e)
        with unfenced Some fresh assms failed show ?thesis by (auto simp: commit_execution_def)
      next
        case (Inr v)
        then obtain rc w where v: "commit_tables c (ar_next_event_seq run) d = Inr (rc, w)" by (cases v) simp
        with unfenced Some fresh assms have "res = Inr rc" "u = w" by (auto simp: commit_execution_def)
        with v unfenced Some fresh show ?thesis using written by simp
      qed
    qed
  qed
qed

lemma commit_execution_invariant:
  assumes "commit_execution fence c d = (res, u)" "P d"
    and "\<And>run rc. find_run d (ec_run_id c) = Some run \<Longrightarrow>
      commit_tables c (ar_next_event_seq run) d = Inr (rc, u) \<Longrightarrow> P u"
  shows "P u"
  using assms(1) by (cases rule: commit_cases) (use assms(2,3) in auto)

lemma event_rows_bound: "e \<in> set (event_rows r n ps) \<Longrightarrow> ev_run_id e = r \<and> n \<le> ev_seq e"
  by (induction ps arbitrary: n) (force simp: event_at_def)+

lemma event_rows_sorted: "sorted (map ev_seq (event_rows r n ps))"
proof (induction ps arbitrary: n)
  case (Cons p ps)
  then show ?case using event_rows_bound [of _ r "n + 1" ps] by (fastforce simp: event_at_def)
qed simp

lemma event_rows_zip:
  "0 \<le> n \<Longrightarrow> map (\<lambda>e. (nat (ev_seq e), ev_payload_json e)) (event_rows r n ps) =
     zip [nat n..<nat n + length ps] ps"
proof (induction ps arbitrary: n)
  case (Cons p ps)
  have "[nat n..<nat n + length (p # ps)] = nat n # [nat (n + 1)..<nat (n + 1) + length ps]"
    using Cons.prems by (simp add: upt_conv_Cons nat_add_distrib del: upt_Suc)
  with Cons show ?case by (simp add: event_at_def del: upt_Suc)
qed simp

lemma events_since_rows:
  assumes "events_ok d" "find_run d r = Some run" "ar_next_event_seq run = n"
    and "db_events u = db_events d @ event_rows r n ps" "ps \<noteq> [] \<Longrightarrow> n \<le> 2 ^ 63"
  shows "execution_events_since u r (nat n - 1) = Inr (zip [nat n..<nat n + length ps] ps)"
proof -
  have n: "1 \<le> n" using run_in [OF assms(2)] assms(1,3) by (auto simp: events_ok_def list_all_iff)
  then have pred: "int (nat n - 1) = n - 1" by simp
  have "\<not> (ev_run_id e = r \<and> ev_seq e > n - 1)" if "e \<in> set (db_events d)" for e
    using that assms(1,2,3) by (auto simp: events_ok_def list_all_iff numbered_def)
  then have rows: "filter (\<lambda>e. ev_run_id e = r \<and> ev_seq e > n - 1) (db_events u) = event_rows r n ps"
    using event_rows_bound [of _ r n ps] unfolding assms(4) by (force simp: filter_id_conv filter_empty_conv)
  have no_negative: "\<not> list_ex (\<lambda>e. ev_seq e < 0) (event_rows r n ps)"
    using event_rows_bound [of _ r n ps] n by (force simp: list_ex_iff)
  show ?thesis
  proof (cases "i64_of_u64 (nat n - 1)")
    case None
    then have "\<not> n \<le> 2 ^ 63" using n by (auto simp: i64_of_u64_def split: if_splits)
    with assms(5) have "ps = []" by blast
    with None show ?thesis by (simp add: execution_events_since_def)
  next
    case (Some m)
    then have "m = n - 1" using pred by (auto simp: i64_of_u64_def split: if_splits)
    with Some show ?thesis
      using n by (simp add: execution_events_since_def rows no_negative event_rows_zip
          sort_key_id_if_sorted event_rows_sorted)
  qed
qed

lemma events_fit:
  "for_each (insert_event r) ps (d, n, seqs) = Inr v \<Longrightarrow> ps \<noteq> [] \<Longrightarrow> n \<le> 2 ^ 63"
  by (cases v; cases ps) (auto simp: return_iff insert_event_iff i64_in_range_def)

lemma commit_log_execution:
  assumes "events_ok d" "find_run d (ec_run_id c) = Some run"
    and "commit_tables c (ar_next_event_seq run) d = Inr (rc, u)" "ec_event_rewrites c = []"
  shows "execution_events_since u (ec_run_id c) (nat (ar_next_event_seq run) - 1) =
      Inr (zip (rc_event_seqs rc) (ec_events c))"
proof -
  obtain d8 d9 nxt seqs where loop: "for_each (insert_event (ec_run_id c)) (ec_events c)
      (update_run (ec_run_id c) (ec_run_update c) d8, ar_next_event_seq run, []) = Inr (d9, nxt, seqs)"
    by (rule commit_stages [OF assms(3)])
  have fit: "ar_next_event_seq run \<le> 2 ^ 63" if "ec_events c \<noteq> []" by (rule events_fit [OF loop that])
  have "db_events u = db_events d @ event_rows (ec_run_id c) (ar_next_event_seq run) (ec_events c)"
    using commit_log(2) [OF assms(3)] assms(4) by simp
  from events_since_rows [OF assms(1,2) refl this fit] show ?thesis
    using commit_log(1) [OF assms(3)] by simp
qed

lemma update_run_found: "find_run d r \<noteq> None \<Longrightarrow> find_run (set_next_seq s n (update_run s x d)) r \<noteq> None"
  by (auto simp: set_next_seq_def find_run_update update_run_def split: option.split)

lemma duplicates_all:
  "list_all (\<lambda>p. prompt_key_present d r (np_idempotency_key p)) ps \<Longrightarrow>
   duplicates_from d r seen ps = map np_idempotency_key ps"
  by (induction ps arbitrary: seen) (simp_all add: Let_def)

lemma commit_prompts_distinct:
  assumes "commit_tables c start d = Inr (rc, u)" "duplicates_from d (ec_run_id c) {} (ec_prompts c) = []"
    and "distinct (prompt_keys d)"
  shows "distinct (prompt_keys u)"
proof -
  have new: "distinct (map np_idempotency_key (ec_prompts c))"
    "\<forall>p \<in> set (ec_prompts c). \<not> prompt_key_present d (ec_run_id c) (np_idempotency_key p)"
    using duplicates_none [OF assms(2)] by auto
  then have "distinct (map (\<lambda>p. (ec_run_id c, np_idempotency_key p)) (ec_prompts c))"
    by (auto simp: distinct_map inj_on_def)
  with assms(3) new(2) show ?thesis unfolding commit_prompt_keys [OF assms(1)] by (auto simp: prompt_present_iff)
qed

section \<open>Properties\<close>


definition sample_db :: db where
  "sample_db = snd (commit_execution None (commit_default
     \<lparr>ec_run_id := ''r'', ec_new_tasks := [\<lparr>nt_task_exec_id = ''t'', nt_parent_id = None, nt_kind = ''prompt''\<rparr>],
      ec_events := [''a'', ''b'']\<rparr>)
     (snd (create_run \<lparr>nr_run_id = ''r'', nr_task_id = ''x'', nr_harness = ''h'', nr_model = ''m'',
        nr_created_unix_ms = 0\<rparr> db_empty)))"

definition sample_commit :: ExecutionCommit where
  "sample_commit = commit_default
     \<lparr>ec_run_id := ''r'', ec_prompts := [\<lparr>np_idempotency_key = ''k'', np_task_exec_id = ''t'', np_content_json = ''p''\<rparr>],
      ec_transitions := [\<lparr>tt_task_exec_id = ''t'', tt_to = XsRunning, tt_outcome_json = None\<rparr>],
      ec_events := [''c'']\<rparr>"


text \<open>C7: A prompt is submitted once: no two stored prompts of a run have the same idempotency key, and a commit
  that is repeated after it succeeded writes nothing, whatever else it contains: it answers with the keys of
  the prompts that are stored already.\<close>

theorem prompt_is_submitted_once:
  assumes "distinct (prompt_keys d)" "commit_execution fence c d = (res, u)"
  shows "distinct (prompt_keys u)
    \<and> (case res of
         Inl e \<Rightarrow> True
       | Inr rc \<Rightarrow> ec_prompts c \<noteq> [] \<longrightarrow>
           commit_execution fence c u =
             (Inr \<lparr>rc_event_seqs = [],
                   rc_duplicate_prompts = (if rc_duplicate_prompts rc = [] then map np_idempotency_key (ec_prompts c)
                                           else rc_duplicate_prompts rc)\<rparr>, u))"
  using assms(2)
proof (cases rule: commit_cases)
  case (written run rc)
  let ?r = "ec_run_id c"
  note keys = commit_prompt_keys [OF written(3)]
  have "distinct (prompt_keys u)" by (rule commit_prompts_distinct [OF written(3,5) assms(1)])
  moreover have "duplicates_from u ?r {} (ec_prompts c) = map np_idempotency_key (ec_prompts c)"
    by (rule duplicates_all) (auto simp: list_all_iff prompt_present_iff keys)
  moreover have "\<not> fenced (effective_fence fence c) u"
    using written(4) commit_log(4) [OF written(3)] by (simp add: fenced_def split: option.splits)
  moreover have "find_run u ?r \<noteq> None" using update_run_found [of d ?r] written(2)
    find_run_runs [OF commit_log(3) [OF written(3)]] by simp
  moreover have "rc_duplicate_prompts rc = []" using commit_log(1) [OF written(3)] by simp
  ultimately show ?thesis using written(1) by (auto simp: commit_execution_def)
qed (use assms in \<open>auto simp: commit_execution_def\<close>)

theorem prompt_is_submitted_once_witness:
  "commit_execution None sample_commit (snd (commit_execution None sample_commit sample_db)) =
     (Inr \<lparr>rc_event_seqs = [], rc_duplicate_prompts = [''k'']\<rparr>, snd (commit_execution None sample_commit sample_db))"
proof -
  obtain res u where u: "commit_execution None sample_commit sample_db = (res, u)" by fastforce
  have "distinct (prompt_keys sample_db)" by code_simp
  note * = prompt_is_submitted_once [OF this u]
  have "map_sum (\<lambda>_. ()) rc_duplicate_prompts (fst (commit_execution None sample_commit sample_db)) = Inr []"
    by code_simp
  then obtain rc where rc: "res = Inr rc" "rc_duplicate_prompts rc = []" using u by (cases res) auto
  have "map np_idempotency_key (ec_prompts sample_commit) = [''k'']" "ec_prompts sample_commit \<noteq> []"
    by (simp_all add: sample_commit_def commit_default_def)
  with * u rc show ?thesis by simp
qed


definition child_commit :: ExecutionCommit where
  "child_commit = commit_default
     \<lparr>ec_run_id := ''r'', ec_new_tasks := [\<lparr>nt_task_exec_id = ''u'', nt_parent_id = Some ''t'', nt_kind = ''tool''\<rparr>],
      ec_transitions := [\<lparr>tt_task_exec_id = ''u'', tt_to = XsCancelled, tt_outcome_json = None\<rparr>,
        \<lparr>tt_task_exec_id = ''t'', tt_to = XsRunning, tt_outcome_json = None\<rparr>,
        \<lparr>tt_task_exec_id = ''t'', tt_to = XsCompleting, tt_outcome_json = None\<rparr>]\<rparr>"


end
