(* ===== verification/Execution_Recovery.thy ===== *)
theory Execution_Recovery
  imports Execution_Store
begin

text \<open>
  Recovery and ownership of executions: \<open>crates/ajax-core/src/registry/sqlite/execution_recovery.rs\<close>, over
  the tables of \<open>Execution_Store\<close>: what a restarted server reads (runs, prompts, unfinished work), the
  import of a history, the pruning of events, the deletion of the runs of a task and the lease of the one
  server that may write. A read that finds a value out of the range of its Rust type fails. The section on
  histories puts all writers together in one step relation and states what every sequence of them keeps.
\<close>

section \<open>What a restarted server reads\<close>

record RunRecord =
  rr_run_id :: string
  rr_task_id :: string
  rr_harness :: string
  rr_model :: string
  rr_native_session_id :: "string option"
  rr_capabilities_json :: string
  rr_child :: "(int \<times> int) option"
  rr_owner_boot_id :: "string option"
  rr_schema_version :: nat
  rr_next_event_seq :: nat
  rr_unreadable_history_rows :: nat
  rr_child_started :: "string option"

record UnfinishedExecution =
  ux_task_exec_id :: string
  ux_run_id :: string
  ux_parent_id :: "string option"
  ux_kind :: string
  ux_state :: ExecutionState
  ux_cancel_requested :: bool
  ux_prompt :: "(string \<times> string) option"
  ux_checkpoint :: "UnfinishedCheckpoint option"
  ux_checkpoint_intent_json :: "string option"
  ux_external_operation_id :: "string option"

record RunPrompt =
  rp_idempotency_key :: string
  rp_task_exec_id :: string
  rp_content_json :: string
  rp_state :: ExecutionState

datatype OwnerClaim = OcAcquired "(string \<times> int) option" | OcHeldBy string int

fun collect_rows :: "('a \<Rightarrow> 'e + 'b) \<Rightarrow> 'a list \<Rightarrow> 'e + 'b list" where
  "collect_rows f [] = Inr []"
| "collect_rows f (x # xs) = and_then (f x) (\<lambda>y. and_then (collect_rows f xs) (\<lambda>ys. Inr (y # ys)))"

definition out_of_range :: RegistrySnapshotError where
  "out_of_range = SeDatabase ''Integer out of range''"

definition read_u32 :: "int \<Rightarrow> RegistrySnapshotError + nat" where
  "read_u32 i = (if 0 \<le> i \<and> i < 2 ^ 32 then Inr (nat i) else Inl out_of_range)"

definition read_u64 :: "int \<Rightarrow> RegistrySnapshotError + nat" where
  "read_u64 i = (if 0 \<le> i then Inr (nat i) else Inl out_of_range)"

definition zip_option :: "'a option \<Rightarrow> 'b option \<Rightarrow> ('a \<times> 'b) option" where
  "zip_option a b = (case (a, b) of (Some x, Some y) \<Rightarrow> Some (x, y) | _ \<Rightarrow> None)"

definition run_record_from_row :: "RunRow \<Rightarrow> RegistrySnapshotError + RunRecord" where
  "run_record_from_row r =
     and_then (read_u32 (ar_schema_version r)) (\<lambda>schema.
     and_then (read_u64 (ar_next_event_seq r)) (\<lambda>next.
     and_then (read_u64 (ar_unreadable_history_rows r)) (\<lambda>unreadable.
       Inr \<lparr>rr_run_id = ar_run_id r, rr_task_id = ar_task_id r, rr_harness = ar_harness r,
            rr_model = ar_model r, rr_native_session_id = ar_native_session_id r,
            rr_capabilities_json = ar_capabilities_json r,
            rr_child = zip_option (ar_child_pid r) (ar_child_pgid r),
            rr_owner_boot_id = ar_owner_boot_id r, rr_schema_version = schema,
            rr_next_event_seq = next, rr_unreadable_history_rows = unreadable,
            rr_child_started = ar_child_started r\<rparr>)))"

definition list_run_task_ids :: "db \<Rightarrow> string list" where
  "list_run_task_ids d = sort (remdups (map ar_task_id (db_runs d)))"

definition read_prompt :: "PromptRow \<times> TaskRow \<Rightarrow> RegistrySnapshotError + RunPrompt" where
  "read_prompt row =
     (case row of (p, t) \<Rightarrow>
        and_then (parse_state (xt_state t)) (\<lambda>s.
          Inr \<lparr>rp_idempotency_key = ps_idempotency_key p, rp_task_exec_id = ps_task_exec_id p,
               rp_content_json = ps_content_json p, rp_state = s\<rparr>))"

definition prompts_for_run :: "db \<Rightarrow> string \<Rightarrow> RegistrySnapshotError + RunPrompt list" where
  "prompts_for_run d run_id =
     collect_rows read_prompt
       (concat (map (\<lambda>p. map (Pair p)
            (filter (\<lambda>t. xt_task_exec_id t = ps_task_exec_id p \<and> xt_run_id t = ps_run_id p) (db_tasks d)))
          (sort_key ps_submission_id (filter (\<lambda>p. ps_run_id p = run_id) (db_prompts d)))))"

text \<open>\<open>ORDER BY rowid DESC LIMIT 1\<close>: rows are appended, so the last row is the latest.\<close>

definition latest_run_for_task :: "db \<Rightarrow> string \<Rightarrow> RegistrySnapshotError + RunRecord option" where
  "latest_run_for_task d task_id =
     (case rev (filter (\<lambda>r. ar_task_id r = task_id) (db_runs d)) of
        [] \<Rightarrow> Inr None
      | r # _ \<Rightarrow> and_then (run_record_from_row r) (\<lambda>x. Inr (Some x)))"

definition runs_with_children :: "db \<Rightarrow> RegistrySnapshotError + RunRecord list" where
  "runs_with_children d = collect_rows run_record_from_row (filter (\<lambda>r. ar_child_pid r \<noteq> None) (db_runs d))"

definition first_prompt :: "db \<Rightarrow> TaskRow \<Rightarrow> PromptRow option" where
  "first_prompt d t =
     min_by_key ps_submission_id
       (filter (\<lambda>p. ps_task_exec_id p = xt_task_exec_id t \<and> ps_run_id p = xt_run_id t) (db_prompts d))"

definition last_checkpoint :: "db \<Rightarrow> TaskRow \<Rightarrow> CheckpointRow option" where
  "last_checkpoint d t =
     find (\<lambda>c. max_version d (xt_task_exec_id t) = Some (cp_version c)) (task_checkpoints d (xt_task_exec_id t))"

definition read_checkpoint :: "CheckpointRow \<Rightarrow> RegistrySnapshotError + UnfinishedCheckpoint" where
  "read_checkpoint c =
     and_then (read_u32 (cp_schema_version c)) (\<lambda>schema.
       Inr \<lparr>uc_operation = operation_parse (cp_operation c), uc_policy = policy_parse (cp_replay_policy c),
            uc_schema_version = schema, uc_has_result = cp_result_json c \<noteq> None\<rparr>)"

definition read_unfinished :: "db \<Rightarrow> TaskRow \<Rightarrow> RegistrySnapshotError + UnfinishedExecution" where
  "read_unfinished d t =
     (let p = first_prompt d t; c = last_checkpoint d t in
      and_then (case c of None \<Rightarrow> Inr None
                | Some x \<Rightarrow> and_then (read_checkpoint x) (\<lambda>u. Inr (Some u))) (\<lambda>checkpoint.
      and_then (parse_state (xt_state t)) (\<lambda>s.
        Inr \<lparr>ux_task_exec_id = xt_task_exec_id t, ux_run_id = xt_run_id t, ux_parent_id = xt_parent_id t,
             ux_kind = xt_kind t, ux_state = s, ux_cancel_requested = xt_cancel_requested t,
             ux_prompt = map_option (\<lambda>x. (ps_idempotency_key x, ps_content_json x)) p,
             ux_checkpoint = checkpoint, ux_checkpoint_intent_json = map_option cp_intent_json c,
             ux_external_operation_id = (case c of None \<Rightarrow> None | Some x \<Rightarrow> cp_external_operation_id x)\<rparr>)))"

text \<open>\<open>ORDER BY t.run_id, p.submission_id IS NULL, p.submission_id, t.rowid\<close>.\<close>

definition unfinished_key :: "db \<Rightarrow> TaskRow \<Rightarrow> string \<times> bool \<times> nat" where
  "unfinished_key d t =
     (case first_prompt d t of
        None \<Rightarrow> (xt_run_id t, True, 0) | Some p \<Rightarrow> (xt_run_id t, False, ps_submission_id p))"

definition unfinished_row :: "TaskRow \<Rightarrow> bool" where
  "unfinished_row t \<longleftrightarrow> xt_state t \<notin> {''completed'', ''failed'', ''cancelled''}"

definition unfinished_executions :: "db \<Rightarrow> RegistrySnapshotError + UnfinishedExecution list" where
  "unfinished_executions d =
     collect_rows (read_unfinished d) (sort_key (unfinished_key d) (filter unfinished_row (db_tasks d)))"

section \<open>Writers\<close>

definition delete_runs_for_task :: "string \<Rightarrow> db \<Rightarrow> nat \<times> db" where
  "delete_runs_for_task task_id d =
     (let rids = map ar_run_id (filter (\<lambda>r. ar_task_id r = task_id) (db_runs d));
          tids = map xt_task_exec_id (filter (\<lambda>t. xt_run_id t \<in> set rids) (db_tasks d))
      in (length rids,
          d\<lparr>db_checkpoints := filter (\<lambda>c. cp_task_exec_id c \<notin> set tids) (db_checkpoints d),
            db_prompts := filter (\<lambda>p. ps_run_id p \<notin> set rids) (db_prompts d),
            db_events := filter (\<lambda>e. ev_run_id e \<notin> set rids) (db_events d),
            db_tasks := filter (\<lambda>t. xt_run_id t \<notin> set rids) (db_tasks d),
            db_runs := filter (\<lambda>r. ar_task_id r \<noteq> task_id) (db_runs d)\<rparr>))"

fun insert_history :: "string \<Rightarrow> (int \<times> string) list \<Rightarrow> db \<Rightarrow> RegistrySnapshotError + db" where
  "insert_history run_id [] d = Inr d"
| "insert_history run_id ((n, payload) # rest) d =
     and_then (insert_event_row run_id n payload d) (insert_history run_id rest)"

definition create_run_with_history ::
    "NewRun \<Rightarrow> string option \<Rightarrow> nat \<Rightarrow> string list \<Rightarrow> nat \<Rightarrow> db \<Rightarrow> (RegistrySnapshotError + unit) \<times> db" where
  "create_run_with_history n native_session_id first_seq events unreadable d =
     (case i64_of_u64 first_seq of
        None \<Rightarrow> (Inl (SeEncode ''invalid first event sequence''), d)
      | Some first \<Rightarrow>
          if first < 1 then (Inl (SeEncode ''invalid first event sequence''), d)
          else case i64_of_u64 (length events) of
            None \<Rightarrow> (Inl (SeEncode ''event sequence overflow''), d)
          | Some len \<Rightarrow>
              (case checked_add_i64 first len of
                 None \<Rightarrow> (Inl (SeEncode ''event sequence overflow''), d)
               | Some next \<Rightarrow>
                   if find_run d (nr_run_id n) \<noteq> None
                   then (Inl (SeDatabase ''UNIQUE constraint failed: agent_runs.run_id''), d)
                   else
                     let row = \<lparr>ar_run_id = nr_run_id n, ar_task_id = nr_task_id n,
                           ar_harness = nr_harness n, ar_model = nr_model n,
                           ar_native_session_id = native_session_id, ar_capabilities_json = ''{}'',
                           ar_child_pid = None, ar_child_pgid = None, ar_owner_boot_id = None,
                           ar_schema_version = int CHECKPOINT_SCHEMA_VERSION, ar_next_event_seq = next,
                           ar_created_unix_ms = nr_created_unix_ms n,
                           ar_unreadable_history_rows =
                             (case i64_of_u64 unreadable of Some u \<Rightarrow> u | None \<Rightarrow> 2 ^ 63 - 1),
                           ar_child_started = None\<rparr>
                     in (case insert_history (nr_run_id n)
                                (zip (map (\<lambda>i. first + int i) [0..<nat (next - first)]) events)
                                (d\<lparr>db_runs := db_runs d @ [row]\<rparr>) of
                           Inl e \<Rightarrow> (Inl e, d)
                         | Inr d1 \<Rightarrow> (Inr (), d1))))"

text \<open>\<open>ORDER BY seq DESC LIMIT -1 OFFSET keep_last\<close>: the numbers after the newest \<open>keep_last\<close> ones.\<close>

definition prune_execution_events :: "string \<Rightarrow> nat \<Rightarrow> db \<Rightarrow> nat \<times> db" where
  "prune_execution_events run_id keep_last d =
     (let keep = min keep_last (2 ^ 63 - 1);
          seqs = rev (sort (map ev_seq (filter (\<lambda>e. ev_run_id e = run_id) (db_events d))));
          doomed = drop keep seqs;
          left = filter (\<lambda>e. \<not> (ev_run_id e = run_id \<and> ev_seq e \<in> set doomed)) (db_events d)
      in (length (db_events d) - length left, d\<lparr>db_events := left\<rparr>))"

section \<open>The lease of the writer\<close>

text \<open>The comparison is made in 128 bits and cannot overflow.\<close>

definition claim_execution_owner :: "string \<Rightarrow> int \<Rightarrow> int \<Rightarrow> int \<Rightarrow> db \<Rightarrow> OwnerClaim \<times> db" where
  "claim_execution_owner boot_id pid now stale_after d =
     (let taken = d\<lparr>db_owner := Some \<lparr>ow_boot_id = boot_id, ow_pid = pid, ow_heartbeat_unix_ms = now\<rparr>\<rparr> in
      case db_owner d of
        Some o' \<Rightarrow>
          if ow_boot_id o' = boot_id
          then (OcAcquired None, d\<lparr>db_owner := Some (o'\<lparr>ow_heartbeat_unix_ms := now\<rparr>)\<rparr>)
          else if ow_heartbeat_unix_ms o' \<ge> now - stale_after
          then (OcHeldBy (ow_boot_id o') (ow_pid o'), d)
          else (OcAcquired (Some (ow_boot_id o', ow_pid o')), taken)
      | None \<Rightarrow> (OcAcquired None, taken))"

definition heartbeat_execution_owner :: "string \<Rightarrow> int \<Rightarrow> db \<Rightarrow> bool \<times> db" where
  "heartbeat_execution_owner boot_id now d =
     (case db_owner d of
        Some o' \<Rightarrow>
          if ow_boot_id o' = boot_id then (True, d\<lparr>db_owner := Some (o'\<lparr>ow_heartbeat_unix_ms := now\<rparr>)\<rparr>)
          else (False, d)
      | None \<Rightarrow> (False, d))"

definition release_execution_owner :: "string \<Rightarrow> db \<Rightarrow> db" where
  "release_execution_owner boot_id d =
     (case db_owner d of
        Some o' \<Rightarrow> if ow_boot_id o' = boot_id then d\<lparr>db_owner := None\<rparr> else d
      | None \<Rightarrow> d)"

section \<open>Histories\<close>

text \<open>Every writer of the store, with any arguments, in any order. Callers append events to runs they have
  found; the deletion of the runs of a task is kept apart, since it forgets what the run recorded.\<close>

inductive run_step :: "db \<Rightarrow> db \<Rightarrow> bool" where
  step_create: "run_step d (snd (create_run n d))"
| step_import: "run_step d (snd (create_run_with_history n s first ps k d))"
| step_commit: "run_step d (snd (commit_execution fence c d))"
| step_truncate: "run_step d (snd (truncate_events_after r n d))"
| step_replace: "find_run d r \<noteq> None \<Longrightarrow> run_step d (snd (truncate_and_append_events_after r n ps d))"
| step_prune: "run_step d (snd (prune_execution_events r n d))"
| step_claim: "run_step d (snd (claim_execution_owner b pid now stale d))"
| step_heartbeat: "run_step d (snd (heartbeat_execution_owner b now d))"
| step_release: "run_step d (release_execution_owner b d)"

inductive store_step :: "db \<Rightarrow> db \<Rightarrow> bool" where
  store_run: "run_step d u \<Longrightarrow> store_step d u"
| store_delete: "store_step d (snd (delete_runs_for_task t d))"

section \<open>Lemmas: checkpoints\<close>

definition checkpoints_ok :: "db \<Rightarrow> bool" where
  "checkpoints_ok d \<longleftrightarrow>
     list_all (\<lambda>c. cp_schema_version c = int CHECKPOINT_SCHEMA_VERSION) (db_checkpoints d)
     \<and> (\<forall>i. map cp_version (task_checkpoints d i) = map int [1..<Suc (length (task_checkpoints d i))])"

lemma checkpoints_cong: "db_checkpoints u = db_checkpoints d \<Longrightarrow> checkpoints_ok u = checkpoints_ok d"
  by (simp add: checkpoints_ok_def task_checkpoints_def)

lemma fold_max_upt: "1 \<le> n \<Longrightarrow> fold max (map int [2..<Suc n]) 1 = int n"
proof (induction n rule: nat_induct_at_least)
  case (Suc n)
  then have "[2..<Suc (Suc n)] = [2..<Suc n] @ [Suc n]" by simp
  with Suc show ?case by (simp del: upt_Suc)
qed simp

lemma max_version_ok:
  assumes "checkpoints_ok d"
  shows "(case max_version d i of Some v \<Rightarrow> v | None \<Rightarrow> 0) = int (length (task_checkpoints d i))"
proof (cases "length (task_checkpoints d i)")
  case (Suc n)
  have "map cp_version (task_checkpoints d i) = 1 # map int [2..<Suc (Suc n)]"
    using assms Suc by (simp add: checkpoints_ok_def upt_conv_Cons numeral_2_eq_2 del: upt_Suc)
  then show ?thesis using fold_max_upt [of "Suc n"] Suc by (simp add: max_version_def del: upt_Suc)
qed (simp add: max_version_def)

lemma insert_intent_ok:
  assumes "checkpoints_ok d" "insert_intent r x d = Inr u"
  shows "checkpoints_ok u"
proof -
  let ?i = "ci_task_exec_id x" and ?n = "int (length (task_checkpoints d (ci_task_exec_id x)))"
  obtain c where u: "db_checkpoints u = db_checkpoints d @ [c]" "cp_task_exec_id c = ?i" "cp_version c = ?n + 1"
      "cp_schema_version c = int CHECKPOINT_SCHEMA_VERSION"
    using assms(2) unfolding insert_intent_def Let_def max_version_ok [OF assms(1)]
    by (auto simp: return_iff checked_add_i64_def split: if_splits)
  have tasks: "task_checkpoints u j = task_checkpoints d j @ (if j = ?i then [c] else [])" for j
    using u(1,2) by (simp add: task_checkpoints_def)
  show ?thesis using assms(1) u tasks unfolding checkpoints_ok_def by (auto simp: algebra_simps)
qed

lemma set_result_ok:
  assumes "checkpoints_ok d" "set_result r x d = Inr u"
  shows "checkpoints_ok u"
proof -
  obtain p f where u: "db_checkpoints u = update_where p f (db_checkpoints d)"
    and f: "\<And>c. cp_task_exec_id (f c) = cp_task_exec_id c" "\<And>c. cp_version (f c) = cp_version c"
      "\<And>c. cp_schema_version (f c) = cp_schema_version c"
    using assms(2) unfolding set_result_def Let_def by (fastforce simp: return_iff)
  have tasks: "task_checkpoints u j = update_where p f (task_checkpoints d j)" for j
    using f(1) by (simp add: task_checkpoints_def u filter_update_where)
  have "length (update_where p f cs) = length cs" for cs by (simp add: update_where_def)
  then show ?thesis using assms(1) f unfolding checkpoints_ok_def tasks
    by (auto simp: u map_update_where list_all_iff set_update_where)
qed

lemma checkpoints_unchanged:
  "insert_task r t d = Inr u \<Longrightarrow> db_checkpoints u = db_checkpoints d"
  "insert_prompt r p d = Inr u \<Longrightarrow> db_checkpoints u = db_checkpoints d"
  "update_prompt r y d = Inr u \<Longrightarrow> db_checkpoints u = db_checkpoints d"
  "apply_transition r m d = Inr u \<Longrightarrow> db_checkpoints u = db_checkpoints d"
  "request_cancel r i d = Inr u \<Longrightarrow> db_checkpoints u = db_checkpoints d"
  "clear_prompt r k d = Inr u \<Longrightarrow> db_checkpoints u = db_checkpoints d"
  "db_checkpoints (update_run r v d) = db_checkpoints d"
  "db_checkpoints (fresh_event r n q d) = db_checkpoints d"
  "db_checkpoints (set_next_seq r n d) = db_checkpoints d"
  "db_checkpoints (rewrite_event r w d) = db_checkpoints d"
  using db_frames(1) [OF insert_task_frame, of r t d u] db_frames(3) [OF insert_prompt_frame, of r p d u]
    db_frames(2) [OF update_prompt_frame, of r y d u] db_frames(1) [OF apply_transition_frame, of r m d u]
    db_frames(1) [OF request_cancel_frame, of r i d u] db_frames(2) [OF clear_prompt_frame, of r k d u]
  by (auto simp: update_run_def fresh_event_def set_next_seq_def rewrite_event_def split: option.split)

lemma commit_checkpoints_ok:
  assumes "commit_tables c start d = Inr (rc, u)" "checkpoints_ok d"
  shows "checkpoints_ok u"
proof (rule commit_tables_invariant [OF assms(1), of checkpoints_ok])
  show "checkpoints_ok u" if "set_result (ec_run_id c) x d = Inr u" "checkpoints_ok d" for x d u
    by (rule set_result_ok [OF that(2,1)])
  show "checkpoints_ok u" if "insert_intent (ec_run_id c) x d = Inr u" "checkpoints_ok d" for x d u
    by (rule insert_intent_ok [OF that(2,1)])
qed (use assms(2) in \<open>simp_all add: checkpoints_ok_def task_checkpoints_def checkpoints_unchanged del: upt_Suc\<close>)

section \<open>Lemmas: the event numbers\<close>

lemma events_okI:
  assumes "distinct (map ar_run_id (db_runs u))" "list_all (\<lambda>r. 1 \<le> ar_next_event_seq r) (db_runs u)"
    and "distinct (map event_key es)" "\<And>e. e \<in> set es \<Longrightarrow> numbered u e"
    and "\<And>e. e \<in> set es \<Longrightarrow> ev_run_id e = r \<Longrightarrow> ev_seq e < n"
    and "1 \<le> n" "find_run u r = Some run" "ar_next_event_seq run = n + int (length ps)"
    and "db_events u = es @ event_rows r n ps"
  shows "events_ok u"
proof -
  have new: "ev_run_id e = r \<and> n \<le> ev_seq e \<and> ev_seq e < n + int (length ps)" if "e \<in> set (event_rows r n ps)" for e
    using that by (induction ps arbitrary: n) (force simp: event_at_def)+
  have "distinct (map event_key (event_rows r n ps))"
    by (induction ps arbitrary: n) (use event_rows_bound in \<open>fastforce simp: event_at_def event_key_def\<close>)+
  moreover have "event_key a \<noteq> event_key b" if "a \<in> set es" "b \<in> set (event_rows r n ps)" for a b
    using new [OF that(2)] assms(5) [OF that(1)] by (auto simp: event_key_def)
  ultimately have "distinct (map event_key (db_events u))"
    using assms(3) unfolding assms(9) by (fastforce simp: image_iff)
  moreover have "list_all (numbered u) (db_events u)"
    unfolding list_all_iff
  proof
    fix e
    assume "e \<in> set (db_events u)"
    then consider "e \<in> set es" | "e \<in> set (event_rows r n ps)" unfolding assms(9) by auto
    then show "numbered u e"
      by cases (use assms(4,6,7,8) new in \<open>fastforce simp: numbered_def\<close>)+
  qed
  ultimately show ?thesis using assms(1,2) by (simp add: events_ok_def)
qed

lemma events_ok_fewer:
  assumes "events_ok d" "db_runs u = db_runs d" "db_events u = filter p (db_events d)"
  shows "events_ok u"
proof -
  have "numbered u = numbered d" using find_run_runs [OF assms(2)] by (simp add: numbered_def fun_eq_iff)
  then show ?thesis
    using assms by (auto simp: events_ok_def list_all_iff distinct_map inj_on_def)
qed

lemma truncate_events_ok:
  assumes "events_ok d"
  shows "events_ok (snd (truncate_events_after r n d))"
proof (cases "i64_of_u64 n")
  case (Some k)
  show ?thesis
  proof (cases "checked_add_i64 k 1")
    case counter: (Some m)
    then have m: "m = k + 1" "0 \<le> k" using Some counter by (auto simp: checked_add_i64_def i64_of_u64_def split: if_splits)
    let ?f = "\<lambda>x. x\<lparr>ar_next_event_seq := m\<rparr>" and ?p = "\<lambda>x. ar_run_id x = r \<and> ar_next_event_seq x > m"
    define u where "u = snd (truncate_events_after r n d)"
    have u: "db_runs u = update_where ?p ?f (db_runs d)"
      "db_events u = filter (\<lambda>e. \<not> (ev_run_id e = r \<and> ev_seq e > k)) (db_events d)"
      using Some counter by (simp_all add: u_def truncate_events_after_def delete_events_after_def Let_def)
    have find: "find_run u i = map_option (\<lambda>x. if ?p x then ?f x else x) (find_run d i)" for i
      unfolding find_run_def u(1) by (rule find_update_where) simp
    have "numbered u e" if "e \<in> set (db_events u)" for e
    proof -
      have "numbered d e" "\<not> (ev_run_id e = r \<and> ev_seq e > k)"
        using that assms by (auto simp: u(2) events_ok_def list_all_iff)
      then show ?thesis using m by (auto simp: numbered_def find dest: run_in split: option.splits)
    qed
    then have "events_ok u"
      using assms m unfolding events_ok_def u
      by (auto simp: map_update_where list_all_iff set_update_where distinct_map inj_on_def)
    then show ?thesis by (simp add: u_def)
  qed (use assms Some in \<open>simp add: truncate_events_after_def\<close>)
qed (use assms in \<open>simp add: truncate_events_after_def\<close>)

lemma append_event_iff:
  "append_event r p (d, n) = Inr v \<longleftrightarrow>
     i64_in_range (n + 1) \<and> \<not> list_ex (\<lambda>e. ev_run_id e = r \<and> ev_seq e = n) (db_events d)
     \<and> v = (fresh_event r n p d, n + 1)"
  by (auto simp: append_event_def return_iff insert_event_row_iff checked_add_i64_def split: if_splits)

lemma append_events:
  "for_each (append_event r) ps (d, n) = Inr (u, m) \<Longrightarrow>
   u = d\<lparr>db_events := db_events d @ event_rows r n ps\<rparr> \<and> m = n + int (length ps)"
proof (induction ps arbitrary: d n)
  case (Cons p ps)
  have "for_each (append_event r) ps (fresh_event r n p d, n + 1) = Inr (u, m)"
    using Cons.prems by (auto simp: return_iff append_event_iff)
  from Cons.IH [OF this] show ?case by (simp add: fresh_event_def event_at_def)
qed simp

lemma history_events:
  "insert_history r (zip (map (\<lambda>i. n + int i) [0..<length ps]) ps) d = Inr u \<Longrightarrow>
   u = d\<lparr>db_events := db_events d @ event_rows r n ps\<rparr>"
proof (induction ps arbitrary: d n)
  case (Cons p ps)
  have "map (\<lambda>i. n + int i) [0..<length (p # ps)] = n # map (\<lambda>i. n + 1 + int i) [0..<length ps]"
    by (simp add: map_upt_Suc algebra_simps del: upt_Suc)
  then have "insert_history r (zip (map (\<lambda>i. n + 1 + int i) [0..<length ps]) ps) (fresh_event r n p d) = Inr u"
    using Cons.prems by (auto simp: return_iff insert_event_row_iff simp del: upt_Suc)
  from Cons.IH [OF this] show ?case by (simp add: fresh_event_def event_at_def)
qed simp

lemma replace_cases:
  obtains "snd (truncate_and_append_events_after r n ps d) = d"
  | k d1 m where "i64_of_u64 n = Some k"
      "for_each (append_event r) ps (delete_events_after r k d, k + 1) = Inr (d1, m)"
      "snd (truncate_and_append_events_after r n ps d) = set_next_seq r m d1"
proof (cases "i64_of_u64 n")
  case (Some k)
  show thesis
  proof (cases "for_each (append_event r) ps (delete_events_after r k d, k + 1)")
    case (Inr v)
    then obtain d1 m where v: "for_each (append_event r) ps (delete_events_after r k d, k + 1) = Inr (d1, m)"
      by (cases v) simp
    then have "snd (truncate_and_append_events_after r n ps d) \<in> {d, set_next_seq r m d1}"
      using Some by (simp add: truncate_and_append_events_after_def checked_add_i64_def)
    with that Some v show thesis by blast
  qed (use that(1) Some in \<open>simp add: truncate_and_append_events_after_def checked_add_i64_def\<close>)
qed (use that(1) in \<open>simp add: truncate_and_append_events_after_def\<close>)

lemma replace_events_ok:
  assumes "events_ok d" "find_run d r = Some run"
  shows "events_ok (snd (truncate_and_append_events_after r n ps d))"
proof -
  define u where "u = snd (truncate_and_append_events_after r n ps d)"
  have "events_ok u"
  proof (cases rule: replace_cases [of r n ps d])
    case (2 k d1 m)
    let ?kept = "filter (\<lambda>e. \<not> (ev_run_id e = r \<and> ev_seq e > k)) (db_events d)"
    have k: "0 \<le> k" using 2(1) by (auto simp: i64_of_u64_def split: if_splits)
    note appended = append_events [OF 2(2)]
    have u: "db_runs u = update_where (\<lambda>x. ar_run_id x = r) (\<lambda>x. x\<lparr>ar_next_event_seq := m\<rparr>) (db_runs d)"
      "db_events u = ?kept @ event_rows r (k + 1) ps" "m = k + 1 + int (length ps)"
      using appended by (simp_all add: u_def 2(3) set_next_seq_def delete_events_after_def)
    have find: "find_run u i = map_option (\<lambda>x. if ar_run_id x = r then x\<lparr>ar_next_event_seq := m\<rparr> else x) (find_run d i)" for i
      unfolding find_run_def u(1) by (rule find_update_where) simp
    have kept: "numbered d e \<and> \<not> (ev_run_id e = r \<and> ev_seq e > k)" if "e \<in> set ?kept" for e
      using that assms(1) by (auto simp: events_ok_def list_all_iff)
    show ?thesis
    proof (rule events_okI [where r = r and n = "k + 1" and run = "run\<lparr>ar_next_event_seq := m\<rparr>"])
      show "distinct (map ar_run_id (db_runs u))" "distinct (map event_key ?kept)"
        using assms(1) by (auto simp: events_ok_def u(1) map_update_where distinct_map inj_on_def)
      show "list_all (\<lambda>r. 1 \<le> ar_next_event_seq r) (db_runs u)"
        using assms(1) k by (auto simp: events_ok_def u(1,3) list_all_iff set_update_where)
      show "find_run u r = Some (run\<lparr>ar_next_event_seq := m\<rparr>)" using assms(2) run_in [OF assms(2)] by (simp add: find)
      show "numbered u e" if "e \<in> set ?kept" for e
        using kept [OF that] k by (auto simp: numbered_def find u(3) dest: run_in split: option.splits)
      show "ev_seq e < k + 1" if "e \<in> set ?kept" "ev_run_id e = r" for e using kept [OF that(1)] that(2) by simp
    qed (use k u in simp_all)
  qed (use assms(1) in \<open>simp add: u_def\<close>)
  then show ?thesis by (simp add: u_def)
qed

lemma new_run_numbered:
  assumes "events_ok d" "find_run d (ar_run_id row) = None" "db_runs u = db_runs d @ [row]" "e \<in> set (db_events d)"
  shows "numbered u e \<and> ev_run_id e \<noteq> ar_run_id row"
proof -
  have "find_run u i = (case find_run d i of None \<Rightarrow> if ar_run_id row = i then Some row else None | Some x \<Rightarrow> Some x)" for i
    unfolding find_run_def assms(3) by (auto simp: find_append split: option.split)
  moreover have "numbered d e" using assms(1,4) by (simp add: events_ok_def list_all_iff)
  ultimately show ?thesis using assms(2) by (auto simp: numbered_def split: option.splits)
qed

lemma new_run_events_ok:
  assumes "events_ok d" "find_run d (ar_run_id row) = None" "1 \<le> n" "ar_next_event_seq row = n + int (length ps)"
    and "db_runs u = db_runs d @ [row]" "db_events u = db_events d @ event_rows (ar_run_id row) n ps"
  shows "events_ok u"
proof (rule events_okI [OF _ _ _ _ _ assms(3) _ assms(4,6)])
  have "ar_run_id row \<notin> ar_run_id ` set (db_runs d)"
    using assms(2) by (auto simp: find_run_def find_None_iff)
  then show "distinct (map ar_run_id (db_runs u))" "list_all (\<lambda>r. 1 \<le> ar_next_event_seq r) (db_runs u)"
    "distinct (map event_key (db_events d))"
    using assms(1,3,4) by (auto simp: events_ok_def assms(5))
  show "find_run u (ar_run_id row) = Some row"
    using assms(2) unfolding find_run_def assms(5) by (simp add: find_append)
  show "numbered u e" if "e \<in> set (db_events d)" for e
    using new_run_numbered [OF assms(1,2,5) that] by simp
  show "ev_seq e < n" if "e \<in> set (db_events d)" "ev_run_id e = ar_run_id row" for e
    using new_run_numbered [OF assms(1,2,5) that(1)] that(2) by simp
qed

text \<open>An import either leaves the tables alone or adds a run with its events.\<close>

lemma import_cases:
  obtains "snd (create_run_with_history n s first ps k d) = d"
  | row f where "find_run d (ar_run_id row) = None" "1 \<le> f" "ar_next_event_seq row = f + int (length ps)"
      "ar_schema_version row = int CHECKPOINT_SCHEMA_VERSION" "0 \<le> ar_unreadable_history_rows row"
      "snd (create_run_with_history n s first ps k d) =
         d\<lparr>db_runs := db_runs d @ [row], db_events := db_events d @ event_rows (ar_run_id row) f ps\<rparr>"
proof -
  let ?row = "\<lambda>next. \<lparr>ar_run_id = nr_run_id n, ar_task_id = nr_task_id n,
                           ar_harness = nr_harness n, ar_model = nr_model n,
                           ar_native_session_id = s, ar_capabilities_json = ''{}'',
                           ar_child_pid = None, ar_child_pgid = None, ar_owner_boot_id = None,
                           ar_schema_version = int CHECKPOINT_SCHEMA_VERSION, ar_next_event_seq = next,
                           ar_created_unix_ms = nr_created_unix_ms n,
                           ar_unreadable_history_rows =
                             (case i64_of_u64 k of Some u \<Rightarrow> u | None \<Rightarrow> 2 ^ 63 - 1),
                           ar_child_started = None\<rparr>"
  let ?len = "int (length ps)"
  let ?rows = "\<lambda>f. zip (map (\<lambda>i. f + int i) [0..<length ps]) ps"
  let ?start = "\<lambda>f. d\<lparr>db_runs := db_runs d @ [?row (f + ?len)]\<rparr>"
  consider "snd (create_run_with_history n s first ps k d) = d"
    | f u where "1 \<le> f" "find_run d (nr_run_id n) = None" "snd (create_run_with_history n s first ps k d) = u"
        "insert_history (nr_run_id n) (?rows f) (?start f) = Inr u"
  proof (cases "i64_of_u64 first")
    case (Some f)
    show thesis
    proof (cases "f < 1 \<or> \<not> length ps < 2 ^ 63 \<or> \<not> i64_in_range (f + ?len) \<or> find_run d (nr_run_id n) \<noteq> None")
      case True
      with Some have "snd (create_run_with_history n s first ps k d) = d"
        by (auto simp: create_run_with_history_def i64_of_u64_def [of "length ps"] checked_add_i64_def)
      then show thesis by (rule that(1))
    next
      case False
      with Some have eq: "create_run_with_history n s first ps k d =
          (case insert_history (nr_run_id n) (?rows f) (?start f) of Inl e \<Rightarrow> (Inl e, d) | Inr d1 \<Rightarrow> (Inr (), d1))"
        by (simp add: create_run_with_history_def i64_of_u64_def [of "length ps"] checked_add_i64_def Let_def)
      show thesis
      proof (cases "insert_history (nr_run_id n) (?rows f) (?start f)")
        case Inl
        then show thesis using that(1) eq by simp
      next
        case (Inr u)
        then show thesis using that(2) [of f u] eq False by simp
      qed
    qed
  qed (rule that(1), simp add: create_run_with_history_def)
  then show ?thesis
  proof cases
    case (2 f u)
    have "0 \<le> (case i64_of_u64 k of Some u \<Rightarrow> u | None \<Rightarrow> 2 ^ 63 - 1)"
      by (auto simp: i64_of_u64_def split: option.split)
    with 2 history_events [OF 2(4)] show ?thesis using that(2) [of "?row (f + ?len)" f] by simp
  qed (rule that(1))
qed

section \<open>Lemmas: histories\<close>

definition rows_ok :: "db \<Rightarrow> bool" where
  "rows_ok d \<longleftrightarrow>
     list_all (\<lambda>r. ar_schema_version r = int CHECKPOINT_SCHEMA_VERSION \<and> 0 \<le> ar_unreadable_history_rows r) (db_runs d)"

definition store_ok :: "db \<Rightarrow> bool" where
  "store_ok d \<longleftrightarrow> tasks_ok d \<and> distinct (prompt_keys d) \<and> checkpoints_ok d \<and> events_ok d \<and> rows_ok d"

definition same_work :: "db \<Rightarrow> db \<Rightarrow> bool" where
  "same_work u d \<longleftrightarrow>
     db_tasks u = db_tasks d \<and> db_prompts u = db_prompts d \<and> db_checkpoints u = db_checkpoints d"

lemma store_ok_same_work:
  "same_work u d \<Longrightarrow> store_ok d \<Longrightarrow> events_ok u \<Longrightarrow> rows_ok u \<Longrightarrow> store_ok u"
  using tasks_ok_cong [of u d] checkpoints_cong [of u d] by (simp add: store_ok_def same_work_def prompt_keys_def)

lemma rows_ok_update:
  assumes "rows_ok d" "db_runs u = update_where p f (db_runs d)"
    and "\<And>r. ar_schema_version (f r) = ar_schema_version r" "\<And>r. ar_unreadable_history_rows (f r) = ar_unreadable_history_rows r"
  shows "rows_ok u"
  using assms by (auto simp: rows_ok_def list_all_iff set_update_where)

lemma update_run_row_versions [simp]:
  "ar_schema_version (update_run_row x r) = ar_schema_version r"
  "ar_unreadable_history_rows (update_run_row x r) = ar_unreadable_history_rows r"
  by (simp_all add: update_run_row_def set_if_def split: option.split)

lemma commit_store_ok:
  assumes "store_ok d"
  shows "store_ok (snd (commit_execution fence c d))"
proof -
  obtain res u where u: "commit_execution fence c d = (res, u)" by fastforce
  from u have "store_ok u"
  proof (cases rule: commit_cases)
    case (written run rc)
    note run = written(2) and tables = written(3)
    have ok: "tasks_ok d" "checkpoints_ok d" "events_ok d" "rows_ok d" "distinct (prompt_keys d)"
      using assms by (simp_all add: store_ok_def)
    have "rows_ok u"
      by (rule rows_ok_update [OF ok(4)], rule trans [OF commit_log(3) [OF tables] runs_next])
        (simp_all split: option.split)
    moreover have "distinct (prompt_keys u)" by (rule commit_prompts_distinct [OF tables written(5) ok(5)])
    ultimately show ?thesis
      using commit_tasks_ok [OF tables ok(1)] commit_checkpoints_ok [OF tables ok(2)]
        commit_events_ok(1) [OF tables run ok(3)] by (simp add: store_ok_def)
  qed (use assms in simp_all)
  then show ?thesis using u by simp
qed

lemma prune_events_ok: "events_ok d \<Longrightarrow> events_ok (snd (prune_execution_events r n d))"
  by (rule events_ok_fewer) (auto simp: prune_execution_events_def Let_def)

lemma create_events_ok:
  assumes "events_ok d" "rows_ok d"
  shows "events_ok (snd (create_run n d)) \<and> rows_ok (snd (create_run n d))"
proof (cases "find_run d (nr_run_id n)")
  case None
  obtain row where u: "snd (create_run n d) = d\<lparr>db_runs := db_runs d @ [row]\<rparr>"
    "ar_run_id row = nr_run_id n" "ar_next_event_seq row = 1"
    "ar_schema_version row = int CHECKPOINT_SCHEMA_VERSION" "ar_unreadable_history_rows row = 0"
    using None by (simp add: create_run_def)
  have "events_ok (snd (create_run n d))"
    by (rule new_run_events_ok [OF assms(1), where row = row and n = 1 and ps = "[]"]) (use None u in simp_all)
  with assms(2) u show ?thesis by (simp add: rows_ok_def)
qed (use assms in \<open>simp add: create_run_def\<close>)

lemma import_events_ok:
  assumes "events_ok d" "rows_ok d"
  shows "events_ok (snd (create_run_with_history n s first ps k d))
    \<and> rows_ok (snd (create_run_with_history n s first ps k d))"
proof (cases rule: import_cases [of n s first ps k d])
  case (2 row f)
  have "events_ok (snd (create_run_with_history n s first ps k d))"
    by (rule new_run_events_ok [OF assms(1) 2(1,2,3)]) (simp_all add: 2(6))
  with assms(2) 2(4,5,6) show ?thesis by (simp add: rows_ok_def)
qed (use assms in simp)

lemma owner_steps:
  "snd (claim_execution_owner b pid now stale d) = d\<lparr>db_owner := db_owner (snd (claim_execution_owner b pid now stale d))\<rparr>"
  "snd (heartbeat_execution_owner b now d) = d\<lparr>db_owner := db_owner (snd (heartbeat_execution_owner b now d))\<rparr>"
  "release_execution_owner b d = d\<lparr>db_owner := db_owner (release_execution_owner b d)\<rparr>"
  by (simp_all add: claim_execution_owner_def heartbeat_execution_owner_def release_execution_owner_def Let_def
      split: option.split)

lemma owner_frame:
  assumes "u = d\<lparr>db_owner := x\<rparr>"
  shows "same_work u d" "events_ok u = events_ok d" "rows_ok u = rows_ok d"
proof -
  have "numbered u = numbered d" using find_run_runs [of u d] assms by (simp add: numbered_def fun_eq_iff)
  then show "same_work u d" "events_ok u = events_ok d" "rows_ok u = rows_ok d"
    by (simp_all add: same_work_def events_ok_def rows_ok_def assms)
qed

lemma truncate_frame:
  "same_work (snd (truncate_events_after r n d)) d"
  "rows_ok d \<Longrightarrow> rows_ok (snd (truncate_events_after r n d))"
  by (auto simp: truncate_events_after_def delete_events_after_def same_work_def rows_ok_def Let_def
      list_all_iff set_update_where split: option.split)

lemma replace_frame:
  "same_work (snd (truncate_and_append_events_after r n ps d)) d
   \<and> (rows_ok d \<longrightarrow> rows_ok (snd (truncate_and_append_events_after r n ps d)))"
proof (cases rule: replace_cases [of r n ps d])
  case (2 k d1 m)
  then show ?thesis
    using append_events [OF 2(2)]
    by (auto simp: set_next_seq_def delete_events_after_def same_work_def rows_ok_def list_all_iff set_update_where)
qed (simp add: same_work_def)

lemma run_step_cases:
  assumes "run_step d u"
  obtains (commit) fence c where "u = snd (commit_execution fence c d)"
    | (other) "same_work u d" "events_ok d \<Longrightarrow> rows_ok d \<Longrightarrow> events_ok u \<and> rows_ok u"
  using assms
proof cases
  case (step_create n)
  then show ?thesis using other create_events_ok [of d n] by (simp add: create_run_def same_work_def)
next
  case (step_import n s first ps k)
  have "same_work u d" unfolding step_import
    by (cases rule: import_cases [of n s first ps k d]) (simp_all add: same_work_def)
  then show ?thesis using other import_events_ok [of d n s first ps k] step_import by simp
next
  case (step_truncate r n)
  then show ?thesis using other truncate_frame truncate_events_ok [of d] by simp
next
  case (step_replace r n ps)
  then show ?thesis using other replace_frame [of r n ps d] replace_events_ok [of d r] by auto
next
  case (step_prune r n)
  then show ?thesis using other prune_events_ok [of d]
    by (simp add: prune_execution_events_def same_work_def rows_ok_def Let_def)
qed (use commit other owner_frame [OF owner_steps(1)] owner_frame [OF owner_steps(2)]
       owner_frame [OF owner_steps(3)] in auto)

lemma run_step_store_ok:
  assumes "run_step d u" "store_ok d"
  shows "store_ok u"
  using assms(1)
proof (cases rule: run_step_cases)
  case other
  moreover have "events_ok d" "rows_ok d" using assms(2) by (simp_all add: store_ok_def)
  ultimately show ?thesis using store_ok_same_work assms(2) by blast
qed (simp add: commit_store_ok assms(2))

lemma find_filter: "find q (filter p xs) = find (\<lambda>x. p x \<and> q x) xs"
  by (induction xs) auto

lemma distinct_map_filter: "distinct (map k xs) \<Longrightarrow> distinct (map k (filter p xs))"
  by (induction xs) auto

lemma delete_store_ok:
  assumes "store_ok d"
  shows "store_ok (snd (delete_runs_for_task t d))"
proof -
  define u where "u = snd (delete_runs_for_task t d)"
  define rids where "rids = map ar_run_id (filter (\<lambda>r. ar_task_id r = t) (db_runs d))"
  define tids where "tids = map xt_task_exec_id (filter (\<lambda>x. xt_run_id x \<in> set rids) (db_tasks d))"
  have u: "db_tasks u = filter (\<lambda>x. xt_run_id x \<notin> set rids) (db_tasks d)"
    "db_prompts u = filter (\<lambda>p. ps_run_id p \<notin> set rids) (db_prompts d)"
    "db_events u = filter (\<lambda>e. ev_run_id e \<notin> set rids) (db_events d)"
    "db_runs u = filter (\<lambda>r. ar_task_id r \<noteq> t) (db_runs d)"
    "db_checkpoints u = filter (\<lambda>c. cp_task_exec_id c \<notin> set tids) (db_checkpoints d)"
    by (simp_all add: u_def delete_runs_for_task_def Let_def rids_def tids_def)
  have ok: "tasks_ok d" "distinct (prompt_keys d)" "checkpoints_ok d" "events_ok d" "rows_ok d"
    using assms by (simp_all add: store_ok_def)
  have "find_run u i = find_run d i" if "i \<notin> set rids" for i
  proof -
    have "(ar_task_id r \<noteq> t \<and> ar_run_id r = i) = (ar_run_id r = i)" if "r \<in> set (db_runs d)" for r
      using that \<open>i \<notin> set rids\<close> by (auto simp: rids_def)
    then show ?thesis unfolding find_run_def u(4) find_filter by (intro find_cong) simp_all
  qed
  then have "numbered u e = numbered d e" if "ev_run_id e \<notin> set rids" for e
    using that by (simp add: numbered_def)
  then have "events_ok u"
    using ok(4) by (auto simp: events_ok_def u(3,4) list_all_iff distinct_map_filter)
  moreover have "tasks_ok u" using ok(1) by (auto simp: tasks_ok_def u(1) list_all_iff distinct_map_filter)
  moreover have "distinct (prompt_keys u)" using ok(2) by (simp add: prompt_keys_def u(2) distinct_map_filter)
  moreover have "rows_ok u" using ok(5) by (auto simp: rows_ok_def u(4) list_all_iff)
  moreover have "task_checkpoints u i = (if i \<in> set tids then [] else task_checkpoints d i)" for i
    by (auto simp: task_checkpoints_def u(5) filter_empty_conv intro: filter_cong)
  then have "checkpoints_ok u" using ok(3) by (auto simp: checkpoints_ok_def u(5) list_all_iff simp del: upt_Suc)
  ultimately have "store_ok u" by (simp add: store_ok_def)
  then show ?thesis by (simp add: u_def)
qed

lemma empty_store_ok: "store_ok db_empty"
  by (simp add: store_ok_def db_empty_def tasks_ok_def prompt_keys_def checkpoints_ok_def task_checkpoints_def
      events_ok_def rows_ok_def)

interpretation store: invariant_system store_step store_ok
  by unfold_locales (auto elim!: store_step.cases intro: run_step_store_ok delete_store_ok)

lemma collect_rows_Inr:
  assumes "\<And>x. x \<in> set xs \<Longrightarrow> \<exists>y. f x = Inr y \<and> P x y"
  shows "\<exists>ys. collect_rows f xs = Inr ys \<and> list_all2 P xs ys"
  using assms
proof (induction xs)
  case (Cons x xs)
  then obtain y ys where "f x = Inr y" "P x y" "collect_rows f xs = Inr ys" "list_all2 P xs ys" by fastforce
  then show ?case by auto
qed simp

lemma terminal_labels: "is_terminal s \<longleftrightarrow> state_as_str s \<in> {''completed'', ''failed'', ''cancelled''}"
  by (cases s) (simp_all add: is_terminal_def)

lemma unfinished_iff:
  assumes "state_parse (xt_state t) = Some s"
  shows "unfinished_row t \<longleftrightarrow> \<not> is_terminal s"
  using state_codec.parse_iff [of "xt_state t" s] assms terminal_labels [of s] by (simp add: unfinished_row_def)

lemma read_unfinished_ok:
  assumes "checkpoints_ok d" "state_parse (xt_state t) = Some s"
  shows "\<exists>x. read_unfinished d t = Inr x \<and> ux_task_exec_id x = xt_task_exec_id t \<and> ux_state x = s"
proof -
  have "\<exists>u. read_checkpoint c = Inr u" if "last_checkpoint d t = Some c" for c
  proof -
    have "c \<in> set (db_checkpoints d)"
      using that by (auto simp: last_checkpoint_def task_checkpoints_def find_Some_iff dest: nth_mem)
    then show ?thesis
      using assms(1) by (auto simp: checkpoints_ok_def list_all_iff read_checkpoint_def read_u32_def CHECKPOINT_SCHEMA_VERSION_def)
  qed
  then show ?thesis
    using assms(2) by (cases "last_checkpoint d t") (fastforce simp: read_unfinished_def Let_def parse_state_def)+
qed

lemma run_step_tasks_ok:
  assumes "run_step d u" "tasks_ok d"
  shows "tasks_ok u"
  using assms(1)
proof (cases rule: run_step_cases)
  case (commit fence c)
  obtain res v where v: "commit_execution fence c d = (res, v)" by fastforce
  then have "tasks_ok v"
    by (cases rule: commit_cases) (use assms(2) commit_tasks_ok in auto)
  with commit v show ?thesis by simp
next
  case other
  with assms(2) tasks_ok_cong [of u d] show ?thesis by (simp add: same_work_def)
qed

lemma run_step_keeps_terminal:
  assumes "run_step d u" "tasks_ok d" "stored_state d i = Some s" "is_terminal s"
  shows "stored_state u i = Some s"
  using assms(1)
proof (cases rule: run_step_cases)
  case (commit fence c)
  obtain res v where v: "commit_execution fence c d = (res, v)" by fastforce
  then have "stored_state v i = Some s"
    by (cases rule: commit_cases) (use assms(2,3,4) commit_keeps_terminal in auto)
  with commit v show ?thesis by simp
next
  case other
  with assms(3) show ?thesis by (simp add: same_work_def stored_state_def)
qed

interpretation terminal: invariant_system run_step "\<lambda>d. tasks_ok d \<and> (stored_state d i = Some s \<and> is_terminal s)"
  for i s
proof
  fix d u
  assume "tasks_ok d \<and> (stored_state d i = Some s \<and> is_terminal s)" "run_step d u"
  then show "tasks_ok u \<and> (stored_state u i = Some s \<and> is_terminal s)"
    using run_step_keeps_terminal run_step_tasks_ok by blast
qed

lemma sample_reachable: "runs store_step db_empty sample_db"
  unfolding sample_db_def
  by (rule runs_trans; rule runs_single; rule store_run) (rule step_create, rule step_commit)

section \<open>Properties\<close>



text \<open>C21: A restarted server can read everything that was unfinished: in every store that the operations can
  produce, the read succeeds and lists exactly the tasks whose stored state is not terminal, each once and with
  that state.\<close>

theorem restart_reads_unfinished_work:
  assumes "runs store_step db_empty d"
  shows "\<exists>xs. unfinished_executions d = Inr xs \<and> distinct (map ux_task_exec_id xs)
    \<and> (\<lambda>x. (ux_task_exec_id x, ux_state x)) ` set xs = {(i, s). stored_state d i = Some s \<and> \<not> is_terminal s}"
proof -
  have ok: "tasks_ok d" "checkpoints_ok d"
    using store.runs_preserve [OF assms empty_store_ok] by (simp_all add: store_ok_def)
  let ?rows = "sort_key (unfinished_key d) (filter unfinished_row (db_tasks d))"
  let ?same = "\<lambda>t x. ux_task_exec_id x = xt_task_exec_id t \<and> state_parse (xt_state t) = Some (ux_state x)"
  have state: "\<exists>s. state_parse (xt_state t) = Some s" if "t \<in> set (db_tasks d)" for t
    using that ok(1) by (auto simp: tasks_ok_def list_all_iff)
  obtain xs where xs: "unfinished_executions d = Inr xs" "list_all2 ?same ?rows xs"
    using collect_rows_Inr [of ?rows "read_unfinished d" ?same] state read_unfinished_ok [OF ok(2)]
    unfolding unfinished_executions_def by fastforce
  let ?entry = "\<lambda>t. (xt_task_exec_id t, the (state_parse (xt_state t)))"
  have entries: "map (\<lambda>x. (ux_task_exec_id x, ux_state x)) xs = map ?entry ?rows"
    using xs(2) by (induction rule: list_all2_induct) simp_all
  have "map ux_task_exec_id xs = map fst (map (\<lambda>x. (ux_task_exec_id x, ux_state x)) xs)" by (simp add: o_def)
  then have ids: "map ux_task_exec_id xs = map xt_task_exec_id ?rows" unfolding entries by (simp add: o_def)
  have "distinct (map xt_task_exec_id ?rows)"
    using ok(1) by (auto simp: tasks_ok_def distinct_map inj_on_def)
  with ids have "distinct (map ux_task_exec_id xs)" by simp
  moreover have "stored_state d i = Some s \<and> \<not> is_terminal s \<longleftrightarrow> (i, s) \<in> ?entry ` {t \<in> set (db_tasks d). unfinished_row t}"
    for i s
  proof
    assume i: "stored_state d i = Some s \<and> \<not> is_terminal s"
    then obtain t where t: "find (\<lambda>t. xt_task_exec_id t = i) (db_tasks d) = Some t" "state_parse (xt_state t) = Some s"
      by (auto simp: stored_state_def split: option.splits)
    then have "t \<in> set (db_tasks d)" "xt_task_exec_id t = i" by (auto simp: find_Some_iff)
    with t(2) i unfinished_iff [OF t(2)] show "(i, s) \<in> ?entry ` {t \<in> set (db_tasks d). unfinished_row t}" by force
  next
    assume "(i, s) \<in> ?entry ` {t \<in> set (db_tasks d). unfinished_row t}"
    then obtain t where t: "t \<in> set (db_tasks d)" "unfinished_row t" "(i, s) = ?entry t" by auto
    with state obtain s' where "state_parse (xt_state t) = Some s'" by blast
    with t stored_state_row [OF ok(1) t(1)] unfinished_iff [of t s']
    show "stored_state d i = Some s \<and> \<not> is_terminal s" by simp
  qed
  moreover have "(\<lambda>x. (ux_task_exec_id x, ux_state x)) ` set xs = ?entry ` {t \<in> set (db_tasks d). unfinished_row t}"
    using arg_cong [OF entries, of set] by simp
  ultimately show ?thesis using xs(1) by auto
qed

theorem restart_reads_unfinished_work_witness:
  "\<exists>xs. unfinished_executions sample_db = Inr xs \<and> (''t'', XsPending) \<in> (\<lambda>x. (ux_task_exec_id x, ux_state x)) ` set xs"
proof -
  from restart_reads_unfinished_work [OF sample_reachable]
  obtain xs where xs: "unfinished_executions sample_db = Inr xs"
    "(\<lambda>x. (ux_task_exec_id x, ux_state x)) ` set xs = {(i, s). stored_state sample_db i = Some s \<and> \<not> is_terminal s}"
    by blast
  have "stored_state sample_db ''t'' = Some XsPending" by code_simp
  with xs(2) have "(''t'', XsPending) \<in> (\<lambda>x. (ux_task_exec_id x, ux_state x)) ` set xs"
    by (simp add: is_terminal_def)
  with xs(1) show ?thesis by blast
qed

text \<open>C8: What is finished stays finished: once a task of a run has completed, failed or been cancelled, no sequence
  of creations, imports, commits, truncations, prunings and lease operations changes its stored state.\<close>

theorem finished_stays_finished:
  assumes "runs store_step db_empty d" "runs run_step d u" "stored_state d i = Some s" "is_terminal s"
  shows "stored_state u i = Some s"
proof -
  have "tasks_ok d" using store.runs_preserve [OF assms(1) empty_store_ok] by (simp add: store_ok_def)
  then show ?thesis using assms(2,3,4) using terminal.runs_preserve [OF assms(2), of i s] by simp
qed

theorem finished_stays_finished_witness:
  "stored_state (snd (commit_execution None sample_commit
     (snd (commit_execution None (commit_default\<lparr>ec_run_id := ''r'', ec_transitions :=
        [\<lparr>tt_task_exec_id = ''t'', tt_to = XsCancelled, tt_outcome_json = None\<rparr>]\<rparr>) sample_db)))) ''t'' = Some XsCancelled"
proof -
  let ?cancel = "commit_default\<lparr>ec_run_id := ''r'', ec_transitions :=
        [\<lparr>tt_task_exec_id = ''t'', tt_to = XsCancelled, tt_outcome_json = None\<rparr>]\<rparr>"
  let ?d = "snd (commit_execution None ?cancel sample_db)"
  have "runs store_step db_empty ?d"
    by (rule runs_trans [OF sample_reachable], rule runs_single, rule store_run, rule step_commit)
  moreover have "runs run_step ?d (snd (commit_execution None sample_commit ?d))"
    by (rule runs_single, rule step_commit)
  moreover have "stored_state ?d ''t'' = Some XsCancelled" by code_simp
  ultimately show ?thesis by (rule finished_stays_finished) (simp add: is_terminal_def)
qed

text \<open>C20: The lease gives one writer: after a server has acquired it, every commit that is fenced with another
  boot id fails and writes nothing, heartbeats and releases of other servers have no effect, and their claims are
  refused until the heartbeat is older than their staleness bound; and it could only be taken from a server
  whose heartbeat was older than that.\<close>

theorem lease_has_one_writer:
  assumes "claim_execution_owner b pid now stale d = (OcAcquired previous, u)" "x \<noteq> b"
  shows "(effective_fence fence c = Some x \<longrightarrow> commit_execution fence c u = (Inl XeFenced, u))
    \<and> heartbeat_execution_owner x t u = (False, u) \<and> release_execution_owner x u = u
    \<and> ((\<exists>p. fst (claim_execution_owner x pid' t stale' u) = OcHeldBy b p) \<longleftrightarrow> t - stale' \<le> now)
    \<and> (case db_owner d of
         Some y \<Rightarrow> \<not> (ow_boot_id y \<noteq> b \<and> now - stale \<le> ow_heartbeat_unix_ms y)
       | None \<Rightarrow> True)"
proof -
  have "\<exists>y. db_owner u = Some y \<and> ow_boot_id y = b \<and> ow_heartbeat_unix_ms y = now"
    and "case db_owner d of
         Some y \<Rightarrow> \<not> (ow_boot_id y \<noteq> b \<and> now - stale \<le> ow_heartbeat_unix_ms y) | None \<Rightarrow> True"
    using assms(1) by (auto simp: claim_execution_owner_def Let_def split: option.splits if_splits)
  then show ?thesis
    using assms(2) by (auto simp: commit_execution_def fenced_def heartbeat_execution_owner_def
        release_execution_owner_def claim_execution_owner_def Let_def split: if_splits)
qed

theorem lease_has_one_writer_witness:
  "commit_execution (Some ''a'') commit_default (snd (claim_execution_owner ''b'' 2 100 10
       (db_empty\<lparr>db_owner := Some \<lparr>ow_boot_id = ''a'', ow_pid = 1, ow_heartbeat_unix_ms = 89\<rparr>\<rparr>))) =
     (Inl XeFenced, snd (claim_execution_owner ''b'' 2 100 10
       (db_empty\<lparr>db_owner := Some \<lparr>ow_boot_id = ''a'', ow_pid = 1, ow_heartbeat_unix_ms = 89\<rparr>\<rparr>)))"
proof -
  let ?d = "db_empty\<lparr>db_owner := Some \<lparr>ow_boot_id = ''a'', ow_pid = 1, ow_heartbeat_unix_ms = 89\<rparr>\<rparr>"
  have claim: "claim_execution_owner ''b'' 2 100 10 ?d =
      (OcAcquired (Some (''a'', 1)), snd (claim_execution_owner ''b'' 2 100 10 ?d))"
    by (simp add: claim_execution_owner_def Let_def)
  have "effective_fence (Some ''a'') commit_default = Some ''a''" by (simp add: effective_fence_def commit_default_def)
  with lease_has_one_writer [OF claim, of "''a''" "Some ''a''" commit_default] show ?thesis by simp
qed

end
