(* ===== verification/Command_Core.thy ===== *)
theory Command_Core
  imports Registry Git_Tmux Task_Policy
begin

text \<open>
  What the commands and task operations of \<open>ajax-core\<close> share: \<open>commands/context.rs\<close>, \<open>commands/lookup.rs\<close>,
  \<open>task_operations/kernel.rs\<close>, the git evidence of \<open>commands.rs\<close> and \<open>analysis/git_evidence.rs\<close>, and the
  parts of \<open>config.rs\<close> they read. Paths are \<open>std::path\<close> on Unix.

  A command works on a machine: the command context (configuration and registry), the world outside (disk,
  processes, time) and the list of the commands that were run so far. An action ends with a value or an error,
  and in both cases with the machine it left: what was written before an error stays written. The world is
  abstract; the environment gives what the code reads of it.
\<close>

section \<open>Paths\<close>

definition path_components :: "string \<Rightarrow> string list" where
  "path_components s =
     (let parts = split_on (CHR ''/'') s;
          keep = filter (\<lambda>c. c \<noteq> [] \<and> c \<noteq> ''.'')
      in if starts_with s ''/'' then ''/'' # keep parts
         else (case parts of
                 [] \<Rightarrow> []
               | p # ps \<Rightarrow> (if p = ''.'' then [''.''] else keep [p]) @ keep ps))"

definition path_eq :: "string \<Rightarrow> string \<Rightarrow> bool" where
  "path_eq a b \<longleftrightarrow> path_components a = path_components b"

definition path_starts_with :: "string \<Rightarrow> string \<Rightarrow> bool" where
  "path_starts_with p base = prefix (path_components base) (path_components p)"

definition path_join :: "string \<Rightarrow> string \<Rightarrow> string" where
  "path_join a b =
     (if starts_with b ''/'' then b
      else if a = [] \<or> ends_with a ''/'' then a @ b
      else a @ ''/'' @ b)"

text \<open>On the reversed text: trailing separators and trailing \<open>/.\<close> go, the root stays.\<close>

fun trim_separators :: "string \<Rightarrow> string" where
  "trim_separators [] = []"
| "trim_separators [c] = [c]"
| "trim_separators (c # d # s) =
     (if c = CHR ''/'' then trim_separators (d # s)
      else if c = CHR ''.'' \<and> d = CHR ''/'' then trim_separators (d # s)
      else c # d # s)"

definition path_parent :: "string \<Rightarrow> string option" where
  "path_parent s =
     (if path_components s = [] \<or> path_components s = [''/''] then None
      else Some (rev (trim_separators (dropWhile (\<lambda>c. c \<noteq> CHR ''/'') (trim_separators (rev s))))))"

definition path_file_name :: "string \<Rightarrow> string option" where
  "path_file_name s =
     (case rev (path_components s) of
        [] \<Rightarrow> None
      | c # _ \<Rightarrow> if c \<in> {''/'', ''.'', ''..''} then None else Some c)"

section \<open>Configuration and context\<close>

datatype WorktreePlacement = WpLegacySibling | WpRoot string

record ManagedRepo =
  mr_name :: string
  mr_path :: string
  mr_default_branch :: string
  mr_bootstrap :: "string option"

record TestCommand =
  tc_repo :: string
  tc_command :: string

text \<open>The fields of \<open>Config\<close> and \<open>RuntimePaths\<close> that the modelled commands read.\<close>

record CommandContext =
  cx_repos :: "ManagedRepo list"
  cx_test_commands :: "TestCommand list"
  cx_worktree_placement :: WorktreePlacement
  cx_registry :: InMemoryRegistry

datatype CommandError =
    CdTaskNotFound string
  | CdRepoNotFound string
  | CdConfirmationRequired
  | CdPlanBlocked "string list"
  | CdCommandRun CommandRunError
  | CdRegistry RegistryError

record CommandPlan =
  pn_title :: string
  pn_commands :: "CommandSpec list"
  pn_requires_confirmation :: bool
  pn_blocked_reasons :: "string list"

definition plan_new :: "string \<Rightarrow> CommandPlan" where
  "plan_new title =
     \<lparr>pn_title = title, pn_commands = [], pn_requires_confirmation = False, pn_blocked_reasons = []\<rparr>"

datatype OpenMode = OmAttach | OmSwitchClient | OmNoAttach

definition find_task :: "CommandContext \<Rightarrow> string \<Rightarrow> CommandError + Task" where
  "find_task cx handle =
     (case find (\<lambda>t. qualified_handle t = handle) (list_tasks (cx_registry cx)) of
        Some t \<Rightarrow> Inr t | None \<Rightarrow> Inl (CdTaskNotFound handle))"

definition task_repo_path :: "CommandContext \<Rightarrow> Task \<Rightarrow> string option" where
  "task_repo_path cx t = map_option mr_path (find (\<lambda>repo. mr_name repo = t_repo t) (cx_repos cx))"

definition repo_path_or_error :: "CommandContext \<Rightarrow> Task \<Rightarrow> CommandError + string" where
  "repo_path_or_error cx t =
     (case task_repo_path cx t of Some p \<Rightarrow> Inr p | None \<Rightarrow> Inl (CdRepoNotFound (t_repo t)))"

section \<open>Machines and actions\<close>

text \<open>The world is of any type. \<open>en_clock\<close> gives the readings of the clock that one operation makes and
  advances the world, so that nothing is assumed of the times of different operations.\<close>

record 'r environment =
  en_run :: "'r runner"
  en_clock :: "'r \<Rightarrow> clock \<times> 'r"
  en_exists :: "'r \<Rightarrow> string \<Rightarrow> bool"
  en_is_dir :: "'r \<Rightarrow> string \<Rightarrow> bool"
  en_canonicalize :: "'r \<Rightarrow> string \<Rightarrow> string option"
  en_read_dir :: "'r \<Rightarrow> string \<Rightarrow> string list option"
  en_forget_trusted :: "string \<Rightarrow> 'r \<Rightarrow> 'r"

record 'r machine =
  mc_context :: CommandContext
  mc_world :: 'r
  mc_commands :: "CommandSpec list"

type_synonym ('r, 'a) act = "'r machine \<Rightarrow> (CommandError + 'a) \<times> 'r machine"

definition give :: "'a \<Rightarrow> ('r, 'a) act" where
  "give x m = (Inr x, m)"

definition fail :: "CommandError \<Rightarrow> ('r, 'a) act" where
  "fail e m = (Inl e, m)"

definition seq :: "('r, 'a) act \<Rightarrow> ('a \<Rightarrow> ('r, 'b) act) \<Rightarrow> ('r, 'b) act" where
  "seq f g m = (case f m of (Inl e, m1) \<Rightarrow> (Inl e, m1) | (Inr x, m1) \<Rightarrow> g x m1)"

definition lift :: "CommandError + 'a \<Rightarrow> ('r, 'a) act" where
  "lift r m = (r, m)"

definition view :: "('r machine \<Rightarrow> CommandError + 'a) \<Rightarrow> ('r, 'a) act" where
  "view f m = (f m, m)"

fun each :: "('a \<Rightarrow> ('r, unit) act) \<Rightarrow> 'a list \<Rightarrow> ('r, unit) act" where
  "each f [] = give ()"
| "each f (x # xs) = seq (f x) (\<lambda>_. each f xs)"

definition set_registry :: "InMemoryRegistry \<Rightarrow> 'r machine \<Rightarrow> 'r machine" where
  "set_registry r m = m\<lparr>mc_context := (mc_context m)\<lparr>cx_registry := r\<rparr>\<rparr>"

definition mc_registry :: "'r machine \<Rightarrow> InMemoryRegistry" where
  "mc_registry m = cx_registry (mc_context m)"

text \<open>A registry operation with the readings of its clock; its error is a \<open>CommandError::Registry\<close>.\<close>

definition registry_act ::
    "'r environment \<Rightarrow> (clock \<Rightarrow> InMemoryRegistry \<Rightarrow> RegistryError + InMemoryRegistry) \<Rightarrow> ('r, unit) act" where
  "registry_act env f m =
     (case en_clock env (mc_world m) of
        (clk, w) \<Rightarrow>
          (case f clk (mc_registry m) of
             Inl e \<Rightarrow> (Inl (CdRegistry e), m\<lparr>mc_world := w\<rparr>)
           | Inr r \<Rightarrow> (Inr (), set_registry r (m\<lparr>mc_world := w\<rparr>))))"

definition run_command :: "'r environment \<Rightarrow> CommandSpec \<Rightarrow> ('r, CommandOutput) act" where
  "run_command env c m =
     (case en_run env (mc_world m) c of
        (res, w) \<Rightarrow>
          (case res of Inl e \<Rightarrow> Inl (CdCommandRun e) | Inr out \<Rightarrow> Inr out,
           m\<lparr>mc_world := w, mc_commands := mc_commands m @ [c]\<rparr>))"

definition task_of :: "string \<Rightarrow> ('r, Task) act" where
  "task_of handle = view (\<lambda>m. find_task (mc_context m) handle)"

text \<open>The error of a command that ran and reported a status other than zero.\<close>

definition non_zero_exit :: "CommandSpec \<Rightarrow> CommandOutput \<Rightarrow> CommandError" where
  "non_zero_exit c out =
     CdCommandRun (CeNonZeroExit (cs_program c) (co_status_code out) (co_stderr out) (cs_cwd c))"

definition run_checked :: "'r environment \<Rightarrow> CommandSpec \<Rightarrow> ('r, CommandOutput) act" where
  "run_checked env c =
     seq (run_command env c) (\<lambda>out.
       if co_status_code out \<noteq> 0 then fail (non_zero_exit c out) else give out)"

definition run_successful_command :: "'r environment \<Rightarrow> CommandSpec \<Rightarrow> ('r, string) act" where
  "run_successful_command env c = seq (run_checked env c) (\<lambda>out. give (co_stdout out))"

definition update_task_lifecycle ::
    "'r environment \<Rightarrow> string \<Rightarrow> LifecycleStatus \<Rightarrow> ('r, unit) act" where
  "update_task_lifecycle env handle status =
     seq (task_of handle) (\<lambda>t. registry_act env (\<lambda>clk. update_lifecycle clk (t_id t) status))"

section \<open>Execution of a plan (kernel.rs)\<close>

fun run_plan_commands ::
    "'r environment \<Rightarrow> (nat \<Rightarrow> CommandSpec \<Rightarrow> CommandOutput \<Rightarrow> ('r, unit) act) \<Rightarrow>
     nat \<Rightarrow> CommandSpec list \<Rightarrow> ('r, CommandOutput list) act" where
  "run_plan_commands env on_success i [] = give []"
| "run_plan_commands env on_success i (c # cs) =
     seq (run_checked env c) (\<lambda>out.
     seq (on_success i c out) (\<lambda>_.
     seq (run_plan_commands env on_success (Suc i) cs) (\<lambda>outs. give (out # outs))))"

definition execute_external_plan_with_success ::
    "'r environment \<Rightarrow> CommandPlan \<Rightarrow> bool \<Rightarrow> (nat \<Rightarrow> CommandSpec \<Rightarrow> CommandOutput \<Rightarrow> ('r, unit) act) \<Rightarrow>
     ('r, CommandOutput list) act" where
  "execute_external_plan_with_success env plan confirmed on_success =
     (if pn_blocked_reasons plan \<noteq> [] then fail (CdPlanBlocked (pn_blocked_reasons plan))
      else if pn_requires_confirmation plan \<and> \<not> confirmed then fail CdConfirmationRequired
      else run_plan_commands env on_success 0 (pn_commands plan))"

definition execute_external_plan ::
    "'r environment \<Rightarrow> CommandPlan \<Rightarrow> bool \<Rightarrow> ('r, CommandOutput list) act" where
  "execute_external_plan env plan confirmed =
     execute_external_plan_with_success env plan confirmed (\<lambda>_ _ _. give ())"

section \<open>Git evidence\<close>

definition worktree_path_matches :: "('r \<Rightarrow> string \<Rightarrow> string option) \<Rightarrow> 'r \<Rightarrow> string \<Rightarrow> string \<Rightarrow> bool" where
  "worktree_path_matches canonicalize w listed expected \<longleftrightarrow>
     path_eq listed expected
     \<or> (case (canonicalize w listed, canonicalize w expected) of
          (Some a, Some b) \<Rightarrow> path_eq a b | _ \<Rightarrow> False)"

definition worktree_matches_task_intent ::
    "('r \<Rightarrow> string \<Rightarrow> string option) \<Rightarrow> 'r \<Rightarrow> GitWorktree \<Rightarrow> string \<Rightarrow> string \<Rightarrow> bool" where
  "worktree_matches_task_intent canonicalize w wt expected_path expected_branch \<longleftrightarrow>
     worktree_path_matches canonicalize w (wt_path wt) expected_path \<and> wt_branch wt = Some expected_branch"

text \<open>None when \<open>parse_status\<close> panics (a status code that is not at a character boundary).\<close>

definition interpret_git_status :: "string \<Rightarrow> GitStatus option \<Rightarrow> bool \<Rightarrow> GitStatus option option" where
  "interpret_git_status output previous merged =
     (let evidence = list_ex (\<lambda>line. starts_with line ''## '') (str_lines output) in
      case parse_status output merged of
        None \<Rightarrow> None
      | Some status \<Rightarrow>
          Some (if \<not> evidence \<and> trim output = [] then previous
                else if \<not> evidence
                then Some (case previous of
                       Some p \<Rightarrow> status\<lparr>gs_branch_exists := gs_branch_exists p,
                                        gs_current_branch := gs_current_branch p\<rparr>
                     | None \<Rightarrow> status)
                else Some status))"

definition no_git_status :: "bool \<Rightarrow> bool \<Rightarrow> string option \<Rightarrow> bool \<Rightarrow> GitStatus" where
  "no_git_status worktree branch current merged =
     \<lparr>gs_worktree_exists = worktree, gs_branch_exists = branch, gs_current_branch = current, gs_dirty = False,
      gs_ahead = 0, gs_behind = 0, gs_merged = merged, gs_untracked_files = 0, gs_unpushed_commits = 0,
      gs_conflicted = False, gs_last_commit = None\<rparr>"

definition substrate_git_status :: "GitStatus option \<Rightarrow> bool \<Rightarrow> bool \<Rightarrow> string option \<Rightarrow> GitStatus" where
  "substrate_git_status previous worktree_exists branch_exists current_branch =
     (let s = (case previous of
                 Some p \<Rightarrow> p | None \<Rightarrow> no_git_status worktree_exists branch_exists current_branch False);
          s1 = s\<lparr>gs_worktree_exists := worktree_exists, gs_branch_exists := branch_exists,
                 gs_current_branch := current_branch\<rparr>
      in if worktree_exists then s1
         else s1\<lparr>gs_dirty := False, gs_ahead := 0, gs_behind := 0, gs_untracked_files := 0,
                 gs_unpushed_commits := 0, gs_conflicted := False, gs_last_commit := None\<rparr>)"

definition mark_task_git_substrate_missing :: "'r environment \<Rightarrow> string \<Rightarrow> ('r, bool) act" where
  "mark_task_git_substrate_missing env handle =
     seq (task_of handle) (\<lambda>t.
       let status = substrate_git_status (t_git_status t) False False None in
       if t_git_status t = Some status then give False
       else seq (registry_act env (\<lambda>clk. update_git_status clk (t_id t) status)) (\<lambda>_. give True))"

text \<open>One repository: its listing, None when there is nothing listed; an error with the machine it left.\<close>

definition repo_listing :: "'r environment \<Rightarrow> string \<Rightarrow> ('r, (string \<times> string) option) act" where
  "repo_listing env repo_path =
     seq (run_successful_command env (list_worktrees ''git'' repo_path)) (\<lambda>worktrees.
       if trim worktrees = [] then give None
       else seq (run_successful_command env (list_branches ''git'' repo_path)) (\<lambda>branches.
              give (Some (worktrees, branches))))"

definition substrate_update ::
    "'r environment \<Rightarrow> 'r \<Rightarrow> GitWorktree list \<Rightarrow> string list \<Rightarrow> Task \<Rightarrow> (task_id \<times> GitStatus) list" where
  "substrate_update env w worktrees branches t =
     (let found = find (\<lambda>wt. worktree_path_matches (en_canonicalize env) w (wt_path wt) (t_worktree_path t)) worktrees;
          current = (case found of Some wt \<Rightarrow> wt_branch wt | None \<Rightarrow> None);
          status = substrate_git_status (t_git_status t) (found \<noteq> None) (t_branch t \<in> set branches) current
      in if t_git_status t \<noteq> Some status then [(t_id t, status)] else [])"

text \<open>The loop over the repositories collects the updates; \<open>tolerant\<close> says that errors are collected too
  (\<open>unobserved\<close>) instead of returned.\<close>

fun collect_substrate_updates ::
    "'r environment \<Rightarrow> bool \<Rightarrow> Task list \<Rightarrow> ManagedRepo list \<Rightarrow>
     ('r, (task_id \<times> GitStatus) list \<times> (string \<times> CommandError) list) act" where
  "collect_substrate_updates env tolerant tasks [] = give ([], [])"
| "collect_substrate_updates env tolerant tasks (repo # repos) =
     (let repo_tasks = filter (\<lambda>t. t_repo t = mr_name repo) tasks;
          continue = (\<lambda>ups errs. seq (collect_substrate_updates env tolerant tasks repos) (\<lambda>(us, es).
             give (ups @ us, errs @ es)))
      in if repo_tasks = [] then continue [] []
         else (\<lambda>m. case repo_listing env (mr_path repo) m of
             (Inl e, m1) \<Rightarrow> if tolerant then continue [] [(mr_name repo, e)] m1 else (Inl e, m1)
           | (Inr None, m1) \<Rightarrow> continue [] [] m1
           | (Inr (Some (worktrees, branches)), m1) \<Rightarrow>
               continue (concat (map (substrate_update env (mc_world m1) (parse_worktrees worktrees)
                  (parse_branches branches)) repo_tasks)) [] m1))"

definition substrate_tasks :: "CommandContext \<Rightarrow> Task list" where
  "substrate_tasks cx =
     filter (\<lambda>t. t_git_status t \<noteq> None \<or> has_side_flag SfWorktreeMissing t \<or> has_side_flag SfBranchMissing t)
       (filter (\<lambda>t. t_lifecycle_status t \<noteq> LcRemoved) (list_tasks (cx_registry cx)))"

definition refresh_git_substrate_by_repo ::
    "'r environment \<Rightarrow> bool \<Rightarrow> ('r, bool \<times> (string \<times> CommandError) list) act" where
  "refresh_git_substrate_by_repo env tolerant =
     seq (view (\<lambda>m. Inr (mc_context m))) (\<lambda>cx.
       let tasks = substrate_tasks cx in
       if tasks = [] then give (False, [])
       else seq (collect_substrate_updates env tolerant tasks (cx_repos cx)) (\<lambda>(updates, unobserved).
            seq (each (\<lambda>(i, status). registry_act env (\<lambda>clk. update_git_status clk i status)) updates) (\<lambda>_.
            give (updates \<noteq> [], unobserved))))"

section \<open>Lemmas: what every action of a machine keeps\<close>

text \<open>\<open>keeps P a\<close>: the action keeps the predicate, whether it succeeds or not. \<open>runs_only Q a\<close>: every command
  that it runs satisfies the predicate. The collection \<open>keeps_intro\<close> follows the structure of an action.\<close>

named_theorems keeps_intro

definition keeps :: "('r machine \<Rightarrow> bool) \<Rightarrow> ('r, 'a) act \<Rightarrow> bool" where
  "keeps P a \<longleftrightarrow> (\<forall>m. P m \<longrightarrow> P (snd (a m)))"

definition runs_only :: "(CommandSpec \<Rightarrow> bool) \<Rightarrow> ('r, 'a) act \<Rightarrow> bool" where
  "runs_only Q a \<longleftrightarrow> (\<forall>m. \<exists>cs. mc_commands (snd (a m)) = mc_commands m @ cs \<and> list_all Q cs)"

lemma keepsD: "keeps P a \<Longrightarrow> P m \<Longrightarrow> P (snd (a m))"
  by (simp add: keeps_def)

lemma keeps_give [keeps_intro]: "keeps P (give x)"
  by (simp add: keeps_def give_def)

lemma keeps_fail [keeps_intro]: "keeps P (fail e)"
  by (simp add: keeps_def fail_def)

lemma keeps_lift [keeps_intro]: "keeps P (lift r)"
  by (simp add: keeps_def lift_def)

lemma keeps_view [keeps_intro]: "keeps P (view f)"
  by (simp add: keeps_def view_def)

lemma keeps_task_of [keeps_intro]: "keeps P (task_of handle)"
  by (simp add: task_of_def keeps_view)

lemma keeps_seq [keeps_intro]: "keeps P f \<Longrightarrow> (\<And>x. keeps P (g x)) \<Longrightarrow> keeps P (seq f g)"
  by (fastforce simp: keeps_def seq_def split: prod.split sum.split)

lemma keeps_each [keeps_intro]: "(\<And>x. x \<in> set xs \<Longrightarrow> keeps P (f x)) \<Longrightarrow> keeps P (each f xs)"
  by (induction xs) (auto intro: keeps_intro)

lemma keeps_if [keeps_intro]: "(b \<Longrightarrow> keeps P f) \<Longrightarrow> (\<not> b \<Longrightarrow> keeps P g) \<Longrightarrow> keeps P (if b then f else g)"
  by simp

lemma keeps_option [keeps_intro]:
  "keeps P f \<Longrightarrow> (\<And>x. keeps P (g x)) \<Longrightarrow> keeps P (case v of None \<Rightarrow> f | Some x \<Rightarrow> g x)"
  by (cases v) simp_all

lemma runs_give [keeps_intro]: "runs_only Q (give x)"
  by (auto simp: runs_only_def give_def)

lemma runs_fail [keeps_intro]: "runs_only Q (fail e)"
  by (auto simp: runs_only_def fail_def)

lemma runs_lift [keeps_intro]: "runs_only Q (lift r)"
  by (auto simp: runs_only_def lift_def)

lemma runs_view [keeps_intro]: "runs_only Q (view f)"
  by (auto simp: runs_only_def view_def)

lemma runs_task_of [keeps_intro]: "runs_only Q (task_of handle)"
  by (simp add: task_of_def runs_view)

lemma runs_registry_act [keeps_intro]: "runs_only Q (registry_act env f)"
  by (auto simp: runs_only_def registry_act_def set_registry_def split: prod.split sum.split)

lemma runs_seq [keeps_intro]:
  assumes "runs_only Q f" "\<And>x. runs_only Q (g x)"
  shows "runs_only Q (seq f g)"
  unfolding runs_only_def
proof
  fix m
  obtain cs where cs: "mc_commands (snd (f m)) = mc_commands m @ cs" "list_all Q cs"
    using assms(1) by (auto simp: runs_only_def)
  obtain r m1 where f: "f m = (r, m1)" by fastforce
  show "\<exists>cs. mc_commands (snd (seq f g m)) = mc_commands m @ cs \<and> list_all Q cs"
  proof (cases r)
    case (Inl e)
    with cs f show ?thesis by (auto simp: seq_def)
  next
    case (Inr x)
    obtain ds where "mc_commands (snd (g x m1)) = mc_commands m1 @ ds" "list_all Q ds"
      using assms(2) by (auto simp: runs_only_def)
    with cs f Inr show ?thesis by (intro exI [of _ "cs @ ds"]) (simp add: seq_def)
  qed
qed

lemma runs_each [keeps_intro]: "(\<And>x. x \<in> set xs \<Longrightarrow> runs_only Q (f x)) \<Longrightarrow> runs_only Q (each f xs)"
  by (induction xs) (auto intro: keeps_intro)

lemma runs_if [keeps_intro]:
  "(b \<Longrightarrow> runs_only Q f) \<Longrightarrow> (\<not> b \<Longrightarrow> runs_only Q g) \<Longrightarrow> runs_only Q (if b then f else g)"
  by simp

lemma runs_option [keeps_intro]:
  "runs_only Q f \<Longrightarrow> (\<And>x. runs_only Q (g x)) \<Longrightarrow> runs_only Q (case v of None \<Rightarrow> f | Some x \<Rightarrow> g x)"
  by (cases v) simp_all

lemma runs_command [keeps_intro]: "Q c \<Longrightarrow> runs_only Q (run_command env c)"
  by (auto simp: runs_only_def run_command_def split: prod.split)

lemma runs_checked [keeps_intro]: "Q c \<Longrightarrow> runs_only Q (run_checked env c)"
  by (auto simp: run_checked_def intro!: keeps_intro)

text \<open>A predicate of the registry is kept by everything but the registry operations.\<close>

lemma keeps_run_command [keeps_intro]: "keeps (\<lambda>m. P (mc_context m)) (run_command env c)"
  by (auto simp: keeps_def run_command_def split: prod.split)

lemma keeps_run_checked [keeps_intro]: "keeps (\<lambda>m. P (mc_context m)) (run_checked env c)"
  by (auto simp: run_checked_def intro!: keeps_intro)

lemma keeps_registry_act:
  "(\<And>clk r s. f clk r = Inr s \<Longrightarrow> P r \<Longrightarrow> P s) \<Longrightarrow> keeps (\<lambda>m. P (mc_registry m)) (registry_act env f)"
  by (auto simp: keeps_def registry_act_def set_registry_def mc_registry_def split: prod.split sum.split)

lemma seq_Inr:
  "seq f g m = (Inr y, m2) \<longleftrightarrow> (\<exists>x m1. f m = (Inr x, m1) \<and> g x m1 = (Inr y, m2))"
  by (auto simp: seq_def split: prod.split sum.split)

lemma run_plan_runs_only:
  "(\<And>i c out. runs_only Q (on_success i c out)) \<Longrightarrow> list_all Q cs \<Longrightarrow>
   runs_only Q (run_plan_commands env on_success i cs)"
  by (induction cs arbitrary: i) (auto intro!: keeps_intro)

section \<open>Lemmas: the names of the stored tasks\<close>

text \<open>Which tasks are stored, under which identity and handle: what every operation but the creation and the
  deletion of a task leaves as it is.\<close>

definition ident :: "Task \<Rightarrow> task_id \<times> string" where
  "ident t = (t_id t, qualified_handle t)"

definition entries :: "InMemoryRegistry \<Rightarrow> (task_id \<times> task_id \<times> string) list" where
  "entries r = map (\<lambda>(k, t). (k, ident t)) (rg_tasks r)"

definition same_tasks :: "(task_id \<times> task_id \<times> string) list \<Rightarrow> InMemoryRegistry \<Rightarrow> bool" where
  "same_tasks es r \<longleftrightarrow> bt_inv (rg_tasks r) \<and> entries r = es"

text \<open>The machine stores these tasks, and it has run these commands and maybe more.\<close>

definition task_named ::
    "(task_id \<times> task_id \<times> string) list \<Rightarrow> CommandSpec list \<Rightarrow> 'r machine \<Rightarrow> bool" where
  "task_named es cs m \<longleftrightarrow> same_tasks es (mc_registry m) \<and> prefix cs (mc_commands m)"

lemma bt_insert_same:
  "bt_inv m \<Longrightarrow> bt_get k m = Some v \<Longrightarrow> g (k, w) = g (k, v) \<Longrightarrow> map g (bt_insert k w m) = map g m"
proof (induction k w m rule: bt_insert.induct)
  case (2 k w l x m)
  have "bt_inv m" "\<forall>y \<in> fst ` set m. l < y" using 2(2) by (auto simp: bt_inv_def)
  moreover have "\<not> k < l"
  proof
    assume "k < l"
    moreover have "k = l \<or> k \<in> fst ` set m" using 2(3) by (force simp: bt_get_def dest: map_of_SomeD split: if_splits)
    ultimately show False using \<open>\<forall>y \<in> fst ` set m. l < y\<close> by auto
  qed
  ultimately show ?case using 2 by (auto simp: bt_get_def)
qed (simp add: bt_get_def)

lemma same_tasks_put:
  assumes "same_tasks es r" "bt_get i (rg_tasks r) = Some t" "ident u = ident t" "rg_tasks s = bt_insert i u (rg_tasks r)"
  shows "same_tasks es s"
  using assms bt_insert_same [of "rg_tasks r" i t "\<lambda>(k, t). (k, ident t)" u]
  by (simp add: same_tasks_def entries_def bt_inv_insert)

lemma same_tasks_frame: "same_tasks es r \<Longrightarrow> rg_tasks s = rg_tasks r \<Longrightarrow> same_tasks es s"
  by (simp add: same_tasks_def entries_def)

lemma ident_side [simp]:
  "ident (t\<lparr>t_annotations := a\<rparr>) = ident t" "ident (t\<lparr>t_side_flags := fs\<rparr>) = ident t"
  "ident (t\<lparr>t_metadata := md\<rparr>) = ident t" "ident (t\<lparr>t_git_status := g\<rparr>) = ident t"
  "ident (t\<lparr>t_tmux_status := ts\<rparr>) = ident t" "ident (t\<lparr>t_task_window_status := tw\<rparr>) = ident t"
  "ident (t\<lparr>t_branch := b\<rparr>) = ident t" "ident (t\<lparr>t_live_status := l\<rparr>) = ident t"
  "ident (t\<lparr>t_live_status_observed_at := lo\<rparr>) = ident t" "ident (t\<lparr>t_lifecycle_status := lc\<rparr>) = ident t"
  "ident (t\<lparr>t_agent_status := as\<rparr>) = ident t" "ident (t\<lparr>t_agent_attempts := aa\<rparr>) = ident t"
  "ident (t\<lparr>t_runtime_projection := rp\<rparr>) = ident t" "ident (t\<lparr>t_last_activity_at := la\<rparr>) = ident t"
  by (simp_all add: ident_def qualified_handle_def)

lemma ident_attempts [simp]:
  "ident (close_open_attempts st now t) = ident t"
  "ident (reopen_last_launch_attempt_if_closed_before_start t) = ident t"
  by (simp_all add: close_open_attempts_def reopen_last_launch_attempt_if_closed_before_start_def
      Let_def split: list.split)

lemma ident_updates [simp]:
  "ident (add_side_flag f t) = ident t" "ident (remove_side_flag f t) = ident t" "ident (set_flag_to b f t) = ident t"
  "ident (refresh_task_annotations t) = ident t"
  "ident (clear_live_status_if k t) = ident t" "ident (sync_open_attempts now t) = ident t"
  "ident (refresh_runtime_projection now t) = ident t"
  by (simp_all add: add_side_flag_def remove_side_flag_def set_flag_to_def refresh_task_annotations_def
      clear_live_status_if_def sync_open_attempts_def refresh_runtime_projection_def
      refresh_runtime_projection_from_source_def Let_def split: option.split AgentRuntimeStatus.split)

lemma ident_missing [simp]: "ident (mark_resource_missing now f t) = ident t"
  by (simp add: mark_resource_missing_def Let_def)

lemma ident_substrate [simp]:
  "ident (apply_git_status clk g t) = ident t" "ident (apply_tmux_status clk x t) = ident t"
  "ident (apply_task_window_status clk w t) = ident t"
proof -
  obtain t0 s where a: "adopt_moved_branch g t = (t0, s)" by (cases "adopt_moved_branch g t")
  then have "ident t0 = ident t" by (auto simp: adopt_moved_branch_def split: option.splits if_splits)
  with a show "ident (apply_git_status clk g t) = ident t" by (simp add: apply_git_status_def Let_def)
qed (simp_all add: apply_tmux_status_def apply_task_window_status_def Let_def)

lemma same_tasks_ops:
  assumes "same_tasks es r"
  shows "update_lifecycle clk i status r = Inr s \<Longrightarrow> same_tasks es s"
    and "update_git_status clk i g r = Inr s \<Longrightarrow> same_tasks es s"
    and "update_tmux_status clk i x r = Inr s \<Longrightarrow> same_tasks es s"
    and "update_task_window_status clk i w r = Inr s \<Longrightarrow> same_tasks es s"
    and "record_event now i kind message r = Inr s \<Longrightarrow> same_tasks es s"
    and "record_step_receipt p r = Inr s \<Longrightarrow> same_tasks es s"
    and "(\<And>t. ident (f t) = ident t) \<Longrightarrow> same_tasks es (get_task_mut i f r)"
proof -
  show "same_tasks es s" if s: "update_lifecycle clk i status r = Inr s"
  proof -
    obtain t u where t: "bt_get i (rg_tasks r) = Some t" "transition_lifecycle t status TrGeneric = Inr u"
      using s by (auto simp: update_lifecycle_def split: option.splits sum.splits)
    let ?u = "refresh_task_annotations (remove_side_flag SfStale (u\<lparr>t_last_activity_at := clk 0\<rparr>))"
    have "ident ?u = ident t" using transition_lifecycle_Inr [OF t(2)] by simp
    from same_tasks_put [OF assms t(1) this] s t show ?thesis by (auto simp: update_lifecycle_def Let_def)
  qed
  have substrate: "same_tasks es s" if s: "update_substrate now f m i r = Inr s" and f: "\<And>t. ident (f t) = ident t"
    for now m f s
  proof -
    obtain t where t: "bt_get i (rg_tasks r) = Some t"
      using s by (auto simp: update_substrate_def split: option.splits)
    from same_tasks_put [OF assms t, of "refresh_task_annotations (f t)" s] f s t
    show ?thesis by (auto simp: update_substrate_def)
  qed
  show "update_git_status clk i g r = Inr s \<Longrightarrow> same_tasks es s"
    unfolding update_git_status_def by (erule substrate) simp
  show "update_tmux_status clk i x r = Inr s \<Longrightarrow> same_tasks es s"
    unfolding update_tmux_status_def by (erule substrate) simp
  show "update_task_window_status clk i w r = Inr s \<Longrightarrow> same_tasks es s"
    unfolding update_task_window_status_def by (erule substrate) simp
  show "record_event now i kind message r = Inr s \<Longrightarrow> same_tasks es s"
    using same_tasks_frame [OF assms] by (auto simp: record_event_def split: if_splits)
  show "record_step_receipt p r = Inr s \<Longrightarrow> same_tasks es s"
    using same_tasks_frame [OF assms] by (auto simp: record_step_receipt_def split: if_splits)
  show "same_tasks es (get_task_mut i f r)" if "\<And>t. ident (f t) = ident t"
  proof (cases "bt_get i (rg_tasks r)")
    case (Some t)
    with same_tasks_put [OF assms Some, of "f t"] that show ?thesis by (simp add: get_task_mut_def)
  qed (simp add: get_task_mut_def assms)
qed

lemma named_registry_act:
  assumes "\<And>clk r s. f clk r = Inr s \<Longrightarrow> same_tasks es r \<Longrightarrow> same_tasks es s"
  shows "keeps (task_named es cs) (registry_act env f)"
  using assms
  by (auto simp: keeps_def task_named_def registry_act_def set_registry_def mc_registry_def split: prod.split sum.split)

lemma named_registry_ops [keeps_intro]:
  "keeps (task_named es cs) (registry_act env (\<lambda>clk. update_lifecycle clk i status))"
  "keeps (task_named es cs) (registry_act env (\<lambda>clk. update_git_status clk i g))"
  "keeps (task_named es cs) (registry_act env (\<lambda>clk. update_tmux_status clk i x))"
  "keeps (task_named es cs) (registry_act env (\<lambda>clk. update_task_window_status clk i w))"
  "keeps (task_named es cs) (registry_act env (\<lambda>clk. record_event (clk 0) i kind message))"
  "keeps (task_named es cs) (registry_act env (\<lambda>clk. record_step_receipt (p clk)))"
  by (rule named_registry_act, erule same_tasks_ops, assumption)+

lemma named_run [keeps_intro]: "keeps (task_named es cs) (run_command env c)"
  by (auto simp: keeps_def task_named_def run_command_def mc_registry_def prefix_def split: prod.split)

lemma named_run_checked [keeps_intro]: "keeps (task_named es cs) (run_checked env c)"
  by (auto simp: run_checked_def intro!: keeps_intro)

lemma named_lifecycle [keeps_intro]: "keeps (task_named es cs) (update_task_lifecycle env handle status)"
  by (auto simp: update_task_lifecycle_def intro!: keeps_intro)

text \<open>So a handle names the same task throughout.\<close>

definition named :: "(task_id \<times> task_id \<times> string) list \<Rightarrow> string \<Rightarrow> task_id option" where
  "named es handle = map_option (\<lambda>(_, i, _). i) (find (\<lambda>(_, _, h). h = handle) es)"

lemma find_named:
  "map_option (\<lambda>(_, i, _). i) (find (\<lambda>(_, _, h). h = handle) (map (\<lambda>(k, t). (k, ident t)) xs))
    = map_option t_id (find (\<lambda>t. qualified_handle t = handle) (map snd xs))"
  by (induction xs) (auto simp: ident_def)

lemma find_task_named:
  assumes "task_named es cs m"
  shows "find_task (mc_context m) handle = Inr t \<Longrightarrow> named es handle = Some (t_id t)"
    and "find_task (mc_context m) handle = Inl e \<Longrightarrow> named es handle = None"
proof -
  have "named es handle
      = map_option t_id (find (\<lambda>t. qualified_handle t = handle) (list_tasks (mc_registry m)))"
    using assms find_named [of handle "rg_tasks (mc_registry m)"]
    by (auto simp: task_named_def same_tasks_def named_def entries_def list_tasks_def bt_values_def)
  then show "find_task (mc_context m) handle = Inr t \<Longrightarrow> named es handle = Some (t_id t)"
    and "find_task (mc_context m) handle = Inl e \<Longrightarrow> named es handle = None"
    by (auto simp: find_task_def mc_registry_def split: option.splits)
qed

end
