(* ===== verification/Teardown.thy ===== *)
theory Teardown
  imports Command_Core
begin

text \<open>
  Removing a task: \<open>commands/teardown/mod.rs\<close> (cleanup plans and the bookkeeping of a cleanup command),
  \<open>commands/teardown/drop_observation.rs\<close> (what is left of a task, and the steps that remain) and
  \<open>task_operations/drop_task.rs\<close> (the drop operation), on the machines of \<open>Command_Core\<close>. The removal of an
  entry from the store of trusted work trees is an operation of the environment.
\<close>

section \<open>Resources and steps (drop_observation.rs)\<close>

datatype ResourceState = RsPresent | RsAbsent | RsUnknown

fun debug_resource :: "ResourceState \<Rightarrow> string" where
  "debug_resource RsPresent = ''Present''"
| "debug_resource RsAbsent = ''Absent''"
| "debug_resource RsUnknown = ''Unknown''"

record DropObservation =
  do_agent :: ResourceState
  do_tmux_session :: ResourceState
  do_worktree :: ResourceState
  do_branch :: ResourceState

datatype DropOp = EnsureAgentStopped | EnsureTmuxSessionAbsent | EnsureWorktreeAbsent | EnsureBranchAbsent

definition DROP_TEARDOWN_ORDER :: "DropOp list" where
  "DROP_TEARDOWN_ORDER =
     [EnsureAgentStopped, EnsureWorktreeAbsent, EnsureBranchAbsent, EnsureTmuxSessionAbsent]"

fun drop_op_label :: "DropOp \<Rightarrow> string" where
  "drop_op_label EnsureAgentStopped = ''stop agent''"
| "drop_op_label EnsureWorktreeAbsent = ''remove worktree''"
| "drop_op_label EnsureBranchAbsent = ''delete branch''"
| "drop_op_label EnsureTmuxSessionAbsent = ''kill tmux session''"

fun observed_state :: "DropOp \<Rightarrow> DropObservation \<Rightarrow> ResourceState" where
  "observed_state EnsureAgentStopped ob = do_agent ob"
| "observed_state EnsureWorktreeAbsent ob = do_worktree ob"
| "observed_state EnsureBranchAbsent ob = do_branch ob"
| "observed_state EnsureTmuxSessionAbsent ob = do_tmux_session ob"

fun step_key :: "DropOp \<Rightarrow> string" where
  "step_key EnsureAgentStopped = ''agent_stopped''"
| "step_key EnsureTmuxSessionAbsent = ''tmux_session_absent''"
| "step_key EnsureWorktreeAbsent = ''worktree_absent''"
| "step_key EnsureBranchAbsent = ''branch_absent''"

fun records_observed_absent_receipt :: "DropOp \<Rightarrow> bool" where
  "records_observed_absent_receipt EnsureAgentStopped = False"
| "records_observed_absent_receipt _ = True"

fun receipt_target :: "DropOp \<Rightarrow> Task \<Rightarrow> string" where
  "receipt_target EnsureWorktreeAbsent t = t_worktree_path t"
| "receipt_target EnsureBranchAbsent t = t_branch t"
| "receipt_target _ t = t_tmux_session t"

definition plan_drop_from_observation :: "DropObservation \<Rightarrow> DropOp list" where
  "plan_drop_from_observation ob = filter (\<lambda>op. observed_state op ob \<noteq> RsAbsent) DROP_TEARDOWN_ORDER"

definition completed_steps :: "StepReceipt list \<Rightarrow> string list" where
  "completed_steps receipts =
     map sp_step_key (filter (\<lambda>p. sp_operation p = TkDrop \<and> sp_status p \<in> {SrSucceeded, SrSkippedObserved}) receipts)"

definition plan_drop_from_observation_for_task :: "DropObservation \<Rightarrow> StepReceipt list \<Rightarrow> DropOp list" where
  "plan_drop_from_observation_for_task ob receipts =
     filter (\<lambda>op. step_key op \<notin> set (completed_steps receipts)) (plan_drop_from_observation ob)"

definition format_drop_remaining_resources_detail :: "DropObservation \<Rightarrow> string" where
  "format_drop_remaining_resources_detail ob =
     (let remaining =
        (if do_agent ob = RsPresent then [''agent still running''] else [])
        @ (if do_tmux_session ob = RsPresent then [''tmux session still present''] else [])
        @ (if do_worktree ob = RsPresent then [''worktree still present''] else [])
        @ (if do_branch ob = RsPresent then [''branch still present''] else [])
      in if remaining = [] then ''external resources still present after teardown attempt''
         else join '', '' remaining)"

definition format_drop_teardown_incomplete_message :: "string \<Rightarrow> DropOp \<Rightarrow> string \<Rightarrow> string" where
  "format_drop_teardown_incomplete_message handle failed detail =
     (let step = drop_op_label failed; d = trim detail;
          core = ''drop incomplete for '' @ handle @ '' at '' @ step @ (if d = [] then '''' else '': '' @ d)
      in core @ ''; retry with `ajax drop '' @ handle @ '' --execute`'')"

definition debug_observation :: "DropObservation \<Rightarrow> string" where
  "debug_observation ob =
     ''agent='' @ debug_resource (do_agent ob) @ '';tmux='' @ debug_resource (do_tmux_session ob)
     @ '';worktree='' @ debug_resource (do_worktree ob) @ '';branch='' @ debug_resource (do_branch ob)"

section \<open>Bookkeeping of the drop\<close>

definition modify_task :: "task_id \<Rightarrow> (Task \<Rightarrow> Task) \<Rightarrow> string \<Rightarrow> ('r, unit) act" where
  "modify_task i f handle m =
     (if get_task i (mc_registry m) = None then (Inl (CdTaskNotFound handle), m)
      else (Inr (), set_registry (get_task_mut i f (mc_registry m)) m))"

definition record_event_act ::
    "'r environment \<Rightarrow> task_id \<Rightarrow> RegistryEventKind \<Rightarrow> string \<Rightarrow> ('r, unit) act" where
  "record_event_act env i kind message =
     registry_act env (\<lambda>clk. record_event (clk 0) i kind message)"

text \<open>The detail of a failure, trimmed and not empty.\<close>

definition failure_text :: "string option \<Rightarrow> string option" where
  "failure_text detail =
     (case detail of Some d \<Rightarrow> if trim d = [] then None else Some (trim d) | None \<Rightarrow> None)"

definition set_drop_failure :: "DropOp \<Rightarrow> DropObservation \<Rightarrow> string option \<Rightarrow> Task \<Rightarrow> Task" where
  "set_drop_failure failed ob detail t =
     (let m1 = (t_metadata t)(''drop_failed_step'' \<mapsto> drop_op_label failed,
                              ''drop_failed_step_key'' \<mapsto> step_key failed);
          m2 = (case failure_text detail of Some d \<Rightarrow> m1(''drop_failed_detail'' \<mapsto> d) | None \<Rightarrow> m1)
      in t\<lparr>t_metadata := m2(''drop_latest_observation'' \<mapsto> debug_observation ob)\<rparr>)"

definition mark_task_teardown_incomplete ::
    "'r environment \<Rightarrow> string \<Rightarrow> DropOp \<Rightarrow> DropObservation \<Rightarrow> string option \<Rightarrow> ('r, unit) act" where
  "mark_task_teardown_incomplete env handle failed ob detail =
     seq (task_of handle) (\<lambda>t.
     seq (registry_act env (\<lambda>clk. update_lifecycle clk (t_id t) LcTeardownIncomplete)) (\<lambda>_.
     seq (modify_task (t_id t) (set_drop_failure failed ob detail) handle) (\<lambda>_.
       record_event_act env (t_id t) EkLifecycleChanged
         (''drop teardown incomplete at '' @ drop_op_label failed @ '': ''
          @ (case failure_text detail of
               Some d \<Rightarrow> d | None \<Rightarrow> format_drop_remaining_resources_detail ob)))))"

definition stop_agent :: "time \<Rightarrow> Task \<Rightarrow> Task" where
  "stop_agent now t = sync_open_attempts now (remove_side_flag SfAgentRunning (t\<lparr>t_agent_status := ArDead\<rparr>))"

text \<open>An update of the task itself, with the readings of the clock.\<close>

definition modify_task_clk :: "'r environment \<Rightarrow> task_id \<Rightarrow> (clock \<Rightarrow> Task \<Rightarrow> Task) \<Rightarrow> ('r, unit) act" where
  "modify_task_clk env i f = registry_act env (\<lambda>clk r. Inr (get_task_mut i (f clk) r))"

definition mark_drop_agent_stopped :: "'r environment \<Rightarrow> string \<Rightarrow> ('r, unit) act" where
  "mark_drop_agent_stopped env handle =
     seq (task_of handle) (\<lambda>t.
     seq (modify_task (t_id t) (\<lambda>u. u) handle) (\<lambda>_.
     seq (modify_task_clk env (t_id t) (\<lambda>clk. stop_agent (clk 0))) (\<lambda>_.
       record_event_act env (t_id t) EkSubstrateChanged ''agent stopped'')))"

definition mark_task_removing :: "'r environment \<Rightarrow> string \<Rightarrow> ('r, unit) act" where
  "mark_task_removing env handle = update_task_lifecycle env handle LcRemoving"

definition mark_task_removed :: "'r environment \<Rightarrow> string \<Rightarrow> ('r, unit) act" where
  "mark_task_removed env handle = update_task_lifecycle env handle LcRemoved"

section \<open>Observing what is left\<close>

datatype ObservationOutput = OoOutput string | OoUnsupported | OoUnknown

definition classify_observation_output :: "CommandOutput \<Rightarrow> ObservationOutput" where
  "classify_observation_output out =
     (if co_status_code out = 0 then OoOutput (co_stdout out)
      else if contains_str (to_ascii_lowercase (co_stderr out)) ''unexpected git command'' then OoUnsupported
      else OoUnknown)"

definition run_observation_command :: "'r environment \<Rightarrow> CommandSpec \<Rightarrow> ('r, ObservationOutput) act" where
  "run_observation_command env c = seq (run_command env c) (\<lambda>out. give (classify_observation_output out))"

definition run_tmux_sessions_command :: "'r environment \<Rightarrow> CommandSpec \<Rightarrow> ('r, ObservationOutput) act" where
  "run_tmux_sessions_command env c =
     seq (run_command env c) (\<lambda>out.
       let combined = co_stdout out @ co_stderr out;
           no_server = contains_str combined ''no server running'' \<or> contains_str combined ''error connecting to''
                       \<or> contains_str combined ''No such file or directory''
       in give (if co_status_code out \<noteq> 0 \<and> no_server then OoOutput [] else classify_observation_output out))"

definition state_from_bool :: "bool \<Rightarrow> ResourceState" where
  "state_from_bool b = (if b then RsPresent else RsAbsent)"

definition observed_agent_state :: "Task \<Rightarrow> ResourceState \<Rightarrow> ResourceState" where
  "observed_agent_state t tmux =
     (if has_side_flag SfAgentRunning t \<or> t_agent_status t = ArRunning
         \<or> list_ex (\<lambda>a. aa_status a = ArRunning) (t_agent_attempts t)
      then (if tmux = RsAbsent then RsAbsent else RsPresent)
      else RsAbsent)"

record RepoDropObservationCache =
  rc_worktrees_output :: "string option"
  rc_branches_output :: "string option"
  rc_remote_branches_output :: "string option"

definition cache_default :: RepoDropObservationCache where
  "cache_default =
     \<lparr>rc_worktrees_output = None, rc_branches_output = None, rc_remote_branches_output = None\<rparr>"

text \<open>The cache keeps outputs only.\<close>

definition fill_cache :: "'r environment \<Rightarrow> CommandSpec \<Rightarrow> string option \<Rightarrow> ('r, string option) act" where
  "fill_cache env c cached =
     (case cached of
        Some s \<Rightarrow> give (Some s)
      | None \<Rightarrow> seq (run_observation_command env c) (\<lambda>o'.
          give (case o' of OoOutput s \<Rightarrow> Some s | OoUnsupported \<Rightarrow> None | OoUnknown \<Rightarrow> None)))"

definition cached_output :: "string option \<Rightarrow> ObservationOutput" where
  "cached_output v = (case v of Some s \<Rightarrow> OoOutput s | None \<Rightarrow> OoUnknown)"

definition tmux_state :: "Task \<Rightarrow> ObservationOutput \<Rightarrow> ResourceState" where
  "tmux_state t out =
     (case out of
        OoOutput s \<Rightarrow> state_from_bool (ts_exists (parse_session_status (t_tmux_session t) s))
      | _ \<Rightarrow> RsUnknown)"

definition recorded_state :: "(GitStatus \<Rightarrow> bool) \<Rightarrow> Task \<Rightarrow> ResourceState" where
  "recorded_state f t = (case t_git_status t of Some g \<Rightarrow> state_from_bool (f g) | None \<Rightarrow> RsUnknown)"

definition worktree_state :: "Task \<Rightarrow> GitWorktree option \<Rightarrow> ObservationOutput \<Rightarrow> ResourceState" where
  "worktree_state t found out =
     (case out of
        OoOutput _ \<Rightarrow> state_from_bool (found \<noteq> None)
      | OoUnsupported \<Rightarrow> recorded_state gs_worktree_exists t
      | OoUnknown \<Rightarrow> RsUnknown)"

definition branch_state ::
    "Task \<Rightarrow> GitWorktree option \<Rightarrow> ObservationOutput \<Rightarrow> ObservationOutput \<Rightarrow> ResourceState" where
  "branch_state t found local_out remote_out =
     (let branches = (case local_out of OoOutput s \<Rightarrow> parse_branches s | _ \<Rightarrow> []);
          remotes = (case remote_out of OoOutput s \<Rightarrow> parse_remote_branches s | _ \<Rightarrow> []);
          in_worktree = (case found of Some wt \<Rightarrow> wt_branch wt = Some (t_branch t) | None \<Rightarrow> False);
          on_remote = starts_with (t_branch t) ''ajax/'' \<and> t_branch t \<in> set remotes;
          present = t_branch t \<in> set branches \<or> on_remote \<or> in_worktree
      in case (local_out, remote_out) of
           (OoOutput _, _) \<Rightarrow> state_from_bool present
         | (_, OoOutput _) \<Rightarrow> state_from_bool present
         | (OoUnknown, OoUnknown) \<Rightarrow> if in_worktree then RsPresent else RsUnknown
         | _ \<Rightarrow> recorded_state gs_branch_exists t)"

definition drop_git_evidence :: "Task \<Rightarrow> ResourceState \<Rightarrow> ResourceState \<Rightarrow> GitStatus" where
  "drop_git_evidence t worktree branch =
     (let g0 = (case t_git_status t of
                  Some g \<Rightarrow> g
                | None \<Rightarrow> no_git_status False False None (t_lifecycle_status t \<in> {LcMerged, LcCleanable}));
          g1 = (if worktree = RsUnknown then g0
                else let g = g0\<lparr>gs_worktree_exists := (worktree = RsPresent)\<rparr>
                     in if worktree = RsAbsent
                        then g\<lparr>gs_dirty := False, gs_untracked_files := 0, gs_conflicted := False,
                               gs_current_branch := None\<rparr>
                        else g)
      in if branch = RsUnknown then g1
         else let g = g1\<lparr>gs_branch_exists := (branch = RsPresent)\<rparr>
              in if branch = RsAbsent
                 then g\<lparr>gs_current_branch := None, gs_ahead := 0, gs_behind := 0, gs_unpushed_commits := 0\<rparr>
                 else g)"

definition apply_drop_observation_evidence ::
    "'r environment \<Rightarrow> Task \<Rightarrow> ResourceState \<Rightarrow> ResourceState \<Rightarrow> ResourceState \<Rightarrow> ('r, unit) act" where
  "apply_drop_observation_evidence env t tmux worktree branch =
     seq (if tmux \<noteq> RsUnknown
          then registry_act env (\<lambda>clk. update_tmux_status clk (t_id t)
                 (Some \<lparr>ts_exists = (tmux = RsPresent), ts_session_name = t_tmux_session t\<rparr>))
          else give ()) (\<lambda>_.
     if worktree \<noteq> RsUnknown \<or> branch \<noteq> RsUnknown
     then registry_act env (\<lambda>clk. update_git_status clk (t_id t) (drop_git_evidence t worktree branch))
     else give ())"

definition observe_drop_resources_with_cache ::
    "'r environment \<Rightarrow> Task \<Rightarrow> string option \<Rightarrow> RepoDropObservationCache \<Rightarrow>
     ('r, DropObservation \<times> RepoDropObservationCache) act" where
  "observe_drop_resources_with_cache env t shared cache =
     seq (view (\<lambda>m. repo_path_or_error (mc_context m) t)) (\<lambda>repo_path.
     seq (case shared of
            Some s \<Rightarrow> give (OoOutput s)
          | None \<Rightarrow> run_tmux_sessions_command env (list_sessions ''tmux'')) (\<lambda>tmux_output.
     seq (fill_cache env (list_worktrees ''git'' repo_path) (rc_worktrees_output cache)) (\<lambda>wts.
     seq (fill_cache env (list_branches ''git'' repo_path) (rc_branches_output cache)) (\<lambda>brs.
     seq (fill_cache env (list_remote_branches ''git'' repo_path) (rc_remote_branches_output cache)) (\<lambda>rbs.
     seq (view (\<lambda>m. Inr (mc_world m))) (\<lambda>w.
       let worktrees_output = cached_output wts;
           parsed = (case worktrees_output of OoOutput s \<Rightarrow> parse_worktrees s | _ \<Rightarrow> []);
           found = find (\<lambda>wt. worktree_path_matches (en_canonicalize env) w (wt_path wt) (t_worktree_path t)) parsed;
           tmux = tmux_state t tmux_output;
           worktree = worktree_state t found worktrees_output;
           branch = branch_state t found (cached_output brs) (cached_output rbs)
       in seq (apply_drop_observation_evidence env t tmux worktree branch) (\<lambda>_.
            give (\<lparr>do_agent = observed_agent_state t tmux, do_tmux_session = tmux,
                   do_worktree = worktree, do_branch = branch\<rparr>,
                  \<lparr>rc_worktrees_output = wts, rc_branches_output = brs,
                   rc_remote_branches_output = rbs\<rparr>))))))))"

definition observe_drop_resources :: "'r environment \<Rightarrow> Task \<Rightarrow> ('r, DropObservation) act" where
  "observe_drop_resources env t =
     seq (observe_drop_resources_with_cache env t None cache_default) (\<lambda>(ob, _). give ob)"

section \<open>What may be removed (teardown/mod.rs)\<close>

text \<open>Whether the work tree of the task is the main checkout itself or contains it.\<close>

definition task_worktree_is_preserved_checkout :: "'r environment \<Rightarrow> 'r \<Rightarrow> CommandContext \<Rightarrow> Task \<Rightarrow> bool" where
  "task_worktree_is_preserved_checkout env w cx t =
     (case task_repo_path cx t of
        None \<Rightarrow> False
      | Some repo \<Rightarrow>
          if \<not> en_is_dir env w (path_join repo ''.git'') then False
          else (case en_canonicalize env w repo of
                  None \<Rightarrow> False
                | Some canonical \<Rightarrow>
                    let recorded = (case en_canonicalize env w (t_worktree_path t) of
                                      Some p \<Rightarrow> p | None \<Rightarrow> t_worktree_path t)
                    in path_eq canonical recorded \<or> path_starts_with canonical recorded))"

definition squote :: string where
  "squote = [CHR 0x27]"

definition backslash :: string where
  "backslash = [CHR 0x5C]"

definition fail_lines :: "string list" where
  "fail_lines =
     [''fail() {'',
      ''    printf '' @ squote @ ''Cannot verify that branch %s has landed on origin default branch. Push the task branch, merge its commits into origin main (or the origin default branch), then retry ajax drop. Check origin connectivity if already merged. No task resources were removed.''
        @ backslash @ ''n'' @ squote @ '' '' @ dquote @ ''$2'' @ dquote @ '' >&2'',
      ''    exit 1'',
      ''}'']"

definition verification_script :: string where
  "verification_script =
     (let q = dquote; s = squote; failed = '' || fail '' @ q @ ''$@'' @ q;
          git = ''git -C '' @ q @ ''$1'' @ q;
          remote = ''$(printf '' @ s @ ''%s'' @ backslash @ ''n'' @ s @ '' '' @ q @ ''$remote'' @ q @ '' | awk '' @ s
      in newline # concat (map (\<lambda>l. l @ [newline])
        (fail_lines @
         [''remote=$('' @ git @ '' ls-remote --symref origin HEAD)'' @ failed,
          ''default='' @ remote @ ''$1 == '' @ q @ ''ref:'' @ q @ '' && $3 == '' @ q @ ''HEAD'' @ q @ '' { print $2 }'' @ s @ '')'',
          ''tip='' @ remote @ ''$2 == '' @ q @ ''HEAD'' @ q @ '' && $1 != '' @ q @ ''ref:'' @ q @ '' { print $1 }'' @ s @ '')'',
          ''case '' @ q @ ''$default'' @ q @ '' in refs/heads/*) ;; *) fail '' @ q @ ''$@'' @ q @ '' ;; esac'',
          ''[ -n '' @ q @ ''$tip'' @ q @ '' ]'' @ failed,
          git @ '' fetch --no-tags origin '' @ q @ ''$tip'' @ q @ failed,
          git @ '' merge-base --is-ancestor '' @ q @ ''refs/heads/$2'' @ q @ '' '' @ q @ ''$tip'' @ q @ failed])))"

definition verification_command :: "string \<Rightarrow> string \<Rightarrow> CommandSpec" where
  "verification_command repo_path branch =
     with_timeout (secs 60)
       (command_new ''sh'' [''-c'', verification_script, ''ajax-verify-task-only-drop'', repo_path, branch])"

definition task_only_drop_verification ::
    "'r environment \<Rightarrow> 'r \<Rightarrow> CommandContext \<Rightarrow> Task \<Rightarrow> CommandError + CommandSpec option" where
  "task_only_drop_verification env w cx t =
     and_then (repo_path_or_error cx t) (\<lambda>repo_path.
       Inr (if task_worktree_is_preserved_checkout env w cx t
            then Some (verification_command repo_path (t_branch t)) else None))"

definition refuse_root :: "string \<Rightarrow> CommandError" where
  "refuse_root path = CdPlanBlocked
     [''worktree path '' @ path @ '' is the repo root or an ancestor of it; refusing to move it to trash'']"

definition refuse_repository :: "string \<Rightarrow> CommandError" where
  "refuse_repository path = CdPlanBlocked
     [''worktree path '' @ path
      @ '' contains a .git directory (full repository, not a linked worktree); refusing to move it to trash'']"

definition ensure_task_worktree_removable ::
    "'r environment \<Rightarrow> 'r \<Rightarrow> CommandContext \<Rightarrow> Task \<Rightarrow> CommandError + unit" where
  "ensure_task_worktree_removable env w cx t =
     and_then (repo_path_or_error cx t) (\<lambda>repo.
       let path = t_worktree_path t;
           or_self = (\<lambda>p. case en_canonicalize env w p of Some c \<Rightarrow> c | None \<Rightarrow> p)
       in if \<not> en_exists env w path then Inr ()
          else if path_eq (or_self path) (or_self repo) \<or> path_starts_with (or_self repo) (or_self path)
          then (if task_worktree_is_preserved_checkout env w cx t then Inr () else Inl (refuse_root path))
          else if en_is_dir env w (path_join path ''.git'') then Inl (refuse_repository path)
          else Inr ())"

definition native_teardown_commands ::
    "'r environment \<Rightarrow> 'r \<Rightarrow> CommandContext \<Rightarrow> Task \<Rightarrow> bool \<Rightarrow> CommandError + CommandSpec list" where
  "native_teardown_commands env w cx t force =
     and_then (repo_path_or_error cx t) (\<lambda>repo_path.
     and_then (task_only_drop_verification env w cx t) (\<lambda>task_only.
       let preserve = task_only \<noteq> None;
           first = (case task_only of Some c \<Rightarrow> [c] | None \<Rightarrow> []);
           worktree = \<not> preserve \<and> (case t_git_status t of None \<Rightarrow> True | Some g \<Rightarrow> gs_worktree_exists g);
           dirty = (case t_git_status t of
                      Some g \<Rightarrow> gs_dirty g \<or> gs_untracked_files g > 0 \<or> gs_conflicted g
                                \<or> has_side_flag SfDirty t \<or> has_side_flag SfConflicted t
                    | None \<Rightarrow> False);
           branch = \<not> preserve \<and> (case t_git_status t of None \<Rightarrow> True | Some g \<Rightarrow> gs_branch_exists g);
           unmerged = (case t_git_status t of Some g \<Rightarrow> \<not> gs_merged g | None \<Rightarrow> False);
           session = (case t_tmux_status t of Some s \<Rightarrow> ts_exists s | None \<Rightarrow> False)
       in and_then (if worktree then ensure_task_worktree_removable env w cx t else Inr ()) (\<lambda>_.
            Inr (first
              @ (if worktree
                 then [if force \<or> dirty then force_remove_worktree ''git'' repo_path (t_worktree_path t)
                       else remove_worktree ''git'' repo_path (t_worktree_path t)]
                 else [])
              @ (if branch then [delete_branch_substrate repo_path (t_branch t) (force \<or> unmerged)] else [])
              @ (if session then [kill_session ''tmux'' (t_tmux_session t)] else [])))))"

definition clean_task_plan :: "'r environment \<Rightarrow> string \<Rightarrow> 'r machine \<Rightarrow> CommandError + CommandPlan" where
  "clean_task_plan env handle m =
     and_then (find_task (mc_context m) handle) (\<lambda>t.
       let plan = plan_new (''clean task: '' @ handle);
           cleanup = native_teardown_commands env (mc_world m) (mc_context m) t False
       in case task_operation_eligibility t ToClean of
            OeBlocked reasons \<Rightarrow> Inr (plan\<lparr>pn_blocked_reasons := reasons\<rparr>)
          | OeAllowed \<Rightarrow>
              let safety = cleanup_safety t in
              (case sr_classification safety of
                 ScSafe \<Rightarrow> and_then cleanup (\<lambda>cs. Inr (plan\<lparr>pn_commands := cs\<rparr>))
               | ScBlocked \<Rightarrow> Inr (plan\<lparr>pn_blocked_reasons := sr_reasons safety\<rparr>)
               | _ \<Rightarrow> and_then cleanup (\<lambda>cs.
                        Inr (plan\<lparr>pn_requires_confirmation := True, pn_commands := cs\<rparr>))))"

definition remove_task_plan :: "'r environment \<Rightarrow> string \<Rightarrow> 'r machine \<Rightarrow> CommandError + CommandPlan" where
  "remove_task_plan env handle m =
     and_then (find_task (mc_context m) handle) (\<lambda>t.
       let plan = plan_new (''remove task: '' @ handle) in
       case task_operation_eligibility t ToRemove of
         OeBlocked reasons \<Rightarrow> Inr (plan\<lparr>pn_blocked_reasons := reasons\<rparr>)
       | OeAllowed \<Rightarrow>
           and_then (native_teardown_commands env (mc_world m) (mc_context m) t True) (\<lambda>cs.
             Inr (plan\<lparr>pn_requires_confirmation := True, pn_commands := cs\<rparr>)))"

section \<open>The effect of a cleanup command on the task\<close>

definition arg_at :: "nat \<Rightarrow> CommandSpec \<Rightarrow> string option" where
  "arg_at n c = (if n < length (cs_args c) then Some (cs_args c ! n) else None)"

definition has_arg :: "string \<Rightarrow> CommandSpec \<Rightarrow> bool" where
  "has_arg a c = list_ex (\<lambda>x. x = a) (cs_args c)"

definition is_fast_worktree_remove_command :: "CommandSpec \<Rightarrow> bool" where
  "is_fast_worktree_remove_command c \<longleftrightarrow>
     cs_program c = ''sh'' \<and> arg_at 0 c = Some ''-c'' \<and> arg_at 2 c = Some ''ajax-fast-worktree-remove''"

definition is_delete_branch_substrate_command :: "CommandSpec \<Rightarrow> bool" where
  "is_delete_branch_substrate_command c \<longleftrightarrow>
     cs_program c = ''sh'' \<and> arg_at 0 c = Some ''-c'' \<and> arg_at 2 c = Some ''ajax-delete-branch''"

definition worktree_gone :: "'r environment \<Rightarrow> Task \<Rightarrow> ('r, unit) act" where
  "worktree_gone env t =
     (case t_git_status t of
        Some g \<Rightarrow> registry_act env (\<lambda>clk. update_git_status clk (t_id t)
          (g\<lparr>gs_worktree_exists := False, gs_dirty := False, gs_untracked_files := 0, gs_conflicted := False\<rparr>))
      | None \<Rightarrow> modify_task_clk env (t_id t) (\<lambda>_ u.
          remove_side_flag SfConflicted (remove_side_flag SfDirty (add_side_flag SfWorktreeMissing u))))"

definition branch_gone :: "'r environment \<Rightarrow> Task \<Rightarrow> ('r, unit) act" where
  "branch_gone env t =
     (case t_git_status t of
        Some g \<Rightarrow> registry_act env (\<lambda>clk. update_git_status clk (t_id t)
          (g\<lparr>gs_branch_exists := False, gs_current_branch := None, gs_ahead := 0, gs_behind := 0,
             gs_unpushed_commits := 0\<rparr>))
      | None \<Rightarrow> modify_task_clk env (t_id t) (\<lambda>_ u.
          remove_side_flag SfUnpushed (add_side_flag SfBranchMissing u)))"

definition session_gone :: "'r environment \<Rightarrow> Task \<Rightarrow> ('r, unit) act" where
  "session_gone env t =
     seq (registry_act env (\<lambda>clk. update_tmux_status clk (t_id t)
            (Some \<lparr>ts_exists = False, ts_session_name = t_tmux_session t\<rparr>))) (\<lambda>_.
       registry_act env (\<lambda>clk. update_task_window_status clk (t_id t)
            (Some (window_missing (t_task_window t) (t_worktree_path t)))))"

definition is_kill_session_of :: "Task \<Rightarrow> CommandSpec \<Rightarrow> bool" where
  "is_kill_session_of t c \<longleftrightarrow>
     cs_program c = ''tmux'' \<and> arg_at 0 c = Some ''kill-session'' \<and> has_arg (tmux_session_target (t_tmux_session t)) c"

definition mark_task_cleanup_step_completed :: "'r environment \<Rightarrow> string \<Rightarrow> CommandSpec \<Rightarrow> ('r, bool) act" where
  "mark_task_cleanup_step_completed env handle c =
     seq (task_of handle) (\<lambda>t.
       let yes = (\<lambda>a. seq a (\<lambda>_. give True)) in
       if is_kill_session_of t c then yes (session_gone env t)
       else if is_fast_worktree_remove_command c \<and> arg_at 4 c = Some (t_worktree_path t)
       then yes (worktree_gone env t)
       else if cs_program c = ''git'' \<and> has_arg ''worktree'' c \<and> has_arg ''remove'' c \<and> has_arg (t_worktree_path t) c
       then yes (worktree_gone env t)
       else if is_delete_branch_substrate_command c \<and> arg_at 4 c = Some (t_branch t)
       then yes (branch_gone env t)
       else if cs_program c = ''git'' \<and> has_arg ''push'' c \<and> has_arg ''--delete'' c \<and> has_arg (t_branch t) c
       then yes (branch_gone env t)
       else if cs_program c = ''git'' \<and> has_arg ''branch'' c \<and> (has_arg ''-d'' c \<or> has_arg ''-D'' c)
            \<and> has_arg (t_branch t) c
       then yes (branch_gone env t)
       else give False)"

section \<open>The drop operation (drop_task.rs)\<close>

record DropTaskOperationPlan =
  dp_confirmation_plan :: CommandPlan
  dp_observation :: DropObservation

datatype DropTaskCompletion = DcRemoved | DcTeardownIncomplete DropOp string

definition unknown_observation :: DropObservation where
  "unknown_observation =
     \<lparr>do_agent = RsUnknown, do_tmux_session = RsUnknown, do_worktree = RsUnknown, do_branch = RsUnknown\<rparr>"

definition plan_drop_confirmation :: "'r environment \<Rightarrow> string \<Rightarrow> 'r machine \<Rightarrow> CommandError + CommandPlan" where
  "plan_drop_confirmation env handle m =
     and_then (clean_task_plan env handle m) (\<lambda>clean.
       if pn_blocked_reasons clean = [] then Inr clean else remove_task_plan env handle m)"

definition plan_drop_task_operation :: "'r environment \<Rightarrow> string \<Rightarrow> ('r, DropTaskOperationPlan) act" where
  "plan_drop_task_operation env handle =
     seq (view (plan_drop_confirmation env handle)) (\<lambda>plan.
     seq (task_of handle) (\<lambda>t.
       if pn_blocked_reasons plan \<noteq> []
       then give \<lparr>dp_confirmation_plan = plan, dp_observation = unknown_observation\<rparr>
       else seq (observe_drop_resources env t) (\<lambda>ob.
              give \<lparr>dp_confirmation_plan = plan, dp_observation = ob\<rparr>)))"

text \<open>A main checkout is never removed: its work tree and branch count as absent.\<close>

definition final_view :: "bool \<Rightarrow> DropObservation \<Rightarrow> DropObservation" where
  "final_view preserved ob = (if preserved then ob\<lparr>do_worktree := RsAbsent, do_branch := RsAbsent\<rparr> else ob)"

definition complete_drop_task_operation ::
    "'r environment \<Rightarrow> string \<Rightarrow> DropObservation \<Rightarrow> ('r, DropTaskCompletion) act" where
  "complete_drop_task_operation env handle observation =
     seq (task_of handle) (\<lambda>t.
     seq (view (\<lambda>m. Inr (task_worktree_is_preserved_checkout env (mc_world m) (mc_context m) t))) (\<lambda>preserved.
       let ob = final_view preserved observation in
       case plan_drop_from_observation ob of
         [] \<Rightarrow> seq (registry_act env (\<lambda>_. delete_task (t_id t))) (\<lambda>_. give DcRemoved)
       | op # _ \<Rightarrow>
           let detail = format_drop_remaining_resources_detail ob in
           seq (mark_task_removing env handle) (\<lambda>_.
           seq (mark_task_teardown_incomplete env handle op ob (Some detail)) (\<lambda>_.
             give (DcTeardownIncomplete op detail)))))"

definition fast_remove_script :: string where
  "fast_remove_script =
     (let q = dquote; a = (\<lambda>n. q @ ''$'' @ n @ q) in
      ''mkdir -p '' @ q @ ''$(dirname '' @ a ''3'' @ '')'' @ q @ '' && { [ ! -e '' @ a ''2'' @ '' ] || mv '' @ a ''2'' @ '' '' @ a ''3''
      @ ''; } && { git -C '' @ a ''1'' @ '' worktree prune || git -C '' @ a ''1'' @ '' worktree remove --force '' @ a ''2''
      @ ''; } && { rm -rf '' @ a ''3'' @ '' >/dev/null 2>&1 & }'')"

definition fast_remove_command :: "string \<Rightarrow> string \<Rightarrow> string \<Rightarrow> CommandSpec" where
  "fast_remove_command repo_path worktree_path trash_path =
     command_new ''sh''
       [''-c'', fast_remove_script, ''ajax-fast-worktree-remove'', repo_path, worktree_path, trash_path]"

text \<open>The name of the trash directory holds the nanoseconds since the epoch; a clock before the epoch is an
  error.\<close>

definition fast_remove_trash_path :: "time \<Rightarrow> Task \<Rightarrow> CommandError + string" where
  "fast_remove_trash_path now t =
     (case path_parent (t_worktree_path t) of
        None \<Rightarrow> Inl (CdTaskNotFound (qualified_handle t))
      | Some parent \<Rightarrow>
          (case duration_since now 0 of
             None \<Rightarrow> Inl (CdCommandRun (CeSpawnFailed ''second time provided was later than self''))
           | Some nanos \<Rightarrow>
               Inr (path_join (path_join parent ''.ajax-trash'') (t_handle t @ ''-'' @ show_nat nanos))))"

definition read_clock :: "'r environment \<Rightarrow> ('r, clock) act" where
  "read_clock env m = (case en_clock env (mc_world m) of (clk, w) \<Rightarrow> (Inr clk, m\<lparr>mc_world := w\<rparr>))"

definition fast_remove_worktree :: "'r environment \<Rightarrow> string \<Rightarrow> Task \<Rightarrow> ('r, CommandSpec) act" where
  "fast_remove_worktree env repo_path t =
     seq (read_clock env) (\<lambda>clk.
     seq (lift (fast_remove_trash_path (clk 0) t)) (\<lambda>trash.
       give (fast_remove_command repo_path (t_worktree_path t) trash)))"

fun drop_op_command :: "'r environment \<Rightarrow> DropOp \<Rightarrow> bool \<Rightarrow> Task \<Rightarrow> string \<Rightarrow> ('r, CommandSpec) act" where
  "drop_op_command env EnsureTmuxSessionAbsent force t repo_path = give (kill_session ''tmux'' (t_tmux_session t))"
| "drop_op_command env EnsureWorktreeAbsent force t repo_path =
     seq (view (\<lambda>m. ensure_task_worktree_removable env (mc_world m) (mc_context m) t)) (\<lambda>_.
       if force then fast_remove_worktree env repo_path t
       else give (remove_worktree ''git'' repo_path (t_worktree_path t)))"
| "drop_op_command env EnsureBranchAbsent force t repo_path =
     give (delete_branch_substrate repo_path (t_branch t) force)"
| "drop_op_command env EnsureAgentStopped force t repo_path =
     fail (CdPlanBlocked [''drop op EnsureAgentStopped does not have an external command''])"

text \<open>None is an operation inside the process.\<close>

definition drop_op_execution_decision ::
    "'r environment \<Rightarrow> string \<Rightarrow> DropOp \<Rightarrow> bool \<Rightarrow> ('r, CommandSpec option) act" where
  "drop_op_execution_decision env handle op force =
     (if op = EnsureAgentStopped then give None
      else seq (task_of handle) (\<lambda>t.
           seq (view (\<lambda>m. repo_path_or_error (mc_context m) t)) (\<lambda>repo_path.
           seq (drop_op_command env op force t repo_path) (\<lambda>c. give (Some c)))))"

definition record_drop_step_event :: "'r environment \<Rightarrow> string \<Rightarrow> DropOp \<Rightarrow> ('r, unit) act" where
  "record_drop_step_event env handle op =
     seq (task_of handle) (\<lambda>t. record_event_act env (t_id t) EkSubstrateChanged
       (''drop step completed: '' @ drop_op_label op))"

definition record_drop_step_failed_event :: "'r environment \<Rightarrow> string \<Rightarrow> DropOp \<Rightarrow> string \<Rightarrow> ('r, unit) act" where
  "record_drop_step_failed_event env handle op detail =
     seq (task_of handle) (\<lambda>t. record_event_act env (t_id t) EkLifecycleChanged
       (''drop step failed: '' @ drop_op_label op @ '': '' @ detail))"

definition drop_receipt_json :: "DropOp \<Rightarrow> string" where
  "drop_receipt_json op =
     (let q = dquote in
      ''{'' @ q @ ''source'' @ q @ '':'' @ q @ ''command_result'' @ q @ '','' @ q @ ''step'' @ q @ '':''
      @ q @ step_key op @ q @ ''}'')"

definition drop_step_receipt :: "time \<Rightarrow> Task \<Rightarrow> DropOp \<Rightarrow> StepReceiptStatus \<Rightarrow> StepReceipt" where
  "drop_step_receipt now t op status =
     receipt_new (t_id t) TkDrop (step_key op) (receipt_target op t) status (drop_receipt_json op) now"

definition record_drop_step_receipt ::
    "'r environment \<Rightarrow> string \<Rightarrow> DropOp \<Rightarrow> StepReceiptStatus \<Rightarrow> ('r, unit) act" where
  "record_drop_step_receipt env handle op status =
     seq (task_of handle) (\<lambda>t.
       registry_act env (\<lambda>clk. record_step_receipt (drop_step_receipt (clk 0) t op status)))"

definition record_observed_absent_drop_receipts ::
    "'r environment \<Rightarrow> string \<Rightarrow> DropObservation \<Rightarrow> ('r, unit) act" where
  "record_observed_absent_drop_receipts env handle ob =
     each (\<lambda>op. record_drop_step_receipt env handle op SrSkippedObserved)
       (filter (\<lambda>op. records_observed_absent_receipt op \<and> observed_state op ob = RsAbsent) DROP_TEARDOWN_ORDER)"

definition receipt_matches_present_resource :: "string \<Rightarrow> DropObservation \<Rightarrow> bool" where
  "receipt_matches_present_resource key ob =
     (case find (\<lambda>op. step_key op = key) DROP_TEARDOWN_ORDER of
        Some op \<Rightarrow> observed_state op ob = RsPresent | None \<Rightarrow> False)"

text \<open>A receipt of the step that failed last does not count when its resource is present again.\<close>

definition counted_receipts :: "Task \<Rightarrow> DropObservation \<Rightarrow> StepReceipt list \<Rightarrow> StepReceipt list" where
  "counted_receipts t ob receipts =
     (case t_metadata t ''drop_failed_step_key'' of
        None \<Rightarrow> receipts
      | Some failed \<Rightarrow>
          filter (\<lambda>p. sp_step_key p \<noteq> failed \<or> \<not> receipt_matches_present_resource (sp_step_key p) ob) receipts)"

definition planned_drop_ops :: "string \<Rightarrow> DropObservation \<Rightarrow> 'r machine \<Rightarrow> CommandError + DropOp list" where
  "planned_drop_ops handle ob m =
     and_then (find_task (mc_context m) handle) (\<lambda>t.
       Inr (plan_drop_from_observation_for_task ob
              (counted_receipts t ob (step_receipts_for_task (t_id t) (mc_registry m)))))"

text \<open>\<open>unwrap_or\<close>: an error is replaced, what was written before it stays.\<close>

definition otherwise_give :: "'a \<Rightarrow> ('r, 'a) act \<Rightarrow> ('r, 'a) act" where
  "otherwise_give d a m = (case a m of (Inl _, m1) \<Rightarrow> (Inr d, m1) | (Inr x, m1) \<Rightarrow> (Inr x, m1))"

definition mark_observed_drop_failure ::
    "'r environment \<Rightarrow> string \<Rightarrow> DropOp \<Rightarrow> string option \<Rightarrow> ('r, unit) act" where
  "mark_observed_drop_failure env handle failed detail =
     seq (task_of handle) (\<lambda>t.
     seq (otherwise_give unknown_observation (observe_drop_resources env t)) (\<lambda>ob.
       mark_task_teardown_incomplete env handle failed ob detail))"

definition git_error_says_worktree_missing :: "string \<Rightarrow> bool" where
  "git_error_says_worktree_missing stderr =
     list_ex (contains_str stderr)
       [''no such file or directory'', ''is not a working tree'', ''is not a worktree'', ''does not exist'']"

definition git_error_says_branch_missing :: "string \<Rightarrow> bool" where
  "git_error_says_branch_missing stderr =
     list_ex (contains_str stderr)
       [''not found'', ''not a branch'', ''no such branch'', ''not a valid branch name'']"

definition git_error_says_remote_branch_missing :: "string \<Rightarrow> bool" where
  "git_error_says_remote_branch_missing stderr =
     list_ex (contains_str stderr) [''remote ref does not exist'', ''does not exist'', ''matches no refs'']"

definition drop_cleanup_resource_is_already_missing :: "CommandSpec \<Rightarrow> CommandOutput \<Rightarrow> bool" where
  "drop_cleanup_resource_is_already_missing c out =
     (let stderr = to_ascii_lowercase (co_stderr out) in
      if co_status_code out = 0 then False
      else if cs_program c = ''tmux'' \<and> arg_at 0 c = Some ''kill-session''
      then list_ex (contains_str stderr)
             [''can'' @ squote @ ''t find session'', ''no server running'', ''session not found'']
      else if is_delete_branch_substrate_command c
      then git_error_says_branch_missing stderr \<or> git_error_says_remote_branch_missing stderr
      else if cs_program c = ''git'' \<and> has_arg ''push'' c \<and> has_arg ''--delete'' c
      then git_error_says_remote_branch_missing stderr
      else if is_fast_worktree_remove_command c
      then list_ex (contains_str stderr) [''is not a working tree'', ''is not a worktree'']
      else if cs_program c = ''git'' \<and> has_arg ''worktree'' c \<and> has_arg ''remove'' c
      then git_error_says_worktree_missing stderr
      else cs_program c = ''git'' \<and> has_arg ''branch'' c \<and> (has_arg ''-d'' c \<or> has_arg ''-D'' c)
           \<and> git_error_says_branch_missing stderr)"

definition failure_detail :: "CommandSpec \<Rightarrow> CommandOutput \<Rightarrow> string" where
  "failure_detail c out =
     (let front = cs_program c @ '' exited with status '' @ show_int (co_status_code out) @ '': '' in
      if trim (co_stderr out) = [] \<and> trim (co_stdout out) \<noteq> []
      then front @ trim_end (co_stdout out) @ '' (stdout; stderr was empty)''
      else front @ co_stderr out)"

definition forget_trusted_worktree :: "'r environment \<Rightarrow> string \<Rightarrow> ('r, unit) act" where
  "forget_trusted_worktree env handle m =
     (case find_task (mc_context m) handle of
        Inl _ \<Rightarrow> (Inr (), m)
      | Inr t \<Rightarrow> (Inr (), m\<lparr>mc_world := en_forget_trusted env (t_worktree_path t) (mc_world m)\<rparr>))"

definition drop_command_step ::
    "'r environment \<Rightarrow> string \<Rightarrow> DropOp \<Rightarrow> CommandSpec \<Rightarrow> ('r, CommandOutput list) act" where
  "drop_command_step env handle op c =
     seq (run_command env c) (\<lambda>out.
       let missing = drop_cleanup_resource_is_already_missing c out in
       if co_status_code out \<noteq> 0 \<and> \<not> missing
       then seq (record_drop_step_failed_event env handle op (failure_detail c out)) (\<lambda>_.
            seq (mark_observed_drop_failure env handle op (Some (failure_detail c out))) (\<lambda>_.
              fail (non_zero_exit c out)))
       else seq (if op = EnsureWorktreeAbsent then forget_trusted_worktree env handle else give ()) (\<lambda>_.
            seq (mark_task_cleanup_step_completed env handle c) (\<lambda>_.
            seq (record_drop_step_event env handle op) (\<lambda>_.
            seq (record_drop_step_receipt env handle op (if missing then SrSkippedObserved else SrSucceeded)) (\<lambda>_.
              give [out])))))"

definition drop_step :: "'r environment \<Rightarrow> string \<Rightarrow> DropOp \<Rightarrow> ('r, CommandOutput list) act" where
  "drop_step env handle op =
     seq (drop_op_execution_decision env handle op True) (\<lambda>decision.
       case decision of
         None \<Rightarrow>
           seq (mark_drop_agent_stopped env handle) (\<lambda>_.
           seq (record_drop_step_event env handle op) (\<lambda>_.
           seq (record_drop_step_receipt env handle op SrSucceeded) (\<lambda>_. give [])))
       | Some c \<Rightarrow> drop_command_step env handle op c)"

fun drop_steps :: "'r environment \<Rightarrow> string \<Rightarrow> bool \<Rightarrow> DropOp list \<Rightarrow> ('r, CommandOutput list) act" where
  "drop_steps env handle preserve [] = give []"
| "drop_steps env handle preserve (op # ops) =
     (if preserve \<and> op \<in> {EnsureWorktreeAbsent, EnsureBranchAbsent} then drop_steps env handle preserve ops
      else seq (drop_step env handle op) (\<lambda>outs.
           seq (drop_steps env handle preserve ops) (\<lambda>rest. give (outs @ rest))))"

definition drop_verification :: "'r environment \<Rightarrow> string \<Rightarrow> ('r, bool) act" where
  "drop_verification env handle =
     seq (task_of handle) (\<lambda>t.
     seq (view (\<lambda>m. task_only_drop_verification env (mc_world m) (mc_context m) t)) (\<lambda>verification.
       case verification of
         Some c \<Rightarrow> seq (run_checked env c) (\<lambda>_. give True)
       | None \<Rightarrow> give False))"

definition forget_checkout :: "Task \<Rightarrow> Task" where
  "forget_checkout t =
     t\<lparr>t_git_status := map_option (\<lambda>g. g\<lparr>gs_worktree_exists := False, gs_branch_exists := False\<rparr>) (t_git_status t)\<rparr>"

definition execute_drop_task_operation ::
    "'r environment \<Rightarrow> string \<Rightarrow> DropTaskOperationPlan \<Rightarrow> bool \<Rightarrow>
     ('r, CommandOutput list \<times> DropTaskCompletion) act" where
  "execute_drop_task_operation env handle operation confirmed =
     (let plan = dp_confirmation_plan operation; ob = dp_observation operation in
      if pn_blocked_reasons plan \<noteq> [] then fail (CdPlanBlocked (pn_blocked_reasons plan))
      else if pn_requires_confirmation plan \<and> \<not> confirmed then fail CdConfirmationRequired
      else
        seq (drop_verification env handle) (\<lambda>preserve.
        seq (mark_task_removing env handle) (\<lambda>_.
        seq (record_observed_absent_drop_receipts env handle ob) (\<lambda>_.
        seq (view (planned_drop_ops handle ob)) (\<lambda>ops.
        seq (drop_steps env handle preserve ops) (\<lambda>outputs.
        seq (if preserve
             then seq (task_of handle) (\<lambda>t. modify_task (t_id t) forget_checkout handle)
             else give ()) (\<lambda>_.
        seq (task_of handle) (\<lambda>t.
        seq (observe_drop_resources env t) (\<lambda>final.
        seq (complete_drop_task_operation env handle final) (\<lambda>completion.
          give (outputs, completion)))))))))))"

end
