(* ===== verification/Teardown_Safety.thy ===== *)
theory Teardown_Safety
  imports Teardown
begin

text \<open>
  What holds of a drop: it forgets a task only after it has seen that nothing of it is left, it spares a main
  checkout, it changes nothing when it is refused, and a drop that is not complete is resumed where it stopped.
\<close>

section \<open>Which tasks are stored\<close>

text \<open>Every step of a drop but the last keeps the identities of the stored tasks.\<close>

lemma ident_stop_agent [simp]: "ident (stop_agent now t) = ident t"
  by (simp add: stop_agent_def)

lemma ident_drop_failure [simp]: "ident (set_drop_failure op ob detail t) = ident t"
  by (simp add: set_drop_failure_def Let_def)

lemma ident_forget_checkout [simp]: "ident (forget_checkout t) = ident t"
  by (simp add: forget_checkout_def)

lemma named_modify [keeps_intro]:
  assumes "\<And>t. ident (f t) = ident t"
  shows "keeps (task_named es cs) (modify_task i f handle)"
  using same_tasks_ops(7) [OF _ assms]
  by (auto simp: keeps_def modify_task_def task_named_def set_registry_def mc_registry_def)

lemma named_modify_clk [keeps_intro]:
  assumes "\<And>clk t. ident (f clk t) = ident t"
  shows "keeps (task_named es cs) (modify_task_clk env i f)"
  unfolding modify_task_clk_def
  by (rule named_registry_act) (auto intro: same_tasks_ops(7) assms)

lemma named_world:
  "(\<And>m. mc_context (snd (a m)) = mc_context m \<and> mc_commands (snd (a m)) = mc_commands m) \<Longrightarrow> keeps (task_named es cs) a"
  by (simp add: keeps_def task_named_def mc_registry_def)

lemma named_bookkeeping [keeps_intro]:
  "keeps (task_named es cs) (record_event_act env i kind message)"
  "keeps (task_named es cs) (mark_task_teardown_incomplete env handle op ob detail)"
  "keeps (task_named es cs) (mark_drop_agent_stopped env handle)"
  "keeps (task_named es cs) (mark_task_removing env handle)"
  by (auto simp: record_event_act_def mark_task_teardown_incomplete_def mark_drop_agent_stopped_def
      mark_task_removing_def intro!: keeps_intro)

lemma named_observation [keeps_intro]:
  "keeps (task_named es cs) (run_observation_command env c)"
  "keeps (task_named es cs) (run_tmux_sessions_command env c)"
  "keeps (task_named es cs) (fill_cache env c cached)"
  "keeps (task_named es cs) (apply_drop_observation_evidence env t tmux worktree branch)"
  by (auto simp: run_observation_command_def run_tmux_sessions_command_def fill_cache_def Let_def
      apply_drop_observation_evidence_def intro!: keeps_intro)

lemma named_observe [keeps_intro]: "keeps (task_named es cs) (observe_drop_resources env t)"
  by (auto simp: observe_drop_resources_def observe_drop_resources_with_cache_def Let_def split_beta
      intro!: keeps_intro)

lemma named_cleanup [keeps_intro]: "keeps (task_named es cs) (mark_task_cleanup_step_completed env handle c)"
  by (auto simp: mark_task_cleanup_step_completed_def worktree_gone_def branch_gone_def session_gone_def Let_def
      intro!: keeps_intro)

lemma named_step_records [keeps_intro]:
  "keeps (task_named es cs) (record_drop_step_event env handle op)"
  "keeps (task_named es cs) (record_drop_step_failed_event env handle op d)"
  "keeps (task_named es cs) (record_drop_step_receipt env handle op s)"
  "keeps (task_named es cs) (record_observed_absent_drop_receipts env handle ob)"
  by (auto simp: record_drop_step_event_def record_drop_step_failed_event_def record_drop_step_receipt_def
      record_observed_absent_drop_receipts_def record_event_act_def intro!: keeps_intro)

lemma keeps_otherwise [keeps_intro]: "keeps P a \<Longrightarrow> keeps P (otherwise_give d a)"
  by (fastforce simp: keeps_def otherwise_give_def split: prod.split sum.split)

lemma named_outside [keeps_intro]:
  "keeps (task_named es cs) (forget_trusted_worktree env handle)" "keeps (task_named es cs) (read_clock env)"
  by (rule named_world, simp add: forget_trusted_worktree_def read_clock_def split: sum.split prod.split)+

lemma named_command [keeps_intro]: "keeps (task_named es cs) (drop_op_command env op force t repo)"
  by (cases op) (auto simp: fast_remove_worktree_def intro!: keeps_intro)

lemma named_decision [keeps_intro]: "keeps (task_named es cs) (drop_op_execution_decision env handle op force)"
  by (auto simp: drop_op_execution_decision_def intro!: keeps_intro)

lemma named_failure [keeps_intro]: "keeps (task_named es cs) (mark_observed_drop_failure env handle op d)"
  by (auto simp: mark_observed_drop_failure_def intro!: keeps_intro)

lemma named_command_step [keeps_intro]: "keeps (task_named es cs) (drop_command_step env handle op c)"
  by (auto simp: drop_command_step_def Let_def intro!: keeps_intro)

lemma named_step [keeps_intro]: "keeps (task_named es cs) (drop_step env handle op)"
  by (auto simp: drop_step_def intro!: keeps_intro)

lemma named_steps [keeps_intro]: "keeps (task_named es cs) (drop_steps env handle preserve ops)"
  by (induction ops) (auto intro!: keeps_intro)

lemma named_verification [keeps_intro]: "keeps (task_named es cs) (drop_verification env handle)"
  by (auto simp: drop_verification_def intro!: keeps_intro)

section \<open>The end of a drop\<close>

text \<open>\<open>until P Q a\<close>: an action that fails keeps \<open>P\<close>, one that ends with a value ends with \<open>Q\<close>.\<close>

definition until :: "('r machine \<Rightarrow> bool) \<Rightarrow> ('a \<Rightarrow> 'r machine \<Rightarrow> bool) \<Rightarrow> ('r, 'a) act \<Rightarrow> bool" where
  "until P Q a \<longleftrightarrow> (\<forall>m. P m \<longrightarrow> (case a m of (Inl _, m1) \<Rightarrow> P m1 | (Inr x, m1) \<Rightarrow> Q x m1))"

lemma until_fail: "until P Q (fail e)"
  by (simp add: until_def fail_def)

lemma until_seq: "keeps P f \<Longrightarrow> (\<And>x. until P Q (g x)) \<Longrightarrow> until P Q (seq f g)"
  unfolding until_def
proof (intro allI impI)
  fix m assume f: "keeps P f" and g: "\<And>x. \<forall>m. P m \<longrightarrow> (case g x m of (Inl _, m1) \<Rightarrow> P m1 | (Inr y, m1) \<Rightarrow> Q y m1)" and m: "P m"
  obtain r m1 where r: "f m = (r, m1)" by fastforce
  with keepsD [OF f m] have "P m1" by simp
  with g r show "case seq f g m of (Inl _, m1) \<Rightarrow> P m1 | (Inr y, m1) \<Rightarrow> Q y m1"
    by (cases r) (auto simp: seq_def)
qed

lemma until_give: "(\<And>m. P m \<Longrightarrow> Q x m) \<Longrightarrow> until P Q (give x)"
  by (simp add: until_def give_def)

lemma untilD: "until P Q a \<Longrightarrow> P m \<Longrightarrow> case a m of (Inl _, m1) \<Rightarrow> P m1 | (Inr x, m1) \<Rightarrow> Q x m1"
  by (simp add: until_def)

lemma until_if: "(b \<Longrightarrow> until P Q f) \<Longrightarrow> (\<not> b \<Longrightarrow> until P Q g) \<Longrightarrow> until P Q (if b then f else g)"
  by simp

text \<open>The last observation of a drop, and what it says.\<close>

definition nothing_left :: "bool \<Rightarrow> DropObservation \<Rightarrow> bool" where
  "nothing_left preserved ob \<longleftrightarrow>
     do_agent ob = RsAbsent \<and> do_tmux_session ob = RsAbsent
     \<and> (preserved \<or> do_worktree ob = RsAbsent \<and> do_branch ob = RsAbsent)"

lemma nothing_planned: "plan_drop_from_observation (final_view preserved ob) = [] \<longleftrightarrow> nothing_left preserved ob"
  by (auto simp: plan_drop_from_observation_def DROP_TEARDOWN_ORDER_def final_view_def nothing_left_def)

definition seen_gone ::
    "'r environment \<Rightarrow> string \<Rightarrow> (task_id \<times> task_id \<times> string) list \<Rightarrow> CommandSpec list \<Rightarrow> 'r machine \<Rightarrow> bool" where
  "seen_gone env handle es cs m \<longleftrightarrow>
     (\<exists>t u m1 ob m2.
        prefix cs (mc_commands m1) \<and> mc_commands m = mc_commands m2
        \<and> find_task (mc_context m1) handle = Inr t \<and> observe_drop_resources env t m1 = (Inr ob, m2)
        \<and> find_task (mc_context m2) handle = Inr u
        \<and> nothing_left (task_worktree_is_preserved_checkout env (mc_world m2) (mc_context m2) u) ob
        \<and> entries (mc_registry m) = filter (\<lambda>(k, _). k \<noteq> t_id u) es)"

lemma delete_entries:
  assumes "same_tasks es r" "delete_task i r = Inr s"
  shows "entries s = filter (\<lambda>(k, _). k \<noteq> i) es"
  using assms
  by (auto simp: delete_task_def same_tasks_def entries_def forget_records_def bt_remove_def filter_map o_def
      case_prod_beta' split: if_splits)

lemma complete_until:
  assumes o': "observe_drop_resources env t m1 = (Inr ob, m2)" and t: "find_task (mc_context m1) handle = Inr t"
    and n: "task_named es cs m2" and p: "prefix cs (mc_commands m1)"
  shows "case complete_drop_task_operation env handle ob m2 of
      (Inr DcRemoved, m3) \<Rightarrow> seen_gone env handle es cs m3 | (_, m3) \<Rightarrow> task_named es cs m3"
proof (cases "find_task (mc_context m2) handle")
  case (Inl e)
  with n show ?thesis by (simp add: complete_drop_task_operation_def seq_def task_of_def view_def)
next
  case (Inr u)
  let ?p = "task_worktree_is_preserved_checkout env (mc_world m2) (mc_context m2) u"
  show ?thesis
  proof (cases "plan_drop_from_observation (final_view ?p ob)")
    case Nil
    obtain clk w where clk: "en_clock env (mc_world m2) = (clk, w)" by fastforce
    show ?thesis
    proof (cases "delete_task (t_id u) (mc_registry m2)")
      case (Inl e)
      with n Nil \<open>find_task (mc_context m2) handle = Inr u\<close> clk show ?thesis
        by (simp add: complete_drop_task_operation_def seq_def task_of_def view_def registry_act_def
            task_named_def mc_registry_def)
    next
      case del: (Inr r)
      have "entries r = filter (\<lambda>(k, _). k \<noteq> t_id u) es"
        using delete_entries [OF _ del] n by (auto simp: task_named_def)
      then have "seen_gone env handle es cs (set_registry r (m2\<lparr>mc_world := w\<rparr>))"
        unfolding seen_gone_def using o' t Inr Nil p
        by (intro exI [of _ t] exI [of _ u] exI [of _ m1] exI [of _ ob] exI [of _ m2])
          (simp add: nothing_planned set_registry_def mc_registry_def)
      with Nil Inr clk del show ?thesis
        by (simp add: complete_drop_task_operation_def seq_def task_of_def view_def registry_act_def give_def)
    qed
  next
    case (Cons op ops)
    let ?a = "seq (mark_task_removing env handle) (\<lambda>_.
        seq (mark_task_teardown_incomplete env handle op (final_view ?p ob)
               (Some (format_drop_remaining_resources_detail (final_view ?p ob)))) (\<lambda>_.
          give (DcTeardownIncomplete op (format_drop_remaining_resources_detail (final_view ?p ob)))))"
    have "until (task_named es cs) (\<lambda>x m3. x \<noteq> DcRemoved \<and> task_named es cs m3) ?a"
      by (intro until_seq until_give keeps_intro) simp
    from untilD [OF this n]
    have "case ?a m2 of (Inr DcRemoved, m3) \<Rightarrow> seen_gone env handle es cs m3 | (_, m3) \<Rightarrow> task_named es cs m3"
      by (auto split: prod.splits sum.splits DropTaskCompletion.splits)
    moreover have "complete_drop_task_operation env handle ob m2 = ?a m2"
      using Cons Inr by (simp add: complete_drop_task_operation_def seq_def task_of_def view_def Let_def)
    ultimately show ?thesis by simp
  qed
qed

definition drop_ended ::
    "'r environment \<Rightarrow> string \<Rightarrow> (task_id \<times> task_id \<times> string) list \<Rightarrow> CommandSpec list \<Rightarrow>
     DropTaskCompletion \<Rightarrow> 'r machine \<Rightarrow> bool" where
  "drop_ended env handle es cs completion m =
     (case completion of
        DcRemoved \<Rightarrow> seen_gone env handle es cs m | DcTeardownIncomplete _ _ \<Rightarrow> task_named es cs m)"

lemma until_end:
  "until (task_named es cs) (\<lambda>(_, completion). drop_ended env handle es cs completion)
     (seq (task_of handle) (\<lambda>t. seq (observe_drop_resources env t) (\<lambda>ob.
      seq (complete_drop_task_operation env handle ob) (\<lambda>completion. give (outs, completion)))))"
  unfolding until_def
proof (intro allI impI)
  fix m1 :: "'a machine" assume n: "task_named es cs m1"
  then have p: "prefix cs (mc_commands m1)" by (simp add: task_named_def)
  let ?a = "seq (task_of handle) (\<lambda>t. seq (observe_drop_resources env t) (\<lambda>ob.
      seq (complete_drop_task_operation env handle ob) (\<lambda>completion. give (outs, completion))))"
  show "case ?a m1 of (Inl _, m) \<Rightarrow> task_named es cs m
      | (Inr x, m) \<Rightarrow> (case x of (_, completion) \<Rightarrow> drop_ended env handle es cs completion) m"
  proof (cases "find_task (mc_context m1) handle")
    case (Inl e)
    with n show ?thesis by (simp add: seq_def task_of_def view_def)
  next
    case (Inr t)
    obtain r m2 where o': "observe_drop_resources env t m1 = (r, m2)" by fastforce
    with keepsD [OF named_observe n, of env t] have n2: "task_named es cs m2" by simp
    show ?thesis
    proof (cases r)
      case (Inl e)
      with n2 o' \<open>find_task (mc_context m1) handle = Inr t\<close> show ?thesis
        by (simp add: seq_def task_of_def view_def)
    next
      case (Inr ob)
      from complete_until [OF o' [unfolded Inr] \<open>find_task (mc_context m1) handle = Inr t\<close> n2 p]
      show ?thesis using o' Inr \<open>find_task (mc_context m1) handle = Inr t\<close>
        by (auto simp: seq_def task_of_def view_def give_def drop_ended_def
            split: prod.splits sum.splits DropTaskCompletion.splits)
    qed
  qed
qed

lemma until_drop:
  "until (task_named es cs) (\<lambda>(_, completion). drop_ended env handle es cs completion)
     (execute_drop_task_operation env handle operation confirmed)"
  unfolding execute_drop_task_operation_def Let_def
  by (intro until_if until_fail until_seq until_end) (auto intro!: keeps_intro)


section \<open>What an observation says\<close>

definition ran :: "CommandSpec \<Rightarrow> 'r \<Rightarrow> 'r machine \<Rightarrow> 'r machine" where
  "ran c w m = m\<lparr>mc_world := w, mc_commands := mc_commands m @ [c]\<rparr>"

lemma ran_simps [simp]:
  "mc_world (ran c w m) = w" "mc_context (ran c w m) = mc_context m"
  "mc_commands (ran c w m) = mc_commands m @ [c]"
  by (simp_all add: ran_def)

lemma run_command_ran:
  "run_command env c m = (case en_run env (mc_world m) c of
     (Inl e, w) \<Rightarrow> (Inl (CdCommandRun e), ran c w m) | (Inr out, w) \<Rightarrow> (Inr out, ran c w m))"
  by (simp add: run_command_def ran_def split: prod.split sum.split)

lemma fill_cache_ran:
  "fill_cache env c None m = (case en_run env (mc_world m) c of
     (Inl e, w) \<Rightarrow> (Inl (CdCommandRun e), ran c w m)
   | (Inr out, w) \<Rightarrow> (Inr (if co_status_code out = 0 then Some (co_stdout out) else None), ran c w m))"
  by (simp add: fill_cache_def run_observation_command_def seq_def run_command_ran give_def
      classify_observation_output_def split: prod.split sum.split)

definition no_tmux_server :: "CommandOutput \<Rightarrow> bool" where
  "no_tmux_server out \<longleftrightarrow>
     co_status_code out \<noteq> 0
     \<and> list_ex (contains_str (co_stdout out @ co_stderr out))
         [''no server running'', ''error connecting to'', ''No such file or directory'']"

lemma sessions_ran:
  "run_tmux_sessions_command env c m = (case en_run env (mc_world m) c of
     (Inl e, w) \<Rightarrow> (Inl (CdCommandRun e), ran c w m)
   | (Inr out, w) \<Rightarrow> (Inr (if no_tmux_server out then OoOutput [] else classify_observation_output out), ran c w m))"
  by (simp add: run_tmux_sessions_command_def seq_def run_command_ran give_def Let_def no_tmux_server_def
      split: prod.split sum.split)

text \<open>The four commands of an observation, their outputs, and the observation they give.\<close>

definition observed_by ::
    "'r environment \<Rightarrow> 'r \<Rightarrow> Task \<Rightarrow> CommandOutput \<Rightarrow> CommandOutput \<Rightarrow> CommandOutput \<Rightarrow> CommandOutput \<Rightarrow>
     DropObservation" where
  "observed_by env w t sessions worktrees branches remotes =
     (let output = (\<lambda>out. if co_status_code out = 0 then OoOutput (co_stdout out) else OoUnknown);
          listed = (if co_status_code worktrees = 0 then parse_worktrees (co_stdout worktrees) else []);
          found = find (\<lambda>wt. worktree_path_matches (en_canonicalize env) w (wt_path wt) (t_worktree_path t)) listed;
          tmux = tmux_state t (if no_tmux_server sessions then OoOutput [] else output sessions)
      in \<lparr>do_agent = observed_agent_state t tmux, do_tmux_session = tmux,
          do_worktree = worktree_state t found (output worktrees),
          do_branch = branch_state t found (output branches) (output remotes)\<rparr>)"

lemma observed_by_cache:
  fixes env :: "'r environment"
  defines "cached \<equiv> \<lambda>out. if co_status_code out = 0 then Some (co_stdout out) else None"
  defines "output \<equiv> \<lambda>out. if no_tmux_server out then OoOutput [] else classify_observation_output out"
  defines "found \<equiv> \<lambda>w t v. find (\<lambda>wt. worktree_path_matches (en_canonicalize env) w (wt_path wt) (t_worktree_path t))
      (case cached_output v of OoOutput s \<Rightarrow> parse_worktrees s | _ \<Rightarrow> [])"
  shows "\<lparr>do_agent = observed_agent_state t (tmux_state t (output ss)), do_tmux_session = tmux_state t (output ss),
      do_worktree = worktree_state t (found w t (cached wts)) (cached_output (cached wts)),
      do_branch = branch_state t (found w t (cached wts)) (cached_output (cached brs)) (cached_output (cached rbs))\<rparr>
    = observed_by env w t ss wts brs rbs"
  by (simp add: assms observed_by_def Let_def cached_output_def tmux_state_def classify_observation_output_def)

lemma observe_Inr:
  assumes "observe_drop_resources env t m = (Inr ob, m')"
  obtains repo ss w1 wts w2 brs w3 rbs w4 where
    "task_repo_path (mc_context m) t = Some repo"
    "en_run env (mc_world m) (list_sessions ''tmux'') = (Inr ss, w1)"
    "en_run env w1 (list_worktrees ''git'' repo) = (Inr wts, w2)"
    "en_run env w2 (list_branches ''git'' repo) = (Inr brs, w3)"
    "en_run env w3 (list_remote_branches ''git'' repo) = (Inr rbs, w4)"
    "ob = observed_by env w4 t ss wts brs rbs"
proof -
  obtain repo where repo: "task_repo_path (mc_context m) t = Some repo"
    using assms
    by (cases "task_repo_path (mc_context m) t")
      (simp_all add: observe_drop_resources_def observe_drop_resources_with_cache_def seq_def view_def
        repo_path_or_error_def)
  obtain r1 w1 where 1: "en_run env (mc_world m) (list_sessions ''tmux'') = (r1, w1)" by fastforce
  obtain r2 w2 where 2: "en_run env w1 (list_worktrees ''git'' repo) = (r2, w2)" by fastforce
  obtain r3 w3 where 3: "en_run env w2 (list_branches ''git'' repo) = (r3, w3)" by fastforce
  obtain r4 w4 where 4: "en_run env w3 (list_remote_branches ''git'' repo) = (r4, w4)" by fastforce
  note unfold = observe_drop_resources_def observe_drop_resources_with_cache_def seq_def view_def
    repo_path_or_error_def repo cache_default_def fill_cache_ran sessions_ran 1 2 3 4
  obtain ss where ss: "r1 = Inr ss" using assms by (cases r1) (simp_all add: unfold)
  obtain wts where wts: "r2 = Inr wts" using assms by (cases r2) (simp_all add: unfold ss)
  obtain brs where brs: "r3 = Inr brs" using assms by (cases r3) (simp_all add: unfold ss wts)
  obtain rbs where rbs: "r4 = Inr rbs" using assms by (cases r4) (simp_all add: unfold ss wts brs)
  have "ob = observed_by env w4 t ss wts brs rbs"
    unfolding observed_by_cache [symmetric]
    using assms
    by (simp add: unfold ss wts brs rbs Let_def give_def split del: if_split split: prod.splits sum.splits)
  with repo 1 2 3 4 ss wts brs rbs show thesis by (intro that) simp_all
qed

section \<open>The commands of a drop\<close>

text \<open>The commands that leave the files and branches of a repository as they are.\<close>

definition spares_checkout :: "CommandSpec \<Rightarrow> bool" where
  "spares_checkout c \<longleftrightarrow>
     (\<exists>repo branch session.
        c \<in> {verification_command repo branch, kill_session ''tmux'' session, list_sessions ''tmux'',
             list_worktrees ''git'' repo, list_branches ''git'' repo, list_remote_branches ''git'' repo})"

lemma spares [simp]:
  "spares_checkout (verification_command repo branch)" "spares_checkout (kill_session ''tmux'' session)"
  "spares_checkout (list_sessions ''tmux'')" "spares_checkout (list_worktrees ''git'' repo)"
  "spares_checkout (list_branches ''git'' repo)" "spares_checkout (list_remote_branches ''git'' repo)"
  unfolding spares_checkout_def by blast+

lemma runs_seq_value:
  assumes "runs_only Q f" "\<And>m x m1. f m = (Inr x, m1) \<Longrightarrow> runs_only Q (g x)"
  shows "runs_only Q (seq f g)"
  unfolding runs_only_def
proof
  fix m
  obtain r m1 where f: "f m = (r, m1)" by fastforce
  with assms(1) obtain cs where cs: "mc_commands m1 = mc_commands m @ cs" "list_all Q cs"
    unfolding runs_only_def by (metis snd_conv)
  show "\<exists>cs. mc_commands (snd (seq f g m)) = mc_commands m @ cs \<and> list_all Q cs"
  proof (cases r)
    case (Inr x)
    with assms(2) f have "runs_only Q (g x)" by blast
    then obtain ds where "mc_commands (snd (g x m1)) = mc_commands m1 @ ds" "list_all Q ds"
      unfolding runs_only_def by blast
    with cs f Inr show ?thesis by (intro exI [of _ "cs @ ds"]) (simp add: seq_def)
  qed (use cs f in \<open>auto simp: seq_def\<close>)
qed

lemma runs_silent: "(\<And>m. mc_commands (snd (a m)) = mc_commands m) \<Longrightarrow> runs_only Q a"
  by (simp add: runs_only_def)

lemma runs_otherwise [keeps_intro]: "runs_only Q a \<Longrightarrow> runs_only Q (otherwise_give d a)"
  unfolding runs_only_def otherwise_give_def
  by (simp add: split_beta split: sum.split)

lemma runs_bookkeeping [keeps_intro]:
  "runs_only Q (modify_task i f handle)" "runs_only Q (forget_trusted_worktree env handle)"
  "runs_only Q (read_clock env)"
  by (rule runs_silent,
      simp add: modify_task_def forget_trusted_worktree_def read_clock_def set_registry_def
        split: sum.split prod.split)+

lemma runs_registry_updates [keeps_intro]:
  "runs_only Q (modify_task_clk env i g)" "runs_only Q (update_task_lifecycle env handle status)"
  "runs_only Q (record_event_act env i kind message)"
  by (auto simp: modify_task_clk_def update_task_lifecycle_def record_event_act_def intro!: keeps_intro)

lemma runs_marks [keeps_intro]:
  "runs_only Q (mark_task_teardown_incomplete env handle op ob detail)"
  "runs_only Q (mark_drop_agent_stopped env handle)" "runs_only Q (mark_task_removing env handle)"
  "runs_only Q (apply_drop_observation_evidence env t tmux worktree branch)"
  "runs_only Q (mark_task_cleanup_step_completed env handle c)"
  "runs_only Q (record_drop_step_event env handle op)"
  "runs_only Q (record_drop_step_failed_event env handle op d)"
  "runs_only Q (record_drop_step_receipt env handle op s)"
  "runs_only Q (record_observed_absent_drop_receipts env handle ob)"
  by (auto simp: mark_task_teardown_incomplete_def mark_drop_agent_stopped_def mark_task_removing_def
      apply_drop_observation_evidence_def mark_task_cleanup_step_completed_def worktree_gone_def branch_gone_def
      session_gone_def record_drop_step_event_def record_drop_step_failed_event_def Let_def
      record_drop_step_receipt_def record_observed_absent_drop_receipts_def intro!: keeps_intro)

lemma runs_observe [keeps_intro]: "runs_only spares_checkout (observe_drop_resources env t)"
  by (auto simp: observe_drop_resources_def observe_drop_resources_with_cache_def run_tmux_sessions_command_def
      fill_cache_def run_observation_command_def cache_default_def Let_def split_beta intro!: keeps_intro)

lemma runs_command_step [keeps_intro]:
  "spares_checkout c \<Longrightarrow> runs_only spares_checkout (drop_command_step env handle op c)"
  by (auto simp: drop_command_step_def mark_observed_drop_failure_def Let_def intro!: keeps_intro)

lemma runs_decision: "runs_only Q (drop_op_execution_decision env handle op force)"
  by (cases op) (auto simp: drop_op_execution_decision_def fast_remove_worktree_def intro!: keeps_intro)

lemma decision_spares:
  assumes "drop_op_execution_decision env handle op force m = (Inr d, m1)"
    and "op \<notin> {EnsureWorktreeAbsent, EnsureBranchAbsent}"
  shows "case d of None \<Rightarrow> True | Some c \<Rightarrow> spares_checkout c"
  using assms by (cases op) (auto simp: drop_op_execution_decision_def give_def seq_Inr)

lemma runs_step:
  assumes "op \<notin> {EnsureWorktreeAbsent, EnsureBranchAbsent}"
  shows "runs_only spares_checkout (drop_step env handle op)"
  unfolding drop_step_def
proof (rule runs_seq_value [OF runs_decision])
  fix m d m1 assume "drop_op_execution_decision env handle op True m = (Inr d, m1)"
  from decision_spares [OF this assms]
  show "runs_only spares_checkout (case d of
      None \<Rightarrow> seq (mark_drop_agent_stopped env handle) (\<lambda>_. seq (record_drop_step_event env handle op) (\<lambda>_.
        seq (record_drop_step_receipt env handle op SrSucceeded) (\<lambda>_. give [])))
    | Some c \<Rightarrow> drop_command_step env handle op c)"
    by (cases d) (auto intro!: keeps_intro)
qed

lemma runs_steps: "runs_only spares_checkout (drop_steps env handle True ops)"
  by (induction ops) (auto intro!: keeps_intro runs_step)

lemma runs_complete: "runs_only Q (complete_drop_task_operation env handle ob)"
  by (auto simp: complete_drop_task_operation_def Let_def split: list.split intro!: keeps_intro)

lemma runs_verification: "runs_only spares_checkout (drop_verification env handle)"
proof -
  have "runs_only spares_checkout (case v of
      Some c \<Rightarrow> seq (run_checked env c) (\<lambda>_. give True) | None \<Rightarrow> give False)"
    if v: "view (\<lambda>m. task_only_drop_verification env (mc_world m) (mc_context m) t) m = (Inr v, m1)" for t v m m1
  proof (cases v)
    case (Some c)
    with v have "spares_checkout c"
      by (auto simp: view_def task_only_drop_verification_def and_then_def split: sum.splits if_splits)
    with Some show ?thesis by (auto intro!: keeps_intro)
  qed (simp add: runs_give)
  then show ?thesis unfolding drop_verification_def
    by (intro runs_seq_value runs_view runs_task_of)
qed

lemma verification_value:
  assumes "drop_verification env handle m = (Inr b, m1)" and "find_task (mc_context m) handle = Inr t"
  shows "b \<longleftrightarrow> task_worktree_is_preserved_checkout env (mc_world m) (mc_context m) t"
  using assms
  by (auto simp: drop_verification_def seq_Inr task_of_def view_def task_only_drop_verification_def and_then_def
      give_def split: sum.splits if_splits)

definition drop_rest ::
    "'r environment \<Rightarrow> string \<Rightarrow> DropObservation \<Rightarrow> bool \<Rightarrow> ('r, CommandOutput list \<times> DropTaskCompletion) act" where
  "drop_rest env handle ob preserve =
     seq (mark_task_removing env handle) (\<lambda>_.
     seq (record_observed_absent_drop_receipts env handle ob) (\<lambda>_.
     seq (view (planned_drop_ops handle ob)) (\<lambda>ops.
     seq (drop_steps env handle preserve ops) (\<lambda>outputs.
     seq (if preserve
          then seq (task_of handle) (\<lambda>t. modify_task (t_id t) forget_checkout handle)
          else give ()) (\<lambda>_.
     seq (task_of handle) (\<lambda>t.
     seq (observe_drop_resources env t) (\<lambda>final.
     seq (complete_drop_task_operation env handle final) (\<lambda>completion.
       give (outputs, completion)))))))))"

lemma execute_drop_rest:
  "execute_drop_task_operation env handle operation confirmed =
     (if pn_blocked_reasons (dp_confirmation_plan operation) \<noteq> []
      then fail (CdPlanBlocked (pn_blocked_reasons (dp_confirmation_plan operation)))
      else if pn_requires_confirmation (dp_confirmation_plan operation) \<and> \<not> confirmed
      then fail CdConfirmationRequired
      else seq (drop_verification env handle) (drop_rest env handle (dp_observation operation)))"
  by (simp add: execute_drop_task_operation_def Let_def drop_rest_def [abs_def])

lemma runs_rest: "runs_only spares_checkout (drop_rest env handle ob True)"
  unfolding drop_rest_def by (auto intro!: keeps_intro runs_steps runs_complete)

text \<open>C2: When the work tree of the task is the main checkout (or contains it) as the drop starts, every command
  of the drop, also after failures, is one that neither touches files nor deletes branches: the verification, the
  listings and the end of a tmux session.\<close>

theorem main_checkout_is_spared:
  assumes t: "find_task (mc_context m) handle = Inr t"
    and p: "task_worktree_is_preserved_checkout env (mc_world m) (mc_context m) t"
  shows "\<exists>cs. mc_commands (snd (execute_drop_task_operation env handle operation confirmed m)) = mc_commands m @ cs
    \<and> list_all spares_checkout cs"
proof -
  obtain r m1 where v: "drop_verification env handle m = (r, m1)" by fastforce
  obtain cs where cs: "mc_commands m1 = mc_commands m @ cs" "list_all spares_checkout cs"
    using runs_verification [of env handle] v unfolding runs_only_def by (metis snd_conv)
  obtain ds where ds: "mc_commands (snd (drop_rest env handle (dp_observation operation) True m1)) = mc_commands m1 @ ds"
      "list_all spares_checkout ds"
    using runs_rest unfolding runs_only_def by blast
  have r: "r = Inr True" if "r = Inr b" for b
    using verification_value [OF v [unfolded that] t] p that by simp
  have "mc_commands (snd (seq (drop_verification env handle) (drop_rest env handle (dp_observation operation)) m))
      \<in> {mc_commands m @ cs, mc_commands m @ cs @ ds}"
  proof (cases r)
    case (Inr b)
    from r [OF this] v cs ds show ?thesis by (simp add: seq_def)
  qed (use v cs in \<open>simp add: seq_def\<close>)
  then have "\<exists>es. mc_commands (snd (seq (drop_verification env handle)
      (drop_rest env handle (dp_observation operation)) m)) = mc_commands m @ es \<and> list_all spares_checkout es"
    using cs(2) ds(2) by (metis insertE list_all_append singletonD)
  then show ?thesis by (simp add: execute_drop_rest fail_def)
qed

section \<open>Resuming a drop\<close>

lemma find_task_stored:
  assumes "task_named es cs m" "\<forall>(k, i, _) \<in> set es. k = i" "find_task (mc_context m) handle = Inr t"
  shows "bt_get (t_id t) (rg_tasks (mc_registry m)) = Some t"
proof -
  have inv: "bt_inv (rg_tasks (mc_registry m))" and es: "entries (mc_registry m) = es"
    using assms(1) by (auto simp: task_named_def same_tasks_def)
  have "t \<in> set (list_tasks (mc_registry m))"
    using assms(3) by (auto simp: find_task_def mc_registry_def find_Some_iff split: option.splits)
  then obtain k where k: "(k, t) \<in> set (rg_tasks (mc_registry m))"
    by (auto simp: list_tasks_def bt_values_def)
  then have "(k, ident t) \<in> set es" using es by (force simp: entries_def)
  with assms(2) have "k = t_id t" by (auto simp: ident_def)
  with k show ?thesis by (simp add: bt_get_iff [OF inv])
qed

lemma failure_key: "t_metadata (set_drop_failure op ob detail t) ''drop_failed_step_key'' = Some (step_key op)"
  by (simp add: set_drop_failure_def Let_def split: option.split)

lemma registry_act_Inr:
  "registry_act env f m = (Inr u, m1) \<Longrightarrow>
     \<exists>clk. f clk (mc_registry m) = Inr (mc_registry m1)"
  by (auto simp: registry_act_def mc_registry_def set_registry_def split: prod.splits sum.splits)

lemma record_event_tasks: "record_event now i kind message r = Inr s \<Longrightarrow> rg_tasks s = rg_tasks r"
  by (auto simp: record_event_def push_event_def split: if_splits)

lemma marked_incomplete:
  assumes n: "task_named es cs m" and es: "\<forall>(k, i, _) \<in> set es. k = i"
    and m': "mark_task_teardown_incomplete env handle op ob detail m = (Inr u, m')"
  shows "\<exists>t. find_task (mc_context m') handle = Inr t
    \<and> t_metadata t ''drop_failed_step_key'' = Some (step_key op)"
proof -
  obtain t m1 m2 message where t: "find_task (mc_context m) handle = Inr t"
    and 1: "registry_act env (\<lambda>clk. update_lifecycle clk (t_id t) LcTeardownIncomplete) m = (Inr (), m1)"
    and 2: "modify_task (t_id t) (set_drop_failure op ob detail) handle m1 = (Inr (), m2)"
    and 3: "record_event_act env (t_id t) EkLifecycleChanged message m2 = (Inr u, m')"
    using m' by (auto simp: mark_task_teardown_incomplete_def seq_Inr task_of_def view_def)
  have n1: "task_named es cs m1" using keepsD [OF named_registry_ops(1) n] 1 by (metis snd_conv)
  have n2: "task_named es cs m2" using keepsD [OF named_modify n1] 2 ident_drop_failure by (metis snd_conv)
  have n3: "task_named es cs m'" using keepsD [OF named_bookkeeping(1) n2] 3 by (metis snd_conv)
  obtain t1 where t1: "get_task (t_id t) (mc_registry m1) = Some t1"
    using 2 by (auto simp: modify_task_def split: if_splits)
  have "bt_inv (rg_tasks (mc_registry m1))" using n1 by (simp add: task_named_def same_tasks_def)
  then have "bt_get (t_id t) (rg_tasks (mc_registry m2)) = Some (set_drop_failure op ob detail t1)"
    using 2 t1
    by (auto simp: modify_task_def mc_registry_def set_registry_def get_task_mut_def get_task_def bt_get_insert
        split: if_splits)
  moreover have "rg_tasks (mc_registry m') = rg_tasks (mc_registry m2)"
    using registry_act_Inr [OF 3 [unfolded record_event_act_def]] record_event_tasks by blast
  ultimately have stored: "bt_get (t_id t) (rg_tasks (mc_registry m')) = Some (set_drop_failure op ob detail t1)"
    by simp
  have i: "named es handle = Some (t_id t)" using find_task_named(1) [OF n t] .
  obtain v where v: "find_task (mc_context m') handle = Inr v"
    using find_task_named(2) [OF n3] i by (cases "find_task (mc_context m') handle") auto
  have "t_id v = t_id t" using find_task_named(1) [OF n3 v] i by simp
  with find_task_stored [OF n3 es v] stored have "v = set_drop_failure op ob detail t1" by simp
  with v failure_key show ?thesis by auto
qed

lemma retried:
  assumes t: "find_task (mc_context m) handle = Inr t"
    and key: "t_metadata t ''drop_failed_step_key'' = Some (step_key op)" and p: "observed_state op ob = RsPresent"
  shows "\<exists>ops. planned_drop_ops handle ob m = Inr ops \<and> op \<in> set ops"
proof -
  have "receipt_matches_present_resource (step_key op) ob"
    using p by (cases op) (simp_all add: receipt_matches_present_resource_def DROP_TEARDOWN_ORDER_def)
  then have "step_key op \<notin> set (completed_steps (counted_receipts t ob rs))" for rs
    using key by (auto simp: completed_steps_def counted_receipts_def)
  moreover have "op \<in> set (plan_drop_from_observation ob)"
    using p by (cases op) (simp_all add: plan_drop_from_observation_def DROP_TEARDOWN_ORDER_def)
  ultimately show ?thesis
    using t by (simp add: planned_drop_ops_def and_then_def plan_drop_from_observation_for_task_def)
qed

lemma incomplete_marked:
  assumes "task_named es cs m" and es: "\<forall>(k, i, _) \<in> set es. k = i"
    and m': "complete_drop_task_operation env handle ob m = (Inr (DcTeardownIncomplete op d), m')"
  shows "\<exists>t. find_task (mc_context m') handle = Inr t
    \<and> t_metadata t ''drop_failed_step_key'' = Some (step_key op)"
proof -
  obtain t where t: "find_task (mc_context m) handle = Inr t"
    using m' by (auto simp: complete_drop_task_operation_def seq_Inr task_of_def view_def)
  let ?ob = "final_view (task_worktree_is_preserved_checkout env (mc_world m) (mc_context m) t) ob"
  obtain m1 detail where "mark_task_removing env handle m = (Inr (), m1)"
      "mark_task_teardown_incomplete env handle op ?ob detail m1 = (Inr (), m')"
    using m' t
    by (cases "plan_drop_from_observation ?ob")
      (auto simp: complete_drop_task_operation_def seq_Inr task_of_def view_def give_def Let_def)
  with marked_incomplete [OF _ es] keepsD [OF named_bookkeeping(4) assms(1)] show ?thesis by (metis snd_conv)
qed

definition resumable :: "string \<Rightarrow> DropTaskCompletion \<Rightarrow> 'r machine \<Rightarrow> bool" where
  "resumable handle completion m =
     (case completion of
        DcRemoved \<Rightarrow> True
      | DcTeardownIncomplete op _ \<Rightarrow>
          (\<exists>t. find_task (mc_context m) handle = Inr t
            \<and> t_metadata t ''drop_failed_step_key'' = Some (step_key op)))"

lemma until_last: "until (task_named es cs) (\<lambda>_ _. True) (seq (registry_act env f) (\<lambda>_. give x))"
  by (auto simp: until_def seq_def registry_act_def give_def task_named_def mc_registry_def
      split: prod.split sum.split)

lemma until_complete: "until (task_named es cs) (\<lambda>_ _. True) (complete_drop_task_operation env handle ob)"
  unfolding complete_drop_task_operation_def Let_def
  by (intro until_seq keeps_intro; simp split: list.split; intro conjI allI impI until_last until_seq until_give)
    (auto intro!: keeps_intro)

lemma until_resumable:
  assumes "\<forall>(k, i, _) \<in> set es. k = i"
  shows "until (task_named es cs) (\<lambda>(_, completion). resumable handle completion)
    (seq (complete_drop_task_operation env handle ob) (\<lambda>completion. give (outs, completion)))"
  unfolding until_def
proof (intro allI impI)
  fix m :: "'a machine" assume n: "task_named es cs m"
  let ?a = "complete_drop_task_operation env handle ob"
  obtain r m1 where r: "?a m = (r, m1)" by fastforce
  show "case seq ?a (\<lambda>completion. give (outs, completion)) m of (Inl _, m1) \<Rightarrow> task_named es cs m1
      | (Inr x, m1) \<Rightarrow> (case x of (_, completion) \<Rightarrow> resumable handle completion) m1"
    using r incomplete_marked [OF n assms, of env handle ob] untilD [OF until_complete n, of env handle ob]
    by (auto simp: seq_def give_def resumable_def split: sum.split DropTaskCompletion.split)
qed

text \<open>C3: When a drop ends with an incomplete teardown at a step, the next attempt plans that step again as soon as
  its resource is observed to be there, whatever receipts of finished steps are stored.\<close>

theorem incomplete_drop_is_resumed:
  assumes ok: "registry_ok (mc_registry m)"
    and done': "execute_drop_task_operation env handle operation confirmed m
      = (Inr (outputs, DcTeardownIncomplete op detail), m')"
    and "observed_state op ob = RsPresent"
  shows "\<exists>ops. planned_drop_ops handle ob m' = Inr ops \<and> op \<in> set ops"
proof -
  let ?es = "entries (mc_registry m)"
  have n: "task_named ?es (mc_commands m) m"
    using registry_okD(1) [OF ok] by (simp add: task_named_def same_tasks_def)
  have es: "\<forall>(k, i, _) \<in> set ?es. k = i"
    using registry_okD(3) [OF ok] bt_get_iff [OF registry_okD(1) [OF ok]]
    by (auto simp: entries_def ident_def get_task_def)
  have "until (task_named ?es (mc_commands m)) (\<lambda>(_, completion). resumable handle completion)
      (execute_drop_task_operation env handle operation confirmed)"
    unfolding execute_drop_task_operation_def Let_def
    by (intro until_if until_fail until_seq until_resumable [OF es]) (auto intro!: keeps_intro)
  from untilD [OF this n] done' assms(3) show ?thesis by (auto simp: resumable_def dest: retried)
qed

section \<open>Properties of an observation\<close>


text \<open>C34: The state of a branch is not what the list of branches says when that listing fails: if the remote
  listing succeeds and does not name the branch, and no listed work tree is that of the task, the branch is
  reported absent although nothing has looked for it.\<close>

theorem failed_branch_listing_hides_branch:
  assumes "observe_drop_resources env t m = (Inr ob, m')"
    and "task_repo_path (mc_context m) t = Some repo"
    and "en_run env (mc_world m) (list_sessions ''tmux'') = (Inr ss, w1)"
    and "en_run env w1 (list_worktrees ''git'' repo) = (Inr wts, w2)"
    and "en_run env w2 (list_branches ''git'' repo) = (Inr brs, w3)" and "co_status_code brs \<noteq> 0"
    and "en_run env w3 (list_remote_branches ''git'' repo) = (Inr rbs, w4)" and "co_status_code rbs = 0"
    and "t_branch t \<notin> set (parse_remote_branches (co_stdout rbs))"
    and "do_worktree ob = RsAbsent"
  shows "do_branch ob = RsAbsent"
proof -
  have ob: "ob = observed_by env w4 t ss wts brs rbs"
    using observe_Inr [OF assms(1)] assms(2-5, 7) by (metis Pair_inject option.inject sum.inject(2))
  show ?thesis
    using assms(6, 8-10)
    by (auto simp: ob observed_by_def Let_def branch_state_def worktree_state_def state_from_bool_def
        split: if_splits option.splits)
qed

section \<open>Examples\<close>

text \<open>In the evaluation of the examples time limits and the trimmed texts of messages stay as they are written.\<close>

declare secs_def [code del] trim_def [code del]

lemma sample_registry_ok: "registry_ok sample_registry"
  by (rule valid_registry.runs_preserve [OF _ registry_ok_default], rule runs_single,
      rule registry_step.create [OF sample_created])

definition exits :: "int \<Rightarrow> string \<Rightarrow> CommandOutput" where
  "exits status s = \<lparr>co_status_code = status, co_stdout = s, co_stderr = []\<rparr>"

text \<open>Every command is answered by the function; \<open>checkout\<close> says that all paths are the main checkout.\<close>

definition answering :: "(CommandSpec \<Rightarrow> CommandOutput) \<Rightarrow> bool \<Rightarrow> unit environment" where
  "answering answer checkout =
     \<lparr>en_run = (\<lambda>w c. (Inr (answer c), w)), en_clock = (\<lambda>w. (\<lambda>n. int n, w)), en_exists = (\<lambda>_ _. True),
      en_is_dir = (\<lambda>_ _. checkout), en_canonicalize = (\<lambda>_ p. Some (if checkout then ''/repo'' else p)),
      en_read_dir = (\<lambda>_ _. None), en_forget_trusted = (\<lambda>_ w. w)\<rparr>"

definition nothing_env :: "unit environment" where
  "nothing_env = answering (\<lambda>_. exits 0 []) False"

definition checkout_env :: "unit environment" where
  "checkout_env = answering (\<lambda>_. exits 0 []) True"

definition session_env :: "unit environment" where
  "session_env = answering (\<lambda>c. exits (if has_arg ''list-sessions'' c then 1 else 0) []) False"

definition no_branches_env :: "unit environment" where
  "no_branches_env =
     answering (\<lambda>c. exits (if has_arg ''branch'' c \<and> \<not> has_arg ''-r'' c then 128 else 0) []) False"

definition sample_machine :: "unit machine" where
  "sample_machine =
     \<lparr>mc_context =
        \<lparr>cx_repos = [\<lparr>mr_name = ''web'', mr_path = ''/repo'', mr_default_branch = ''main'', mr_bootstrap = None\<rparr>],
         cx_test_commands = [], cx_worktree_placement = WpLegacySibling, cx_registry = sample_registry\<rparr>,
      mc_world = (), mc_commands = []\<rparr>"

lemma sample_machine_registry [simp]:
  "mc_registry sample_machine = sample_registry" "mc_commands sample_machine = []"
  by (simp_all add: sample_machine_def mc_registry_def)

definition sample_operation :: DropTaskOperationPlan where
  "sample_operation = \<lparr>dp_confirmation_plan = plan_new [], 
     dp_observation = \<lparr>do_agent = RsAbsent, do_tmux_session = RsAbsent, do_worktree = RsAbsent, do_branch = RsAbsent\<rparr>\<rparr>"

lemma sample_removed:
  "case execute_drop_task_operation nothing_env (qualified_handle sample_task) sample_operation True sample_machine of
     (Inr (_, DcRemoved), _) \<Rightarrow> True | _ \<Rightarrow> False"
  by code_simp

lemma sample_incomplete:
  "case execute_drop_task_operation session_env (qualified_handle sample_task) sample_operation True sample_machine of
     (Inr (_, DcTeardownIncomplete EnsureTmuxSessionAbsent _), _) \<Rightarrow> True | _ \<Rightarrow> False"
  by code_simp

lemma sample_observed:
  "case observe_drop_resources no_branches_env sample_task sample_machine of
     (Inr ob, _) \<Rightarrow> do_worktree ob = RsAbsent | _ \<Rightarrow> False"
  by code_simp

lemma sample_found: "find_task (mc_context sample_machine) (qualified_handle sample_task)
    = Inr (refresh_task_annotations (refresh_runtime_projection 0 sample_task))"
proof -
  have "ident (refresh_task_annotations (refresh_runtime_projection 0 sample_task)) = ident sample_task" by simp
  then have "qualified_handle (refresh_task_annotations (refresh_runtime_projection 0 sample_task))
      = qualified_handle sample_task"
    by (simp add: ident_def)
  then show ?thesis
    by (simp add: find_task_def sample_machine_def list_tasks_def sample_registry_def put_task_def
        registry_default_def push_event_def bt_values_def)
qed

lemma sample_checkout:
  "task_worktree_is_preserved_checkout checkout_env () (mc_context sample_machine)
     (refresh_task_annotations (refresh_runtime_projection 0 sample_task))"
  by code_simp

text \<open>The listing of the branches fails throughout: the drop is planned and ends as a removal, and no command has
  deleted the branch.\<close>

lemma branch_survives_drop:
  "case plan_drop_task_operation no_branches_env (qualified_handle sample_task) sample_machine of
     (Inr operation, m) \<Rightarrow>
       (case execute_drop_task_operation no_branches_env (qualified_handle sample_task) operation True m of
          (Inr (_, DcRemoved), m') \<Rightarrow> list_all (\<lambda>c. \<not> is_delete_branch_substrate_command c) (mc_commands m')
        | _ \<Rightarrow> False)
   | _ \<Rightarrow> False"
  by code_simp


theorem main_checkout_is_spared_witness:
  "\<exists>cs. mc_commands (snd (execute_drop_task_operation checkout_env (qualified_handle sample_task) sample_operation
        True sample_machine)) = cs \<and> list_all spares_checkout cs"
  using main_checkout_is_spared [OF sample_found, of checkout_env sample_operation True] sample_checkout
  by simp

theorem incomplete_drop_is_resumed_witness:
  "\<exists>outs d m' ops. execute_drop_task_operation session_env (qualified_handle sample_task) sample_operation True
        sample_machine = (Inr (outs, DcTeardownIncomplete EnsureTmuxSessionAbsent d), m')
     \<and> planned_drop_ops (qualified_handle sample_task)
           (dp_observation sample_operation\<lparr>do_tmux_session := RsPresent\<rparr>) m' = Inr ops
     \<and> EnsureTmuxSessionAbsent \<in> set ops"
proof -
  obtain r m' where e: "execute_drop_task_operation session_env (qualified_handle sample_task) sample_operation True
      sample_machine = (r, m')" by fastforce
  then obtain outs op d where r: "r = Inr (outs, DcTeardownIncomplete op d)" "op = EnsureTmuxSessionAbsent"
    using sample_incomplete
    by (cases r) (auto split: DropTaskCompletion.splits DropOp.splits)
  with e have "execute_drop_task_operation session_env (qualified_handle sample_task) sample_operation True
      sample_machine = (Inr (outs, DcTeardownIncomplete EnsureTmuxSessionAbsent d), m')" by simp
  moreover from incomplete_drop_is_resumed [OF _ this,
      of "dp_observation sample_operation\<lparr>do_tmux_session := RsPresent\<rparr>"]
  have "\<exists>ops. planned_drop_ops (qualified_handle sample_task)
      (dp_observation sample_operation\<lparr>do_tmux_session := RsPresent\<rparr>) m' = Inr ops \<and> EnsureTmuxSessionAbsent \<in> set ops"
    by (simp add: sample_registry_ok)
  ultimately show ?thesis by blast
qed


theorem failed_branch_listing_hides_branch_witness:
  "\<exists>ob m'. observe_drop_resources no_branches_env sample_task sample_machine = (Inr ob, m')
     \<and> do_branch ob = RsAbsent"
proof -
  obtain ob m' where ob: "observe_drop_resources no_branches_env sample_task sample_machine = (Inr ob, m')"
      and w: "do_worktree ob = RsAbsent"
    using sample_observed by (auto split: prod.splits sum.splits)
  have repo: "task_repo_path (mc_context sample_machine) sample_task = Some ''/repo''"
    by (simp add: task_repo_path_def sample_machine_def sample_task_def task_new_def)
  have run: "en_run no_branches_env w c
      = (Inr (exits (if has_arg ''branch'' c \<and> \<not> has_arg ''-r'' c then 128 else 0) []), ())" for w c
    by (simp add: no_branches_env_def answering_def)
  have "do_branch ob = RsAbsent"
    by (rule failed_branch_listing_hides_branch [OF ob repo run run run _ run _ _ w])
      (simp_all add: exits_def has_arg_def list_branches_def list_remote_branches_def command_new_def
        parse_remote_branches_def str_lines_def)
  with ob show ?thesis by blast
qed

end
