(* ===== verification/Agent_Events.thy ===== *)
theory Agent_Events
  imports Monitor_Events
begin

text \<open>
  Where observations of agents come from. The first half follows the hooks of an agent in a terminal: a native event
  becomes a canonical one (\<open>crates/ajax-cli/src/agent_event.rs\<close>), is appended to the file of its task if the
  wrapper of the agent still runs (\<open>agent_runtime.rs\<close>), and the file is folded into observations
  (\<open>crates/ajax-core/src/canonical_agent_event.rs\<close>, \<open>crates/ajax-cli/src/agent_status_cache.rs\<close>). The second half is the
  state of an agent that speaks ACP (\<open>crates/ajax-core/src/acp_execution_state.rs\<close>). Both end in the observations that
  the reducer of \<open>Agent_Status\<close> reads. Lines that are no JSON are dropped by the decoder, which is not modelled.
\<close>

section \<open>Canonical events\<close>

datatype CanonicalEventKind =
    CkTurnStarted | CkActivityStarted | CkActivityFinished | CkAttentionRequested | CkAttentionCleared
  | CkTurnSettled | CkSessionOpened | CkSessionClosed | CkChildStarted | CkChildSettled | CkHeartbeat

datatype CanonicalActivityKind = CyTool

datatype AttentionReason = AnPermission | AnQuestion

datatype TurnOutcome = TuCompleted | TuInterrupted | TuFailed | TuUnknown

datatype CanonicalEventDetail =
    CvActivity CanonicalActivityKind "string option"
  | CvAttention AttentionReason
  | CvOutcome TurnOutcome

datatype AgentPhase = ApActive | ApBlocked | ApSettled | ApFailed | ApUnknown

text \<open>The active tools are the keys of a map.\<close>

record RunSnapshot =
  rn_phase :: AgentPhase
  rn_activity :: "CanonicalActivityKind option"
  rn_blocker :: "AttentionReason option"
  rn_outcome :: "TurnOutcome option"
  rn_active_tools :: "string set"
  rn_pending_attention :: "AttentionReason option"

record ParsedEnvelope =
  nv_kind :: CanonicalEventKind
  nv_detail :: "CanonicalEventDetail option"
  nv_received_at_unix_millis :: nat
  nv_run_id :: "string option"
  nv_parent_run_id :: "string option"

record FoldState =
  fd_phase :: AgentPhase
  fd_activity :: "CanonicalActivityKind option"
  fd_blocker :: "AttentionReason option"
  fd_outcome :: "TurnOutcome option"
  fd_active_tools :: "string set"
  fd_pending_attention :: "AttentionReason option"
  fd_turn_started :: bool
  fd_turn_settled :: bool

definition fold_new :: FoldState where
  "fold_new = \<lparr>fd_phase = ApUnknown, fd_activity = None, fd_blocker = None, fd_outcome = None, fd_active_tools = {},
     fd_pending_attention = None, fd_turn_started = False, fd_turn_settled = False\<rparr>"

definition fold_snapshot :: "FoldState \<Rightarrow> RunSnapshot" where
  "fold_snapshot s = \<lparr>rn_phase = fd_phase s, rn_activity = fd_activity s, rn_blocker = fd_blocker s,
     rn_outcome = fd_outcome s, rn_active_tools = fd_active_tools s, rn_pending_attention = fd_pending_attention s\<rparr>"

definition clear_pending_attention :: "FoldState \<Rightarrow> FoldState" where
  "clear_pending_attention s =
     (let s1 = s\<lparr>fd_pending_attention := None, fd_blocker := None\<rparr>
      in if fd_phase s = ApBlocked \<and> \<not> fd_turn_settled s then s1\<lparr>fd_phase := ApActive\<rparr> else s1)"

definition apply_turn_settled :: "TurnOutcome \<Rightarrow> FoldState \<Rightarrow> FoldState" where
  "apply_turn_settled outcome s =
     (let s1 = s\<lparr>fd_turn_settled := True, fd_outcome := Some outcome\<rparr>
      in if outcome = TuFailed then s1\<lparr>fd_phase := ApFailed\<rparr>
         else s1\<lparr>fd_phase := (if fd_active_tools s \<noteq> {} then ApActive else ApSettled)\<rparr>)"

definition activity_started_step :: "CanonicalEventDetail option \<Rightarrow> FoldState \<Rightarrow> FoldState" where
  "activity_started_step detail s =
     (case detail of
        Some (CvActivity CyTool activity_id) \<Rightarrow>
          s\<lparr>fd_active_tools := (case activity_id of Some i \<Rightarrow> insert i (fd_active_tools s) | None \<Rightarrow> fd_active_tools s),
            fd_activity := Some CyTool, fd_phase := ApActive\<rparr>
      | _ \<Rightarrow> s)"

definition activity_finished_step :: "CanonicalEventDetail option \<Rightarrow> FoldState \<Rightarrow> FoldState" where
  "activity_finished_step detail s =
     (let tools = (case detail of
            Some (CvActivity CyTool (Some i)) \<Rightarrow> fd_active_tools s - {i}
          | Some (CvActivity CyTool None) \<Rightarrow> Set.filter (\<lambda>k. \<not> starts_with k ''anon-'') (fd_active_tools s)
          | _ \<Rightarrow> fd_active_tools s);
          s1 = s\<lparr>fd_active_tools := tools\<rparr>
      in if tools \<noteq> {} then s1
         else let s2 = s1\<lparr>fd_activity := None\<rparr>
              in if fd_turn_settled s \<and> fd_phase s \<noteq> ApFailed
                 then s2\<lparr>fd_phase := (if fd_pending_attention s \<noteq> None then ApBlocked else ApSettled)\<rparr>
                 else if fd_pending_attention s = None \<and> (fd_turn_started s \<or> tools \<noteq> {})
                 then s2\<lparr>fd_phase := ApActive\<rparr> else s2)"

definition turn_outcome_of :: "CanonicalEventDetail option \<Rightarrow> TurnOutcome" where
  "turn_outcome_of detail = (case detail of Some (CvOutcome outcome) \<Rightarrow> outcome | _ \<Rightarrow> TuUnknown)"

definition fold_event :: "ParsedEnvelope \<Rightarrow> FoldState \<Rightarrow> FoldState" where
  "fold_event e s =
     (case nv_kind e of
        CkTurnStarted \<Rightarrow> (clear_pending_attention (s\<lparr>fd_turn_started := True\<rparr>))\<lparr>fd_phase := ApActive\<rparr>
      | CkActivityStarted \<Rightarrow> activity_started_step (nv_detail e) s
      | CkActivityFinished \<Rightarrow> activity_finished_step (nv_detail e) s
      | CkAttentionRequested \<Rightarrow>
          (case nv_detail e of
             Some (CvAttention attention) \<Rightarrow>
               s\<lparr>fd_pending_attention := Some attention, fd_blocker := Some attention, fd_phase := ApBlocked\<rparr>
           | _ \<Rightarrow> s)
      | CkAttentionCleared \<Rightarrow> clear_pending_attention s
      | CkTurnSettled \<Rightarrow> apply_turn_settled (turn_outcome_of (nv_detail e)) s
      | CkSessionOpened \<Rightarrow> s\<lparr>fd_phase := ApActive\<rparr>
      | CkChildStarted \<Rightarrow> s\<lparr>fd_phase := ApActive\<rparr>
      | CkSessionClosed \<Rightarrow>
          s\<lparr>fd_active_tools := {}, fd_activity := None,
            fd_phase := (if fd_phase s \<noteq> ApFailed then ApSettled else fd_phase s)\<rparr>
      | CkChildSettled \<Rightarrow> s
      | CkHeartbeat \<Rightarrow> s)"

definition fold_envelopes :: "ParsedEnvelope list \<Rightarrow> RunSnapshot" where
  "fold_envelopes events = fold_snapshot (fold fold_event events fold_new)"

definition LIFECYCLE_FRESH_FOR :: duration where
  "LIFECYCLE_FRESH_FOR = secs (30 * 60)"

definition LIFECYCLE_TERMINAL_FRESH_FOR :: duration where
  "LIFECYCLE_TERMINAL_FRESH_FOR = secs (365 * 24 * 3600)"

definition snapshot_kind :: "RunSnapshot \<Rightarrow> ActivityKind option" where
  "snapshot_kind snapshot =
     (case rn_phase snapshot of
        ApUnknown \<Rightarrow> None
      | ApActive \<Rightarrow> Some KWorking
      | ApBlocked \<Rightarrow>
          Some (if rn_pending_attention snapshot = Some AnPermission \<or> rn_blocker snapshot = Some AnPermission
                then KWaitingApproval else KWaitingInput)
      | ApSettled \<Rightarrow> Some KDone
      | ApFailed \<Rightarrow> Some KFailed)"

definition observations_from_run_snapshot :: "RunSnapshot \<Rightarrow> time \<Rightarrow> string \<Rightarrow> StatusObservation list" where
  "observations_from_run_snapshot snapshot now run_id =
     (case snapshot_kind snapshot of
        None \<Rightarrow> []
      | Some kind \<Rightarrow>
          [\<lparr>so_source = OsProviderLifecycle, so_observed_at = now,
            so_expires_at = now + int (if kind \<in> {KDone, KFailed} then LIFECYCLE_TERMINAL_FRESH_FOR else LIFECYCLE_FRESH_FOR),
            so_confidence = CfHigh, so_run_id = run_id, so_parent_run_id = None, so_kind = kind\<rparr>])"

section \<open>Hooks\<close>

text \<open>What the code reads of the JSON payload of a hook: its string fields by key, and whether the array of background
  tasks has members.\<close>

record HookPayload =
  hp_get_str :: "string \<Rightarrow> string option"
  hp_background_tasks :: bool

record CanonicalAgentEvent =
  cae_kind :: CanonicalEventKind
  cae_detail :: "CanonicalEventDetail option"

definition activity_id_from_payload :: "HookPayload \<Rightarrow> string option" where
  "activity_id_from_payload payload =
     (case List.map_filter (hp_get_str payload) [''tool_call_id'', ''tool_id'', ''id'', ''tool_name'', ''tool''] of
        [] \<Rightarrow> None | v # _ \<Rightarrow> Some v)"

definition plain_event :: "CanonicalEventKind \<Rightarrow> CanonicalAgentEvent" where
  "plain_event kind = \<lparr>cae_kind = kind, cae_detail = None\<rparr>"

definition activity_event :: "CanonicalEventKind \<Rightarrow> HookPayload \<Rightarrow> CanonicalAgentEvent" where
  "activity_event kind payload =
     \<lparr>cae_kind = kind, cae_detail = Some (CvActivity CyTool (activity_id_from_payload payload))\<rparr>"

definition attention_requested :: "AttentionReason \<Rightarrow> CanonicalAgentEvent" where
  "attention_requested reason = \<lparr>cae_kind = CkAttentionRequested, cae_detail = Some (CvAttention reason)\<rparr>"

definition turn_settled :: "TurnOutcome \<Rightarrow> CanonicalAgentEvent" where
  "turn_settled outcome = \<lparr>cae_kind = CkTurnSettled, cae_detail = Some (CvOutcome outcome)\<rparr>"

definition str_field :: "string \<Rightarrow> HookPayload \<Rightarrow> string" where
  "str_field key payload = (case hp_get_str payload key of Some v \<Rightarrow> v | None \<Rightarrow> [])"

definition claude_tool_name :: "HookPayload \<Rightarrow> string" where
  "claude_tool_name = str_field ''tool_name''"

definition claude_notification :: "HookPayload \<Rightarrow> CanonicalAgentEvent" where
  "claude_notification payload =
     attention_requested
       (if contains_str (to_ascii_lowercase (str_field ''message'' payload)) ''permission'' then AnPermission else AnQuestion)"

definition claude_stop :: "HookPayload \<Rightarrow> CanonicalAgentEvent" where
  "claude_stop payload = (if hp_background_tasks payload then plain_event CkTurnStarted else turn_settled TuCompleted)"

definition cursor_stop :: "HookPayload \<Rightarrow> CanonicalAgentEvent" where
  "cursor_stop payload =
     (let status = str_field ''status'' payload in
      turn_settled (if status = ''error'' then TuFailed else if status = ''aborted'' then TuInterrupted else TuCompleted))"

definition claude_event :: "string \<Rightarrow> HookPayload \<Rightarrow> CanonicalAgentEvent option" where
  "claude_event event payload =
     (if event = ''UserPromptSubmit'' then Some (plain_event CkTurnStarted)
      else if event = ''PreToolUse'' then
        Some (if claude_tool_name payload = ''AskUserQuestion'' then attention_requested AnQuestion
              else activity_event CkActivityStarted payload)
      else if event = ''PostToolUse'' then
        Some (if claude_tool_name payload = ''AskUserQuestion'' then plain_event CkAttentionCleared
              else activity_event CkActivityFinished payload)
      else if event = ''Notification'' then Some (claude_notification payload)
      else if event = ''Notification:permission_prompt'' then Some (attention_requested AnPermission)
      else if event \<in> {''Notification:elicitation_dialog'', ''Notification:agent_needs_input''}
      then Some (attention_requested AnQuestion)
      else if event = ''Notification:idle_prompt'' then Some (attention_requested AnQuestion)
      else if event = ''Notification:agent_completed'' then Some (turn_settled TuCompleted)
      else if event = ''Stop'' then Some (claude_stop payload)
      else if event = ''StopFailure'' then Some (turn_settled TuInterrupted)
      else if event = ''SessionStart'' then Some (plain_event CkSessionOpened)
      else if event = ''SessionEnd'' then Some (plain_event CkSessionClosed)
      else None)"

definition codex_event :: "string \<Rightarrow> HookPayload \<Rightarrow> CanonicalAgentEvent option" where
  "codex_event event payload =
     (if event = ''UserPromptSubmit'' then Some (plain_event CkTurnStarted)
      else if event = ''PreToolUse'' then Some (activity_event CkActivityStarted payload)
      else if event = ''PostToolUse'' then Some (activity_event CkActivityFinished payload)
      else if event = ''PermissionRequest'' then Some (attention_requested AnPermission)
      else if event = ''Stop'' then Some (turn_settled TuCompleted)
      else if event = ''SessionStart'' then Some (plain_event CkSessionOpened)
      else if event = ''SessionEnd'' then Some (plain_event CkSessionClosed)
      else None)"

definition cursor_event :: "string \<Rightarrow> HookPayload \<Rightarrow> CanonicalAgentEvent option" where
  "cursor_event event payload =
     (if event = ''beforeSubmitPrompt'' then Some (plain_event CkTurnStarted)
      else if event = ''preToolUse'' then Some (activity_event CkActivityStarted payload)
      else if event \<in> {''postToolUse'', ''postToolUseFailure''} then Some (activity_event CkActivityFinished payload)
      else if event \<in> {''beforeShellExecution'', ''beforeMCPExecution''} then Some (attention_requested AnPermission)
      else if event = ''subagentStart'' then Some (plain_event CkChildStarted)
      else if event = ''subagentStop'' then Some (plain_event CkChildSettled)
      else if event = ''stop'' then Some (cursor_stop payload)
      else if event = ''Notification:permission_prompt'' then Some (attention_requested AnPermission)
      else if event = ''Notification:elicitation_dialog'' then Some (attention_requested AnQuestion)
      else if event = ''ElicitationResult'' then Some (plain_event CkTurnStarted)
      else if event = ''sessionStart'' then Some (plain_event CkSessionOpened)
      else if event = ''sessionEnd'' then Some (plain_event CkSessionClosed)
      else None)"

definition pi_event :: "string \<Rightarrow> CanonicalAgentEvent option" where
  "pi_event event =
     (if event = ''before_agent_start'' then Some (plain_event CkTurnStarted)
      else if event = ''agent_settled'' then Some (turn_settled TuCompleted)
      else None)"

definition translate_native_event :: "string \<Rightarrow> string \<Rightarrow> HookPayload \<Rightarrow> CanonicalAgentEvent option" where
  "translate_native_event client event payload =
     (if client = ''claude'' then claude_event event payload
      else if client = ''codex'' then codex_event event payload
      else if client = ''cursor'' then cursor_event event payload
      else if client = ''pi'' then pi_event event
      else None)"

section \<open>The wrapper of an agent\<close>

datatype AgentRuntimeState = AuStarting | AuRunning | AuExitedSuccess | AuExitedFailure

record AgentRuntimeSnapshot =
  rw_task_id :: string
  rw_state :: AgentRuntimeState
  rw_observed_at_unix_millis :: nat
  rw_pid :: "nat option"
  rw_exit_code :: "int option"
  rw_message :: "string option"

definition RUNTIME_HOOK_SETTLE_GRACE_MS :: nat where
  "RUNTIME_HOOK_SETTLE_GRACE_MS = 15000"

text \<open>The snapshot is what is read of the file of the task, if it can be read.\<close>

definition runtime_hooks_accepted :: "AgentRuntimeSnapshot option \<Rightarrow> CanonicalEventKind \<Rightarrow> nat \<Rightarrow> bool" where
  "runtime_hooks_accepted snapshot kind now_millis =
     (case snapshot of
        None \<Rightarrow> False
      | Some s \<Rightarrow>
          (case rw_state s of
             AuStarting \<Rightarrow> True
           | AuRunning \<Rightarrow> True
           | _ \<Rightarrow> kind \<in> {CkTurnSettled, CkSessionClosed}
                 \<and> now_millis - rw_observed_at_unix_millis s \<le> RUNTIME_HOOK_SETTLE_GRACE_MS))"

section \<open>Recording an event\<close>

record AgentEventIdentity =
  aid_task_id :: string
  aid_run_id :: string
  aid_events_dir :: string

datatype AgentEventOutcome = AoNoIdentity | AoIgnored | AoRejectedByRuntime | AoAppended

definition PRIMARY_RUN_ID :: string where
  "PRIMARY_RUN_ID = ''primary''"

definition system_now_millis :: "time \<Rightarrow> nat option" where
  "system_now_millis now = (if now < 0 then None else Some (nat (now div 1000000)))"

text \<open>The line that is appended; the fields that no reader of this file asks for are left out.\<close>

definition event_envelope :: "AgentEventIdentity \<Rightarrow> CanonicalAgentEvent \<Rightarrow> nat \<Rightarrow> ParsedEnvelope" where
  "event_envelope identity canonical received_at =
     \<lparr>nv_kind = cae_kind canonical, nv_detail = cae_detail canonical, nv_received_at_unix_millis = received_at,
      nv_run_id = Some (aid_run_id identity),
      nv_parent_run_id = (if aid_run_id identity = ''primary'' then None else Some ''primary'')\<rparr>"

text \<open>The outcome, \<open>None\<close> for a clock before the epoch, and the lines of the file of the task.\<close>

definition run_agent_event ::
    "AgentRuntimeSnapshot option \<Rightarrow> AgentEventIdentity option \<Rightarrow> string \<Rightarrow> string \<Rightarrow> HookPayload \<Rightarrow> time \<Rightarrow>
     ParsedEnvelope list \<Rightarrow> AgentEventOutcome option \<times> ParsedEnvelope list" where
  "run_agent_event snapshot identity client event payload now jsonl =
     (case identity of
        None \<Rightarrow> (Some AoNoIdentity, jsonl)
      | Some i \<Rightarrow>
          (case translate_native_event client event payload of
             None \<Rightarrow> (Some AoIgnored, jsonl)
           | Some canonical \<Rightarrow>
               (case system_now_millis now of
                  None \<Rightarrow> (None, jsonl)
                | Some observed_at \<Rightarrow>
                    if \<not> runtime_hooks_accepted snapshot (cae_kind canonical) observed_at
                    then (Some AoRejectedByRuntime, jsonl)
                    else (Some AoAppended, jsonl @ [event_envelope i canonical observed_at]))))"

section \<open>Observations of a task\<close>

definition WRAPPER_TERMINAL_FRESH_FOR :: duration where
  "WRAPPER_TERMINAL_FRESH_FOR = secs 120"

definition millis_to_systemtime :: "nat \<Rightarrow> time option" where
  "millis_to_systemtime millis = (if int millis < 2 ^ 64 then Some (int millis * 1000000) else None)"

definition wrapper_exit_observation :: "AgentRuntimeSnapshot \<Rightarrow> StatusObservation option" where
  "wrapper_exit_observation snapshot =
     (case (case rw_state snapshot of
              AuExitedSuccess \<Rightarrow> Some KDone | AuExitedFailure \<Rightarrow> Some KFailed
            | AuStarting \<Rightarrow> None | AuRunning \<Rightarrow> None) of
        None \<Rightarrow> None
      | Some kind \<Rightarrow>
          (case millis_to_systemtime (rw_observed_at_unix_millis snapshot) of
             None \<Rightarrow> None
           | Some observed_at \<Rightarrow>
               Some \<lparr>so_source = OsProcessExit, so_observed_at = observed_at,
                 so_expires_at = observed_at + int WRAPPER_TERMINAL_FRESH_FOR, so_confidence = CfHigh,
                 so_run_id = PRIMARY_RUN_ID, so_parent_run_id = None, so_kind = kind\<rparr>))"

definition not_blank :: "string option \<Rightarrow> string option" where
  "not_blank v = (case v of Some s \<Rightarrow> if trim s = [] then None else Some s | None \<Rightarrow> None)"

definition envelope_run :: "ParsedEnvelope \<Rightarrow> string" where
  "envelope_run e = (case not_blank (nv_run_id e) of Some r \<Rightarrow> r | None \<Rightarrow> PRIMARY_RUN_ID)"

definition envelope_parent :: "ParsedEnvelope \<Rightarrow> string option" where
  "envelope_parent e =
     (if envelope_run e = PRIMARY_RUN_ID then None
      else case not_blank (nv_parent_run_id e) of Some p \<Rightarrow> Some p | None \<Rightarrow> Some PRIMARY_RUN_ID)"

type_synonym run_envelopes = "(string \<times> string option \<times> ParsedEnvelope list) list"

text \<open>A run keeps the parent of its first envelope.\<close>

fun add_to_run :: "ParsedEnvelope \<Rightarrow> run_envelopes \<Rightarrow> run_envelopes" where
  "add_to_run e [] = [(envelope_run e, envelope_parent e, [e])]"
| "add_to_run e ((r, p, es) # rest) =
     (if r = envelope_run e then (r, p, es @ [e]) # rest else (r, p, es) # add_to_run e rest)"

definition group_envelopes_by_run :: "ParsedEnvelope list \<Rightarrow> run_envelopes" where
  "group_envelopes_by_run es = fold add_to_run es []"

definition observed_at_of :: "ParsedEnvelope list \<Rightarrow> time \<Rightarrow> time" where
  "observed_at_of es now =
     (case map nv_received_at_unix_millis es of
        [] \<Rightarrow> now
      | m # ms \<Rightarrow> (case millis_to_systemtime (fold max ms m) of Some t \<Rightarrow> t | None \<Rightarrow> now))"

definition observations_from_jsonl :: "ParsedEnvelope list \<Rightarrow> time \<Rightarrow> StatusObservation list" where
  "observations_from_jsonl jsonl now =
     concat (map (\<lambda>(r, p, es). map (\<lambda>ob. ob\<lparr>so_parent_run_id := p\<rparr>)
         (observations_from_run_snapshot (fold_envelopes es) (observed_at_of es now) r))
       (group_envelopes_by_run jsonl))"

definition observations_for_task :: "AgentRuntimeSnapshot option \<Rightarrow> ParsedEnvelope list \<Rightarrow> time \<Rightarrow> StatusObservation list" where
  "observations_for_task snapshot jsonl now =
     observations_from_jsonl jsonl now
     @ (case Option.bind snapshot wrapper_exit_observation of Some ob \<Rightarrow> [ob] | None \<Rightarrow> [])"

definition process_liveness_for_task :: "AgentRuntimeSnapshot option \<Rightarrow> ProcessLiveness option" where
  "process_liveness_for_task snapshot =
     (case snapshot of
        Some s \<Rightarrow>
          (if rw_state s \<in> {AuStarting, AuRunning}
           then map_option (\<lambda>at. \<lparr>pl_alive = True, pl_observed_at = at\<rparr>) (millis_to_systemtime (rw_observed_at_unix_millis s))
           else None)
      | None \<Rightarrow> None)"

section \<open>An agent that speaks ACP\<close>

datatype FailureKind = FkFailed | FkRateLimited

datatype RootTurnState = RtIdle | RtRunning | RtSettled | RtFailed FailureKind | RtCancelled

datatype ProviderState = PvRunning | PvRequiresAction | PvIdle

datatype ToolKind = TkExecute | TkOther

datatype ToolStatus = TlPending | TlRunning | TlCompleted | TlFailed

record ToolCallFields =
  tf_kind :: "ToolKind option"
  tf_status :: "ToolStatus option"
  tf_command :: "string option"
  tf_title :: "string option"

datatype ChildState = ChRunning | ChWaitingApproval | ChWaitingInput

datatype AcpExecutionEvent =
    XvPromptAccepted
  | XvToolCall string ToolCallFields
  | XvToolCallUpdate string ToolCallFields
  | XvPermissionRequested string
  | XvInputRequested string
  | XvRequestResolved string
  | XvStateUpdate ProviderState
  | XvTurnEnded
  | XvTurnFailed
  | XvTurnRateLimited
  | XvTurnCancelled
  | XvChildStarted string bool
  | XvChildUpdated string bool ChildState
  | XvChildEnded string bool
  | XvMessageChunk
  | XvThoughtChunk
  | XvUnknown

record ToolCall =
  tcl_kind :: "ToolKind option"
  tcl_status :: ToolStatus
  tcl_is_tests :: bool

record ChildRun =
  chr_state :: ChildState
  chr_completion_holding :: bool

record AcpExecutionState =
  xa_turn :: RootTurnState
  xa_provider_state :: "ProviderState option"
  xa_tools :: "(string, ToolCall) btree"
  xa_requests :: "(string, ActivityKind) btree"
  xa_children :: "(string, ChildRun) btree"
  xa_last_activity_at :: "time option"

definition acp_state_default :: AcpExecutionState where
  "acp_state_default = \<lparr>xa_turn = RtIdle, xa_provider_state = None, xa_tools = [], xa_requests = [], xa_children = [],
     xa_last_activity_at = None\<rparr>"

definition is_tests_invocation :: "string \<Rightarrow> bool" where
  "is_tests_invocation invocation =
     (case live_observation_from_event (MeAgent (AeToolCall invocation)) of
        Some ob \<Rightarrow> lo_kind ob = LkTestsRunning | None \<Rightarrow> False)"

definition tool_default :: ToolCall where
  "tool_default = \<lparr>tcl_kind = None, tcl_status = TlPending, tcl_is_tests = False\<rparr>"

definition changed_tool :: "ToolCallFields \<Rightarrow> ToolCall \<Rightarrow> ToolCall" where
  "changed_tool fs tool =
     (let t1 = (case tf_kind fs of Some kind \<Rightarrow> tool\<lparr>tcl_kind := Some kind\<rparr> | None \<Rightarrow> tool);
          t2 = (case tf_status fs of Some status \<Rightarrow> t1\<lparr>tcl_status := status\<rparr> | None \<Rightarrow> t1)
      in case tf_command fs of
           Some invocation \<Rightarrow> t2\<lparr>tcl_is_tests := is_tests_invocation invocation\<rparr>
         | None \<Rightarrow>
             (case tf_title fs of
                Some title \<Rightarrow> t2\<lparr>tcl_is_tests := (tcl_is_tests t2 \<or> is_tests_invocation title)\<rparr>
              | None \<Rightarrow> t2))"

definition update_tool :: "string \<Rightarrow> ToolCallFields \<Rightarrow> AcpExecutionState \<Rightarrow> AcpExecutionState" where
  "update_tool i fs s =
     (let tool = (case bt_get i (xa_tools s) of Some t \<Rightarrow> t | None \<Rightarrow> tool_default)
      in s\<lparr>xa_tools := bt_insert i (changed_tool fs tool) (xa_tools s)\<rparr>)"

definition put_child :: "string \<Rightarrow> ChildState \<Rightarrow> bool \<Rightarrow> AcpExecutionState \<Rightarrow> AcpExecutionState" where
  "put_child run_id state holding s =
     s\<lparr>xa_children := bt_insert run_id \<lparr>chr_state = state, chr_completion_holding = holding\<rparr> (xa_children s)\<rparr>"

definition failed_turn :: "RootTurnState \<Rightarrow> bool" where
  "failed_turn turn \<longleftrightarrow> (case turn of RtFailed _ \<Rightarrow> True | _ \<Rightarrow> False)"

definition end_turn :: "AcpExecutionEvent \<Rightarrow> AcpExecutionState \<Rightarrow> AcpExecutionState" where
  "end_turn event s =
     s\<lparr>xa_turn := (if event = XvTurnRateLimited then RtFailed FkRateLimited
                  else if failed_turn (xa_turn s) then xa_turn s
                  else if event = XvTurnFailed then RtFailed FkFailed
                  else if event = XvTurnCancelled then RtCancelled else RtSettled),
       xa_tools := [], xa_requests := [], xa_provider_state := None\<rparr>"

fun changed_state :: "AcpExecutionEvent \<Rightarrow> AcpExecutionState \<Rightarrow> AcpExecutionState" where
  "changed_state XvPromptAccepted s = s\<lparr>xa_turn := RtRunning, xa_provider_state := None, xa_tools := [], xa_requests := []\<rparr>"
| "changed_state (XvToolCall i fs) s =
     update_tool i (fs\<lparr>tf_status := Some (case tf_status fs of Some st \<Rightarrow> st | None \<Rightarrow> TlPending)\<rparr>) s"
| "changed_state (XvToolCallUpdate i fs) s = update_tool i fs s"
| "changed_state (XvPermissionRequested r) s = s\<lparr>xa_requests := bt_insert r KWaitingApproval (xa_requests s)\<rparr>"
| "changed_state (XvInputRequested r) s = s\<lparr>xa_requests := bt_insert r KWaitingInput (xa_requests s)\<rparr>"
| "changed_state (XvRequestResolved r) s =
     (case bt_get r (xa_requests s) of
        None \<Rightarrow> s
      | Some _ \<Rightarrow>
          s\<lparr>xa_requests := bt_remove r (xa_requests s), xa_provider_state := None,
            xa_turn := (if xa_turn s = RtIdle then RtRunning else xa_turn s)\<rparr>)"
| "changed_state (XvStateUpdate state) s =
     s\<lparr>xa_provider_state := Some state,
       xa_turn := (if state = PvRunning \<and> xa_turn s = RtIdle then RtRunning else xa_turn s)\<rparr>"
| "changed_state XvTurnEnded s = end_turn XvTurnEnded s"
| "changed_state XvTurnFailed s = end_turn XvTurnFailed s"
| "changed_state XvTurnRateLimited s = end_turn XvTurnRateLimited s"
| "changed_state XvTurnCancelled s = end_turn XvTurnCancelled s"
| "changed_state (XvChildStarted run_id holding) s = put_child run_id ChRunning holding s"
| "changed_state (XvChildUpdated run_id holding state) s = put_child run_id state holding s"
| "changed_state (XvChildEnded run_id holding) s = s\<lparr>xa_children := bt_remove run_id (xa_children s)\<rparr>"
| "changed_state XvMessageChunk s = s"
| "changed_state XvThoughtChunk s = s"
| "changed_state XvUnknown s = s"

definition acp_apply :: "AcpExecutionEvent \<Rightarrow> time \<Rightarrow> AcpExecutionState \<Rightarrow> AcpExecutionState" where
  "acp_apply event now s =
     (if event = XvUnknown then s else (changed_state event s)\<lparr>xa_last_activity_at := Some now\<rparr>)"

text \<open>The loop over the tools returns at the first running test and otherwise remembers a running command.\<close>

fun tools_activity :: "ToolCall list \<Rightarrow> ActivityKind \<Rightarrow> ActivityKind" where
  "tools_activity [] kind = kind"
| "tools_activity (t # ts) kind =
     (if tcl_kind t = Some TkExecute \<and> tcl_status t = TlRunning
      then (if tcl_is_tests t then KTestsRunning else tools_activity ts KCommandRunning)
      else tools_activity ts kind)"

definition root_activity :: "AcpExecutionState \<Rightarrow> ActivityKind option" where
  "root_activity s =
     (case xa_turn s of
        RtFailed _ \<Rightarrow> Some KFailed
      | RtSettled \<Rightarrow> Some KDone
      | RtCancelled \<Rightarrow> Some KDone
      | _ \<Rightarrow>
          if list_ex (\<lambda>kind. kind = KWaitingInput) (bt_values (xa_requests s)) then Some KWaitingInput
          else if xa_requests s \<noteq> [] then Some KWaitingApproval
          else if xa_turn s \<noteq> RtRunning \<or> xa_provider_state s = Some PvRequiresAction then None
          else Some (tools_activity (bt_values (xa_tools s)) KWorking))"

definition acp_observation :: "ActivityKind \<Rightarrow> string \<Rightarrow> string option \<Rightarrow> time \<Rightarrow> StatusObservation list" where
  "acp_observation kind run_id parent now =
     map (\<lambda>ob. ob\<lparr>so_kind := kind, so_parent_run_id := parent\<rparr>)
       (observations_from_run_snapshot
          \<lparr>rn_phase = (case kind of KDone \<Rightarrow> ApSettled | KFailed \<Rightarrow> ApFailed | _ \<Rightarrow> ApActive),
           rn_activity = None, rn_blocker = None, rn_outcome = None, rn_active_tools = {}, rn_pending_attention = None\<rparr>
          now run_id)"

fun child_kind :: "ChildState \<Rightarrow> ActivityKind" where
  "child_kind ChRunning = KWorking"
| "child_kind ChWaitingApproval = KWaitingApproval"
| "child_kind ChWaitingInput = KWaitingInput"

definition acp_observations :: "string \<Rightarrow> time \<Rightarrow> AcpExecutionState \<Rightarrow> StatusObservation list" where
  "acp_observations root_run_id now s =
     (case root_activity s of Some kind \<Rightarrow> acp_observation kind root_run_id None now | None \<Rightarrow> [])
     @ concat (map (\<lambda>(run_id, child).
         if run_id = root_run_id then []
         else acp_observation (child_kind (chr_state child)) run_id
                (if chr_completion_holding child then Some root_run_id else None) now)
       (xa_children s))"

section \<open>Lemmas: from envelopes to observations\<close>

lemma selected_is_observed:
  assumes "select_run_activity obs r = Some (RaActivity kind src at)"
  shows "\<exists>ob \<in> set obs. so_run_id ob = r \<and> so_kind ob = kind"
proof -
  obtain ob where "min_by_key choice_key (filter (\<lambda>ob. so_run_id ob = r) obs) = Some ob" "so_kind ob = kind"
    using assms by (auto simp: select_run_activity_def Let_def split: if_splits option.splits)
  then show ?thesis using min_by_key_Some by fastforce
qed

lemma terminal_kind: "activity_class k = ClTerminal \<longleftrightarrow> k = KDone \<or> k = KFailed"
  by (cases k) simp_all

lemma done_is_observed:
  assumes "lo_kind (sj_live (reduce_agent_status inp)) = LkDone"
  shows "\<exists>ob \<in> set (ri_observations inp). so_run_id ob = ri_primary_run_id inp \<and> so_kind ob = KDone"
proof -
  let ?fresh = "filter (\<lambda>ob. so_expires_at ob \<ge> ri_now inp) (ri_observations inp)"
  have "\<exists>src at. select_run_activity ?fresh (ri_primary_run_id inp) = Some (RaActivity KDone src at)"
    using assms unfolding reduce_agent_status_def Let_def
    by (cases "select_run_activity ?fresh (ri_primary_run_id inp)" rule: activity_core.cases;
        simp split: if_splits; simp split: ActivityClass.splits ActivityKind.splits if_splits; simp add: terminal_kind)
  then show ?thesis using selected_is_observed by fastforce
qed

text \<open>Every run of a file has the envelopes that name it, in their order.\<close>

lemma add_to_run_keys: "fst ` set (add_to_run e rs) = insert (envelope_run e) (fst ` set rs)"
  by (induction e rs rule: add_to_run.induct) auto

lemma add_to_run_get:
  "map_of (map (\<lambda>(r, p, es). (r, es)) (add_to_run e rs)) r =
     (if r = envelope_run e
      then Some ((case map_of (map (\<lambda>(r, p, es). (r, es)) rs) r of None \<Rightarrow> [] | Some es \<Rightarrow> es) @ [e])
      else map_of (map (\<lambda>(r, p, es). (r, es)) rs) r)"
  by (induction e rs rule: add_to_run.induct) auto

lemma group_get:
  "map_of (map (\<lambda>(r, p, es). (r, es)) (fold add_to_run es rs)) r =
     (if map_of (map (\<lambda>(r, p, es). (r, es)) rs) r = None \<and> filter (\<lambda>e. envelope_run e = r) es = [] then None
      else Some ((case map_of (map (\<lambda>(r, p, es). (r, es)) rs) r of None \<Rightarrow> [] | Some es \<Rightarrow> es)
                 @ filter (\<lambda>e. envelope_run e = r) es))"
  by (induction es arbitrary: rs) (auto simp: add_to_run_get split: option.splits)

lemma add_to_run_distinct: "distinct (map fst rs) \<Longrightarrow> distinct (map fst (add_to_run e rs))"
proof (induction e rs rule: add_to_run.induct)
  case (2 e r p es rest)
  then show ?case using add_to_run_keys [of e rest] by (auto simp: image_iff)
qed simp

lemma group_distinct: "distinct (map fst rs) \<Longrightarrow> distinct (map fst (fold add_to_run es rs))"
  by (induction es arbitrary: rs) (simp_all add: add_to_run_distinct)

lemma group_member:
  assumes "(r, p, es) \<in> set (group_envelopes_by_run jsonl)"
  shows "es = filter (\<lambda>e. envelope_run e = r) jsonl"
proof -
  let ?runs = "group_envelopes_by_run jsonl"
  have "distinct (map fst ?runs)" unfolding group_envelopes_by_run_def by (rule group_distinct) simp
  then have "distinct (map fst (map (\<lambda>(r, p, es). (r, es)) ?runs))" by (simp add: o_def case_prod_beta)
  moreover have "(r, es) \<in> set (map (\<lambda>(r, p, es). (r, es)) ?runs)" using assms by force
  ultimately have "map_of (map (\<lambda>(r, p, es). (r, es)) ?runs) r = Some es" by simp
  then show ?thesis using group_get [of jsonl "[]" r] by (simp add: group_envelopes_by_run_def split: if_splits)
qed

lemma snapshot_observations:
  "ob \<in> set (observations_from_run_snapshot s now r) \<Longrightarrow> snapshot_kind s = Some (so_kind ob) \<and> so_run_id ob = r"
  by (auto simp: observations_from_run_snapshot_def split: option.splits)

lemma observed_run:
  assumes "ob \<in> set (observations_from_jsonl jsonl now)" "so_run_id ob = r"
  shows "snapshot_kind (fold_envelopes (filter (\<lambda>e. envelope_run e = r) jsonl)) = Some (so_kind ob)"
proof -
  obtain q p es ob' where group: "(q, p, es) \<in> set (group_envelopes_by_run jsonl)"
    and ob': "ob' \<in> set (observations_from_run_snapshot (fold_envelopes es) (observed_at_of es now) q)"
      "ob = ob'\<lparr>so_parent_run_id := p\<rparr>"
    using assms(1) by (auto simp: observations_from_jsonl_def)
  show ?thesis using snapshot_observations [OF ob'(1)] group_member [OF group] ob'(2) assms(2) by simp
qed

section \<open>Lemmas: open tools\<close>

definition opens_tool :: "string \<Rightarrow> ParsedEnvelope \<Rightarrow> bool" where
  "opens_tool i e \<longleftrightarrow> nv_kind e = CkActivityStarted \<and> nv_detail e = Some (CvActivity CyTool (Some i))"

definition closes_tool :: "string \<Rightarrow> ParsedEnvelope \<Rightarrow> bool" where
  "closes_tool i e \<longleftrightarrow>
     nv_kind e = CkSessionClosed
     \<or> (nv_kind e = CkActivityFinished
        \<and> (nv_detail e = Some (CvActivity CyTool (Some i))
           \<or> (nv_detail e = Some (CvActivity CyTool None) \<and> starts_with i ''anon-'')))"

lemma fold_event_open:
  assumes "i \<in> fd_active_tools s" "\<not> closes_tool i e"
  shows "i \<in> fd_active_tools (fold_event e s)"
  using assms
  by (cases "nv_kind e")
    (auto simp: fold_event_def closes_tool_def clear_pending_attention_def activity_started_step_def
      activity_finished_step_def apply_turn_settled_def Let_def
      split: option.splits CanonicalEventDetail.splits CanonicalActivityKind.splits)

lemma fold_events_open:
  "i \<in> fd_active_tools s \<Longrightarrow> \<forall>e \<in> set es. \<not> closes_tool i e \<Longrightarrow> i \<in> fd_active_tools (fold fold_event es s)"
  by (induction es arbitrary: s) (simp_all add: fold_event_open)

text \<open>A settled fold has no open tool.\<close>

definition settled_has_no_tools :: "FoldState \<Rightarrow> bool" where
  "settled_has_no_tools s \<longleftrightarrow> (fd_phase s = ApSettled \<longrightarrow> fd_active_tools s = {})"

lemma fold_event_settled: "settled_has_no_tools s \<Longrightarrow> settled_has_no_tools (fold_event e s)"
  by (cases "nv_kind e")
    (auto simp: settled_has_no_tools_def fold_event_def clear_pending_attention_def activity_started_step_def
      activity_finished_step_def apply_turn_settled_def Let_def
      split: option.splits CanonicalEventDetail.splits CanonicalActivityKind.splits)

lemma fold_settled: "settled_has_no_tools s \<Longrightarrow> settled_has_no_tools (fold fold_event es s)"
  by (induction es arbitrary: s) (simp_all add: fold_event_settled)

lemma fold_new_settled: "settled_has_no_tools (fold fold_event es fold_new)"
  by (rule fold_settled) (simp add: settled_has_no_tools_def fold_new_def)

lemma open_not_done:
  assumes "opens_tool i e" "\<forall>x \<in> set after. \<not> closes_tool i x"
  shows "snapshot_kind (fold_envelopes (before @ e # after)) \<noteq> Some KDone"
proof -
  let ?s = "fold fold_event (before @ e # after) fold_new"
  have "i \<in> fd_active_tools (fold_event e (fold fold_event before fold_new))"
    using assms(1) by (simp add: opens_tool_def fold_event_def activity_started_step_def)
  then have "i \<in> fd_active_tools ?s" using fold_events_open [OF _ assms(2)] by simp
  then have "fd_phase ?s \<noteq> ApSettled" using fold_new_settled [of "before @ e # after"] by (auto simp: settled_has_no_tools_def)
  then show ?thesis by (simp add: snapshot_kind_def fold_envelopes_def fold_snapshot_def split: AgentPhase.split)
qed

text \<open>The flag of a settled turn stays.\<close>

lemma fold_event_turn_settled: "fd_turn_settled s \<or> nv_kind e = CkTurnSettled \<Longrightarrow> fd_turn_settled (fold_event e s)"
  by (cases "nv_kind e")
    (auto simp: fold_event_def clear_pending_attention_def activity_started_step_def
      activity_finished_step_def apply_turn_settled_def Let_def
      split: option.splits CanonicalEventDetail.splits CanonicalActivityKind.splits)

lemma fold_turn_settled:
  "fd_turn_settled s \<or> list_ex (\<lambda>e. nv_kind e = CkTurnSettled) es \<Longrightarrow> fd_turn_settled (fold fold_event es s)"
  by (induction es arbitrary: s) (auto simp: fold_event_turn_settled)

section \<open>Lemmas: failed turns\<close>

lemma apply_failed:
  assumes "failed_turn (xa_turn s)" "e \<noteq> XvPromptAccepted"
  shows "failed_turn (xa_turn (acp_apply e now s))"
    and "xa_turn s = RtFailed FkRateLimited \<Longrightarrow> xa_turn (acp_apply e now s) = RtFailed FkRateLimited"
  using assms
  by (cases e; auto simp: acp_apply_def failed_turn_def end_turn_def update_tool_def put_child_def Let_def
      split: option.split RootTurnState.splits)+

lemma applies_failed:
  assumes "failed_turn (xa_turn s)" "XvPromptAccepted \<notin> fst ` set es"
  shows "failed_turn (xa_turn (fold (\<lambda>(e, now). acp_apply e now) es s))
    \<and> (xa_turn s = RtFailed FkRateLimited \<longrightarrow>
        xa_turn (fold (\<lambda>(e, now). acp_apply e now) es s) = RtFailed FkRateLimited)"
  using assms
proof (induction es arbitrary: s)
  case (Cons x es)
  obtain e now where x: "x = (e, now)" by (cases x)
  then have "e \<noteq> XvPromptAccepted" using Cons.prems(2) by force
  with apply_failed [OF Cons.prems(1) this, of now] Cons x show ?case by auto
qed simp

section \<open>Lemmas: the reducer on the observations of one agent\<close>

definition acp_row :: "ActivityKind \<Rightarrow> string \<Rightarrow> string option \<Rightarrow> time \<Rightarrow> StatusObservation" where
  "acp_row kind r parent now =
     \<lparr>so_source = OsProviderLifecycle, so_observed_at = now,
       so_expires_at = now + int (if kind \<in> {KDone, KFailed} then LIFECYCLE_TERMINAL_FRESH_FOR else LIFECYCLE_FRESH_FOR),
       so_confidence = CfHigh, so_run_id = r, so_parent_run_id = parent, so_kind = kind\<rparr>"

lemma acp_row_fields [simp]:
  "so_source (acp_row kind r parent now) = OsProviderLifecycle" "so_observed_at (acp_row kind r parent now) = now"
  "so_run_id (acp_row kind r parent now) = r" "so_parent_run_id (acp_row kind r parent now) = parent"
  "so_kind (acp_row kind r parent now) = kind" "now \<le> so_expires_at (acp_row kind r parent now)"
  by (simp_all add: acp_row_def)

lemma acp_observation_simp: "acp_observation kind r parent now = [acp_row kind r parent now]"
  by (cases kind) (simp_all add: acp_observation_def observations_from_run_snapshot_def snapshot_kind_def acp_row_def)

definition acp_child_row :: "string \<Rightarrow> time \<Rightarrow> string \<times> ChildRun \<Rightarrow> StatusObservation" where
  "acp_child_row root now = (\<lambda>(r, c). acp_row (child_kind (chr_state c)) r
     (if chr_completion_holding c then Some root else None) now)"

lemma acp_rows:
  "acp_observations root now s =
     (case root_activity s of Some kind \<Rightarrow> [acp_row kind root None now] | None \<Rightarrow> [])
     @ map (acp_child_row root now) (filter (\<lambda>(r, c). r \<noteq> root) (xa_children s))"
proof -
  have "concat (map (\<lambda>(r, child). if r = root then [] else acp_observation (child_kind (chr_state child)) r
        (if chr_completion_holding child then Some root else None) now) cs) =
      map (acp_child_row root now) (filter (\<lambda>(r, c). r \<noteq> root) cs)" for cs
    by (induction cs) (auto simp: acp_observation_simp acp_child_row_def)
  then show ?thesis unfolding acp_observations_def by (simp add: acp_observation_simp split: option.split)
qed

lemma acp_child_run [simp]: "so_run_id (acp_child_row root now x) = fst x"
  by (simp add: acp_child_row_def split: prod.split)

lemma child_active: "activity_class (child_kind st) \<in> {ClRunning, ClWaiting}"
  by (cases st) simp_all

lemma no_conflict_alone:
  assumes "filter (\<lambda>ob. so_run_id ob = r) obs = [ob]"
  shows "select_run_activity obs r = Some (RaActivity (so_kind ob) (so_source ob) (so_observed_at ob))"
  using assms by (simp add: select_run_activity_def buckets_by_time_def slot_conflicts_def Let_def)

definition holding_children :: "string \<Rightarrow> AcpExecutionState \<Rightarrow> bool" where
  "holding_children root s \<longleftrightarrow> list_ex (\<lambda>(r, c). r \<noteq> root \<and> chr_completion_holding c) (xa_children s)"

text \<open>The reference: phase and kind of status from the activity of the root and the children that hold it.\<close>

definition acp_projection :: "string \<Rightarrow> AcpExecutionState \<Rightarrow> ParentPhase \<times> LiveStatusKind" where
  "acp_projection root s =
     (case root_activity s of
        None \<Rightarrow> if holding_children root s then (PhWaitingOnDelegated, LkWaitingForInput) else (PhUnknown, LkUnknown)
      | Some KWorking \<Rightarrow> (PhActivelyWorking, LkAgentRunning)
      | Some KCommandRunning \<Rightarrow> (PhActivelyWorking, LkCommandRunning)
      | Some KTestsRunning \<Rightarrow> (PhActivelyWorking, LkTestsRunning)
      | Some KWaitingApproval \<Rightarrow> (PhWaitingForUser, LkWaitingForApproval)
      | Some KWaitingInput \<Rightarrow> (PhWaitingForUser, LkWaitingForInput)
      | Some KDone \<Rightarrow>
          if holding_children root s then (PhCompletedLocallyChildrenActive, LkWaitingForInput) else (PhFullyCompleted, LkDone)
      | Some KFailed \<Rightarrow>
          if holding_children root s then (PhCompletedLocallyChildrenActive, LkWaitingForInput)
          else (PhFullyCompleted, LkCommandFailed))"

lemma acp_fresh: "filter (\<lambda>ob. now \<le> so_expires_at ob) (acp_observations root now s) = acp_observations root now s"
  by (auto simp: acp_rows acp_child_row_def filter_id_conv split: option.splits prod.splits)

lemma acp_root_observation:
  "filter (\<lambda>ob. so_run_id ob = root) (acp_observations root now s) =
     (case root_activity s of Some kind \<Rightarrow> [acp_row kind root None now] | None \<Rightarrow> [])"
  by (auto simp: acp_rows filter_empty_conv split: option.split)

lemma acp_child_observed:
  assumes "ob \<in> set (acp_observations root now s)" "so_run_id ob \<noteq> root"
  shows "activity_class (so_kind ob) \<noteq> ClTerminal"
proof -
  obtain x where "ob = acp_child_row root now x"
    using assms by (auto simp: acp_rows split: option.splits)
  then show ?thesis using child_active [of "chr_state (snd x)"] by (auto simp: acp_child_row_def split: prod.splits)
qed

lemma acp_child_active:
  assumes "ob \<in> set (acp_observations root now s)" "so_run_id ob \<noteq> root"
  shows "is_run_active (select_run_activity (acp_observations root now s) (so_run_id ob))"
proof (cases "select_run_activity (acp_observations root now s) (so_run_id ob)")
  case None
  then show ?thesis using assms(1) by (auto simp: select_run_activity_def Let_def filter_empty_conv split: if_splits option.splits)
next
  case (Some result)
  show ?thesis
  proof (cases result)
    case (RaActivity kind src at)
    then obtain ob' where "ob' \<in> set (acp_observations root now s)" "so_run_id ob' = so_run_id ob" "so_kind ob' = kind"
      using selected_is_observed Some by blast
    then have "activity_class kind \<noteq> ClTerminal" using acp_child_observed assms(2) by metis
    then show ?thesis using Some RaActivity by (cases "activity_class kind") simp_all
  qed (use Some in simp)
qed

lemma acp_children_active:
  "any_child_active root (acp_observations root now s) = holding_children root s"
proof -
  have "is_child_of root (acp_child_row root now x) \<longleftrightarrow> fst x \<noteq> root \<and> chr_completion_holding (snd x)" for x
    by (simp add: is_child_of_def acp_child_row_def split: prod.split)
  moreover have "\<not> is_child_of root (acp_row kind root None now)" for kind
    by (simp add: is_child_of_def)
  ultimately have "(\<exists>ob \<in> set (acp_observations root now s). is_child_of root ob) = holding_children root s"
    by (force simp: acp_rows holding_children_def list_ex_iff split: option.split)
  then show ?thesis unfolding any_child_active_iff using acp_child_active by (auto simp: is_child_of_def)
qed

lemma reduce_acp:
  fixes now root s
  defines "p \<equiv> reduce_agent_status \<lparr>ri_now = now, ri_primary_run_id = root, ri_process_liveness = None,
      ri_observations = acp_observations root now s\<rparr>"
  shows "(sj_phase p, lo_kind (sj_live p)) = acp_projection root s"
proof -
  have child: "list_ex (\<lambda>rid. is_run_active (select_run_activity (acp_observations root now s) rid))
       (sort (remdups (map so_run_id (filter (is_child_of root) (acp_observations root now s))))) = holding_children root s"
    using acp_children_active by (simp add: any_child_active_def)
  show ?thesis
  proof (cases "root_activity s")
    case None
    then have "select_run_activity (acp_observations root now s) root = None"
      using acp_root_observation [of root now s] by (simp add: select_run_activity_def)
    then show ?thesis
      by (simp add: p_def reduce_agent_status_def Let_def acp_fresh child acp_projection_def None)
  next
    case (Some kind)
    then have "select_run_activity (acp_observations root now s) root = Some (RaActivity kind OsProviderLifecycle now)"
      using no_conflict_alone [of root "acp_observations root now s"] acp_root_observation [of root now s] by simp
    then show ?thesis
      by (cases kind) (simp_all add: p_def reduce_agent_status_def Let_def acp_fresh child acp_projection_def Some)
  qed
qed

section \<open>Properties\<close>


text \<open>C38: A later turn is reported as done at the end of its first tool: the flag that a turn has settled is never reset,
  so once the file of a task holds a settled turn, the envelopes of a new turn that starts, opens a tool and closes it
  again are folded into a settled run, although the turn goes on.\<close>

theorem later_turn_settles_early:
  assumes "list_ex (\<lambda>e. nv_kind e = CkTurnSettled) before" "rn_active_tools (fold_envelopes before) \<subseteq> {i}"
    and "nv_kind turn = CkTurnStarted" "opens_tool i tool_start"
    and "nv_kind tool_end = CkActivityFinished" "nv_detail tool_end = Some (CvActivity CyTool (Some i))"
  shows "snapshot_kind (fold_envelopes (before @ [turn, tool_start])) = Some KWorking
    \<and> snapshot_kind (fold_envelopes (before @ [turn, tool_start, tool_end])) = Some KDone"
proof -
  let ?s = "fold fold_event before fold_new"
  have "fd_turn_settled ?s" using fold_turn_settled [of fold_new before] assms(1) by simp
  moreover have "fd_active_tools ?s \<subseteq> {i}" using assms(2) by (simp add: fold_envelopes_def fold_snapshot_def)
  ultimately show ?thesis
    using assms(3-6)
    by (auto simp: fold_envelopes_def fold_snapshot_def fold_event_def opens_tool_def activity_started_step_def
        activity_finished_step_def clear_pending_attention_def snapshot_kind_def Let_def)
qed

text \<open>C28: A failed turn of an ACP agent stays failed until the next prompt is accepted: whatever else the agent sends, its
  turn stays failed, a rate limit stays a rate limit, and the status is that of a run that is over, held open at most
  by background work.\<close>

theorem failure_lasts_until_the_next_prompt:
  assumes "failed_turn (xa_turn s)" "XvPromptAccepted \<notin> fst ` set events"
  defines "u \<equiv> fold (\<lambda>(e, at). acp_apply e at) events s"
  shows "failed_turn (xa_turn u)
    \<and> (xa_turn s = RtFailed FkRateLimited \<longrightarrow> xa_turn u = RtFailed FkRateLimited)
    \<and> sj_phase (reduce_agent_status \<lparr>ri_now = now, ri_primary_run_id = root, ri_process_liveness = None,
          ri_observations = acp_observations root now u\<rparr>)
        = (if holding_children root u then PhCompletedLocallyChildrenActive else PhFullyCompleted)"
proof -
  have u: "failed_turn (xa_turn u)" "xa_turn s = RtFailed FkRateLimited \<longrightarrow> xa_turn u = RtFailed FkRateLimited"
    using applies_failed [OF assms(1,2)] by (simp_all add: u_def)
  then have "root_activity u = Some KFailed" by (auto simp: failed_turn_def root_activity_def split: RootTurnState.splits)
  then have "fst (acp_projection root u) = (if holding_children root u then PhCompletedLocallyChildrenActive else PhFullyCompleted)"
    by (simp add: acp_projection_def)
  moreover have "sj_phase (reduce_agent_status \<lparr>ri_now = now, ri_primary_run_id = root, ri_process_liveness = None,
      ri_observations = acp_observations root now u\<rparr>) = fst (acp_projection root u)"
    using reduce_acp [of now root u] by (metis fst_conv)
  ultimately show ?thesis using u by simp
qed

section \<open>An example\<close>

text \<open>The hooks of a Claude Code session in a running wrapper: a turn, then a second turn with one tool.\<close>

definition sample_payload :: HookPayload where
  "sample_payload = \<lparr>hp_get_str = (\<lambda>k. if k = ''tool_name'' then Some ''Bash'' else None), hp_background_tasks = False\<rparr>"

definition sample_wrapper :: AgentRuntimeSnapshot where
  "sample_wrapper = \<lparr>rw_task_id = ''t1'', rw_state = AuRunning, rw_observed_at_unix_millis = 5, rw_pid = Some 7,
     rw_exit_code = None, rw_message = None\<rparr>"

definition record_hooks :: "string list \<Rightarrow> ParsedEnvelope list \<Rightarrow> ParsedEnvelope list" where
  "record_hooks hooks jsonl = fold (\<lambda>event es. snd (run_agent_event (Some sample_wrapper)
     (Some \<lparr>aid_task_id = ''t1'', aid_run_id = ''primary'', aid_events_dir = ''d''\<rparr>) ''claude'' event sample_payload
     9000000 es)) hooks jsonl"

definition sample_status :: "ParsedEnvelope list \<Rightarrow> StatusProjection" where
  "sample_status jsonl = reduce_agent_status \<lparr>ri_now = 10000000, ri_primary_run_id = PRIMARY_RUN_ID,
     ri_process_liveness = None,
     ri_observations = observations_for_task (Some sample_wrapper) jsonl 10000000\<rparr>"

definition first_turn :: "ParsedEnvelope list" where
  "first_turn = record_hooks [''UserPromptSubmit'', ''Stop''] []"

definition second_turn :: "ParsedEnvelope list" where
  "second_turn = record_hooks [''UserPromptSubmit'', ''PreToolUse'', ''PostToolUse''] []"

text \<open>The status of a file in which only the primary run occurs.\<close>

lemma primary_envelope:
  assumes "nv_run_id e = Some ''primary''"
  shows "envelope_run e = PRIMARY_RUN_ID" "envelope_parent e = None"
proof -
  have "trim ''primary'' = ''primary''" by (rule trim_graphic) (simp_all add: graphic_def)
  with assms show "envelope_run e = PRIMARY_RUN_ID" by (simp add: envelope_run_def not_blank_def PRIMARY_RUN_ID_def)
  then show "envelope_parent e = None" by (simp add: envelope_parent_def)
qed

lemma primary_group:
  assumes "list_all (\<lambda>e. nv_run_id e = Some ''primary'') es" "es \<noteq> []"
  shows "group_envelopes_by_run es = [(PRIMARY_RUN_ID, None, es)]"
proof -
  have "fold add_to_run xs [(PRIMARY_RUN_ID, None, ys)] = [(PRIMARY_RUN_ID, None, ys @ xs)]"
    if "list_all (\<lambda>e. nv_run_id e = Some ''primary'') xs" for xs ys
    using that by (induction xs arbitrary: ys) (simp_all add: primary_envelope)
  with assms show ?thesis by (cases es) (simp_all add: group_envelopes_by_run_def primary_envelope)
qed

lemma sample_done:
  assumes "list_all (\<lambda>e. nv_run_id e = Some ''primary'' \<and> nv_received_at_unix_millis e = 9) es" "es \<noteq> []"
    and "snapshot_kind (fold_envelopes es) = Some KDone"
  shows "lo_kind (sj_live (sample_status es)) = LkDone"
proof -
  obtain e xs where es: "es = e # xs" using assms(2) by (cases es) simp_all
  have nine: "fold max (map nv_received_at_unix_millis ys) 9 = 9" if "\<forall>x \<in> set ys. nv_received_at_unix_millis x = 9" for ys
    using that by (induction ys) simp_all
  have "observed_at_of es now = 9000000" for now
    using assms(1) nine [of xs] by (simp add: es observed_at_of_def millis_to_systemtime_def list_all_iff)
  moreover have "group_envelopes_by_run es = [(PRIMARY_RUN_ID, None, es)]"
    by (rule primary_group) (use assms in \<open>simp_all add: list_all_iff\<close>)
  moreover have "wrapper_exit_observation sample_wrapper = None"
    by (simp add: wrapper_exit_observation_def sample_wrapper_def)
  ultimately have "observations_for_task (Some sample_wrapper) es now = [acp_row KDone PRIMARY_RUN_ID None 9000000]" for now
    by (simp add: observations_for_task_def observations_from_jsonl_def observations_from_run_snapshot_def assms(3) acp_row_def)
  moreover have "10000000 \<le> so_expires_at (acp_row KDone PRIMARY_RUN_ID None 9000000)"
    by (simp add: acp_row_def LIFECYCLE_TERMINAL_FRESH_FOR_def secs_def)
  ultimately show ?thesis
    by (simp add: sample_status_def reduce_agent_status_def Let_def is_child_of_def
        no_conflict_alone [where ob = "acp_row KDone PRIMARY_RUN_ID None 9000000"])
qed


theorem later_turn_settles_early_witness:
  "lo_kind (sj_live (sample_status (first_turn @ second_turn))) = LkDone"
proof (rule sample_done)
  have three: "second_turn = [hd second_turn, second_turn ! 1, second_turn ! 2]" by code_simp
  have settled: "list_ex (\<lambda>e. nv_kind e = CkTurnSettled) first_turn" by code_simp
  have tools: "rn_active_tools (fold_envelopes first_turn) \<subseteq> {''Bash''}" by code_simp
  have kinds: "nv_kind (hd second_turn) = CkTurnStarted" "opens_tool ''Bash'' (second_turn ! 1)"
    "nv_kind (second_turn ! 2) = CkActivityFinished"
    "nv_detail (second_turn ! 2) = Some (CvActivity CyTool (Some ''Bash''))" by code_simp+
  show "snapshot_kind (fold_envelopes (first_turn @ second_turn)) = Some KDone"
    by (subst three) (rule conjunct2 [OF later_turn_settles_early [OF settled tools kinds]])
qed code_simp+

theorem failure_lasts_until_the_next_prompt_witness:
  "xa_turn (fold (\<lambda>(e, at). acp_apply e at) [(XvTurnEnded, 3), (XvStateUpdate PvRunning, 4), (XvTurnCancelled, 5)]
     (acp_apply XvTurnRateLimited 2 (acp_apply XvPromptAccepted 1 acp_state_default))) = RtFailed FkRateLimited"
proof -
  let ?s = "acp_apply XvTurnRateLimited 2 (acp_apply XvPromptAccepted 1 acp_state_default)"
  have s: "failed_turn (xa_turn ?s)" "xa_turn ?s = RtFailed FkRateLimited" by code_simp+
  from failure_lasts_until_the_next_prompt [OF s(1), of "[(XvTurnEnded, 3), (XvStateUpdate PvRunning, 4), (XvTurnCancelled, 5)]"]
  show ?thesis using s(2) by simp
qed

end
