(* ===== verification/Session_Events.thy ===== *)
theory Session_Events
  imports Ajax_Prelude
begin

text \<open>
  What a web session says to its clients (\<open>crates/ajax-web/src/slices/web_session/mod.rs\<close>, \<open>protocol.rs\<close>), and the
  normalizer that turns the stream of an agent into items of a transcript (\<open>normalize.rs\<close>). A JSON value is of any
  type, strings are lists of characters.
\<close>

section \<open>Events\<close>

datatype OutputContentBlockWire =
    OcResourceLink string string "string option" "string option" "string option"
  | OcImage string "string option" "string option"
  | OcResource string "string option" "string option" "string option"

datatype ToolContent =
    TcText string
  | TcDiff string "string option" string
  | TcImage string "string option" "string option"
  | TcResourceLink string string "string option" "string option" "string option"
  | TcResource string "string option" "string option" "string option"

record PlanEntry =
  pn_content :: string
  pn_status :: string

datatype 'j SessionServerEvent =
    SvReady string bool
  | SvMessage (sv_role: string) (sv_text: string) (sv_blocks: "OutputContentBlockWire list") (sv_item_id: string)
      (sv_message_id: "string option")
  | SvPromptAccepted string
  | SvArtifact string "string option" "string option"
  | SvPermissionRequest string "string option" "string option"
  | SvPermissionResolved string bool
  | SvElicitationRequest string string 'j
  | SvElicitationResolved string string
  | SvToolCall string string string string "string list" "ToolContent list"
  | SvPlan "PlanEntry list"
  | SvUsage nat nat
  | SvUsageReset
  | SvTurnUsage "string option" "nat option" "nat option" "nat option" "nat option" "nat option"
  | SvStatus string "string option"
  | SvTurnEnd "string option"
  | SvError string

definition SESSION_PROTOCOL_VERSION :: nat where
  "SESSION_PROTOCOL_VERSION = 2"

record PendingPermission =
  pp_request_id :: string
  pp_title :: "string option"
  pp_detail :: "string option"

record 'j PendingElicitation =
  pc_request_id :: string
  pc_message :: string
  pc_schema :: 'j

record ConfigOptionChoiceDescriptor =
  cc_value :: string
  cc_name :: string

record 'j ConfigOptionDescriptor =
  co_id :: string
  co_category :: "string option"
  co_name :: string
  co_kind :: string
  co_current_value :: 'j
  co_choices :: "ConfigOptionChoiceDescriptor list"

record AvailableCommandDescriptor =
  ac_name :: string
  ac_description :: string
  ac_input_hint :: "string option"

record PromptCapabilityDescriptor =
  cap_image :: bool
  cap_embedded_context :: bool

record 'j SessionChrome =
  ch_session_config_options :: "'j ConfigOptionDescriptor list option"
  ch_available_commands :: "AvailableCommandDescriptor list option"
  ch_prompt_capabilities :: "PromptCapabilityDescriptor option"
  ch_session_title :: "string option"

record 'j SessionEventEnvelope =
  en_kind :: string
  en_protocol_version :: nat
  en_cursor :: nat
  en_payload :: "'j SessionServerEvent"

definition envelope_new :: "nat \<Rightarrow> 'j SessionServerEvent \<Rightarrow> 'j SessionEventEnvelope" where
  "envelope_new cursor payload =
     \<lparr>en_kind = ''event'', en_protocol_version = SESSION_PROTOCOL_VERSION, en_cursor = cursor, en_payload = payload\<rparr>"

record 'j SessionSnapshot =
  ss_kind :: string
  ss_protocol_version :: nat
  ss_cursor :: nat
  ss_model :: string
  ss_session_config_options :: "'j ConfigOptionDescriptor list option"
  ss_available_commands :: "AvailableCommandDescriptor list option"
  ss_prompt_capabilities :: "PromptCapabilityDescriptor option"
  ss_session_title :: "string option"
  ss_turn_state :: string
  ss_reset :: bool
  ss_agent_pending :: bool
  ss_pending_permission :: "PendingPermission option"
  ss_pending_elicitation :: "'j PendingElicitation option"
  ss_transcript_error :: "string option"
  ss_prompts_blocked :: bool
  ss_transcript :: "'j SessionEventEnvelope list option"
  ss_transcript_from :: "nat option"
  ss_transcript_floor :: "nat option"

definition snapshot_new ::
    "nat \<Rightarrow> string \<Rightarrow> bool \<Rightarrow> bool \<Rightarrow> PendingPermission option \<Rightarrow> 'j PendingElicitation option \<Rightarrow> 'j SessionChrome \<Rightarrow>
     'j SessionSnapshot" where
  "snapshot_new cursor model busy reset permission elicitation chrome =
     \<lparr>ss_kind = ''snapshot'', ss_protocol_version = SESSION_PROTOCOL_VERSION, ss_cursor = cursor, ss_model = model,
      ss_session_config_options = ch_session_config_options chrome,
      ss_available_commands = ch_available_commands chrome,
      ss_prompt_capabilities = ch_prompt_capabilities chrome, ss_session_title = ch_session_title chrome,
      ss_turn_state = (if busy then ''busy'' else ''idle''), ss_reset = reset, ss_agent_pending = False,
      ss_pending_permission = permission, ss_pending_elicitation = elicitation, ss_transcript_error = None,
      ss_prompts_blocked = False, ss_transcript = None, ss_transcript_from = None, ss_transcript_floor = None\<rparr>"

definition with_transcript_error :: "string option \<Rightarrow> 'j SessionSnapshot \<Rightarrow> 'j SessionSnapshot" where
  "with_transcript_error e s = s\<lparr>ss_transcript_error := e\<rparr>"

definition with_prompts_blocked :: "bool \<Rightarrow> 'j SessionSnapshot \<Rightarrow> 'j SessionSnapshot" where
  "with_prompts_blocked b s = s\<lparr>ss_prompts_blocked := b\<rparr>"

definition with_transcript ::
    "'j SessionEventEnvelope list \<Rightarrow> nat option \<Rightarrow> 'j SessionSnapshot \<Rightarrow> 'j SessionSnapshot" where
  "with_transcript t from s = s\<lparr>ss_transcript := Some t, ss_transcript_from := from\<rparr>"

definition with_transcript_floor :: "nat \<Rightarrow> 'j SessionSnapshot \<Rightarrow> 'j SessionSnapshot" where
  "with_transcript_floor floor s = s\<lparr>ss_transcript_floor := Some floor\<rparr>"

definition with_agent_pending :: "bool \<Rightarrow> 'j SessionSnapshot \<Rightarrow> 'j SessionSnapshot" where
  "with_agent_pending b s = s\<lparr>ss_agent_pending := b\<rparr>"

text \<open>\<open>usize\<close> is read like a number of 64 bits.\<close>

definition cursor_of_pair :: "string \<Rightarrow> nat option" where
  "cursor_of_pair pair =
     (case split_once pair ''='' of
        None \<Rightarrow> None
      | Some (key, v) \<Rightarrow> if key \<noteq> ''cursor'' then None else parse_u64 v)"

fun first_some :: "('a \<Rightarrow> 'b option) \<Rightarrow> 'a list \<Rightarrow> 'b option" where
  "first_some f [] = None"
| "first_some f (x # xs) = (case f x of Some y \<Rightarrow> Some y | None \<Rightarrow> first_some f xs)"

definition parse_client_cursor :: "string option \<Rightarrow> nat option" where
  "parse_client_cursor query = Option.bind query (\<lambda>q. first_some cursor_of_pair (split_on (CHR ''&'') q))"

definition parse_tail_snapshot_flag :: "string option \<Rightarrow> bool" where
  "parse_tail_snapshot_flag query =
     (case query of
        None \<Rightarrow> False
      | Some q \<Rightarrow> list_ex (\<lambda>pair. split_once pair ''='' = Some (''snapshotTail'', ''1'')) (split_on (CHR ''&'') q))"

section \<open>The normalizer\<close>

record LaneState =
  ln_item_id :: string
  ln_text :: string
  ln_blocks :: "OutputContentBlockWire list"

record StreamNormalizer =
  sn_next_id :: nat
  sn_lanes :: "string \<Rightarrow> LaneState option"

definition normalizer_default :: StreamNormalizer where
  "normalizer_default = \<lparr>sn_next_id = 0, sn_lanes = Map.empty\<rparr>"

definition item_number :: "string \<Rightarrow> nat option" where
  "item_number item = Option.bind (strip_prefix item ''i'') parse_u64"

fun event_item_number :: "'j SessionServerEvent \<Rightarrow> nat option" where
  "event_item_number (SvMessage role text blocks item message_id) = item_number item"
| "event_item_number _ = None"

definition seeded_from :: "'j SessionServerEvent list \<Rightarrow> StreamNormalizer" where
  "seeded_from events = normalizer_default\<lparr>sn_next_id := fold max (List.map_filter event_item_number events) 0\<rparr>"

text \<open>The counter has 64 bits; a release build wraps around.\<close>

definition alloc_item_id :: "StreamNormalizer \<Rightarrow> string \<times> StreamNormalizer" where
  "alloc_item_id s =
     (let n = (sn_next_id s + 1) mod 2 ^ 64 in (''i'' @ show_nat n, s\<lparr>sn_next_id := n\<rparr>))"

definition fresh_item_id :: "StreamNormalizer \<Rightarrow> string \<times> StreamNormalizer" where
  "fresh_item_id = alloc_item_id"

definition close_reply_lanes :: "StreamNormalizer \<Rightarrow> StreamNormalizer" where
  "close_reply_lanes s = s\<lparr>sn_lanes := (\<lambda>k. if starts_with k ''user:'' then sn_lanes s k else None)\<rparr>"

fun is_offscreen_telemetry :: "'j SessionServerEvent \<Rightarrow> bool" where
  "is_offscreen_telemetry (SvUsage _ _) \<longleftrightarrow> True"
| "is_offscreen_telemetry (SvTurnUsage _ _ _ _ _ _) \<longleftrightarrow> True"
| "is_offscreen_telemetry (SvStatus _ _) \<longleftrightarrow> True"
| "is_offscreen_telemetry (SvArtifact _ _ _) \<longleftrightarrow> True"
| "is_offscreen_telemetry (SvPromptAccepted _) \<longleftrightarrow> True"
| "is_offscreen_telemetry (SvPermissionResolved _ _) \<longleftrightarrow> True"
| "is_offscreen_telemetry (SvElicitationResolved _ _) \<longleftrightarrow> True"
| "is_offscreen_telemetry _ \<longleftrightarrow> False"

definition lane_key :: "string \<Rightarrow> string option \<Rightarrow> string" where
  "lane_key role message_id = role @ '':'' @ (case message_id of Some m \<Rightarrow> m | None \<Rightarrow> [])"

text \<open>Every branch returns true.\<close>

definition is_stream_continuation :: "string \<Rightarrow> string \<Rightarrow> bool" where
  "is_stream_continuation previous incoming \<longleftrightarrow>
     (if previous = [] \<or> incoming = [] then True
      else if incoming = previous then True
      else if starts_with incoming previous then True
      else True)"

definition merge_stream_text :: "string \<Rightarrow> string \<Rightarrow> string" where
  "merge_stream_text previous incoming =
     (if incoming = previous \<or> (starts_with incoming previous \<and> length incoming > length previous) then incoming
      else previous @ incoming)"

definition add_block :: "OutputContentBlockWire \<Rightarrow> OutputContentBlockWire list \<Rightarrow> OutputContentBlockWire list" where
  "add_block b bs = (if b \<in> set bs then bs else bs @ [b])"

text \<open>The item of a chunk of a message: continue the lane of its key, or open a new one.\<close>

definition lane_for :: "string \<Rightarrow> string \<Rightarrow> StreamNormalizer \<Rightarrow> bool \<times> string \<times> StreamNormalizer" where
  "lane_for key text s =
     (let continuation = (case sn_lanes s key of Some lane \<Rightarrow> is_stream_continuation (ln_text lane) text | None \<Rightarrow> True)
      in if continuation
         then (case sn_lanes s key of
                 Some lane \<Rightarrow> (continuation, ln_item_id lane, s)
               | None \<Rightarrow> (case alloc_item_id s of (item, s1) \<Rightarrow> (continuation, item, s1)))
         else (case alloc_item_id (s\<lparr>sn_lanes := (sn_lanes s)(key := None)\<rparr>) of (item, s1) \<Rightarrow> (continuation, item, s1)))"

definition normalize_message ::
    "string \<Rightarrow> string \<Rightarrow> OutputContentBlockWire list \<Rightarrow> string option \<Rightarrow> StreamNormalizer \<Rightarrow>
     'j SessionServerEvent list \<times> StreamNormalizer" where
  "normalize_message role text blocks message_id s =
     (if text = [] \<and> blocks = [] then ([], s)
      else
        let s0 = (if role = ''user'' then close_reply_lanes s else s);
            key = lane_key role message_id
        in case lane_for key text s0 of (continuation, item, s1) \<Rightarrow>
          let lane = (case sn_lanes s1 key of
                        Some lane \<Rightarrow> lane | None \<Rightarrow> \<lparr>ln_item_id = item, ln_text = [], ln_blocks = []\<rparr>);
              lane1 = \<lparr>ln_item_id = item,
                       ln_text = (if continuation then merge_stream_text (ln_text lane) text else text),
                       ln_blocks = fold add_block blocks (ln_blocks lane)\<rparr>
          in ([SvMessage role (ln_text lane1) (ln_blocks lane1) item message_id],
              s1\<lparr>sn_lanes := (sn_lanes s1)(key \<mapsto> lane1)\<rparr>))"

fun normalize_one :: "'j SessionServerEvent \<Rightarrow> StreamNormalizer \<Rightarrow> 'j SessionServerEvent list \<times> StreamNormalizer" where
  "normalize_one (SvMessage role text blocks item message_id) s =
     (if role \<in> {''agent'', ''thought'', ''user''} then normalize_message role text blocks message_id s
      else ([SvMessage role text blocks item message_id], s\<lparr>sn_lanes := Map.empty\<rparr>))"
| "normalize_one (SvTurnEnd reason) s = ([SvTurnEnd reason], s\<lparr>sn_lanes := Map.empty\<rparr>)"
| "normalize_one event s = ([event], if is_offscreen_telemetry event then s else s\<lparr>sn_lanes := Map.empty\<rparr>)"

fun normalize_all :: "'j SessionServerEvent list \<Rightarrow> StreamNormalizer \<Rightarrow> 'j SessionServerEvent list \<times> StreamNormalizer" where
  "normalize_all [] s = ([], s)"
| "normalize_all (e # es) s =
     (case normalize_one e s of (out, s1) \<Rightarrow> (case normalize_all es s1 of (rest, s2) \<Rightarrow> (out @ rest, s2)))"

fun message_item :: "'j SessionServerEvent \<Rightarrow> string option" where
  "message_item (SvMessage role text blocks item message_id) = Some item"
| "message_item _ = None"

text \<open>\<open>out\<close> is kept in reverse.\<close>

definition same_item :: "'j SessionServerEvent \<Rightarrow> 'j SessionServerEvent \<Rightarrow> bool" where
  "same_item a b \<longleftrightarrow> (case (message_item a, message_item b) of
     (Some left, Some right) \<Rightarrow> left \<noteq> [] \<and> left = right | _ \<Rightarrow> False)"

fun collapse_onto :: "'j SessionServerEvent list \<Rightarrow> 'j SessionServerEvent list \<Rightarrow> 'j SessionServerEvent list" where
  "collapse_onto [] out = rev out"
| "collapse_onto (e # es) [] = collapse_onto es [e]"
| "collapse_onto (e # es) (l # out) = collapse_onto es (if same_item l e then e # out else e # l # out)"

definition collapse_same_item :: "'j SessionServerEvent list \<Rightarrow> 'j SessionServerEvent list" where
  "collapse_same_item events = collapse_onto events []"

definition normalize_batch ::
    "'j SessionServerEvent list \<Rightarrow> StreamNormalizer \<Rightarrow> 'j SessionServerEvent list \<times> StreamNormalizer" where
  "normalize_batch events s = (case normalize_all events s of (out, s1) \<Rightarrow> (collapse_same_item out, s1))"

section \<open>Lemmas\<close>

lemma continuation_always: "is_stream_continuation previous incoming"
  by (simp add: is_stream_continuation_def)

lemma lane_for_simp:
  "lane_for key text s =
     (case sn_lanes s key of
        Some lane \<Rightarrow> (True, ln_item_id lane, s)
      | None \<Rightarrow> (True, fst (alloc_item_id s), snd (alloc_item_id s)))"
  by (simp add: lane_for_def continuation_always split: option.split prod.split)

text \<open>The items that a normalizer gives out are numbered above the items it has seen.\<close>

definition item_of :: "nat \<Rightarrow> string" where
  "item_of m = ''i'' @ show_nat m"

definition item_above :: "nat \<Rightarrow> nat \<Rightarrow> string \<Rightarrow> bool" where
  "item_above n bound item \<longleftrightarrow> (\<exists>m. n < m \<and> m \<le> bound \<and> item = item_of m)"

definition lanes_above :: "nat \<Rightarrow> StreamNormalizer \<Rightarrow> bool" where
  "lanes_above n s \<longleftrightarrow> n \<le> sn_next_id s
     \<and> (\<forall>k lane. sn_lanes s k = Some lane \<longrightarrow> item_above n (sn_next_id s) (ln_item_id lane))"

lemma item_above_mono: "item_above n bound item \<Longrightarrow> bound \<le> bound' \<Longrightarrow> item_above n bound' item"
  by (auto simp: item_above_def)

lemma item_number_of: "m < 2 ^ 64 \<Longrightarrow> item_number (item_of m) = Some m"
  by (simp add: item_number_def item_of_def strip_prefix_def starts_with_def)

lemma lanes_above_closed:
  "lanes_above n s \<Longrightarrow> lanes_above n (close_reply_lanes s)"
  "lanes_above n s \<Longrightarrow> lanes_above n (s\<lparr>sn_lanes := Map.empty\<rparr>)"
  by (auto simp: lanes_above_def close_reply_lanes_def)

lemma close_next [simp]: "sn_next_id (close_reply_lanes s) = sn_next_id s"
  by (simp add: close_reply_lanes_def)

text \<open>The messages of agents and users are the ones that the normalizer numbers.\<close>

fun numbered_item :: "'j SessionServerEvent \<Rightarrow> string option" where
  "numbered_item (SvMessage role text blocks item message_id) =
     (if role \<in> {''agent'', ''thought'', ''user''} then Some item else None)"
| "numbered_item _ = None"

lemma lane_for_above:
  assumes "lanes_above n s" "sn_next_id s + 1 < 2 ^ 64" "lane_for key text s = (b, item, s1)"
  shows "lanes_above n s1" "item_above n (sn_next_id s1) item" "sn_next_id s \<le> sn_next_id s1"
    "sn_next_id s1 \<le> sn_next_id s + 1"
proof -
  have "lanes_above n s1 \<and> item_above n (sn_next_id s1) item \<and> sn_next_id s \<le> sn_next_id s1
      \<and> sn_next_id s1 \<le> sn_next_id s + 1"
  proof (cases "sn_lanes s key")
    case None
    then have "s1 = s\<lparr>sn_next_id := sn_next_id s + 1\<rparr>" "item = item_of (sn_next_id s + 1)"
      using assms(2,3) by (auto simp: lane_for_simp alloc_item_id_def item_of_def)
    moreover have "item_above n (sn_next_id s + 1) (item_of (sn_next_id s + 1))"
      using assms(1) by (auto simp: item_above_def lanes_above_def intro!: exI [of _ "sn_next_id s + 1"])
    ultimately show ?thesis
      using assms(1) item_above_mono [of n "sn_next_id s" _ "sn_next_id s + 1"]
      by (auto simp: lanes_above_def)
  qed (use assms in \<open>auto simp: lane_for_simp lanes_above_def\<close>)
  then show "lanes_above n s1" "item_above n (sn_next_id s1) item" "sn_next_id s \<le> sn_next_id s1"
    "sn_next_id s1 \<le> sn_next_id s + 1" by simp_all
qed

lemma normalize_message_above:
  assumes "lanes_above n s" "sn_next_id s + 1 < 2 ^ 64" "normalize_message role text blocks mid s = (out, s1)"
  shows "lanes_above n s1 \<and> sn_next_id s \<le> sn_next_id s1 \<and> sn_next_id s1 \<le> sn_next_id s + 1
    \<and> (\<forall>e \<in> set out. \<exists>item. message_item e = Some item \<and> item_above n (sn_next_id s1) item)"
proof (cases "text = [] \<and> blocks = []")
  case False
  let ?s0 = "if role = ''user'' then close_reply_lanes s else s"
  obtain b item s2 where lane: "lane_for (lane_key role mid) text ?s0 = (b, item, s2)"
    by (cases "lane_for (lane_key role mid) text ?s0") auto
  have "lanes_above n ?s0" "sn_next_id ?s0 = sn_next_id s" using assms(1) by (simp_all add: lanes_above_closed)
  then have "lanes_above n s2" "item_above n (sn_next_id s2) item" "sn_next_id s \<le> sn_next_id s2"
    "sn_next_id s2 \<le> sn_next_id s + 1"
    using lane_for_above [OF _ _ lane, of n] assms(2) by simp_all
  with assms(3) False lane show ?thesis
    by (auto simp: normalize_message_def Let_def lanes_above_def split: if_splits)
qed (use assms in \<open>simp add: normalize_message_def\<close>)

lemma normalize_one_above:
  assumes "lanes_above n s" "sn_next_id s + 1 < 2 ^ 64" "normalize_one e s = (out, s1)"
  shows "lanes_above n s1 \<and> sn_next_id s \<le> sn_next_id s1 \<and> sn_next_id s1 \<le> sn_next_id s + 1
    \<and> (\<forall>e \<in> set out. \<forall>item. numbered_item e = Some item \<longrightarrow> item_above n (sn_next_id s1) item)"
proof (cases "\<exists>role text blocks item mid. e = SvMessage role text blocks item mid \<and> role \<in> {''agent'', ''thought'', ''user''}")
  case True
  then obtain role t blocks item mid where "normalize_message role t blocks mid s = (out, s1)"
    using assms(3) by auto
  from normalize_message_above [OF assms(1,2) this] show ?thesis
    by (auto dest!: bspec elim!: message_item.elims split: if_splits)
next
  case False
  have "out = [e] \<and> (s1 = s \<or> s1 = s\<lparr>sn_lanes := Map.empty\<rparr>)" "numbered_item e = None"
    using assms(3) False by (cases e; auto split: if_splits)+
  then show ?thesis using assms(1) by (auto simp: lanes_above_closed)
qed

lemma normalize_all_above:
  "normalize_all es s = (out, s1) \<Longrightarrow> lanes_above n s \<Longrightarrow> sn_next_id s + length es < 2 ^ 64 \<Longrightarrow>
   lanes_above n s1 \<and> sn_next_id s \<le> sn_next_id s1 \<and> sn_next_id s1 \<le> sn_next_id s + length es
   \<and> (\<forall>e \<in> set out. \<forall>item. numbered_item e = Some item \<longrightarrow> item_above n (sn_next_id s1) item)"
proof (induction es arbitrary: s out)
  case (Cons e es)
  obtain out1 s2 rest where steps: "normalize_one e s = (out1, s2)" "normalize_all es s2 = (rest, s1)" "out = out1 @ rest"
    using Cons.prems(1) by (auto split: prod.splits)
  have one: "lanes_above n s2 \<and> sn_next_id s \<le> sn_next_id s2 \<and> sn_next_id s2 \<le> sn_next_id s + 1
      \<and> (\<forall>e \<in> set out1. \<forall>item. numbered_item e = Some item \<longrightarrow> item_above n (sn_next_id s2) item)"
    by (rule normalize_one_above [OF Cons.prems(2) _ steps(1)]) (use Cons.prems(3) in simp)
  have "lanes_above n s1 \<and> sn_next_id s2 \<le> sn_next_id s1 \<and> sn_next_id s1 \<le> sn_next_id s2 + length es
      \<and> (\<forall>e \<in> set rest. \<forall>item. numbered_item e = Some item \<longrightarrow> item_above n (sn_next_id s1) item)"
    by (rule Cons.IH [OF steps(2)]) (use one Cons.prems(3) in simp_all)
  with one steps(3) show ?case by (auto intro: item_above_mono)
qed simp

lemma collapse_onto_subset: "set (collapse_onto es out) \<subseteq> set es \<union> set out"
  by (induction es out rule: collapse_onto.induct) (auto split: if_splits)

lemma collapse_subset: "set (collapse_same_item es) \<subseteq> set es"
  using collapse_onto_subset [of es "[]"] by (simp add: collapse_same_item_def)

lemma seeded_covers:
  assumes "event_item_number e = Some m" "e \<in> set log"
  shows "m \<le> sn_next_id (seeded_from log)"
proof -
  have bound: "m \<in> set ms \<or> m \<le> a \<Longrightarrow> m \<le> fold max ms a" for m a :: nat and ms
    by (induction ms arbitrary: a) (auto simp: max_def)
  have "m \<in> set (List.map_filter event_item_number log)"
    using assms by (auto simp: List.map_filter_def intro!: image_eqI [of _ _ e])
  then show ?thesis using bound by (simp add: seeded_from_def)
qed

text \<open>C18: A normalizer that is seeded from a stored transcript gives its items to no message of that transcript:
  whatever the agent sends next, no message that it numbers has an item of the transcript, as long as the counter
  of 64 bits does not wrap around.\<close>

theorem fresh_items_are_new:
  assumes "normalize_batch batch (seeded_from log) = (out, s)"
    and "sn_next_id (seeded_from log) + length batch < 2 ^ 64"
    and "e \<in> set out" "numbered_item e = Some item" "old \<in> set log"
  shows "message_item old \<noteq> Some item"
proof
  assume old: "message_item old = Some item"
  let ?n = "sn_next_id (seeded_from log)"
  obtain all where all: "normalize_all batch (seeded_from log) = (all, s)" "out = collapse_same_item all"
    using assms(1) by (auto simp: normalize_batch_def split: prod.splits)
  have "lanes_above ?n (seeded_from log)" by (simp add: lanes_above_def seeded_from_def normalizer_default_def)
  moreover have "e \<in> set all" using assms(3) all(2) collapse_subset by blast
  ultimately have "item_above ?n (sn_next_id s) item" "sn_next_id s \<le> ?n + length batch"
    using normalize_all_above [OF all(1) _ assms(2)] assms(4) by blast+
  then obtain m where m: "?n < m" "m < 2 ^ 64" "item = item_of m"
    using assms(2) by (auto simp: item_above_def)
  have "event_item_number old = Some m" using old m(2,3) item_number_of by (cases old) auto
  then show False using seeded_covers assms(5) m(1) by fastforce
qed

definition sample_log :: "nat SessionServerEvent list" where
  "sample_log = [SvMessage ''agent'' ''hello'' [] ''i3'' None]"

theorem fresh_items_are_new_witness:
  "fst (normalize_batch [SvMessage ''agent'' ''and'' [] [] None :: nat SessionServerEvent] (seeded_from sample_log)) =
     [SvMessage ''agent'' ''and'' [] ''i4'' None]
   \<and> message_item (hd sample_log) \<noteq> Some ''i4''"
proof -
  have seed: "seeded_from sample_log = \<lparr>sn_next_id = 3, sn_lanes = Map.empty\<rparr>"
    by (simp add: seeded_from_def sample_log_def normalizer_default_def List.map_filter_simps item_number_def
        strip_prefix_def parse_u64_def digit_value_def)
  have four: "show_nat 4 = ''4''" by code_simp
  obtain s where out: "normalize_batch [SvMessage ''agent'' ''and'' [] [] None :: nat SessionServerEvent] (seeded_from sample_log)
      = ([SvMessage ''agent'' ''and'' [] ''i4'' None], s)"
    by (simp add: seed normalize_batch_def normalize_message_def lane_for_simp lane_key_def alloc_item_id_def
        four merge_stream_text_def starts_with_def collapse_same_item_def)
  have "(4::nat) < 2 ^ 64" by simp
  then show ?thesis
    using fresh_items_are_new [OF out, of _ "''i4''" "hd sample_log"] seed out by (simp add: sample_log_def)
qed

text \<open>A stream of chunks: one lane, one item.\<close>

definition chunk :: "string \<Rightarrow> string option \<Rightarrow> string \<Rightarrow> 'j SessionServerEvent" where
  "chunk role mid t = SvMessage role t [] [] mid"

lemma lane_kept:
  "role \<in> {''agent'', ''thought'', ''user''} \<Longrightarrow>
   sn_lanes (if role = ''user'' then close_reply_lanes s else s) (lane_key role mid) = sn_lanes s (lane_key role mid)"
  by (auto simp: close_reply_lanes_def lane_key_def starts_with_def)

lemma open_lane_continues:
  assumes "role \<in> {''agent'', ''thought'', ''user''}" "t \<noteq> []"
    and "sn_lanes s (lane_key role mid) = Some \<lparr>ln_item_id = item, ln_text = old, ln_blocks = []\<rparr>"
  obtains s1 where "normalize_one (chunk role mid t) s = ([SvMessage role (merge_stream_text old t) [] item mid], s1)"
    "sn_lanes s1 (lane_key role mid) = Some \<lparr>ln_item_id = item, ln_text = merge_stream_text old t, ln_blocks = []\<rparr>"
  using assms lane_kept [OF assms(1), of s mid]
  by (auto simp: chunk_def normalize_message_def Let_def lane_for_simp)

lemma open_lane_stream:
  assumes "role \<in> {''agent'', ''thought'', ''user''}" "item \<noteq> []"
  shows "\<forall>t \<in> set ts. t \<noteq> [] \<Longrightarrow>
    sn_lanes s (lane_key role mid) = Some \<lparr>ln_item_id = item, ln_text = old, ln_blocks = []\<rparr> \<Longrightarrow>
    collapse_onto (fst (normalize_all (map (chunk role mid) ts) s)) [SvMessage role old [] item mid :: 'j SessionServerEvent] =
      [SvMessage role (foldl merge_stream_text old ts) [] item mid]"
proof (induction ts arbitrary: s old)
  case (Cons t ts)
  obtain s1 where s1: "normalize_one (chunk role mid t :: 'j SessionServerEvent) s = ([SvMessage role (merge_stream_text old t) [] item mid], s1)"
    "sn_lanes s1 (lane_key role mid) = Some \<lparr>ln_item_id = item, ln_text = merge_stream_text old t, ln_blocks = []\<rparr>"
    using open_lane_continues [OF assms(1) _ Cons.prems(2), of t] Cons.prems(1) by auto
  with Cons.IH [OF _ s1(2)] Cons.prems(1) assms(2) show ?case
    by (simp add: same_item_def case_prod_beta s1(1))
qed simp

lemma deltas_concat:
  assumes "\<And>i. 0 < i \<Longrightarrow> i < length ts \<Longrightarrow> \<not> starts_with (ts ! i) (concat (take i ts))"
  shows "foldl merge_stream_text [] ts = concat ts"
  using assms
proof (induction ts rule: rev_induct)
  case (snoc t ts)
  have "foldl merge_stream_text [] ts = concat ts"
  proof (rule snoc.IH)
    show "\<not> starts_with (ts ! i) (concat (take i ts))" if "0 < i" "i < length ts" for i
      using snoc.prems [OF that(1)] that(2) by (simp add: nth_append)
  qed
  moreover have "merge_stream_text (concat ts) t = concat ts @ t"
  proof (cases "ts = []")
    case False
    then show ?thesis
      using snoc.prems [of "length ts"] by (auto simp: merge_stream_text_def starts_with_def)
  qed (simp add: merge_stream_text_def)
  ultimately show ?case by simp
qed simp

lemma snapshots_last:
  assumes "ts \<noteq> []" "sorted_wrt (\<lambda>a b. prefix a b) ts"
  shows "foldl merge_stream_text [] ts = last ts"
  using assms
proof (induction ts rule: rev_induct)
  case (snoc t ts)
  show ?case
  proof (cases "ts = []")
    case False
    then have "foldl merge_stream_text [] ts = last ts" "prefix (last ts) t"
      using snoc by (auto simp: sorted_wrt_append)
    moreover from this(2) have "t = last ts \<or> length (last ts) < length t"
      using prefix_length_less [of "last ts" t] by (auto simp: strict_prefix_def)
    ultimately have "merge_stream_text (last ts) t = t" "foldl merge_stream_text [] ts = last ts"
      by (auto simp: merge_stream_text_def starts_with_def)
    then show ?thesis by simp
  qed (simp add: merge_stream_text_def starts_with_def)
qed simp

text \<open>The chunks of one message of an agent become a single item of the transcript: its text is the
  concatenation of the chunks when no chunk repeats the text before it, and the last chunk when every chunk
  extends the one before.\<close>

theorem stream_becomes_one_item:
  assumes "role \<in> {''agent'', ''thought'', ''user''}" and "ts \<noteq> []" and "\<forall>t \<in> set ts. t \<noteq> []"
    and "sn_lanes s (lane_key role mid) = None"
  shows "\<exists>t. fst (normalize_batch (map (\<lambda>t. SvMessage role t [] [] mid :: 'j SessionServerEvent) ts) s) =
      [SvMessage role t [] (fst (fresh_item_id s)) mid]
    \<and> ((\<forall>i. 0 < i \<and> i < length ts \<longrightarrow> \<not> starts_with (ts ! i) (concat (take i ts))) \<longrightarrow> t = concat ts)
    \<and> (sorted_wrt prefix ts \<longrightarrow> t = last ts)"
proof -
  let ?s0 = "if role = ''user'' then close_reply_lanes s else s"
  let ?item = "fst (fresh_item_id s)"
  obtain c cs where ts: "ts = c # cs" using assms(2) by (cases ts) auto
  have c: "c \<noteq> []" "\<forall>t \<in> set cs. t \<noteq> []" using assms(3) ts by auto
  have item: "fst (alloc_item_id ?s0) = ?item" "?item \<noteq> []"
    by (simp_all add: fresh_item_id_def alloc_item_id_def Let_def)
  have first: "merge_stream_text [] c = c" by (simp add: merge_stream_text_def)
  obtain s1 where s1: "normalize_one (chunk role mid c :: 'j SessionServerEvent) s = ([SvMessage role c [] ?item mid], s1)"
    "sn_lanes s1 (lane_key role mid) = Some \<lparr>ln_item_id = ?item, ln_text = c, ln_blocks = []\<rparr>"
    using assms(1,4) c(1) lane_kept [OF assms(1), of s mid] item(1) first
    by (auto simp: chunk_def normalize_message_def Let_def lane_for_simp alloc_item_id_def)
  have "fst (normalize_batch (map (chunk role mid) ts :: 'j SessionServerEvent list) s) =
      collapse_onto (fst (normalize_all (map (chunk role mid) cs) s1)) [SvMessage role c [] ?item mid]"
    by (simp add: normalize_batch_def ts s1(1) collapse_same_item_def case_prod_beta)
  also have "\<dots> = [SvMessage role (foldl merge_stream_text c cs) [] ?item mid]"
    by (rule open_lane_stream [OF assms(1) item(2) c(2) s1(2)])
  also have "foldl merge_stream_text c cs = foldl merge_stream_text [] ts" by (simp add: ts first)
  finally show ?thesis
    using deltas_concat [of ts] snapshots_last [OF assms(2)] by (auto simp: chunk_def fun_eq_iff [symmetric])
qed

theorem stream_becomes_one_item_witness:
  "\<exists>t. fst (normalize_batch (map (\<lambda>t. SvMessage ''agent'' t [] [] None :: nat SessionServerEvent) [''ab'', ''cd'', ''ab''])
      normalizer_default) = [SvMessage ''agent'' t [] (fst (fresh_item_id normalizer_default)) None] \<and> t = ''abcdab''"
  using stream_becomes_one_item [of "''agent''" "[''ab'', ''cd'', ''ab'']" normalizer_default None]
  by (auto simp: normalizer_default_def starts_with_def less_Suc_eq numeral_2_eq_2)

end
