(* ===== verification/Session_Activity.thy ===== *)
theory Session_Activity
  imports Agent_Events Session_Events Registry
begin

text \<open>
  What a web session reports of its agent: the reading of session events as events of an ACP agent
  (\<open>crates/ajax-web/src/slices/web_session/acp_execution_map.rs\<close>), the reporter (\<open>session_activity.rs\<close>), the evidence with its
  failed reports and their retries (\<open>session_evidence.rs\<close>), errors (\<open>session_error.rs\<close>) and the level of background work
  (\<open>background_jobs.rs\<close>). Reports go to a function of the caller that may fail; it works on a state of any type. The scan of
  processes is a parameter too.
\<close>

section \<open>Errors of a session\<close>

datatype RestoreMethod = RmResume | RmLoad

datatype RestoreFailure =
    RfUnsupported string
  | RfRejected string RestoreMethod string
  | RfTimedOut string RestoreMethod
  | RfTransportLost string RestoreMethod string

datatype AcpSpawnError = AsRestore RestoreFailure | AsMessage string

datatype SessionError =
    SqSpawn string
  | SqPersist string
  | SqProtocol string
  | SqOperator string
  | SqRestoreUnavailable RestoreFailure

fun method_debug :: "RestoreMethod \<Rightarrow> string" where
  "method_debug RmResume = ''Resume''"
| "method_debug RmLoad = ''Load''"

definition RESTORE_UNAVAILABLE_MARKER :: string where
  "RESTORE_UNAVAILABLE_MARKER = ''ACP restore unavailable''"

fun restore_text :: "RestoreFailure \<Rightarrow> string" where
  "restore_text (RfUnsupported i) =
     RESTORE_UNAVAILABLE_MARKER @ '': session_id='' @ i @ '': harness does not advertise session/resume or loadSession''"
| "restore_text (RfRejected i m reason) =
     RESTORE_UNAVAILABLE_MARKER @ '': session_id='' @ i @ '': method='' @ method_debug m @ '' rejected: '' @ reason"
| "restore_text (RfTimedOut i m) =
     RESTORE_UNAVAILABLE_MARKER @ '': session_id='' @ i @ '': method='' @ method_debug m @ '' timed out''"
| "restore_text (RfTransportLost i m reason) =
     RESTORE_UNAVAILABLE_MARKER @ '': session_id='' @ i @ '': method='' @ method_debug m @ '' transport lost: '' @ reason"

fun session_error_text :: "SessionError \<Rightarrow> string" where
  "session_error_text (SqSpawn m) = m"
| "session_error_text (SqPersist m) = m"
| "session_error_text (SqProtocol m) = m"
| "session_error_text (SqOperator m) = m"
| "session_error_text (SqRestoreUnavailable e) = restore_text e"

fun classify_spawn :: "AcpSpawnError \<Rightarrow> SessionError" where
  "classify_spawn (AsRestore e) = SqRestoreUnavailable e"
| "classify_spawn (AsMessage m) = SqSpawn m"

fun is_restore_unavailable :: "SessionError \<Rightarrow> bool" where
  "is_restore_unavailable (SqRestoreUnavailable e) \<longleftrightarrow> True"
| "is_restore_unavailable _ \<longleftrightarrow> False"

definition spawn_error_id :: "nat \<Rightarrow> string \<Rightarrow> string option" where
  "spawn_error_id generation message =
     (let kind = (if contains_str message ''Authentication required'' then Some ''auth''
                  else if contains_str message ''session/new failed'' then Some ''session_new''
                  else if contains_str message ''ACP startup timed out'' then Some ''startup_timeout''
                  else if starts_with message ''ACP restore unavailable'' then Some ''restore_unavailable''
                  else None)
      in map_option (\<lambda>k. ''g'' @ show_nat generation @ '':spawn:'' @ k) kind)"

section \<open>Session events as events of an agent\<close>

definition map_kind :: "string \<Rightarrow> ToolKind option" where
  "map_kind kind =
     (if kind = [] then None else if eq_ignore_ascii_case kind ''execute'' then Some TkExecute else Some TkOther)"

definition map_status :: "string \<Rightarrow> ToolStatus option" where
  "map_status status =
     (let s = to_ascii_lowercase status in
      if s = ''pending'' then Some TlPending
      else if s = ''in_progress'' then Some TlRunning
      else if s = ''completed'' then Some TlCompleted
      else if s = ''failed'' then Some TlFailed
      else None)"

definition turn_end_event :: "string option \<Rightarrow> AcpExecutionEvent" where
  "turn_end_event stop_reason =
     (case map_option to_ascii_lowercase stop_reason of
        Some reason \<Rightarrow>
          if reason = ''error'' then XvTurnFailed
          else if reason \<in> {''cancelled'', ''canceled''} then XvTurnCancelled
          else XvTurnEnded
      | None \<Rightarrow> XvTurnEnded)"

definition status_event :: "string \<Rightarrow> AcpExecutionEvent" where
  "status_event state =
     (let s = to_ascii_lowercase (trim state) in
      if s = ''running'' then XvStateUpdate PvRunning
      else if s \<in> {''requires_action'', ''waiting''} then XvStateUpdate PvRequiresAction
      else if s = ''idle'' then XvStateUpdate PvIdle
      else XvUnknown)"

fun execution_event :: "'j SessionServerEvent \<Rightarrow> bool \<Rightarrow> AcpExecutionEvent" where
  "execution_event (SvPromptAccepted _) in_flight = XvPromptAccepted"
| "execution_event (SvToolCall call_id title kind status _ _) in_flight =
     XvToolCallUpdate call_id \<lparr>tf_kind = map_kind kind, tf_status = map_status status, tf_command = None,
       tf_title = (if title = [] then None else Some title)\<rparr>"
| "execution_event (SvPermissionRequest request_id _ _) in_flight = XvPermissionRequested request_id"
| "execution_event (SvElicitationRequest request_id _ _) in_flight = XvInputRequested request_id"
| "execution_event (SvPermissionResolved request_id _) in_flight = XvRequestResolved request_id"
| "execution_event (SvElicitationResolved request_id _) in_flight = XvRequestResolved request_id"
| "execution_event (SvTurnEnd stop_reason) in_flight = turn_end_event stop_reason"
| "execution_event (SvError _) in_flight = (if in_flight then XvTurnFailed else XvUnknown)"
| "execution_event (SvMessage _ _ _ _ _) in_flight = XvMessageChunk"
| "execution_event (SvStatus state _) in_flight = status_event state"
| "execution_event _ in_flight = XvUnknown"

section \<open>The reporter\<close>

definition ROOT_RUN_ID :: string where
  "ROOT_RUN_ID = ''acp-session''"

definition BACKGROUND_RUN_ID :: string where
  "BACKGROUND_RUN_ID = ''background''"

datatype SessionActivity =
    SaTurnStarted | SaAwaitingOperator | SaTurnEnded | SaTurnFailed | SaRateLimited | SaCommandRunning
  | SaTestsRunning | SaAwaitingInput | SaBackgroundRunning

fun activity_observation :: "SessionActivity \<Rightarrow> LiveObservation" where
  "activity_observation SaTurnStarted = live_observation LkAgentRunning ''Agent working''"
| "activity_observation SaAwaitingOperator = live_observation LkWaitingForApproval ''Waiting for approval''"
| "activity_observation SaTurnEnded = live_observation LkDone ''Response ready''"
| "activity_observation SaTurnFailed = live_observation LkBlocked ''Agent stopped''"
| "activity_observation SaRateLimited = live_observation LkRateLimited ''Rate limited''"
| "activity_observation SaCommandRunning = live_observation LkCommandRunning ''Running command''"
| "activity_observation SaTestsRunning = live_observation LkTestsRunning ''Running tests''"
| "activity_observation SaAwaitingInput = live_observation LkWaitingForInput ''Waiting for input''"
| "activity_observation SaBackgroundRunning = live_observation LkAgentRunning SUMMARY_BACKGROUND_WORK_RUNNING"

record SessionActivityReporter =
  yr_state :: AcpExecutionState
  yr_background :: bool
  yr_last :: "SessionActivity option"

definition reporter_default :: SessionActivityReporter where
  "reporter_default = \<lparr>yr_state = acp_state_default, yr_background = False, yr_last = None\<rparr>"

definition turn_running :: "SessionActivityReporter \<Rightarrow> bool" where
  "turn_running y \<longleftrightarrow> xa_turn (yr_state y) = RtRunning"

definition turn_finished :: "SessionActivityReporter \<Rightarrow> bool" where
  "turn_finished y \<longleftrightarrow> (case xa_turn (yr_state y) of RtSettled \<Rightarrow> True | RtCancelled \<Rightarrow> True | RtFailed _ \<Rightarrow> True | _ \<Rightarrow> False)"

definition last_reported_running :: "SessionActivityReporter \<Rightarrow> bool" where
  "last_reported_running y \<longleftrightarrow>
     yr_last y \<in> {Some SaTurnStarted, Some SaCommandRunning, Some SaTestsRunning, Some SaBackgroundRunning}"

definition set_background_child :: "bool \<Rightarrow> time \<Rightarrow> SessionActivityReporter \<Rightarrow> SessionActivityReporter" where
  "set_background_child held now y =
     (if held = yr_background y then y
      else y\<lparr>yr_state := acp_apply
               (if held then XvChildStarted BACKGROUND_RUN_ID True else XvChildEnded BACKGROUND_RUN_ID True) now (yr_state y),
             yr_background := held\<rparr>)"

fun activity_of_kind :: "LiveStatusKind \<Rightarrow> SessionActivity option" where
  "activity_of_kind LkAgentRunning = Some SaTurnStarted"
| "activity_of_kind LkCommandRunning = Some SaCommandRunning"
| "activity_of_kind LkTestsRunning = Some SaTestsRunning"
| "activity_of_kind LkWaitingForApproval = Some SaAwaitingOperator"
| "activity_of_kind LkWaitingForInput = Some SaAwaitingInput"
| "activity_of_kind LkDone = Some SaTurnEnded"
| "activity_of_kind LkBlocked = Some SaTurnFailed"
| "activity_of_kind LkCommandFailed = Some SaTurnFailed"
| "activity_of_kind _ = None"

definition reduce_activity :: "time \<Rightarrow> SessionActivityReporter \<Rightarrow> SessionActivity option" where
  "reduce_activity now y =
     (let projection = reduce_agent_status \<lparr>ri_now = now, ri_primary_run_id = ROOT_RUN_ID, ri_process_liveness = None,
            ri_observations = acp_observations ROOT_RUN_ID now (yr_state y)\<rparr>
      in if sj_phase projection = PhUnknown then None
         else
           let held = sj_phase projection \<in> {PhCompletedLocallyChildrenActive, PhWaitingOnDelegated};
               activity = (if xa_turn (yr_state y) = RtFailed FkRateLimited then Some SaRateLimited
                           else if held \<and> turn_finished y then Some SaBackgroundRunning
                           else activity_of_kind (lo_kind (sj_live projection)))
           in case activity of
                None \<Rightarrow> None
              | Some a \<Rightarrow> if yr_last y = Some a then None else Some a)"

text \<open>The probe is called when a turn has ended; it reads the processes and notes what it read in a state of its own.\<close>

definition activity_for_event_with_probe ::
    "('p \<Rightarrow> bool option \<times> 'p) \<Rightarrow> time \<Rightarrow> 'j SessionServerEvent \<Rightarrow> 'p \<times> SessionActivityReporter \<Rightarrow>
     SessionActivity option \<times> 'p \<times> SessionActivityReporter" where
  "activity_for_event_with_probe probe now event = (\<lambda>(p, y).
     let in_flight = turn_running y;
         y1 = y\<lparr>yr_state := acp_apply (execution_event event in_flight) now (yr_state y)\<rparr>;
         y2 = (if turn_running y1 then set_background_child False now y1 else y1);
         ended = (case event of SvTurnEnd _ \<Rightarrow> True | _ \<Rightarrow> False);
         (p3, y3) = (if (ended \<or> in_flight) \<and> turn_finished y2
                     then (case probe p of
                             (Some held, q) \<Rightarrow> (q, set_background_child held now y2)
                           | (None, q) \<Rightarrow> (q, y2))
                     else (p, y2))
     in (reduce_activity now y3, p3, y3))"

definition activity_for_rate_limit :: "time \<Rightarrow> SessionActivityReporter \<Rightarrow> SessionActivity option \<times> SessionActivityReporter" where
  "activity_for_rate_limit now y =
     (let y1 = y\<lparr>yr_state := acp_apply XvTurnRateLimited now (yr_state y)\<rparr> in (reduce_activity now y1, y1))"

definition set_background :: "bool \<Rightarrow> time \<Rightarrow> SessionActivityReporter \<Rightarrow> SessionActivity option \<times> SessionActivityReporter" where
  "set_background held now y =
     (let y1 = set_background_child (held \<and> turn_finished y) now y in (reduce_activity now y1, y1))"

definition reset_turn :: "SessionActivityReporter \<Rightarrow> SessionActivityReporter" where
  "reset_turn y = y\<lparr>yr_state := acp_state_default, yr_background := False\<rparr>"

definition commit_activity :: "time \<Rightarrow> SessionActivity \<Rightarrow> SessionActivityReporter \<Rightarrow> SessionActivityReporter" where
  "commit_activity now activity y =
     (let y1 = (if activity = SaTurnStarted \<and> xa_turn (yr_state y) \<noteq> RtRunning
                then set_background_child False now (y\<lparr>yr_state := acp_apply XvPromptAccepted now (yr_state y)\<rparr>)
                else y)
      in y1\<lparr>yr_last := Some activity\<rparr>)"

definition first_attach_activity :: "bool \<Rightarrow> bool \<Rightarrow> bool \<Rightarrow> SessionActivity option" where
  "first_attach_activity persisted_running deferred_pending shim_adoptable =
     (if persisted_running \<and> \<not> deferred_pending \<and> \<not> shim_adoptable then Some SaTurnFailed else None)"

section \<open>Reporting to the registry\<close>

fun acp_capable :: "AgentClient \<Rightarrow> bool" where
  "acp_capable AcOther = False"
| "acp_capable _ = True"

definition record_session_activity ::
    "time \<Rightarrow> string \<Rightarrow> SessionActivity \<Rightarrow> time \<Rightarrow> InMemoryRegistry \<Rightarrow> (SessionError + unit) \<times> InMemoryRegistry" where
  "record_session_activity clock_now handle activity now r =
     (case find (\<lambda>t. qualified_handle t = handle) (list_tasks r) of
        None \<Rightarrow> (Inl (SqProtocol (''no ACP-capable task for '' @ handle)), r)
      | Some t \<Rightarrow>
          if skip_interactive_agent t \<and> acp_capable (t_selected_agent t)
          then (if bt_get (t_id t) (rg_tasks r) = None
                then (Inl (SqProtocol (''task disappeared: '' @ handle)), r)
                else (Inr (), get_task_mut (t_id t)
                        (apply_authoritative_observation_at clock_now (activity_observation activity) now) r))
          else (Inl (SqProtocol (''no ACP-capable task for '' @ handle)), r))"

section \<open>The process tree\<close>

definition SHELLS :: "string list" where
  "SHELLS = [''sh'', ''bash'', ''zsh'', ''dash'', ''fish'']"

record ProcessEntry =
  pe_pid :: nat
  pe_ppid :: nat
  pe_comm :: string

definition is_shell :: "string \<Rightarrow> bool" where
  "is_shell comm =
     (let base = rev (takeWhile (\<lambda>c. c \<noteq> CHR ''/'') (rev comm));
          name = (case strip_prefix base ''-'' of Some n \<Rightarrow> n | None \<Rightarrow> base)
      in name \<in> set SHELLS)"

text \<open>One round of the inner loop over the children of a process: what was visited, the queue and the shells found.\<close>

fun visit_child :: "ProcessEntry \<Rightarrow> nat set \<times> nat list \<times> ProcessEntry list \<Rightarrow> nat set \<times> nat list \<times> ProcessEntry list" where
  "visit_child child (visited, queue, found) =
     (if pe_pid child \<in> visited then (visited, queue, found)
      else if is_shell (pe_comm child) then (insert (pe_pid child) visited, queue, found @ [child])
      else (insert (pe_pid child) visited, queue @ [pe_pid child], found))"

definition children_of :: "ProcessEntry list \<Rightarrow> nat \<Rightarrow> ProcessEntry list" where
  "children_of table pid = filter (\<lambda>e. pe_ppid e = pid) table"

text \<open>A process enters the queue when it is first visited, so the queue shrinks or an entry of the table becomes visited.\<close>

definition unvisited :: "ProcessEntry list \<Rightarrow> nat set \<Rightarrow> nat" where
  "unvisited table visited = card (pe_pid ` set table - visited)"

lemma visit_children_measure:
  assumes "set cs \<subseteq> set table" "fold visit_child cs (visited, queue, found) = (v, q, f)"
  shows "unvisited table v + length q \<le> unvisited table visited + length queue"
  using assms
proof (induction cs arbitrary: visited queue found)
  case Nil
  then show ?case by simp
next
  case (Cons c cs)
  have fresh: "pe_pid c \<notin> visited \<Longrightarrow> Suc (unvisited table (insert (pe_pid c) visited)) \<le> unvisited table visited"
    using Cons.prems(1) unfolding unvisited_def by (intro Suc_leI psubset_card_mono) auto
  obtain v1 q1 f1 where one: "visit_child c (visited, queue, found) = (v1, q1, f1)" by (cases "visit_child c (visited, queue, found)")
  then have "unvisited table v1 + length q1 \<le> unvisited table visited + length queue"
    using fresh by (auto split: if_splits)
  moreover have "unvisited table v + length q \<le> unvisited table v1 + length q1"
    using Cons.IH [of v1 q1 f1] Cons.prems one by simp
  ultimately show ?case by simp
qed

lemma visit_children_of_measure:
  "(case fold visit_child (children_of table pid) (visited, queue, found) of
      (v, q, f) \<Rightarrow> unvisited table v + length q) < Suc (unvisited table visited + length queue)"
proof -
  have "set (children_of table pid) \<subseteq> set table" by (auto simp: children_of_def)
  then show ?thesis
    using visit_children_measure by (fastforce simp: less_Suc_eq_le split: prod.splits)
qed

function search_shells :: "ProcessEntry list \<Rightarrow> nat set \<Rightarrow> nat list \<Rightarrow> ProcessEntry list \<Rightarrow> ProcessEntry list" where
  "search_shells table visited [] found = found"
| "search_shells table visited (pid # queue) found =
     (case fold visit_child (children_of table pid) (visited, queue, found) of (v, q, f) \<Rightarrow> search_shells table v q f)"
  by pat_completeness auto

termination
  by (relation "measure (\<lambda>(table, visited, queue, found). unvisited table visited + length queue)")
    (auto simp: visit_children_of_measure)

definition background_shells :: "ProcessEntry list \<Rightarrow> nat \<Rightarrow> ProcessEntry list" where
  "background_shells table root = sort_key pe_pid (search_shells table {root} [root] [])"

definition has_background_shell :: "ProcessEntry list \<Rightarrow> nat \<Rightarrow> bool" where
  "has_background_shell table root \<longleftrightarrow> background_shells table root \<noteq> []"

definition cached_table ::
    "time \<Rightarrow> duration \<Rightarrow> ProcessEntry list option \<Rightarrow> (time \<times> ProcessEntry list) option \<Rightarrow>
     ProcessEntry list option \<times> (time \<times> ProcessEntry list) option" where
  "cached_table now max_age loaded cache =
     (case cache of
        Some (taken, table) \<Rightarrow>
          if nat (now - taken) < max_age then (Some table, cache)
          else (case loaded of Some t \<Rightarrow> (Some t, Some (now, t)) | None \<Rightarrow> (None, cache))
      | None \<Rightarrow> (case loaded of Some t \<Rightarrow> (Some t, Some (now, t)) | None \<Rightarrow> (None, cache)))"

section \<open>Background jobs\<close>

definition END_DEBOUNCE :: duration where "END_DEBOUNCE = secs 5"
definition SCAN_TTL :: duration where "SCAN_TTL = secs 30"
definition POLL_EVERY :: duration where "POLL_EVERY = secs 2"
definition IDLE_POLL_EVERY :: duration where "IDLE_POLL_EVERY = secs 5"
definition POLL_MAX_AGE :: duration where "POLL_MAX_AGE = secs 1"

datatype BackgroundStep = BsSkip | BsClear | BsPoll nat

record BackgroundLevel =
  bl_last_seen :: "time option"
  bl_last_good_scan :: "time option"
  bl_last_poll :: "time option"

definition background_level_default :: BackgroundLevel where
  "background_level_default = \<lparr>bl_last_seen = None, bl_last_good_scan = None, bl_last_poll = None\<rparr>"

definition poll_due :: "bool \<Rightarrow> bool \<Rightarrow> time \<Rightarrow> BackgroundLevel \<Rightarrow> bool" where
  "poll_due finished held now b \<longleftrightarrow>
     (let spacing = (if held then POLL_EVERY else IDLE_POLL_EVERY)
      in finished \<and> (case bl_last_poll b of None \<Rightarrow> True | Some l \<Rightarrow> spacing \<le> nat (now - l)))"

definition background_step :: "nat option \<Rightarrow> bool \<Rightarrow> bool \<Rightarrow> time \<Rightarrow> BackgroundLevel \<Rightarrow> BackgroundStep \<times> BackgroundLevel" where
  "background_step root finished held now b =
     (if held \<and> (root = None \<or> \<not> finished) then (BsClear, b)
      else case root of
        None \<Rightarrow> (BsSkip, b)
      | Some pid \<Rightarrow> if poll_due finished held now b then (BsPoll pid, b\<lparr>bl_last_poll := Some now\<rparr>) else (BsSkip, b))"

fun observe_scan :: "bool option \<Rightarrow> time \<Rightarrow> BackgroundLevel \<Rightarrow> BackgroundLevel" where
  "observe_scan (Some True) now b = b\<lparr>bl_last_seen := Some now, bl_last_good_scan := Some now\<rparr>"
| "observe_scan (Some False) now b = b\<lparr>bl_last_good_scan := Some now\<rparr>"
| "observe_scan None now b = b"

definition record_poll :: "bool option \<Rightarrow> bool \<Rightarrow> time \<Rightarrow> BackgroundLevel \<Rightarrow> bool \<times> BackgroundLevel" where
  "record_poll read held now b =
     (let b1 = observe_scan read now b
      in (case read of
            Some True \<Rightarrow> True
          | Some False \<Rightarrow> held \<and> (case bl_last_seen b1 of Some s \<Rightarrow> nat (now - s) < END_DEBOUNCE | None \<Rightarrow> False)
          | None \<Rightarrow> held \<and> (case bl_last_good_scan b1 of Some g \<Rightarrow> nat (now - g) < SCAN_TTL | None \<Rightarrow> False), b1))"

definition probe_jobs :: "nat option \<Rightarrow> ProcessEntry list option \<Rightarrow> bool option" where
  "probe_jobs root snapshot =
     (case root of
        None \<Rightarrow> Some False
      | Some pid \<Rightarrow> map_option (\<lambda>table. has_background_shell table pid) snapshot)"

section \<open>Evidence of a session\<close>

definition millis :: "nat \<Rightarrow> duration" where
  "millis n = n * 1000000"

definition ACTIVITY_RETRY_INITIAL_DELAY :: duration where "ACTIVITY_RETRY_INITIAL_DELAY = millis 50"
definition ACTIVITY_RETRY_MAX_DELAY :: duration where "ACTIVITY_RETRY_MAX_DELAY = secs 60"
definition ACTIVITY_REPORT_MAX_ATTEMPTS :: nat where "ACTIVITY_REPORT_MAX_ATTEMPTS = 3"

type_synonym 'w Report = "string \<Rightarrow> SessionActivity \<Rightarrow> 'w \<Rightarrow> bool \<times> 'w"

text \<open>The entries of live activity are shared by the sessions: an owner and its activity by handle.\<close>

type_synonym LiveEntries = "string \<rightharpoonup> nat \<times> SessionActivity"

record 'w SessionEvidence =
  ev_activity_reporter :: SessionActivityReporter
  ev_pending_activity_report :: "SessionActivity option"
  ev_report_activity :: "'w Report option"
  ev_activity_report_fault :: "string option"
  ev_pending_activity_report_error_snapshot :: bool
  ev_last_logged_spawn_error_id :: "string option"
  ev_transcript_durability_fault :: "string option"
  ev_pending_transcript_error_snapshot :: bool
  ev_transcript_corruption :: "string option"
  ev_live_activity :: "nat option"
  ev_activity_retry :: "(time \<times> duration) option"

definition publish_live :: "nat \<Rightarrow> string \<Rightarrow> SessionActivity \<Rightarrow> LiveEntries \<Rightarrow> LiveEntries" where
  "publish_live owner handle activity entries = entries(handle \<mapsto> (owner, activity))"

definition retire_live :: "nat \<Rightarrow> string \<Rightarrow> LiveEntries \<Rightarrow> LiveEntries" where
  "retire_live owner handle entries =
     (\<lambda>k. if k = handle \<and> map_option fst (entries k) = Some owner then None else entries k)"

fun activity_debug :: "SessionActivity \<Rightarrow> string" where
  "activity_debug SaTurnStarted = ''TurnStarted''"
| "activity_debug SaAwaitingOperator = ''AwaitingOperator''"
| "activity_debug SaTurnEnded = ''TurnEnded''"
| "activity_debug SaTurnFailed = ''TurnFailed''"
| "activity_debug SaRateLimited = ''RateLimited''"
| "activity_debug SaCommandRunning = ''CommandRunning''"
| "activity_debug SaTestsRunning = ''TestsRunning''"
| "activity_debug SaAwaitingInput = ''AwaitingInput''"
| "activity_debug SaBackgroundRunning = ''BackgroundRunning''"

fun report_attempts :: "nat \<Rightarrow> 'w Report \<Rightarrow> string \<Rightarrow> SessionActivity \<Rightarrow> 'w \<Rightarrow> bool \<times> 'w" where
  "report_attempts 0 report handle activity w = (False, w)"
| "report_attempts (Suc n) report handle activity w =
     (case report handle activity w of
        (True, w1) \<Rightarrow> (True, w1)
      | (False, w1) \<Rightarrow> report_attempts n report handle activity w1)"

definition try_report_session_activity ::
    "'w Report option \<Rightarrow> string \<Rightarrow> SessionActivity \<Rightarrow> 'w \<Rightarrow> (SessionError + unit) \<times> 'w" where
  "try_report_session_activity report handle activity w =
     (case report of
        None \<Rightarrow> (Inr (), w)
      | Some f \<Rightarrow>
          (case report_attempts ACTIVITY_REPORT_MAX_ATTEMPTS f handle activity w of
             (True, w1) \<Rightarrow> (Inr (), w1)
           | (False, w1) \<Rightarrow>
               (Inl (SqPersist (''task activity report failed after '' @ show_nat ACTIVITY_REPORT_MAX_ATTEMPTS
                      @ '' attempts ('' @ activity_debug activity @ '')'')), w1)))"

definition activity_report_transcript_error :: "SessionError \<Rightarrow> string" where
  "activity_report_transcript_error e = ''task activity report failed: '' @ session_error_text e"

definition should_skip_duplicate_spawn_error ::
    "nat \<Rightarrow> 'j SessionServerEvent \<Rightarrow> 'w SessionEvidence \<Rightarrow> bool \<times> 'w SessionEvidence" where
  "should_skip_duplicate_spawn_error generation event e =
     (case event of
        SvError message \<Rightarrow>
          (case spawn_error_id generation message of
             None \<Rightarrow> (False, e)
           | Some i \<Rightarrow> if ev_last_logged_spawn_error_id e = Some i then (True, e)
                       else (False, e\<lparr>ev_last_logged_spawn_error_id := Some i\<rparr>))
      | _ \<Rightarrow> (False, e))"

definition note_transcript_durability_fault :: "string \<Rightarrow> 'w SessionEvidence \<Rightarrow> 'w SessionEvidence" where
  "note_transcript_durability_fault reason e =
     e\<lparr>ev_transcript_durability_fault := Some reason, ev_pending_transcript_error_snapshot := True\<rparr>"

definition clear_transcript_durability_fault :: "'w SessionEvidence \<Rightarrow> 'w SessionEvidence" where
  "clear_transcript_durability_fault e =
     (if ev_transcript_durability_fault e = None then e
      else e\<lparr>ev_transcript_durability_fault := None, ev_pending_transcript_error_snapshot := True\<rparr>)"

definition transcript_error :: "'w SessionEvidence \<Rightarrow> string option" where
  "transcript_error e =
     (case ev_transcript_durability_fault e of
        Some f \<Rightarrow> Some f
      | None \<Rightarrow> (case ev_activity_report_fault e of Some f \<Rightarrow> Some f | None \<Rightarrow> ev_transcript_corruption e))"

definition prompts_blocked :: "'w SessionEvidence \<Rightarrow> bool" where
  "prompts_blocked e \<longleftrightarrow> ev_transcript_durability_fault e \<noteq> None"

definition clear_activity_report_fault :: "'w SessionEvidence \<Rightarrow> 'w SessionEvidence" where
  "clear_activity_report_fault e =
     (if ev_activity_report_fault e = None then e
      else e\<lparr>ev_activity_report_fault := None, ev_pending_transcript_error_snapshot := True\<rparr>)"

definition note_activity_report_failure :: "SessionError \<Rightarrow> 'w SessionEvidence \<Rightarrow> 'w SessionEvidence" where
  "note_activity_report_failure error e =
     (let message = activity_report_transcript_error error;
          e1 = (if ev_activity_report_fault e = Some message then e
                else e\<lparr>ev_pending_activity_report_error_snapshot := True\<rparr>)
      in e1\<lparr>ev_activity_report_fault := Some message\<rparr>)"

definition clear_pending_activity_report :: "'w SessionEvidence \<Rightarrow> 'w SessionEvidence" where
  "clear_pending_activity_report e = e\<lparr>ev_pending_activity_report := None, ev_activity_retry := None\<rparr>"

definition commit_report :: "time \<Rightarrow> SessionActivity \<Rightarrow> 'w SessionEvidence \<Rightarrow> 'w SessionEvidence" where
  "commit_report now activity e =
     clear_activity_report_fault (clear_pending_activity_report
       (e\<lparr>ev_activity_reporter := commit_activity now activity (ev_activity_reporter e)\<rparr>))"

definition flush_pending_activity_report ::
    "string \<Rightarrow> time \<Rightarrow> 'w SessionEvidence \<times> 'w \<Rightarrow> 'w SessionEvidence \<times> 'w" where
  "flush_pending_activity_report handle now = (\<lambda>(e, w).
     (case ev_pending_activity_report e of
        None \<Rightarrow> (e, w)
      | Some pending \<Rightarrow>
          (case try_report_session_activity (ev_report_activity e) handle pending w of
             (Inr _, w1) \<Rightarrow> (commit_report now pending e, w1)
           | (Inl error, w1) \<Rightarrow> (note_activity_report_failure error e, w1))))"

definition retry_pending_activity_report ::
    "string \<Rightarrow> time \<Rightarrow> time \<Rightarrow> 'w SessionEvidence \<times> 'w \<Rightarrow> 'w SessionEvidence \<times> 'w" where
  "retry_pending_activity_report handle instant now = (\<lambda>(e, w).
     if ev_pending_activity_report e = None then (e\<lparr>ev_activity_retry := None\<rparr>, w)
     else if (case ev_activity_retry e of Some (due, _) \<Rightarrow> instant < due | None \<Rightarrow> False) then (e, w)
     else
       let (e1, w1) = flush_pending_activity_report handle now (e, w)
       in if ev_pending_activity_report e1 = None then (e1\<lparr>ev_activity_retry := None\<rparr>, w1)
          else
            let delay = (case ev_activity_retry e1 of
                           Some (_, previous) \<Rightarrow> min (previous * 2) ACTIVITY_RETRY_MAX_DELAY
                         | None \<Rightarrow> ACTIVITY_RETRY_INITIAL_DELAY)
            in (e1\<lparr>ev_activity_retry := Some (instant + int delay, delay)\<rparr>, w1))"

text \<open>The live entries are published at once, before the report is tried.\<close>

definition report_activity ::
    "string \<Rightarrow> time \<Rightarrow> SessionActivity \<Rightarrow> 'w SessionEvidence \<times> LiveEntries \<times> 'w \<Rightarrow> 'w SessionEvidence \<times> LiveEntries \<times> 'w" where
  "report_activity handle now activity = (\<lambda>(e, live, w).
     let live1 = (case ev_live_activity e of Some owner \<Rightarrow> publish_live owner handle activity live | None \<Rightarrow> live)
     in case try_report_session_activity (ev_report_activity e) handle activity w of
          (Inr _, w1) \<Rightarrow> (commit_report now activity e, live1, w1)
        | (Inl error, w1) \<Rightarrow>
            ((note_activity_report_failure error e)\<lparr>ev_pending_activity_report := Some activity\<rparr>, live1, w1))"

definition report_activity_for_event_with_probe ::
    "string \<Rightarrow> ('p \<Rightarrow> bool option \<times> 'p) \<Rightarrow> time \<Rightarrow> 'j SessionServerEvent \<Rightarrow>
     'p \<times> 'w SessionEvidence \<times> LiveEntries \<times> 'w \<Rightarrow> 'p \<times> 'w SessionEvidence \<times> LiveEntries \<times> 'w" where
  "report_activity_for_event_with_probe handle probe now event = (\<lambda>(p, e, live, w).
     case activity_for_event_with_probe probe now event (p, ev_activity_reporter e) of
       (None, p1, y) \<Rightarrow> (p1, e\<lparr>ev_activity_reporter := y\<rparr>, live, w)
     | (Some activity, p1, y) \<Rightarrow> (p1, report_activity handle now activity (e\<lparr>ev_activity_reporter := y\<rparr>, live, w)))"

text \<open>The reports of the events that were just stored: the failed report is tried again first.\<close>

definition read_level :: "nat option \<Rightarrow> ProcessEntry list option \<Rightarrow> time \<Rightarrow> BackgroundLevel \<Rightarrow> bool option \<times> BackgroundLevel" where
  "read_level root snapshot now b = (let read = probe_jobs root snapshot in (read, observe_scan read now b))"

definition report_committed_events ::
    "string \<Rightarrow> nat \<Rightarrow> nat option \<Rightarrow> ProcessEntry list option \<Rightarrow> time \<Rightarrow> 'j SessionServerEvent list \<Rightarrow>
     BackgroundLevel \<times> 'w SessionEvidence \<times> LiveEntries \<times> 'w \<Rightarrow> BackgroundLevel \<times> 'w SessionEvidence \<times> LiveEntries \<times> 'w" where
  "report_committed_events handle generation root snapshot now events = (\<lambda>(b, e, live, w).
     let (e1, w1) = flush_pending_activity_report handle now (e, w)
     in fold (\<lambda>event (b, e, live, w).
           report_activity_for_event_with_probe handle (read_level root snapshot now) now event
             (b, snd (should_skip_duplicate_spawn_error generation event e), live, w))
         events (b, e1, live, w1))"

definition poll_background_jobs ::
    "string \<Rightarrow> nat option \<Rightarrow> ProcessEntry list option \<Rightarrow> time \<Rightarrow> BackgroundLevel \<times> 'w SessionEvidence \<times> LiveEntries \<times> 'w \<Rightarrow>
     BackgroundLevel \<times> 'w SessionEvidence \<times> LiveEntries \<times> 'w" where
  "poll_background_jobs handle root snapshot now = (\<lambda>(b, e, live, w).
     let y = ev_activity_reporter e;
         held = yr_background y;
         set_level = (\<lambda>level b1.
           case set_background level now y of
             (None, y1) \<Rightarrow> (b1, e\<lparr>ev_activity_reporter := y1\<rparr>, live, w)
           | (Some activity, y1) \<Rightarrow> (b1, report_activity handle now activity (e\<lparr>ev_activity_reporter := y1\<rparr>, live, w)))
     in case background_step root (turn_finished y) held now b of
          (BsSkip, b1) \<Rightarrow> (b1, e, live, w)
        | (BsClear, b1) \<Rightarrow> set_level False b1
        | (BsPoll pid, b1) \<Rightarrow>
            (case record_poll (probe_jobs (Some pid) snapshot) held now b1 of
               (next_level, b2) \<Rightarrow> if next_level = held then (b2, e, live, w) else set_level next_level b2))"

section \<open>Lemmas: the search of the process tree\<close>

text \<open>The processes that descend from the root through processes that are not shells.\<close>

inductive spawned :: "ProcessEntry list \<Rightarrow> nat \<Rightarrow> nat \<Rightarrow> bool" for table root where
  spawned_root [intro]: "spawned table root root"
| spawned_child [intro]: "\<lbrakk>spawned table root (pe_ppid e); e \<in> set table; \<not> is_shell (pe_comm e)\<rbrakk> \<Longrightarrow> spawned table root (pe_pid e)"

text \<open>What the search knows: the entries visited (\<open>E\<close>), the shells among them, and the others, that are expanded or queued.\<close>

definition inner :: "nat \<Rightarrow> ProcessEntry set \<Rightarrow> nat set" where
  "inner root E = insert root (pe_pid ` {e \<in> E. \<not> is_shell (pe_comm e)})"

definition explored ::
    "ProcessEntry list \<Rightarrow> nat \<Rightarrow> ProcessEntry set \<Rightarrow> nat set \<times> nat list \<times> ProcessEntry list \<Rightarrow> bool" where
  "explored table root E = (\<lambda>(visited, queue, found).
     E \<subseteq> set table \<and> visited = insert root (pe_pid ` E) \<and> set found = {e \<in> E. is_shell (pe_comm e)} \<and>
     distinct (map pe_pid found) \<and> set queue \<subseteq> inner root E \<and>
     (\<forall>e \<in> E. spawned table root (pe_ppid e) \<and> pe_pid e \<noteq> root))"

lemma same_pid:
  assumes "distinct (map pe_pid table)" "a \<in> set table" "b \<in> set table" "pe_pid a = pe_pid b"
  shows "a = b"
  using assms by (auto simp: distinct_map inj_on_def)

lemma explored_child:
  assumes "distinct (map pe_pid table)" "explored table root E (V, Q, F)" "c \<in> set table" "spawned table root (pe_ppid c)"
  shows "\<exists>E'. explored table root E' (visit_child c (V, Q, F)) \<and> E \<subseteq> E' \<and> (c \<in> E' \<or> pe_pid c = root) \<and>
           set Q \<union> (inner root E' - inner root E) \<subseteq> set (fst (snd (visit_child c (V, Q, F))))"
proof (cases "pe_pid c \<in> V")
  case True
  then have "c \<in> E \<or> pe_pid c = root"
    using assms same_pid [OF assms(1) assms(3)] by (auto simp: explored_def)
  with True assms(2) show ?thesis by (intro exI [of _ E]) simp
next
  case False
  have "explored table root (insert c E) (visit_child c (V, Q, F))"
    using False assms by (auto simp: explored_def inner_def)
  then show ?thesis using False by (intro exI [of _ "insert c E"]) (auto simp: inner_def)
qed

lemma explored_children:
  assumes "distinct (map pe_pid table)" "explored table root E (V, Q, F)"
    and "set cs \<subseteq> set table" "\<And>c. c \<in> set cs \<Longrightarrow> spawned table root (pe_ppid c)"
  shows "\<exists>E'. explored table root E' (fold visit_child cs (V, Q, F)) \<and> E \<subseteq> E' \<and> (\<forall>c \<in> set cs. c \<in> E' \<or> pe_pid c = root) \<and>
           set Q \<union> (inner root E' - inner root E) \<subseteq> set (fst (snd (fold visit_child cs (V, Q, F))))"
  using assms(2-)
proof (induction cs arbitrary: E V Q F)
  case Nil
  then show ?case by auto
next
  case (Cons c cs)
  obtain E1 where one: "explored table root E1 (visit_child c (V, Q, F))" "E \<subseteq> E1" "c \<in> E1 \<or> pe_pid c = root"
    "set Q \<union> (inner root E1 - inner root E) \<subseteq> set (fst (snd (visit_child c (V, Q, F))))"
    using explored_child [OF assms(1) Cons.prems(1)] Cons.prems(2,3) by (metis list.set_intros(1) subset_iff)
  obtain V1 Q1 F1 where step: "visit_child c (V, Q, F) = (V1, Q1, F1)" by (cases "visit_child c (V, Q, F)")
  obtain E2 where "explored table root E2 (fold visit_child cs (V1, Q1, F1))" "E1 \<subseteq> E2"
    "\<forall>c \<in> set cs. c \<in> E2 \<or> pe_pid c = root"
    "set Q1 \<union> (inner root E2 - inner root E1) \<subseteq> set (fst (snd (fold visit_child cs (V1, Q1, F1))))"
    using Cons.IH [OF one(1) [unfolded step]] Cons.prems(2,3) by force
  with one step show ?case by (intro exI [of _ E2]) (auto simp del: visit_child.simps)
qed

text \<open>The search ends with all children of all inner processes visited.\<close>

lemma search_explores:
  assumes "distinct (map pe_pid table)" "explored table root E (V, Q, F)"
    and "\<And>e. \<lbrakk>e \<in> set table; pe_ppid e \<in> inner root E - set Q\<rbrakk> \<Longrightarrow> e \<in> E \<or> pe_pid e = root"
  shows "\<exists>E'. E' \<subseteq> set table \<and> set (search_shells table V Q F) = {e \<in> E'. is_shell (pe_comm e)} \<and>
           distinct (map pe_pid (search_shells table V Q F)) \<and>
           (\<forall>e \<in> E'. spawned table root (pe_ppid e) \<and> pe_pid e \<noteq> root) \<and>
           (\<forall>e \<in> set table. pe_ppid e \<in> inner root E' \<longrightarrow> e \<in> E' \<or> pe_pid e = root)"
  using assms
proof (induction table V Q F arbitrary: E rule: search_shells.induct)
  case (1 table visited found)
  then show ?case by (intro exI [of _ E]) (auto simp: explored_def)
next
  case (2 table visited pid queue found)
  have inv: "explored table root E (visited, queue, found)" "pid \<in> inner root E"
    using 2(3) by (auto simp: explored_def)
  have spawned: "spawned table root p" if "p \<in> inner root E" for p
    using that 2(3) by (auto simp: inner_def explored_def)
  obtain v q f where step: "fold visit_child (children_of table pid) (visited, queue, found) = (v, q, f)"
    by (cases "fold visit_child (children_of table pid) (visited, queue, found)")
  obtain E1 where one: "explored table root E1 (v, q, f)" "E \<subseteq> E1"
    "\<forall>c \<in> set (children_of table pid). c \<in> E1 \<or> pe_pid c = root"
    "set queue \<union> (inner root E1 - inner root E) \<subseteq> set q"
    using explored_children [OF 2(2) inv(1), of "children_of table pid"] spawned [OF inv(2)] step
    by (auto simp: children_of_def)
  have "e \<in> E1 \<or> pe_pid e = root" if "e \<in> set table" "pe_ppid e \<in> inner root E1 - set q" for e
  proof (cases "pe_ppid e = pid")
    case True
    then show ?thesis using one(3) that by (simp add: children_of_def)
  next
    case False
    then have "pe_ppid e \<in> inner root E - set (pid # queue)" using that one(4) by auto
    then show ?thesis using 2(4) that one(2) by blast
  qed
  from 2(1) [OF step [symmetric] refl 2(2) one(1) this] show ?case by (simp add: step)
qed

section \<open>Lemmas: the activity of a session\<close>

text \<open>The only child of the agent of a session is its background work, and only a finished turn has it.\<close>

definition reporter_ok :: "SessionActivityReporter \<Rightarrow> bool" where
  "reporter_ok y \<longleftrightarrow>
     xa_children (yr_state y) = (if yr_background y then [(BACKGROUND_RUN_ID, \<lparr>chr_state = ChRunning, chr_completion_holding = True\<rparr>)] else [])
     \<and> (yr_background y \<longrightarrow> turn_finished y)"

text \<open>The reporters a session can have; the contents of an event (JSON values, here their text) play no part in it.\<close>

inductive session_reporter :: "SessionActivityReporter \<Rightarrow> bool" where
  sr_start: "session_reporter reporter_default"
| sr_event: "session_reporter y \<Longrightarrow> session_reporter (snd (snd
     (activity_for_event_with_probe (probe :: BackgroundLevel \<Rightarrow> _) now (event :: string SessionServerEvent) (p, y))))"
| sr_rate_limit: "session_reporter y \<Longrightarrow> session_reporter (snd (activity_for_rate_limit now y))"
| sr_background: "session_reporter y \<Longrightarrow> session_reporter (snd (set_background held now y))"
| sr_reset: "session_reporter y \<Longrightarrow> session_reporter (reset_turn y)"
| sr_commit: "session_reporter y \<Longrightarrow> session_reporter (commit_activity now activity y)"

text \<open>The reference: what a session reports, from its turn, its open requests and its running tools.\<close>

definition session_activity :: "SessionActivityReporter \<Rightarrow> SessionActivity option" where
  "session_activity y =
     (let s = yr_state y; tools = filter (\<lambda>t. tcl_kind t = Some TkExecute \<and> tcl_status t = TlRunning) (bt_values (xa_tools s))
      in case xa_turn s of
           RtFailed FkRateLimited \<Rightarrow> Some SaRateLimited
         | RtFailed _ \<Rightarrow> Some (if yr_background y then SaBackgroundRunning else SaTurnFailed)
         | RtSettled \<Rightarrow> Some (if yr_background y then SaBackgroundRunning else SaTurnEnded)
         | RtCancelled \<Rightarrow> Some (if yr_background y then SaBackgroundRunning else SaTurnEnded)
         | turn \<Rightarrow>
             if KWaitingInput \<in> set (bt_values (xa_requests s)) then Some SaAwaitingInput
             else if xa_requests s \<noteq> [] then Some SaAwaitingOperator
             else if turn = RtIdle \<or> xa_provider_state s = Some PvRequiresAction then None
             else if list_ex tcl_is_tests tools then Some SaTestsRunning
             else if tools \<noteq> [] then Some SaCommandRunning
             else Some SaTurnStarted)"

lemma tools_reference:
  "tools_activity ts kind =
     (let rs = filter (\<lambda>t. tcl_kind t = Some TkExecute \<and> tcl_status t = TlRunning) ts
      in if list_ex tcl_is_tests rs then KTestsRunning else if rs \<noteq> [] then KCommandRunning else kind)"
  by (induction ts arbitrary: kind) (auto simp: Let_def)

lemma children_kept:
  "xa_children (acp_apply (execution_event event in_flight) now s) = xa_children s"
proof -
  have "case execution_event event in_flight of XvChildStarted _ _ \<Rightarrow> False | XvChildUpdated _ _ _ \<Rightarrow> False
      | XvChildEnded _ _ \<Rightarrow> False | _ \<Rightarrow> True"
    by (cases event) (auto simp: turn_end_event_def status_event_def Let_def split: option.split)
  then show ?thesis
    by (cases "execution_event event in_flight")
      (auto simp: acp_apply_def update_tool_def end_turn_def Let_def split: option.split)
qed

definition finished_turn :: "RootTurnState \<Rightarrow> bool" where
  "finished_turn turn \<longleftrightarrow> turn \<noteq> RtIdle \<and> turn \<noteq> RtRunning"

lemma turn_finished_iff: "turn_finished y \<longleftrightarrow> finished_turn (xa_turn (yr_state y))"
  by (simp add: turn_finished_def finished_turn_def split: RootTurnState.split)

lemma turn_after_finished:
  "finished_turn (xa_turn s) \<Longrightarrow> finished_turn (xa_turn (acp_apply e now s)) \<or> xa_turn (acp_apply e now s) = RtRunning"
  by (cases e) (auto simp: acp_apply_def finished_turn_def update_tool_def put_child_def end_turn_def Let_def split: option.split)

definition children_ok :: "SessionActivityReporter \<Rightarrow> bool" where
  "children_ok y \<longleftrightarrow> xa_children (yr_state y) =
     (if yr_background y then [(BACKGROUND_RUN_ID, \<lparr>chr_state = ChRunning, chr_completion_holding = True\<rparr>)] else [])"

lemma background_child:
  assumes "children_ok y"
  shows "children_ok (set_background_child held now y)" "yr_background (set_background_child held now y) = held"
    "xa_turn (yr_state (set_background_child held now y)) = xa_turn (yr_state y)"
    "yr_last (set_background_child held now y) = yr_last y"
  using assms by (auto simp: set_background_child_def children_ok_def acp_apply_def put_child_def bt_remove_def)

lemma reporter_ok_iff: "reporter_ok y \<longleftrightarrow> children_ok y \<and> (yr_background y \<longrightarrow> turn_finished y)"
  by (simp add: reporter_ok_def children_ok_def)

lemma reporter_ok_set: "\<lbrakk>children_ok y; held \<longrightarrow> turn_finished y\<rbrakk> \<Longrightarrow> reporter_ok (set_background_child held now y)"
  by (simp add: reporter_ok_iff background_child turn_finished_iff)

lemma reporter_ok_event:
  assumes "reporter_ok y"
  shows "reporter_ok (snd (snd (activity_for_event_with_probe probe now event (p, y))))"
proof -
  define y1 where "y1 = y\<lparr>yr_state := acp_apply (execution_event event (turn_running y)) now (yr_state y)\<rparr>"
  define y2 where "y2 = (if turn_running y1 then set_background_child False now y1 else y1)"
  have ok1: "children_ok y1" using assms by (simp add: y1_def children_ok_def children_kept reporter_ok_iff)
  have "yr_background y1 \<longrightarrow> turn_finished y1 \<or> turn_running y1"
    using assms turn_after_finished [of "yr_state y"]
    by (auto simp: y1_def reporter_ok_iff turn_finished_iff turn_running_def)
  then have ok2: "reporter_ok y2"
    using ok1 reporter_ok_set [OF ok1, of False now] by (auto simp: y2_def reporter_ok_iff)
  have probed: "reporter_ok (set_background_child held now y2)" if "turn_finished y2" for held
    using that ok2 reporter_ok_set by (simp add: reporter_ok_iff)
  show ?thesis
    unfolding activity_for_event_with_probe_def prod.case Let_def y1_def [symmetric] y2_def [symmetric]
    using ok2 probed by (simp split: prod.split option.split)
qed

lemma reporter_ok_rate_limit: "reporter_ok y \<Longrightarrow> reporter_ok (snd (activity_for_rate_limit now y))"
  by (simp add: activity_for_rate_limit_def Let_def reporter_ok_iff children_ok_def turn_finished_iff acp_apply_def end_turn_def finished_turn_def)

lemma reporter_ok_commit: "reporter_ok y \<Longrightarrow> reporter_ok (commit_activity now activity y)"
proof -
  assume ok: "reporter_ok y"
  define y1 where "y1 = y\<lparr>yr_state := acp_apply XvPromptAccepted now (yr_state y)\<rparr>"
  have "children_ok y1" using ok by (simp add: y1_def reporter_ok_iff children_ok_def acp_apply_def)
  then have "reporter_ok (set_background_child False now y1)" by (simp add: reporter_ok_set)
  with ok show ?thesis
    unfolding commit_activity_def Let_def y1_def [symmetric]
    by (auto simp: reporter_ok_def turn_finished_def)
qed

lemma session_reporter_ok: "session_reporter y \<Longrightarrow> reporter_ok y"
proof (induction rule: session_reporter.induct)
  case (sr_background y held now)
  then show ?case by (simp add: set_background_def Let_def reporter_ok_set reporter_ok_iff [THEN iffD1])
qed (simp_all add: reporter_ok_event reporter_ok_rate_limit reporter_ok_commit,
     simp_all add: reporter_ok_def reporter_default_def acp_state_default_def reset_turn_def)

lemma reporter_holds: "reporter_ok y \<Longrightarrow> holding_children ROOT_RUN_ID (yr_state y) = yr_background y"
  by (simp add: reporter_ok_def holding_children_def ROOT_RUN_ID_def BACKGROUND_RUN_ID_def)

lemma reduce_is_reference:
  assumes "reporter_ok y"
  shows "reduce_activity now y = (if session_activity y = yr_last y then None else session_activity y)"
proof -
  define p where "p = reduce_agent_status \<lparr>ri_now = now, ri_primary_run_id = ROOT_RUN_ID, ri_process_liveness = None,
      ri_observations = acp_observations ROOT_RUN_ID now (yr_state y)\<rparr>"
  have p: "sj_phase p = fst (acp_projection ROOT_RUN_ID (yr_state y))"
    "lo_kind (sj_live p) = snd (acp_projection ROOT_RUN_ID (yr_state y))"
    using reduce_acp [of now ROOT_RUN_ID "yr_state y"] unfolding p_def [symmetric] by (metis fst_conv snd_conv)+
  have held: "yr_background y \<longrightarrow> finished_turn (xa_turn (yr_state y))"
    using assms by (simp add: reporter_ok_iff turn_finished_iff)
  have asked: "list_ex (\<lambda>kind. kind = KWaitingInput) ks \<longleftrightarrow> KWaitingInput \<in> set ks" for ks
    by (auto simp: list_ex_iff)
  have "(if sj_phase p = PhUnknown then None
     else if xa_turn (yr_state y) = RtFailed FkRateLimited then Some SaRateLimited
     else if sj_phase p \<in> {PhCompletedLocallyChildrenActive, PhWaitingOnDelegated} \<and> turn_finished y then Some SaBackgroundRunning
     else activity_of_kind (lo_kind (sj_live p))) = session_activity y"
    using held
    by (cases "xa_turn (yr_state y)")
      (simp_all add: p acp_projection_def reporter_holds [OF assms] root_activity_def session_activity_def tools_reference
        turn_finished_def finished_turn_def asked bt_values_def Let_def split: FailureKind.splits)
  then show ?thesis
    unfolding reduce_activity_def p_def [symmetric] Let_def by (auto split: if_splits option.splits)
qed

section \<open>Lemmas: reports and retries\<close>

text \<open>The evidence a session can have: it starts without a report that failed, and the events, the limits of the rate, the
  background work, a retry and the faults of the transcript are its steps.\<close>

definition fresh_evidence :: "'w SessionEvidence \<Rightarrow> bool" where
  "fresh_evidence e \<longleftrightarrow> ev_activity_reporter e = reporter_default \<and> ev_pending_activity_report e = None
     \<and> ev_activity_report_fault e = None \<and> ev_activity_retry e = None"

inductive session_evidence :: "'w SessionEvidence \<Rightarrow> bool" where
  se_start: "fresh_evidence e \<Longrightarrow> session_evidence e"
| se_report: "session_evidence e \<Longrightarrow> session_evidence (fst (report_activity handle now activity (e, live, w)))"
| se_flush: "session_evidence e \<Longrightarrow> session_evidence (fst (flush_pending_activity_report handle now (e, w)))"
| se_retry: "session_evidence e \<Longrightarrow> session_evidence (fst (retry_pending_activity_report handle instant now (e, w)))"
| se_reporter: "session_evidence e \<Longrightarrow> session_evidence (e\<lparr>ev_activity_reporter := y\<rparr>)"
| se_fault: "session_evidence e \<Longrightarrow> session_evidence (note_transcript_durability_fault reason e)"
| se_clear: "session_evidence e \<Longrightarrow> session_evidence (clear_transcript_durability_fault e)"
| se_sent: "session_evidence e \<Longrightarrow> session_evidence (e\<lparr>ev_pending_activity_report_error_snapshot := a,
    ev_pending_transcript_error_snapshot := b, ev_transcript_corruption := c\<rparr>)"

definition evidence_ok :: "'w SessionEvidence \<Rightarrow> bool" where
  "evidence_ok e \<longleftrightarrow>
     (ev_pending_activity_report e = None \<longleftrightarrow> ev_activity_report_fault e = None)
     \<and> (\<forall>due delay. ev_activity_retry e = Some (due, delay) \<longrightarrow>
          ev_pending_activity_report e \<noteq> None \<and> ACTIVITY_RETRY_INITIAL_DELAY \<le> delay \<and> delay \<le> ACTIVITY_RETRY_MAX_DELAY)"

lemma commit_report_simps [simp]:
  "ev_pending_activity_report (commit_report now activity e) = None"
  "ev_activity_report_fault (commit_report now activity e) = None"
  "ev_activity_retry (commit_report now activity e) = None"
  "ev_activity_reporter (commit_report now activity e) = commit_activity now activity (ev_activity_reporter e)"
  "ev_transcript_durability_fault (commit_report now activity e) = ev_transcript_durability_fault e"
  "ev_transcript_corruption (commit_report now activity e) = ev_transcript_corruption e"
  by (simp_all add: commit_report_def clear_activity_report_fault_def clear_pending_activity_report_def)

lemma note_failure_simps [simp]:
  "ev_pending_activity_report (note_activity_report_failure error e) = ev_pending_activity_report e"
  "ev_activity_report_fault (note_activity_report_failure error e) = Some (activity_report_transcript_error error)"
  "ev_activity_retry (note_activity_report_failure error e) = ev_activity_retry e"
  "ev_activity_reporter (note_activity_report_failure error e) = ev_activity_reporter e"
  by (simp_all add: note_activity_report_failure_def Let_def)

lemma committed_ok: "evidence_ok (commit_report now activity e)"
  by (simp add: evidence_ok_def)

lemma flush_ok: "evidence_ok e \<Longrightarrow> evidence_ok (fst (flush_pending_activity_report handle now (e, w)))"
  by (auto simp: flush_pending_activity_report_def committed_ok split: option.split sum.split prod.split)
    (auto simp: evidence_ok_def)

lemma report_ok: "evidence_ok e \<Longrightarrow> evidence_ok (fst (report_activity handle now activity (e, live, w)))"
  by (auto simp: report_activity_def Let_def committed_ok split: sum.split prod.split) (auto simp: evidence_ok_def)

lemma delay_bounds: "ACTIVITY_RETRY_INITIAL_DELAY \<le> ACTIVITY_RETRY_MAX_DELAY"
  by (simp add: ACTIVITY_RETRY_INITIAL_DELAY_def ACTIVITY_RETRY_MAX_DELAY_def millis_def secs_def)

lemma retry_ok:
  assumes "evidence_ok e"
  shows "evidence_ok (fst (retry_pending_activity_report handle instant now (e, w)))"
proof -
  obtain e1 w1 where flush: "flush_pending_activity_report handle now (e, w) = (e1, w1)"
    by (cases "flush_pending_activity_report handle now (e, w)")
  then have ok: "evidence_ok e1" using flush_ok [OF assms, of handle now w] by simp
  then have "evidence_ok (e1\<lparr>ev_activity_retry := Some (instant + int delay, delay)\<rparr>)"
    if "ev_pending_activity_report e1 \<noteq> None" "ACTIVITY_RETRY_INITIAL_DELAY \<le> delay" "delay \<le> ACTIVITY_RETRY_MAX_DELAY" for delay
    using that ok by (auto simp: evidence_ok_def)
  moreover have "ACTIVITY_RETRY_INITIAL_DELAY \<le> previous * 2" if "ev_activity_retry e1 = Some (due, previous)" for due previous
    using ok that by (auto simp: evidence_ok_def)
  moreover have "evidence_ok (e'\<lparr>ev_activity_retry := None\<rparr>)" if "evidence_ok e'" for e' :: "'a SessionEvidence"
    using that by (simp add: evidence_ok_def)
  ultimately show ?thesis
    using assms ok delay_bounds
    by (auto simp: retry_pending_activity_report_def flush Let_def split: option.split)
qed

lemma session_evidence_ok: "session_evidence e \<Longrightarrow> evidence_ok e"
proof (induction rule: session_evidence.induct)
  case (se_start e)
  then show ?case by (simp add: fresh_evidence_def evidence_ok_def)
qed ((rule report_ok flush_ok retry_ok, assumption) |
     force simp: evidence_ok_def note_transcript_durability_fault_def clear_transcript_durability_fault_def)+

lemma retry_when_due:
  assumes "ev_pending_activity_report e = Some activity" "\<forall>due delay. ev_activity_retry e = Some (due, delay) \<longrightarrow> due \<le> instant"
  shows "retry_pending_activity_report handle instant now (e, w) =
    (case try_report_session_activity (ev_report_activity e) handle activity w of
       (Inr _, w1) \<Rightarrow> (commit_report now activity e, w1)
     | (Inl error, w1) \<Rightarrow>
         let delay = (case ev_activity_retry e of Some (_, previous) \<Rightarrow> min (previous * 2) ACTIVITY_RETRY_MAX_DELAY
                                                | None \<Rightarrow> ACTIVITY_RETRY_INITIAL_DELAY)
         in ((note_activity_report_failure error e)\<lparr>ev_activity_retry := Some (instant + int delay, delay)\<rparr>, w1))"
proof -
  have "\<not> (case ev_activity_retry e of Some (due, _) \<Rightarrow> instant < due | None \<Rightarrow> False)"
    using assms(2) by (cases "ev_activity_retry e") fastforce+
  moreover have "(commit_report now activity e)\<lparr>ev_activity_retry := None\<rparr> = commit_report now activity e"
    using commit_report_simps(3) [of now activity e] by (cases "commit_report now activity e") simp
  ultimately show ?thesis
    using assms(1)
    by (auto simp: retry_pending_activity_report_def flush_pending_activity_report_def Let_def split: sum.split prod.split)
qed

section \<open>Properties\<close>

text \<open>C31: The search for background jobs is exact: in a table of processes with distinct ids, whatever its order and even
  where the parents form a cycle, it ends and returns, in the order of their ids, exactly the shells other than the root
  whose parent is the root or descends from it through processes that are not shells.\<close>

theorem background_shells_are_exact:
  assumes "distinct (map pe_pid table)"
  shows "set (background_shells table root) =
      {e \<in> set table. is_shell (pe_comm e) \<and> pe_pid e \<noteq> root \<and> spawned table root (pe_ppid e)}
    \<and> sorted_wrt (\<lambda>a b. pe_pid a < pe_pid b) (background_shells table root)"
proof (intro conjI)
  have start: "explored table root {} ({root}, [root], [])" by (auto simp: explored_def inner_def)
  have "e \<in> {} \<or> pe_pid e = root" if "e \<in> set table" "pe_ppid e \<in> inner root {} - set [root]" for e
    using that by (simp add: inner_def)
  from search_explores [OF assms start this] obtain E where E: "E \<subseteq> set table"
    "set (search_shells table {root} [root] []) = {e \<in> E. is_shell (pe_comm e)}"
    "distinct (map pe_pid (search_shells table {root} [root] []))"
    "\<forall>e \<in> E. spawned table root (pe_ppid e) \<and> pe_pid e \<noteq> root"
    "\<forall>e \<in> set table. pe_ppid e \<in> inner root E \<longrightarrow> e \<in> E \<or> pe_pid e = root" by blast
  have "p \<in> inner root E" if "spawned table root p" for p
    using that by induction (use E(5) in \<open>auto simp: inner_def\<close>)
  with E show "set (background_shells table root) =
      {e \<in> set table. is_shell (pe_comm e) \<and> pe_pid e \<noteq> root \<and> spawned table root (pe_ppid e)}"
    by (auto simp: background_shells_def)
  have "distinct (map pe_pid (background_shells table root))" "sorted (map pe_pid (background_shells table root))"
    using E(3) by (simp_all add: background_shells_def distinct_map)
  then have "sorted_wrt (<) (map pe_pid (background_shells table root))" by (simp add: strict_sorted_iff)
  then show "sorted_wrt (\<lambda>a b. pe_pid a < pe_pid b) (background_shells table root)" by (simp add: sorted_wrt_map)
qed

text \<open>C29: What a session reports of its agent is what its turn, its open requests and its running tools say: for every reporter
  that a session can have, the general reduction of observations gives the activity of this table (or nothing, where it was
  already reported), at any time, and background work counts only for a finished turn.\<close>

theorem activity_is_reference:
  assumes "session_reporter y"
  shows "reduce_activity now y = (if session_activity y = yr_last y then None else session_activity y)
    \<and> (yr_background y \<longrightarrow> turn_finished y)"
  using session_reporter_ok [OF assms] reduce_is_reference [of y now] by (simp_all add: reporter_ok_def)


text \<open>C37: Where the start of a second turn could not be reported before the turn ends, it is reported after the end, and stays:
  the end of the turn is what was reported last, so it is not reported again and does not replace the pending start; the
  next flush that succeeds reports the start and makes the reporter take the turn for running.\<close>

theorem stale_turn_start_is_replayed:
  assumes "session_reporter (ev_activity_reporter e)" "turn_running (ev_activity_reporter e)"
    and "yr_last (ev_activity_reporter e) = Some SaTurnEnded" "ev_pending_activity_report e = Some SaTurnStarted"
    and "probe p = (Some False, q)" "ev_report_activity e = Some report"
    and "fst (report_attempts 3 report handle SaTurnStarted w)"
    and "report_activity_for_event_with_probe handle probe now (SvTurnEnd None :: 'j SessionServerEvent) (p, e, live, w) = (p1, e1, live1, w1)"
  shows "turn_finished (ev_activity_reporter e1) \<and> ev_pending_activity_report e1 = Some SaTurnStarted \<and> w1 = w
    \<and> (let e2 = fst (flush_pending_activity_report handle now' (e1, w1))
         in turn_running (ev_activity_reporter e2) \<and> yr_last (ev_activity_reporter e2) = Some SaTurnStarted
            \<and> ev_pending_activity_report e2 = None)"
proof (intro conjI)
  define y where "y = ev_activity_reporter e"
  define y1 where "y1 = y\<lparr>yr_state := acp_apply XvTurnEnded now (yr_state y)\<rparr>"
  have ok: "reporter_ok y" using session_reporter_ok assms(1) by (simp add: y_def)
  have running: "xa_turn (yr_state y) = RtRunning" using assms(2) by (simp add: y_def turn_running_def)
  then have quiet: "\<not> yr_background y" using ok by (auto simp: reporter_ok_def turn_finished_def)
  have ended: "xa_turn (yr_state y1) = RtSettled"
    using running by (simp add: y1_def acp_apply_def end_turn_def failed_turn_def)
  have same: "set_background_child False now y1 = y1"
    using quiet by (simp add: set_background_child_def y1_def)
  have "reporter_ok y1"
    using ok quiet by (simp add: reporter_ok_def y1_def acp_apply_def end_turn_def)
  moreover have "session_activity y1 = Some SaTurnEnded"
    using ended quiet by (simp add: session_activity_def Let_def y1_def)
  moreover have "yr_last y1 = Some SaTurnEnded" using assms(3) by (simp add: y1_def y_def)
  ultimately have none: "reduce_activity now y1 = None" using reduce_is_reference by simp
  have "activity_for_event_with_probe probe now (SvTurnEnd None :: 'j SessionServerEvent) (p, y) = (None, q, y1)"
    unfolding activity_for_event_with_probe_def prod.case execution_event.simps
    using ended running assms(5) same none
    by (simp add: y1_def [symmetric] turn_end_event_def turn_running_def turn_finished_def Let_def)
  then have e1: "e1 = e\<lparr>ev_activity_reporter := y1\<rparr>" "w1 = w"
    using assms(8) by (simp_all add: report_activity_for_event_with_probe_def y_def)
  then show "turn_finished (ev_activity_reporter e1)" "ev_pending_activity_report e1 = Some SaTurnStarted" "w1 = w"
    using ended assms(4) by (simp_all add: turn_finished_def)
  have "xa_turn (yr_state (commit_activity now' SaTurnStarted y1)) = RtRunning"
    using ended quiet by (simp add: commit_activity_def Let_def acp_apply_def set_background_child_def y1_def)
  then show "let e2 = fst (flush_pending_activity_report handle now' (e1, w1))
      in turn_running (ev_activity_reporter e2) \<and> yr_last (ev_activity_reporter e2) = Some SaTurnStarted
         \<and> ev_pending_activity_report e2 = None"
    using assms(4,6,7)
    by (auto simp: e1 flush_pending_activity_report_def try_report_session_activity_def ACTIVITY_REPORT_MAX_ATTEMPTS_def
        turn_running_def commit_activity_def Let_def split: prod.split bool.split)
qed

section \<open>Examples\<close>

lemma event_reporter:
  "snd (snd (activity_for_event_with_probe probe now event (p, y))) =
     (let in_flight = turn_running y;
          y1 = y\<lparr>yr_state := acp_apply (execution_event event in_flight) now (yr_state y)\<rparr>;
          y2 = (if turn_running y1 then set_background_child False now y1 else y1)
      in if ((case event of SvTurnEnd _ \<Rightarrow> True | _ \<Rightarrow> False) \<or> in_flight) \<and> turn_finished y2
         then (case probe p of (Some held, _) \<Rightarrow> set_background_child held now y2 | (None, _) \<Rightarrow> y2)
         else y2)"
  unfolding activity_for_event_with_probe_def prod.case Let_def by (simp split: prod.split option.split)

text \<open>An agent with a helper that runs a shell, and a cycle of parents.\<close>

definition sample_table :: "ProcessEntry list" where
  "sample_table =
     [\<lparr>pe_pid = 10, pe_ppid = 9, pe_comm = ''/bin/zsh''\<rparr>, \<lparr>pe_pid = 7, pe_ppid = 11, pe_comm = ''node''\<rparr>,
      \<lparr>pe_pid = 9, pe_ppid = 7, pe_comm = ''helper''\<rparr>, \<lparr>pe_pid = 8, pe_ppid = 7, pe_comm = ''-bash''\<rparr>,
      \<lparr>pe_pid = 11, pe_ppid = 9, pe_comm = ''worker''\<rparr>, \<lparr>pe_pid = 12, pe_ppid = 10, pe_comm = ''sh''\<rparr>]"

theorem background_shells_are_exact_witness:
  "map pe_pid (background_shells sample_table 7) = [8, 10] \<and> \<not> has_background_shell sample_table 12 \<and>
   set (background_shells sample_table 7) =
     {e \<in> set sample_table. is_shell (pe_comm e) \<and> pe_pid e \<noteq> 7 \<and> spawned sample_table 7 (pe_ppid e)}"
proof (intro conjI)
  show "map pe_pid (background_shells sample_table 7) = [8, 10]" by code_simp
  show "\<not> has_background_shell sample_table 12" by code_simp
  have "distinct (map pe_pid sample_table)" by code_simp
  then show "set (background_shells sample_table 7) =
      {e \<in> set sample_table. is_shell (pe_comm e) \<and> pe_pid e \<noteq> 7 \<and> spawned sample_table 7 (pe_ppid e)}"
    using background_shells_are_exact [of sample_table 7] by simp
qed

text \<open>A reporter whose turn was started, cancelled while a shell was running, and reported.\<close>

definition sample_prompt :: "string SessionServerEvent" where
  "sample_prompt = SvPromptAccepted ''p1''"

definition no_jobs :: "BackgroundLevel \<Rightarrow> bool option \<times> BackgroundLevel" where
  "no_jobs b = (Some False, observe_scan (Some False) 3 b)"

definition one_job :: "BackgroundLevel \<Rightarrow> bool option \<times> BackgroundLevel" where
  "one_job b = (Some True, observe_scan (Some True) 3 b)"

definition running_reporter :: SessionActivityReporter where
  "running_reporter = commit_activity 1 SaTurnStarted
     (snd (snd (activity_for_event_with_probe no_jobs 1 sample_prompt (background_level_default, reporter_default))))"

definition held_reporter :: SessionActivityReporter where
  "held_reporter = snd (snd (activity_for_event_with_probe one_job 2 (SvTurnEnd (Some ''Cancelled'') :: string SessionServerEvent)
     (background_level_default, running_reporter)))"

lemma running_session: "session_reporter running_reporter"
  unfolding running_reporter_def by (intro session_reporter.intros)

theorem activity_is_reference_witness:
  "reduce_activity 4 held_reporter = Some SaBackgroundRunning \<and> turn_finished held_reporter
   \<and> reduce_activity 4 running_reporter = None"
proof (intro conjI)
  have held: "session_reporter held_reporter"
    unfolding held_reporter_def by (intro session_reporter.intros running_session)
  have vals: "session_activity held_reporter = Some SaBackgroundRunning" "yr_last held_reporter = Some SaTurnStarted"
    "yr_background held_reporter" "session_activity running_reporter = yr_last running_reporter"
    unfolding held_reporter_def running_reporter_def event_reporter by code_simp+
  show "reduce_activity 4 held_reporter = Some SaBackgroundRunning" "turn_finished held_reporter"
    using activity_is_reference [OF held, of 4] vals by simp_all
  show "reduce_activity 4 running_reporter = None"
    using activity_is_reference [OF running_session, of 4] vals by simp
qed

text \<open>A session whose reports fail as long as the counter of the caller is below five.\<close>

definition sample_report :: "int Report" where
  "sample_report handle activity w = (5 \<le> w, w + 1)"

definition sample_evidence :: "SessionActivityReporter \<Rightarrow> SessionActivity option \<Rightarrow> int SessionEvidence" where
  "sample_evidence y pending = \<lparr>ev_activity_reporter = y, ev_pending_activity_report = pending,
     ev_report_activity = Some sample_report, ev_activity_report_fault = None,
     ev_pending_activity_report_error_snapshot = False, ev_last_logged_spawn_error_id = None,
     ev_transcript_durability_fault = None, ev_pending_transcript_error_snapshot = False, ev_transcript_corruption = None,
     ev_live_activity = Some 1, ev_activity_retry = None\<rparr>"

definition failed_once :: "int SessionEvidence" where
  "failed_once = fst (report_activity ''web/fix'' 1 SaTurnStarted (sample_evidence reporter_default None, Map.empty, 0))"


definition second_turn_reporter :: SessionActivityReporter where
  "second_turn_reporter =
     snd (snd (activity_for_event_with_probe no_jobs 4 sample_prompt (background_level_default,
       commit_activity 3 SaTurnEnded (snd (snd (activity_for_event_with_probe no_jobs 3
         (SvTurnEnd None :: string SessionServerEvent) (background_level_default, running_reporter)))))))"

theorem stale_turn_start_is_replayed_witness:
  "let e = sample_evidence second_turn_reporter (Some SaTurnStarted);
       (p1, e1, live1, w1) = report_activity_for_event_with_probe ''web/fix'' no_jobs 5
          (SvTurnEnd None :: string SessionServerEvent) (background_level_default, e, Map.empty, 5);
       e2 = fst (flush_pending_activity_report ''web/fix'' 6 (e1, w1))
   in turn_finished (ev_activity_reporter e1) \<and> turn_running (ev_activity_reporter e2)"
proof -
  have reporter: "session_reporter second_turn_reporter"
    unfolding second_turn_reporter_def by (intro session_reporter.intros running_session)
  have facts: "turn_running second_turn_reporter" "yr_last second_turn_reporter = Some SaTurnEnded"
    unfolding second_turn_reporter_def running_reporter_def event_reporter by code_simp+
  obtain p1 e1 live1 w1 where run: "report_activity_for_event_with_probe ''web/fix'' no_jobs 5
      (SvTurnEnd None :: string SessionServerEvent)
      (background_level_default, sample_evidence second_turn_reporter (Some SaTurnStarted), Map.empty, 5) = (p1, e1, live1, w1)"
    by (cases "report_activity_for_event_with_probe ''web/fix'' no_jobs 5 (SvTurnEnd None :: string SessionServerEvent)
      (background_level_default, sample_evidence second_turn_reporter (Some SaTurnStarted), Map.empty, 5)")
  have "fst (report_attempts 3 sample_report ''web/fix'' SaTurnStarted 5)"
    by (simp add: sample_report_def numeral_3_eq_3)
  then have "turn_finished (ev_activity_reporter e1) \<and>
      turn_running (ev_activity_reporter (fst (flush_pending_activity_report ''web/fix'' 6 (e1, w1))))"
    using stale_turn_start_is_replayed [OF _ _ _ _ _ _ _ run, where report = sample_report and now' = 6
        and q = "snd (no_jobs background_level_default)"] reporter facts
    by (auto simp: sample_evidence_def no_jobs_def Let_def)
  then show ?thesis unfolding Let_def run prod.case .
qed

end
