(* ===== verification/Transcript.thy ===== *)
theory Transcript
  imports Session_Events
begin

text \<open>
  The transcript of a web session (\<open>crates/ajax-web/src/slices/web_session/transcript.rs\<close>) and its replay to clients
  (\<open>replay.rs\<close>): cursors that count all events ever written, of which the log keeps the last ones, messages that
  replace older ones, the tail that an attaching client gets and the pages of older events.
\<close>

section \<open>The log\<close>

definition MAX_LOG_EVENTS :: nat where
  "MAX_LOG_EVENTS = 2000"

definition MAX_IDLE_SESSIONS :: nat where
  "MAX_IDLE_SESSIONS = 8"

definition IDLE_RELEASE_GRACE :: duration where
  "IDLE_RELEASE_GRACE = secs (15 * 60)"

record 'j TranscriptLog =
  tl_events :: "'j SessionServerEvent list"
  tl_dropped :: nat

definition from_events :: "'j SessionServerEvent list \<Rightarrow> nat \<Rightarrow> 'j TranscriptLog" where
  "from_events events dropped = \<lparr>tl_events = events, tl_dropped = dropped\<rparr>"

definition absolute_next_cursor :: "'j TranscriptLog \<Rightarrow> nat" where
  "absolute_next_cursor l = tl_dropped l + length (tl_events l)"

definition append_events :: "'j SessionServerEvent list \<Rightarrow> 'j TranscriptLog \<Rightarrow> 'j TranscriptLog" where
  "append_events events l =
     (let all = tl_events l @ events; excess = length all - MAX_LOG_EVENTS
      in if length all > MAX_LOG_EVENTS
         then \<lparr>tl_events = drop excess all, tl_dropped = tl_dropped l + excess\<rparr>
         else l\<lparr>tl_events := all\<rparr>)"

fun is_superseded_marker :: "'j SessionServerEvent \<Rightarrow> bool" where
  "is_superseded_marker (SvMessage role text blocks item message_id) \<longleftrightarrow> text = [] \<and> blocks = [] \<and> item \<noteq> []"
| "is_superseded_marker _ \<longleftrightarrow> False"

text \<open>\<open>iter().rposition(..)\<close>: the last position.\<close>

definition rposition :: "('a \<Rightarrow> bool) \<Rightarrow> 'a list \<Rightarrow> nat option" where
  "rposition p xs = map_option fst (find (\<lambda>(i, x). p x) (rev (enumerate 0 xs)))"

definition position :: "('a \<Rightarrow> bool) \<Rightarrow> 'a list \<Rightarrow> nat option" where
  "position p xs = map_option fst (find (\<lambda>(i, x). p x) (enumerate 0 xs))"

text \<open>The stored message that a message of the batch replaces.\<close>

definition superseded_by :: "'j TranscriptLog \<Rightarrow> 'j SessionServerEvent \<Rightarrow> nat option" where
  "superseded_by l event =
     (case message_item event of
        None \<Rightarrow> None
      | Some item \<Rightarrow>
          if item = [] \<or> is_superseded_marker event then None
          else (case rposition (\<lambda>stored. message_item stored = Some item) (tl_events l) of
                  None \<Rightarrow> None
                | Some i \<Rightarrow> if is_superseded_marker (tl_events l ! i) then None else Some (tl_dropped l + i)))"

definition superseded_cursors_for :: "'j SessionServerEvent list \<Rightarrow> 'j TranscriptLog \<Rightarrow> nat list" where
  "superseded_cursors_for batch l = remdups (sort (List.map_filter (superseded_by l) batch))"

fun blank_message :: "'j SessionServerEvent \<Rightarrow> 'j SessionServerEvent option" where
  "blank_message (SvMessage role text blocks item message_id) = Some (SvMessage role [] [] item None)"
| "blank_message _ = None"

definition get_at :: "nat \<Rightarrow> 'a list \<Rightarrow> 'a option" where
  "get_at i xs = (if i < length xs then Some (xs ! i) else None)"

definition marker_for :: "'j TranscriptLog \<Rightarrow> nat \<Rightarrow> 'j SessionServerEvent option" where
  "marker_for l cursor =
     (if cursor < tl_dropped l then None
      else Option.bind (get_at (cursor - tl_dropped l) (tl_events l)) blank_message)"

definition mark_one :: "nat \<Rightarrow> 'j TranscriptLog \<Rightarrow> 'j TranscriptLog" where
  "mark_one cursor l =
     (case marker_for l cursor of
        Some marker \<Rightarrow> l\<lparr>tl_events := (tl_events l)[cursor - tl_dropped l := marker]\<rparr>
      | None \<Rightarrow> l)"

definition mark_superseded :: "nat list \<Rightarrow> 'j TranscriptLog \<Rightarrow> 'j TranscriptLog" where
  "mark_superseded cursors l = fold mark_one cursors l"

fun resolved_permission :: "'j SessionServerEvent \<Rightarrow> string option" where
  "resolved_permission (SvPermissionResolved request_id approved) = Some request_id"
| "resolved_permission _ = None"

definition resolved_permissions :: "'j SessionServerEvent list \<Rightarrow> string set" where
  "resolved_permissions events = set (List.map_filter resolved_permission events)"

fun requested_permission :: "'j SessionServerEvent \<Rightarrow> string option" where
  "requested_permission (SvPermissionRequest request_id title detail) = Some request_id"
| "requested_permission _ = None"

fun is_usage :: "'j SessionServerEvent \<Rightarrow> bool" where
  "is_usage (SvUsage _ _) \<longleftrightarrow> True"
| "is_usage (SvTurnUsage _ _ _ _ _ _) \<longleftrightarrow> True"
| "is_usage _ \<longleftrightarrow> False"

fun is_usage_reset :: "'j SessionServerEvent \<Rightarrow> bool" where
  "is_usage_reset SvUsageReset \<longleftrightarrow> True"
| "is_usage_reset _ \<longleftrightarrow> False"

text \<open>What a reader sees: no markers, no usage before the last reset, no request that was answered. The reset is
  a position in the log.\<close>

definition shown_at :: "nat option \<Rightarrow> string set \<Rightarrow> nat \<Rightarrow> 'j SessionServerEvent \<Rightarrow> bool" where
  "shown_at usage_reset resolved i event \<longleftrightarrow>
     \<not> is_superseded_marker event
     \<and> \<not> ((case usage_reset of Some reset \<Rightarrow> i < reset | None \<Rightarrow> False) \<and> is_usage event)
     \<and> \<not> (case requested_permission event of Some request_id \<Rightarrow> request_id \<in> resolved | None \<Rightarrow> False)"

definition read_from_enveloped :: "nat \<Rightarrow> 'j TranscriptLog \<Rightarrow> 'j SessionEventEnvelope list \<times> nat" where
  "read_from_enveloped cursor l =
     (let next = absolute_next_cursor l;
          start = min (cursor - tl_dropped l) (length (tl_events l));
          usage_reset = rposition is_usage_reset (tl_events l);
          resolved = resolved_permissions (tl_events l)
      in (List.map_filter (\<lambda>(i, event).
            if shown_at usage_reset resolved (start + i) event
            then Some (envelope_new (tl_dropped l + start + i) event) else None)
            (enumerate 0 (drop start (tl_events l))), next))"

section \<open>Notes\<close>

definition session_note :: "string \<Rightarrow> string \<Rightarrow> 'j SessionServerEvent" where
  "session_note item_id text = SvMessage ''note'' text [] item_id None"

definition context_reset_note :: "'j SessionServerEvent" where
  "context_reset_note = session_note ''context-reset'' ''Model context reset after restart. Prior turns are still visible here.''"

definition harness_switch_note :: "string \<Rightarrow> 'j SessionServerEvent" where
  "harness_switch_note item_id = session_note item_id ''Client switched harness. Context reset.''"

text \<open>The names of the harnesses are of ASCII letters.\<close>

definition rate_limit_note :: "string \<Rightarrow> string \<Rightarrow> string \<Rightarrow> 'j SessionServerEvent" where
  "rate_limit_note item_id harness message =
     session_note item_id ((case harness of [] \<Rightarrow> [] | c # cs \<Rightarrow> ascii_upper c # cs) @ '' usage limit: '' @ message)"

definition context_cleared_note :: "string \<Rightarrow> 'j SessionServerEvent" where
  "context_cleared_note item_id = session_note item_id ''Context cleared.''"

definition context_reset_needed :: "bool \<Rightarrow> 'j TranscriptLog \<Rightarrow> bool" where
  "context_reset_needed resumed l \<longleftrightarrow> \<not> resumed \<and> tl_events l \<noteq> []"

definition already_noted :: "'j TranscriptLog \<Rightarrow> 'j SessionServerEvent \<Rightarrow> bool" where
  "already_noted l n \<longleftrightarrow> tl_events l \<noteq> [] \<and> last (tl_events l) = n"

definition slot_must_replace :: "bool \<Rightarrow> bool \<Rightarrow> bool" where
  "slot_must_replace live host_exited \<longleftrightarrow> \<not> live \<or> host_exited"

section \<open>Replay\<close>

definition TAIL_EVENT_LIMIT :: nat where
  "TAIL_EVENT_LIMIT = 1000"

record ReplayPlan =
  rl_reset :: bool
  rl_from :: nat

definition plan_replay :: "nat option \<Rightarrow> 'j TranscriptLog \<Rightarrow> ReplayPlan" where
  "plan_replay client_cursor l =
     (case client_cursor of
        None \<Rightarrow> \<lparr>rl_reset = True, rl_from = 0\<rparr>
      | Some client \<Rightarrow>
          if client < tl_dropped l \<or> client > absolute_next_cursor l
          then \<lparr>rl_reset = True, rl_from = tl_dropped l\<rparr>
          else \<lparr>rl_reset = False, rl_from = client\<rparr>)"

record 'j TranscriptPage =
  tp_events :: "'j SessionEventEnvelope list"
  tp_from :: nat
  tp_floor :: nat

fun is_user_message :: "'j SessionServerEvent \<Rightarrow> bool" where
  "is_user_message (SvMessage role text blocks item message_id) \<longleftrightarrow> role = ''user''"
| "is_user_message _ \<longleftrightarrow> False"

text \<open>The loop runs backwards from the event before \<open>start\<close> and looks at no more than \<open>bound\<close> events.\<close>

definition user_message_boundary :: "'j SessionEventEnvelope list \<Rightarrow> nat \<Rightarrow> nat \<Rightarrow> nat option" where
  "user_message_boundary replayed start bound =
     map_option fst (find (\<lambda>(i, env). is_user_message (en_payload env))
       (take bound (rev (enumerate 0 (take start replayed)))))"

text \<open>\<open>first_seen\<close> maps an item to its position in \<open>out\<close>.\<close>

fun compact_loop ::
    "'j SessionEventEnvelope list \<Rightarrow> (string \<Rightarrow> nat option) \<Rightarrow> 'j SessionEventEnvelope list \<Rightarrow> 'j SessionEventEnvelope list" where
  "compact_loop [] first_seen out = out"
| "compact_loop (env # rest) first_seen out =
     (case message_item (en_payload env) of
        Some item \<Rightarrow>
          if item \<noteq> []
          then (case first_seen item of
                  Some pos \<Rightarrow> compact_loop rest first_seen (out[pos := (out ! pos)\<lparr>en_payload := en_payload env\<rparr>])
                | None \<Rightarrow> compact_loop rest (first_seen(item \<mapsto> length out)) (out @ [env]))
          else compact_loop rest first_seen (out @ [env])
      | None \<Rightarrow> compact_loop rest first_seen (out @ [env]))"

definition compact_superseded_messages :: "'j SessionEventEnvelope list \<Rightarrow> 'j SessionEventEnvelope list" where
  "compact_superseded_messages events = compact_loop events Map.empty []"

definition is_request :: "string \<Rightarrow> 'j SessionServerEvent \<Rightarrow> bool" where
  "is_request request_id event \<longleftrightarrow> requested_permission event = Some request_id"

fun is_elicitation :: "string \<Rightarrow> 'j SessionServerEvent \<Rightarrow> bool" where
  "is_elicitation request_id (SvElicitationRequest r message schema) \<longleftrightarrow> r = request_id"
| "is_elicitation request_id _ \<longleftrightarrow> False"

definition tail_start_index ::
    "'j SessionEventEnvelope list \<Rightarrow> PendingPermission option \<Rightarrow> 'j PendingElicitation option \<Rightarrow> nat" where
  "tail_start_index replayed pending_perm pending_eli =
     (let start = length replayed - TAIL_EVENT_LIMIT;
          start1 = (case pending_perm of
                      None \<Rightarrow> start
                    | Some pending \<Rightarrow>
                        (case position (\<lambda>env. is_request (pp_request_id pending) (en_payload env)) replayed of
                           Some i \<Rightarrow> min start i | None \<Rightarrow> start));
          start2 = (case pending_eli of
                      None \<Rightarrow> start1
                    | Some pending \<Rightarrow>
                        (case position (\<lambda>env. is_elicitation (pc_request_id pending) (en_payload env)) replayed of
                           Some i \<Rightarrow> min start1 i | None \<Rightarrow> start1))
      in case user_message_boundary replayed start2 TAIL_EVENT_LIMIT of
           None \<Rightarrow> start2
         | Some idx \<Rightarrow>
             (case position (\<lambda>env. en_cursor env = en_cursor (replayed ! idx)) replayed of
                Some i \<Rightarrow> i | None \<Rightarrow> start2))"

definition attach_inline_tail ::
    "'j SessionSnapshot \<Rightarrow> 'j SessionEventEnvelope list \<Rightarrow> nat \<Rightarrow> nat \<Rightarrow> 'j SessionSnapshot" where
  "attach_inline_tail snapshot replayed next floor =
     (let start = tail_start_index replayed (ss_pending_permission snapshot) (ss_pending_elicitation snapshot);
          transcript_from = Some (case get_at start replayed of Some env \<Rightarrow> en_cursor env | None \<Rightarrow> next)
      in with_transcript_floor floor
           (with_transcript (compact_superseded_messages (drop start replayed)) transcript_from snapshot))"

fun pending_request :: "string set \<Rightarrow> 'j SessionServerEvent \<Rightarrow> PendingPermission option" where
  "pending_request resolved (SvPermissionRequest request_id title detail) =
     (if request_id \<in> resolved then None
      else Some \<lparr>pp_request_id = request_id, pp_title = title, pp_detail = detail\<rparr>)"
| "pending_request resolved _ = None"

definition pending_permission :: "'j TranscriptLog \<Rightarrow> PendingPermission option" where
  "pending_permission l = first_some (pending_request (resolved_permissions (tl_events l))) (rev (tl_events l))"

fun elicitation_step :: "'j SessionServerEvent \<Rightarrow> 'j PendingElicitation option \<Rightarrow> 'j PendingElicitation option" where
  "elicitation_step (SvElicitationRequest request_id message schema) open =
     Some \<lparr>pc_request_id = request_id, pc_message = message, pc_schema = schema\<rparr>"
| "elicitation_step (SvElicitationResolved request_id action) open =
     (case open of
        Some pending \<Rightarrow> if pc_request_id pending = request_id then None else open
      | None \<Rightarrow> open)"
| "elicitation_step _ open = open"

definition pending_elicitation :: "'j TranscriptLog \<Rightarrow> 'j PendingElicitation option" where
  "pending_elicitation l = fold elicitation_step (tl_events l) None"

definition build_attach ::
    "'j TranscriptLog \<Rightarrow> string \<Rightarrow> bool \<Rightarrow> nat option \<Rightarrow> 'j SessionChrome \<Rightarrow>
     'j SessionSnapshot \<times> 'j SessionEventEnvelope list" where
  "build_attach l model busy client_cursor chrome =
     (let plan = plan_replay client_cursor l in
      case read_from_enveloped (rl_from plan) l of (replayed, next) \<Rightarrow>
        let snapshot = snapshot_new next model busy (rl_reset plan) (pending_permission l) (pending_elicitation l) chrome
        in (if rl_reset plan then attach_inline_tail snapshot replayed next (tl_dropped l) else snapshot, replayed))"

definition clamp :: "nat \<Rightarrow> nat \<Rightarrow> nat \<Rightarrow> nat" where
  "clamp x lo hi = (if x < lo then lo else if x > hi then hi else x)"

text \<open>The cursors of the envelopes ascend, so the partition point is the length of the prefix.\<close>

definition read_before :: "'j TranscriptLog \<Rightarrow> nat \<Rightarrow> nat \<Rightarrow> 'j TranscriptPage" where
  "read_before l before limit =
     (let end_cursor = clamp before (tl_dropped l) (absolute_next_cursor l);
          envelopes = fst (read_from_enveloped (tl_dropped l) l);
          start0 = max (end_cursor - limit) (tl_dropped l);
          below = (\<lambda>start. case rposition (\<lambda>env. en_cursor env < start) envelopes of Some i \<Rightarrow> i + 1 | None \<Rightarrow> 0);
          start = (if limit > 0
                   then (case user_message_boundary envelopes (below start0) limit of
                           Some idx \<Rightarrow> en_cursor (envelopes ! idx) | None \<Rightarrow> start0)
                   else start0);
          i0 = below start;
          i1 = length (takeWhile (\<lambda>env. en_cursor env < end_cursor) envelopes);
          events = compact_superseded_messages (drop i0 (take i1 envelopes));
          from = (if events = [] \<and> limit > 0 then start
                  else case events of [] \<Rightarrow> end_cursor | env # _ \<Rightarrow> en_cursor env)
      in \<lparr>tp_events = events, tp_from = from, tp_floor = tl_dropped l\<rparr>)"

section \<open>Lemmas: positions\<close>

lemma find_enumerate_upt:
  "find (\<lambda>(i, x). p x) (enumerate n xs) = map_option (\<lambda>i. (n + i, xs ! i)) (find (\<lambda>i. p (xs ! i)) [0..<length xs])"
proof (induction xs arbitrary: n)
  case (Cons x xs)
  have shift: "find q (map Suc is) = map_option Suc (find (\<lambda>i. q (Suc i)) is)" for q and "is" :: "nat list"
    by (induction "is") auto
  have upt: "[0..<length (x # xs)] = 0 # map Suc [0..<length xs]"
    by (simp add: map_Suc_upt upt_conv_Cons del: upt_Suc)
  show ?case
    unfolding upt by (simp add: shift Cons.IH option.map_comp o_def)
qed simp

lemma rposition_Some:
  assumes "rposition p xs = Some i"
  shows "i < length xs" "p (xs ! i)" "\<And>j. i < j \<Longrightarrow> j < length xs \<Longrightarrow> \<not> p (xs ! j)"
proof -
  let ?ys = "rev (enumerate 0 xs)"
  obtain x where x: "find (\<lambda>(i, x). p x) ?ys = Some (i, x)" using assms by (auto simp: rposition_def)
  then obtain n where n: "n < length ?ys" "case ?ys ! n of (i, x) \<Rightarrow> p x" "(i, x) = ?ys ! n"
    "\<And>m. m < n \<Longrightarrow> \<not> (case ?ys ! m of (i, x) \<Rightarrow> p x)"
    by (auto simp: find_Some_iff)
  have at: "?ys ! m = (length xs - Suc m, xs ! (length xs - Suc m))" if "m < length xs" for m
    using that by (simp add: rev_nth nth_enumerate_eq)
  have i: "i = length xs - Suc n" "n < length xs" using n(1,3) at [of n] by simp_all
  then show "i < length xs" "p (xs ! i)" using n(2) at [of n] by auto
  show "\<not> p (xs ! j)" if "i < j" "j < length xs" for j
    using n(4) [of "length xs - Suc j"] at [of "length xs - Suc j"] i that by simp
qed

lemma rposition_None: "rposition p xs = None \<longleftrightarrow> (\<forall>x \<in> set xs. \<not> p x)"
  by (auto simp: rposition_def find_None_iff in_set_enumerate_eq all_set_conv_all_nth)

lemma position_Some:
  assumes "position p xs = Some i"
  shows "i < length xs" "p (xs ! i)" "\<And>j. j < i \<Longrightarrow> \<not> p (xs ! j)"
proof -
  have "find (\<lambda>i. p (xs ! i)) [0..<length xs] = Some i"
    using assms by (auto simp: position_def find_enumerate_upt)
  then show "i < length xs" "p (xs ! i)" "\<And>j. j < i \<Longrightarrow> \<not> p (xs ! j)"
    by (auto simp: find_Some_iff)
qed

lemma position_None: "position p xs = None \<longleftrightarrow> (\<forall>x \<in> set xs. \<not> p x)"
  by (auto simp: position_def find_None_iff in_set_enumerate_eq all_set_conv_all_nth)

lemma enumerate_drop:
  "s \<le> length xs \<Longrightarrow> enumerate 0 (drop s xs) = map (\<lambda>i. (i - s, xs ! i)) [s..<length xs]"
  by (rule nth_equalityI) (simp_all add: nth_enumerate_eq)

section \<open>Lemmas: what a reader sees\<close>

definition shown_in :: "'j TranscriptLog \<Rightarrow> nat \<Rightarrow> bool" where
  "shown_in l i \<longleftrightarrow>
     shown_at (rposition is_usage_reset (tl_events l)) (resolved_permissions (tl_events l)) i (tl_events l ! i)"

definition envelope_at :: "'j TranscriptLog \<Rightarrow> nat \<Rightarrow> 'j SessionEventEnvelope" where
  "envelope_at l i = envelope_new (tl_dropped l + i) (tl_events l ! i)"

definition all_shown :: "'j TranscriptLog \<Rightarrow> 'j SessionEventEnvelope list" where
  "all_shown l = map (envelope_at l) (filter (shown_in l) [0..<length (tl_events l)])"

lemma envelope_cursor [simp]: "en_cursor (envelope_at l i) = tl_dropped l + i"
  by (simp add: envelope_at_def envelope_new_def)

lemma envelope_payload [simp]: "en_payload (envelope_at l i) = tl_events l ! i"
  by (simp add: envelope_at_def envelope_new_def)

lemma read_shown:
  "fst (read_from_enveloped cursor l) = filter (\<lambda>env. cursor \<le> en_cursor env) (all_shown l)"
proof -
  let ?n = "length (tl_events l)" and ?s = "min (cursor - tl_dropped l) (length (tl_events l))"
  have en: "enumerate 0 (drop ?s (tl_events l)) = map (\<lambda>i. (i - ?s, tl_events l ! i)) [?s..<?n]"
    by (rule enumerate_drop) simp
  have "fst (read_from_enveloped cursor l) =
      List.map_filter (\<lambda>i. if shown_in l i then Some (envelope_at l i) else None) [?s..<?n]"
    unfolding read_from_enveloped_def Let_def fst_conv en List.map_filter_def
    by (auto simp: shown_in_def envelope_at_def filter_map o_def intro!: map_cong filter_cong)
  also have "\<dots> = map (envelope_at l) (filter (shown_in l) [?s..<?n])"
    by (simp add: List.map_filter_def o_def)
  also have "[?s..<?n] = filter (\<lambda>i. cursor \<le> tl_dropped l + i) [0..<?n]"
  proof -
    have "[0..<?n] = [0..<?s] @ [?s..<?n]" using upt_add_eq_append [of 0 ?s "?n - ?s"] by simp
    moreover have "filter (\<lambda>i. cursor \<le> tl_dropped l + i) [0..<?s] = []" by (auto simp: filter_empty_conv)
    moreover have "filter (\<lambda>i. cursor \<le> tl_dropped l + i) [?s..<?n] = [?s..<?n]"
      by (rule filter_True) auto
    ultimately show ?thesis by (metis filter_append self_append_conv2)
  qed
  also have "map (envelope_at l) (filter (shown_in l) (filter (\<lambda>i. cursor \<le> tl_dropped l + i) [0..<?n])) =
      filter (\<lambda>env. cursor \<le> en_cursor env) (all_shown l)"
    by (simp add: all_shown_def filter_map o_def conj_commute)
  finally show ?thesis .
qed

lemma all_shown_sorted: "sorted_wrt (<) (map en_cursor (all_shown l))"
  by (simp add: all_shown_def o_def sorted_wrt_map sorted_wrt_filter)

lemma all_shown_range: "env \<in> set (all_shown l) \<Longrightarrow> tl_dropped l \<le> en_cursor env \<and> en_cursor env < absolute_next_cursor l"
  by (auto simp: all_shown_def absolute_next_cursor_def)

lemma read_all: "fst (read_from_enveloped (tl_dropped l) l) = all_shown l"
  unfolding read_shown by (rule filter_True) (auto dest: all_shown_range)

section \<open>Lemmas: compaction\<close>

definition env_item :: "'j SessionEventEnvelope \<Rightarrow> string option" where
  "env_item env = (case message_item (en_payload env) of
     Some item \<Rightarrow> if item = [] then None else Some item | None \<Rightarrow> None)"

definition with_item :: "string \<Rightarrow> 'j SessionEventEnvelope list \<Rightarrow> 'j SessionEventEnvelope list" where
  "with_item item es = filter (\<lambda>e. env_item e = Some item) es"

definition latest :: "'j SessionEventEnvelope list \<Rightarrow> 'j SessionEventEnvelope \<Rightarrow> 'j SessionEventEnvelope" where
  "latest es o' =
     (case env_item o' of
        Some item \<Rightarrow> if with_item item es = [] then o' else o'\<lparr>en_payload := en_payload (last (with_item item es))\<rparr>
      | None \<Rightarrow> o')"

text \<open>The reference: every item once, where it appears first, with its last payload.\<close>

function compacted :: "'j SessionEventEnvelope list \<Rightarrow> 'j SessionEventEnvelope list" where
  "compacted [] = []"
| "compacted (e # es) =
     latest (e # es) e # compacted (filter (\<lambda>x. env_item e = None \<or> env_item x \<noteq> env_item e) es)"
  by pat_completeness auto
termination by (relation "measure length") (auto simp: le_imp_less_Suc)

definition seen_ok :: "(string \<Rightarrow> nat option) \<Rightarrow> 'j SessionEventEnvelope list \<Rightarrow> bool" where
  "seen_ok seen out \<longleftrightarrow>
     (\<forall>item pos. seen item = Some pos \<longleftrightarrow> pos < length out \<and> env_item (out ! pos) = Some item)"

definition unseen :: "(string \<Rightarrow> nat option) \<Rightarrow> 'j SessionEventEnvelope list \<Rightarrow> 'j SessionEventEnvelope list" where
  "unseen seen es = filter (\<lambda>e. case env_item e of Some item \<Rightarrow> seen item = None | None \<Rightarrow> True) es"

lemma env_item_payload [simp]: "env_item (o'\<lparr>en_payload := en_payload e\<rparr>) = env_item e"
  by (simp add: env_item_def)

lemma with_item_Cons:
  "with_item item (e # es) = (if env_item e = Some item then e # with_item item es else with_item item es)"
  by (simp add: with_item_def)

lemma latest_Cons:
  "latest (e # es) o' =
     (if env_item e \<noteq> None \<and> env_item e = env_item o' then latest es (o'\<lparr>en_payload := en_payload e\<rparr>) else latest es o')"
  by (auto simp: latest_def with_item_Cons split: option.split)

lemma compact_loop_simp:
  "compact_loop (e # es) seen out =
     (case env_item e of
        None \<Rightarrow> compact_loop es seen (out @ [e])
      | Some item \<Rightarrow>
          (case seen item of
             Some pos \<Rightarrow> compact_loop es seen (out[pos := (out ! pos)\<lparr>en_payload := en_payload e\<rparr>])
           | None \<Rightarrow> compact_loop es (seen(item \<mapsto> length out)) (out @ [e])))"
  by (auto simp: env_item_def split: option.split)

declare compact_loop.simps(2) [simp del]

lemma with_item_unseen:
  "seen item = None \<Longrightarrow> with_item item (unseen seen es) = with_item item es"
  by (induction es) (auto simp: with_item_def unseen_def split: option.split)

lemma latest_unseen:
  "env_item e = None \<or> (\<exists>item. env_item e = Some item \<and> seen item = None) \<Longrightarrow> latest (unseen seen es) e = latest es e"
  by (auto simp: latest_def with_item_unseen split: option.split)

lemma seen_none: "seen_ok seen out \<Longrightarrow> seen item = None \<Longrightarrow> pos < length out \<Longrightarrow> env_item (out ! pos) \<noteq> Some item"
  unfolding seen_ok_def by (metis option.distinct(1))

lemma seen_ok_append:
  assumes "seen_ok seen out" "env_item e = None"
  shows "seen_ok seen (out @ [e])"
  using assms by (auto simp: seen_ok_def nth_append less_Suc_eq)

lemma seen_ok_new:
  assumes "seen_ok seen out" "env_item e = Some item" "seen item = None"
  shows "seen_ok (seen(item \<mapsto> length out)) (out @ [e])"
  using assms seen_none [OF assms(1,3)] by (auto simp: seen_ok_def nth_append less_Suc_eq)

lemma seen_ok_update:
  assumes "seen_ok seen out" "env_item e = Some item" "seen item = Some pos"
  shows "seen_ok seen (out[pos := (out ! pos)\<lparr>en_payload := en_payload e\<rparr>])"
  using assms by (auto simp: seen_ok_def nth_list_update)

lemma compact_loop_ref:
  "seen_ok seen out \<Longrightarrow> compact_loop es seen out = map (latest es) out @ compacted (unseen seen es)"
proof (induction es arbitrary: seen out)
  case Nil
  then show ?case by (simp add: unseen_def latest_def with_item_def map_idI split: option.split)
next
  case (Cons e es)
  show ?case
  proof (cases "env_item e")
    case None
    then have "latest (e # es) = latest es" by (simp add: latest_Cons fun_eq_iff)
    moreover have "latest (e # unseen seen es) e = latest es e"
      using None latest_unseen [of e seen es] by (simp add: latest_Cons)
    ultimately show ?thesis
      using None Cons.IH [OF seen_ok_append [OF Cons.prems None]]
      by (simp add: compact_loop_simp unseen_def)
  next
    case (Some item)
    note e = Some
    show ?thesis
    proof (cases "seen item")
      case None
      have out: "map (latest (e # es)) out = map (latest es) out"
        by (rule nth_equalityI) (simp_all add: latest_Cons e not_sym [OF seen_none [OF Cons.prems None]])
      have "filter (\<lambda>x. env_item x \<noteq> Some item) (unseen seen es) = unseen (seen(item \<mapsto> length out)) es"
        by (auto simp: unseen_def intro!: filter_cong split: option.split)
      moreover have "latest (e # unseen seen es) e = latest es e"
        using e None latest_unseen [of e seen es] by (simp add: latest_Cons)
      moreover have "unseen seen (e # es) = e # unseen seen es" using e None by (simp add: unseen_def)
      moreover have "compact_loop (e # es) seen out = compact_loop es (seen(item \<mapsto> length out)) (out @ [e])"
        by (simp add: compact_loop_simp e None)
      moreover note Cons.IH [OF seen_ok_new [OF Cons.prems e None]]
      ultimately show ?thesis by (simp only: out compacted.simps e simp_thms map_append append.assoc list.map append.simps option.distinct)
    next
      case (Some pos)
      have pos: "pos < length out" "env_item (out ! pos) = Some item"
        using Cons.prems Some by (auto simp: seen_ok_def)
      have other: "env_item (out ! i) \<noteq> Some item" if "i < length out" "i \<noteq> pos" for i
        using Cons.prems Some that unfolding seen_ok_def by (metis option.inject)
      have "map (latest es) (out[pos := (out ! pos)\<lparr>en_payload := en_payload e\<rparr>]) = map (latest (e # es)) out"
        by (rule nth_equalityI) (auto simp: nth_list_update latest_Cons e pos not_sym [OF other])
      moreover have "unseen seen (e # es) = unseen seen es" using e Some by (simp add: unseen_def)
      ultimately show ?thesis
        using e Some Cons.IH [OF seen_ok_update [OF Cons.prems e Some]]
        by (simp add: compact_loop_simp)
    qed
  qed
qed

text \<open>Compacting the envelopes of a page in one pass with a table of positions gives the reference: every
  message item once, at the cursor where it appears first and with the payload that appears last, and every other
  event where it is.\<close>

theorem compaction_is_reference: "compact_superseded_messages events = compacted events"
  using compact_loop_ref [of Map.empty "[]" events] by (simp add: compact_superseded_messages_def seen_ok_def unseen_def split: option.split)

section \<open>Lemmas: pages\<close>

lemma rposition_below:
  assumes "sorted_wrt (<) (map en_cursor es)"
  shows "drop (case rposition (\<lambda>env. en_cursor env < c) es of Some i \<Rightarrow> i + 1 | None \<Rightarrow> 0) es =
      filter (\<lambda>env. c \<le> en_cursor env) es"
    and "take (case rposition (\<lambda>env. en_cursor env < c) es of Some i \<Rightarrow> i + 1 | None \<Rightarrow> 0) es =
      filter (\<lambda>env. en_cursor env < c) es"
proof -
  let ?k = "case rposition (\<lambda>env. en_cursor env < c) es of Some i \<Rightarrow> i + 1 | None \<Rightarrow> 0"
  have le: "?k \<le> length es" by (auto split: option.split dest: rposition_Some(1))
  have high: "c \<le> en_cursor (es ! j)" if "?k \<le> j" "j < length es" for j
    using that rposition_Some(3) [of "\<lambda>env. en_cursor env < c" es _ j]
    by (cases "rposition (\<lambda>env. en_cursor env < c) es") (auto simp: rposition_None not_less Suc_le_eq)
  have low: "en_cursor (es ! j) < c" if j: "j < ?k" for j
  proof -
    obtain i where i: "rposition (\<lambda>env. en_cursor env < c) es = Some i" "j \<le> i"
      using j by (cases "rposition (\<lambda>env. en_cursor env < c) es") auto
    have "en_cursor (es ! j) \<le> en_cursor (es ! i)"
      using assms i(2) rposition_Some(1) [OF i(1)] by (cases "j = i") (auto simp: sorted_wrt_iff_nth_less intro: less_imp_le)
    then show ?thesis using rposition_Some(2) [OF i(1)] by simp
  qed
  have "filter (\<lambda>env. c \<le> en_cursor env) (take ?k es) = []" "filter (\<lambda>env. c \<le> en_cursor env) (drop ?k es) = drop ?k es"
    using low high le by (auto simp: filter_empty_conv filter_id_conv in_set_conv_nth not_le nth_append add.commute)
  then show "drop ?k es = filter (\<lambda>env. c \<le> en_cursor env) es"
    by (metis append_take_drop_id filter_append self_append_conv2)
  have "filter (\<lambda>env. en_cursor env < c) (take ?k es) = take ?k es" "filter (\<lambda>env. en_cursor env < c) (drop ?k es) = []"
    using low high le by (auto simp: filter_empty_conv filter_id_conv in_set_conv_nth not_less add.commute)
  then show "take ?k es = filter (\<lambda>env. en_cursor env < c) es"
    by (metis append_take_drop_id filter_append self_append_conv)
qed

lemma takeWhile_sorted:
  "sorted_wrt (<) (map en_cursor es) \<Longrightarrow> takeWhile (\<lambda>env. en_cursor env < c) es = filter (\<lambda>env. en_cursor env < c) es"
proof (induction es)
  case (Cons e es)
  have "filter (\<lambda>env. en_cursor env < c) es = []" if "\<not> en_cursor e < c"
    using that Cons.prems by (auto simp: filter_empty_conv)
  with Cons show ?case by auto
qed simp

lemma sorted_split:
  "sorted_wrt (<) (map en_cursor es) \<Longrightarrow> a \<le> b \<Longrightarrow> filter (\<lambda>env. en_cursor env < b) es =
     filter (\<lambda>env. en_cursor env < a) es @ filter (\<lambda>env. a \<le> en_cursor env \<and> en_cursor env < b) es"
proof (induction es)
  case (Cons e es)
  have "filter (\<lambda>env. en_cursor env < a) es = []" if "a \<le> en_cursor e"
    using that Cons.prems by (auto simp: filter_empty_conv)
  with Cons show ?case by auto
qed simp

lemma find_SomeD: "find p xs = Some x \<Longrightarrow> x \<in> set xs \<and> p x"
  by (auto simp: find_Some_iff)

lemma boundary_Some:
  assumes "user_message_boundary es start bound = Some i"
  shows "i < start" "i < length es" "is_user_message (en_payload (es ! i))"
proof -
  obtain env where "(i, env) \<in> set (take bound (rev (enumerate 0 (take start es))))" "is_user_message (en_payload env)"
    using assms by (auto simp: user_message_boundary_def dest: find_SomeD)
  then have "(i, env) \<in> set (enumerate 0 (take start es))" "is_user_message (en_payload env)"
    using in_set_takeD by fastforce+
  then show "i < start" "i < length es" "is_user_message (en_payload (es ! i))"
    by (auto simp: in_set_enumerate_eq)
qed

definition page_end :: "'j TranscriptLog \<Rightarrow> nat \<Rightarrow> nat" where
  "page_end l before = clamp before (tl_dropped l) (absolute_next_cursor l)"

lemma page_end_range: "tl_dropped l \<le> page_end l before \<and> page_end l before \<le> absolute_next_cursor l"
  by (simp add: page_end_def clamp_def absolute_next_cursor_def)

text \<open>Where a page starts: a limit before its end, or at the message of the user before that.\<close>

definition page_start :: "'j TranscriptLog \<Rightarrow> nat \<Rightarrow> nat \<Rightarrow> nat" where
  "page_start l before limit =
     (let start0 = max (page_end l before - limit) (tl_dropped l);
          older = (case rposition (\<lambda>env. en_cursor env < start0) (all_shown l) of Some i \<Rightarrow> i + 1 | None \<Rightarrow> 0)
      in if limit > 0
         then (case user_message_boundary (all_shown l) older limit of
                 Some idx \<Rightarrow> en_cursor (all_shown l ! idx) | None \<Rightarrow> start0)
         else start0)"

lemma page_start_range:
  "tl_dropped l \<le> page_start l before limit" "page_start l before limit \<le> page_end l before"
  "limit > 0 \<Longrightarrow> tl_dropped l < page_end l before \<Longrightarrow> page_start l before limit < page_end l before"
proof -
  let ?start0 = "max (page_end l before - limit) (tl_dropped l)"
  let ?older = "case rposition (\<lambda>env. en_cursor env < ?start0) (all_shown l) of Some i \<Rightarrow> i + 1 | None \<Rightarrow> 0"
  have start0: "tl_dropped l \<le> ?start0" "?start0 \<le> page_end l before"
    "limit > 0 \<Longrightarrow> tl_dropped l < page_end l before \<Longrightarrow> ?start0 < page_end l before"
    using page_end_range [of l before] by auto
  have "tl_dropped l \<le> en_cursor (all_shown l ! i) \<and> en_cursor (all_shown l ! i) < ?start0"
    if "user_message_boundary (all_shown l) ?older limit = Some i" for i
  proof -
    have i: "i < ?older" "i < length (all_shown l)" using boundary_Some [OF that] by blast+
    then have "all_shown l ! i \<in> set (take ?older (all_shown l))"
      by (metis in_set_conv_nth length_take min_less_iff_conj nth_take)
    then have "en_cursor (all_shown l ! i) < ?start0"
      unfolding rposition_below(2) [OF all_shown_sorted] by simp
    then show ?thesis using all_shown_range [OF nth_mem [OF i(2)]] by simp
  qed
  with start0 show "tl_dropped l \<le> page_start l before limit" "page_start l before limit \<le> page_end l before"
    "limit > 0 \<Longrightarrow> tl_dropped l < page_end l before \<Longrightarrow> page_start l before limit < page_end l before"
    unfolding page_start_def Let_def by (force split: option.split)+
qed

lemma page_events:
  "tp_events (read_before l before limit) =
     compacted (filter (\<lambda>env. page_start l before limit \<le> en_cursor env \<and> en_cursor env < page_end l before) (all_shown l))"
proof -
  let ?since = "page_start l before limit" and ?upto = "page_end l before" and ?es = "all_shown l"
  let ?below = "\<lambda>c. case rposition (\<lambda>env. en_cursor env < c) ?es of Some i \<Rightarrow> i + 1 | None \<Rightarrow> 0"
  have "tp_events (read_before l before limit) =
      compact_superseded_messages (drop (?below ?since) (take (length (takeWhile (\<lambda>env. en_cursor env < ?upto) ?es)) ?es))"
    unfolding read_before_def Let_def read_all page_start_def page_end_def by simp
  also have "take (length (takeWhile (\<lambda>env. en_cursor env < ?upto) ?es)) ?es = filter (\<lambda>env. en_cursor env < ?upto) ?es"
    by (metis takeWhile_sorted [OF all_shown_sorted] takeWhile_eq_take)
  also have "drop (?below ?since) (filter (\<lambda>env. en_cursor env < ?upto) ?es) =
      filter (\<lambda>env. ?since \<le> en_cursor env \<and> en_cursor env < ?upto) ?es"
  proof -
    have "length (filter (\<lambda>env. en_cursor env < ?since) ?es) = ?below ?since"
      using arg_cong [OF rposition_below(2) [OF all_shown_sorted [of l], of ?since], of length]
      by (auto split: option.splits dest: rposition_Some(1))
    then show ?thesis
      unfolding sorted_split [OF all_shown_sorted page_start_range(2) [of l before limit]]
      by (metis append_eq_conv_conj)
  qed
  finally show ?thesis by (simp add: compaction_is_reference)
qed

lemma latest_cursor [simp]: "en_cursor (latest es e) = en_cursor e"
  by (simp add: latest_def split: option.split)

lemma page_from:
  assumes "limit > 0"
  shows "page_start l before limit \<le> tp_from (read_before l before limit)"
    and "tp_from (read_before l before limit) \<le> page_end l before"
    and "tl_dropped l < page_end l before \<Longrightarrow> tp_from (read_before l before limit) < page_end l before"
    and "\<And>env. env \<in> set (all_shown l) \<Longrightarrow> page_start l before limit \<le> en_cursor env \<Longrightarrow>
      en_cursor env < page_end l before \<Longrightarrow> tp_from (read_before l before limit) \<le> en_cursor env"
proof -
  let ?since = "page_start l before limit" and ?upto = "page_end l before"
  let ?in = "filter (\<lambda>env. ?since \<le> en_cursor env \<and> en_cursor env < ?upto) (all_shown l)"
  have start_at: "tp_from (read_before l before limit) =
      (case tp_events (read_before l before limit) of [] \<Rightarrow> ?since | env # _ \<Rightarrow> en_cursor env)"
    using assms unfolding read_before_def Let_def read_all page_start_def page_end_def
    by (auto split: list.split)
  have "sorted_wrt (<) (map en_cursor ?in)" using all_shown_sorted [of l] by (simp add: sorted_wrt_map sorted_wrt_filter)
  then have first: "tp_from (read_before l before limit) = (case ?in of [] \<Rightarrow> ?since | env # _ \<Rightarrow> en_cursor env)"
    "\<And>env. env \<in> set ?in \<Longrightarrow> tp_from (read_before l before limit) \<le> en_cursor env"
    unfolding start_at page_events by (cases ?in; auto)+
  show "?since \<le> tp_from (read_before l before limit)" "tp_from (read_before l before limit) \<le> ?upto"
    "tl_dropped l < ?upto \<Longrightarrow> tp_from (read_before l before limit) < ?upto"
  proof -
    have "set ?in \<subseteq> {env. ?since \<le> en_cursor env \<and> en_cursor env < ?upto}" by auto
    then show "?since \<le> tp_from (read_before l before limit)" "tp_from (read_before l before limit) \<le> ?upto"
      "tl_dropped l < ?upto \<Longrightarrow> tp_from (read_before l before limit) < ?upto"
      unfolding first(1) using page_start_range [where l = l and before = before and limit = limit] assms by (cases ?in; auto)+
  qed
  show "tp_from (read_before l before limit) \<le> en_cursor env"
    if "env \<in> set (all_shown l)" "?since \<le> en_cursor env" "en_cursor env < ?upto" for env
    by (rule first(2)) (use that in simp)
qed

text \<open>C15: A page of older events holds all that a reader may see between the cursor it starts at and the cursor it
  was asked for, compacted, and nothing else: with the pages before and after it nothing is lost or repeated.\<close>

theorem page_is_exact:
  assumes "limit > 0"
  shows "tp_events (read_before l before limit) =
      compacted (filter (\<lambda>env. tp_from (read_before l before limit) \<le> en_cursor env
        \<and> en_cursor env < clamp before (tl_dropped l) (absolute_next_cursor l))
      (fst (read_from_enveloped (tl_dropped l) l)))"
proof -
  have "filter (\<lambda>env. page_start l before limit \<le> en_cursor env \<and> en_cursor env < page_end l before) (all_shown l) =
      filter (\<lambda>env. tp_from (read_before l before limit) \<le> en_cursor env \<and> en_cursor env < page_end l before) (all_shown l)"
    using page_from(1,4) [OF assms] by (intro filter_cong) (auto intro: order_trans)
  then show ?thesis unfolding page_events read_all page_end_def by simp
qed

lemma decreasing_iterates:
  fixes f :: "nat \<Rightarrow> nat"
  assumes "\<And>c. d < c \<Longrightarrow> c \<le> m \<Longrightarrow> d \<le> f c \<and> f c < c" and "d \<le> c" "c \<le> m"
  shows "\<exists>n \<le> c - d. (f ^^ n) c = d"
  using assms(2,3)
proof (induction c rule: less_induct)
  case (less c)
  show ?case
  proof (cases "c = d")
    case False
    then have "d \<le> f c" "f c < c" using assms(1) less.prems by auto
    then obtain n where "n \<le> f c - d" "(f ^^ n) (f c) = d" using less.IH [of "f c"] less.prems by auto
    with \<open>f c < c\<close> \<open>d \<le> f c\<close> show ?thesis
      by (intro exI [of _ "Suc n"]) (simp add: funpow_Suc_right del: funpow.simps)
  qed (auto intro: exI [of _ 0])
qed

text \<open>C16: Asking for the page before the last page, again and again, ends: every page starts before the cursor it
  was asked for, and after at most one page per stored event, and one more for a cursor beyond the end, the start of
  the log is reached.\<close>

theorem paging_reaches_the_floor:
  assumes "limit > 0"
  shows "(tl_dropped l < before \<longrightarrow> tp_from (read_before l before limit) < before)
    \<and> (\<exists>n \<le> length (tl_events l) + 1. ((\<lambda>c. tp_from (read_before l c limit)) ^^ n) before = tl_dropped l)"
proof -
  let ?f = "\<lambda>c. tp_from (read_before l c limit)"
  have least: "tl_dropped l \<le> ?f c" for c
    using page_from(1) [OF assms, of l c] page_start_range(1) [of l c limit] by simp
  have step: "?f c < c" if "tl_dropped l < c" for c
  proof (cases "tl_dropped l < page_end l c")
    case True
    have "page_end l c \<le> c" using that by (simp add: page_end_def clamp_def)
    with page_from(3) [OF assms True] show ?thesis by simp
  next
    case False
    with page_end_range [of l c] page_from(2) [OF assms, of l c] that show ?thesis by simp
  qed
  have first: "?f before \<le> absolute_next_cursor l"
    using page_from(2) [OF assms, of l before] page_end_range [of l before] by simp
  then obtain n where "n \<le> ?f before - tl_dropped l" "(?f ^^ n) (?f before) = tl_dropped l"
    using decreasing_iterates [of "tl_dropped l" "absolute_next_cursor l" ?f "?f before"] least step by auto
  with first have "Suc n \<le> length (tl_events l) + 1" "(?f ^^ Suc n) before = tl_dropped l"
    by (simp_all add: absolute_next_cursor_def funpow_Suc_right del: funpow.simps)
  with step show ?thesis by blast
qed

section \<open>Committing a batch\<close>

text \<open>The end of \<open>persist_log_batch\<close> and \<open>commit_ledger_with_events\<close>, once the store has the events.\<close>

definition commit_batch :: "'j SessionServerEvent list \<Rightarrow> 'j TranscriptLog \<Rightarrow> 'j TranscriptLog" where
  "commit_batch batch l = append_events batch (mark_superseded (superseded_cursors_for batch l) l)"

definition event_at :: "'j TranscriptLog \<Rightarrow> nat \<Rightarrow> 'j SessionServerEvent option" where
  "event_at l c = (if c < tl_dropped l then None else get_at (c - tl_dropped l) (tl_events l))"

lemma event_at_range: "event_at l c = Some e \<Longrightarrow> tl_dropped l \<le> c \<and> c < absolute_next_cursor l"
  by (auto simp: event_at_def get_at_def absolute_next_cursor_def split: if_splits)

lemma event_at_index: "i < length (tl_events l) \<Longrightarrow> event_at l (tl_dropped l + i) = Some (tl_events l ! i)"
  by (simp add: event_at_def get_at_def)

lemma blank_item: "blank_message e = Some m \<Longrightarrow> message_item m = message_item e \<and> blank_message m = Some m"
  by (cases e) auto

lemma marker_for_at: "marker_for l c = Option.bind (event_at l c) blank_message"
  by (simp add: marker_for_def event_at_def)

lemma mark_one_at:
  "tl_dropped (mark_one c l) = tl_dropped l" "absolute_next_cursor (mark_one c l) = absolute_next_cursor l"
  "event_at (mark_one c l) x = (if x = c \<and> marker_for l c \<noteq> None then marker_for l c else event_at l x)"
proof -
  show "tl_dropped (mark_one c l) = tl_dropped l" "absolute_next_cursor (mark_one c l) = absolute_next_cursor l"
    by (simp_all add: mark_one_def absolute_next_cursor_def split: option.split)
  show "event_at (mark_one c l) x = (if x = c \<and> marker_for l c \<noteq> None then marker_for l c else event_at l x)"
    by (auto simp: mark_one_def event_at_def marker_for_def get_at_def nth_list_update bind_eq_Some_conv
        split: option.split if_splits)
qed

lemma marks_at:
  "tl_dropped (mark_superseded cs l) = tl_dropped l \<and> absolute_next_cursor (mark_superseded cs l) = absolute_next_cursor l
   \<and> event_at (mark_superseded cs l) x = (if x \<in> set cs \<and> marker_for l x \<noteq> None then marker_for l x else event_at l x)"
proof (induction cs arbitrary: l)
  case (Cons c cs)
  have "marker_for (mark_one c l) x = marker_for l x"
    unfolding marker_for_at mark_one_at(3)
    by (cases "event_at l x") (auto dest: blank_item split: option.split)
  with Cons [of "mark_one c l"] mark_one_at [of c l] show ?case by (auto simp: mark_superseded_def)
qed (simp add: mark_superseded_def)

lemma append_shape:
  obtains k where "k \<le> length (tl_events l @ es)" "tl_events (append_events es l) = drop k (tl_events l @ es)"
    "tl_dropped (append_events es l) = tl_dropped l + k"
proof (cases "length (tl_events l @ es) > MAX_LOG_EVENTS")
  case True
  then show ?thesis
    using that [of "length (tl_events l @ es) - MAX_LOG_EVENTS"] by (simp add: append_events_def Let_def)
next
  case False
  then show ?thesis using that [of 0] by (simp add: append_events_def Let_def)
qed

lemma append_next: "absolute_next_cursor (append_events es l) = absolute_next_cursor l + length es"
  by (rule append_shape [of l es]) (simp add: absolute_next_cursor_def)

lemma append_dropped: "tl_dropped l \<le> tl_dropped (append_events es l)"
  by (rule append_shape [of l es]) simp

lemma append_at:
  "event_at (append_events es l) x =
     (if x < tl_dropped (append_events es l) then None
      else if x < absolute_next_cursor l then event_at l x else get_at (x - absolute_next_cursor l) es)"
proof -
  obtain k where k: "k \<le> length (tl_events l @ es)" "tl_events (append_events es l) = drop k (tl_events l @ es)"
    "tl_dropped (append_events es l) = tl_dropped l + k" by (rule append_shape)
  have "event_at (append_events es l) x = get_at (x - tl_dropped l) (tl_events l @ es)" if "tl_dropped l + k \<le> x"
  proof -
    have "k + (x - (tl_dropped l + k)) = x - tl_dropped l" using that by simp
    then show ?thesis using k that by (auto simp: event_at_def get_at_def simp del: drop_append)
  qed
  then show ?thesis
    using k(3) by (auto simp: event_at_def get_at_def nth_append absolute_next_cursor_def)
qed

lemma superseded_cursor:
  assumes "x \<in> set (superseded_cursors_for batch l)"
  obtains e item stored where "e \<in> set batch" "message_item e = Some item" "event_at l x = Some stored"
    "message_item stored = Some item" "item \<noteq> []" "\<not> is_superseded_marker e" "\<not> is_superseded_marker stored"
proof -
  obtain e where e: "e \<in> set batch" "superseded_by l e = Some x"
    using assms by (auto simp: superseded_cursors_for_def List.map_filter_def)
  then obtain item i where i: "message_item e = Some item" "item \<noteq> []" "\<not> is_superseded_marker e"
    "rposition (\<lambda>stored. message_item stored = Some item) (tl_events l) = Some i"
    "\<not> is_superseded_marker (tl_events l ! i)" "x = tl_dropped l + i"
    by (auto simp: superseded_by_def split: option.splits if_splits)
  show ?thesis
    using that [OF e(1) i(1) _ _ i(2,3,5)] rposition_Some(1,2) [OF i(4)] event_at_index [of i l] i(6) by simp
qed

definition carried :: "'j SessionServerEvent list \<Rightarrow> nat \<Rightarrow> 'j TranscriptLog \<Rightarrow> bool" where
  "carried es c l \<longleftrightarrow> absolute_next_cursor l = c + length es
     \<and> (\<forall>i < length es. tl_dropped l \<le> c + i \<longrightarrow> (\<exists>m. event_at l (c + i) = Some m
          \<and> message_item m = message_item (es ! i)
          \<and> (m = es ! i \<or> (message_item m \<noteq> None \<and> (\<exists>j. i < j \<and> j < length es \<and> message_item (es ! j) = message_item m)))))"

lemma carried_step:
  assumes "carried es c l"
  shows "carried (es @ batch) c (commit_batch batch l)"
proof -
  let ?cs = "superseded_cursors_for batch l" and ?l = "mark_superseded (superseded_cursors_for batch l) l"
  have nxt: "absolute_next_cursor l = c + length es" using assms by (simp add: carried_def)
  have "\<exists>m. event_at (commit_batch batch l) (c + i) = Some m \<and> message_item m = message_item ((es @ batch) ! i)
      \<and> (m = (es @ batch) ! i \<or> (message_item m \<noteq> None
         \<and> (\<exists>j. i < j \<and> j < length (es @ batch) \<and> message_item ((es @ batch) ! j) = message_item m)))"
    if i: "i < length (es @ batch)" "tl_dropped (commit_batch batch l) \<le> c + i" for i
  proof (cases "i < length es")
    case False
    then have "event_at (commit_batch batch l) (c + i) = Some ((es @ batch) ! i)"
      using i nxt marks_at [of ?cs l]
      by (auto simp: commit_batch_def append_at get_at_def nth_append)
    then show ?thesis by simp
  next
    case True
    have "tl_dropped l \<le> c + i" using i(2) append_dropped [of ?l batch] marks_at [of ?cs l] by (simp add: commit_batch_def)
    then obtain m where m: "event_at l (c + i) = Some m" "message_item m = message_item (es ! i)"
      "m = es ! i \<or> (message_item m \<noteq> None \<and> (\<exists>j. i < j \<and> j < length es \<and> message_item (es ! j) = message_item m))"
      using assms True unfolding carried_def by blast
    have at: "event_at (commit_batch batch l) (c + i) =
        (if c + i \<in> set ?cs \<and> marker_for l (c + i) \<noteq> None then marker_for l (c + i) else Some m)"
      using True i(2) nxt m(1) marks_at [of ?cs l "c + i"] by (simp add: commit_batch_def append_at)
    show ?thesis
    proof (cases "c + i \<in> set ?cs \<and> marker_for l (c + i) \<noteq> None")
      case marked: True
      then obtain e item where e: "e \<in> set batch" "message_item e = Some item" "message_item m = Some item"
        using superseded_cursor [of "c + i" batch l] m(1) by (metis option.inject)
      obtain m' where m': "marker_for l (c + i) = Some m'" "message_item m' = message_item m"
        using marked m(1) blank_item by (auto simp: marker_for_at)
      obtain n where "n < length batch" "batch ! n = e" using e(1) by (auto simp: in_set_conv_nth)
      then have "\<exists>j. i < j \<and> j < length (es @ batch) \<and> message_item ((es @ batch) ! j) = message_item m'"
        using True e m'(2) by (intro exI [of _ "length es + n"]) simp
      with marked at m' e(3) m(2) True show ?thesis by (auto simp: nth_append)
    next
      case False
      then have "event_at (commit_batch batch l) (c + i) = Some m" unfolding at by simp
      moreover have "(es @ batch) ! j = es ! j" if "j < length es" for j using that by (simp add: nth_append)
      ultimately show ?thesis using m True by (metis length_append trans_less_add1)
    qed
  qed
  moreover have "absolute_next_cursor (commit_batch batch l) = c + length (es @ batch)"
    using nxt marks_at [of ?cs l] by (simp add: commit_batch_def append_next)
  ultimately show ?thesis by (simp add: carried_def)
qed

lemma carried_batches: "carried es c l \<Longrightarrow> carried (es @ concat batches) c (fold commit_batch batches l)"
  by (induction batches arbitrary: es l) (use carried_step in fastforce)+


definition one_visible :: "'j TranscriptLog \<Rightarrow> bool" where
  "one_visible l \<longleftrightarrow> (\<forall>x y a b item. x < y \<and> event_at l x = Some a \<and> event_at l y = Some b
     \<and> message_item a = Some item \<and> message_item b = Some item \<and> item \<noteq> [] \<longrightarrow> is_superseded_marker a)"

text \<open>A batch names every item once and holds no blank message.\<close>

definition clean_batch :: "'j SessionServerEvent list \<Rightarrow> bool" where
  "clean_batch batch \<longleftrightarrow> list_all (\<lambda>e. \<not> is_superseded_marker e) batch
     \<and> distinct (filter (\<lambda>item. item \<noteq> []) (List.map_filter message_item batch))"

lemma clean_items:
  assumes "clean_batch batch" "i < j" "j < length batch" "message_item (batch ! i) = Some item"
    "message_item (batch ! j) = Some item"
  shows "item = []"
  using assms
proof (induction batch arbitrary: i j)
  case (Cons e batch)
  obtain k where k: "j = Suc k" using Cons.prems(2) by (cases j) auto
  have member: "item \<in> set (List.map_filter message_item batch)"
    using Cons.prems(3,5) k by (auto simp: List.map_filter_def intro!: image_eqI [of _ _ "batch ! k"])
  show ?case
  proof (cases i)
    case 0
    with member Cons.prems(1,4) show ?thesis
      by (auto simp: clean_batch_def List.map_filter_simps split: if_splits)
  next
    case (Suc n)
    have "clean_batch batch"
      using Cons.prems(1) by (auto simp: clean_batch_def List.map_filter_simps split: option.splits if_splits)
    from Cons.IH [OF this, of n k] Suc k Cons.prems show ?thesis by simp
  qed
qed simp

lemma blank_marker: "blank_message e = Some m \<Longrightarrow> message_item e = Some item \<Longrightarrow> item \<noteq> [] \<Longrightarrow> is_superseded_marker m"
  by (cases e) auto

lemma marker_item: "is_superseded_marker e \<Longrightarrow> blank_message e = Some m \<Longrightarrow> is_superseded_marker m"
  by (cases e) auto

lemma superseded_found:
  assumes "e \<in> set batch" "message_item e = Some item" "item \<noteq> []" "\<not> is_superseded_marker e"
    and "event_at l y = Some b" "message_item b = Some item" "\<not> is_superseded_marker b"
    and "\<And>z d. y < z \<Longrightarrow> event_at l z = Some d \<Longrightarrow> message_item d \<noteq> Some item"
  shows "y \<in> set (superseded_cursors_for batch l)"
proof -
  let ?p = "\<lambda>stored. message_item stored = Some item"
  obtain k where k: "k < length (tl_events l)" "tl_events l ! k = b" "y = tl_dropped l + k"
    using assms(5) by (auto simp: event_at_def get_at_def split: if_splits)
  obtain i where i: "rposition ?p (tl_events l) = Some i"
    using rposition_None [of ?p "tl_events l"] k assms(6) nth_mem by (cases "rposition ?p (tl_events l)") force+
  have "i = k"
  proof (rule antisym)
    show "k \<le> i" using rposition_Some(3) [OF i, of k] k assms(6) by (force simp: not_less [symmetric])
    show "i \<le> k"
      using assms(8) [of "tl_dropped l + i"] rposition_Some(1,2) [OF i] event_at_index k(3) by (force simp: not_less [symmetric])
  qed
  then have "superseded_by l e = Some y" using assms(2-4,7) i k by (simp add: superseded_by_def)
  then show ?thesis using assms(1) by (auto simp: superseded_cursors_for_def List.map_filter_def intro!: image_eqI [of _ _ e])
qed

lemma commit_at:
  "event_at (commit_batch batch l) x =
     (if x < tl_dropped (commit_batch batch l) then None
      else if x < absolute_next_cursor l
        then (if x \<in> set (superseded_cursors_for batch l) \<and> marker_for l x \<noteq> None then marker_for l x else event_at l x)
      else get_at (x - absolute_next_cursor l) batch)"
  using marks_at [of "superseded_cursors_for batch l" l x] by (simp add: commit_batch_def append_at)

lemma commit_old:
  assumes "event_at (commit_batch batch l) x = Some a" "x < absolute_next_cursor l"
  obtains a0 where "event_at l x = Some a0" "message_item a = message_item a0"
    "is_superseded_marker a0 \<Longrightarrow> is_superseded_marker a"
    "x \<in> set (superseded_cursors_for batch l) \<Longrightarrow> message_item a = Some item \<Longrightarrow> item \<noteq> [] \<Longrightarrow> is_superseded_marker a"
proof -
  have a: "(if x \<in> set (superseded_cursors_for batch l) \<and> marker_for l x \<noteq> None then marker_for l x else event_at l x) = Some a"
    using assms by (simp add: commit_at split: if_splits)
  show ?thesis
  proof (cases "marker_for l x")
    case None
    then have "event_at l x = Some a" using a by simp
    moreover have "is_superseded_marker a" if "message_item a = Some item" "item \<noteq> []"
      using that None calculation by (cases a) (auto simp: marker_for_at)
    ultimately show ?thesis using that by blast
  next
    case (Some m)
    then obtain a0 where "event_at l x = Some a0" "blank_message a0 = Some m" by (auto simp: marker_for_at bind_eq_Some_conv)
    with a Some that blank_item [of a0 m] marker_item [of a0 m] blank_marker [of a0 m item] show ?thesis
      by (auto split: if_splits)
  qed
qed

lemma commit_one_visible:
  assumes "one_visible l" "clean_batch batch"
  shows "one_visible (commit_batch batch l)"
  unfolding one_visible_def
proof (intro allI impI, elim conjE)
  fix x y a b item
  let ?n = "absolute_next_cursor l"
  assume xy: "x < y" and a: "event_at (commit_batch batch l) x = Some a" "message_item a = Some item"
    and b: "event_at (commit_batch batch l) y = Some b" "message_item b = Some item" and item: "item \<noteq> []"
  show "is_superseded_marker a"
  proof (cases "x < ?n")
    case False
    then have "get_at (x - ?n) batch = Some a" "get_at (y - ?n) batch = Some b" "x - ?n < y - ?n"
      using a(1) b(1) xy by (auto simp: commit_at split: if_splits)
    then have "item = []"
      using clean_items [OF assms(2), of "x - ?n" "y - ?n" item] a(2) b(2) by (auto simp: get_at_def split: if_splits)
    with item show ?thesis by simp
  next
    case True
    obtain a0 where a0: "event_at l x = Some a0" "message_item a = message_item a0"
      "is_superseded_marker a0 \<Longrightarrow> is_superseded_marker a"
      "x \<in> set (superseded_cursors_for batch l) \<Longrightarrow> message_item a = Some item \<Longrightarrow> item \<noteq> [] \<Longrightarrow> is_superseded_marker a"
      using commit_old [OF a(1) True, of item] by blast
    show ?thesis
    proof (cases "\<exists>z d. x < z \<and> event_at l z = Some d \<and> message_item d = Some item")
      case True
      then have "is_superseded_marker a0" using assms(1) a0(1,2) a(2) item unfolding one_visible_def by metis
      then show ?thesis by (rule a0(3))
    next
      case last: False
      have "\<not> y < ?n"
      proof
        assume "y < ?n"
        from commit_old [OF b(1) this, of item] last xy b(2) show False by metis
      qed
      then have "get_at (y - ?n) batch = Some b" using b(1) by (auto simp: commit_at split: if_splits)
      then have "b \<in> set batch" by (auto simp: get_at_def split: if_splits)
      moreover have "\<not> is_superseded_marker b" using assms(2) calculation by (auto simp: clean_batch_def list_all_iff)
      ultimately have "x \<in> set (superseded_cursors_for batch l)" if "\<not> is_superseded_marker a0"
        using superseded_found [OF _ b(2) item _ a0(1) _ that] a0(2) a(2) last by auto
      then show ?thesis using a0(3,4) a(2) item by blast
    qed
  qed
qed

text \<open>C14: A reader never sees two texts of one item: if every batch names an item once and has no blank messages,
  then in whatever a client reads after any number of batches, from any cursor, each item of a message occurs once,
  at the last event that carries it.\<close>

theorem items_are_read_once:
  assumes "list_all clean_batch batches" and "u = fold commit_batch batches (from_events [] dropped)"
    and "env \<in> set (fst (read_from_enveloped cursor u))" and "message_item (en_payload env) = Some item" and "item \<noteq> []"
  shows "\<forall>y e. event_at u y = Some e \<and> message_item e = Some item \<longrightarrow> y \<le> en_cursor env"
proof (intro allI impI, rule ccontr)
  fix y e
  assume later: "event_at u y = Some e \<and> message_item e = Some item" "\<not> y \<le> en_cursor env"
  have "one_visible l \<Longrightarrow> list_all clean_batch bs \<Longrightarrow> one_visible (fold commit_batch bs l)" for bs and l :: "'a TranscriptLog"
    by (induction bs arbitrary: l) (simp_all add: commit_one_visible)
  moreover have "one_visible (from_events [] dropped :: 'a TranscriptLog)"
    by (simp add: one_visible_def from_events_def event_at_def get_at_def)
  ultimately have u: "one_visible u" using assms(1,2) by simp
  obtain k where k: "env = envelope_at u k" "shown_in u k" "k < length (tl_events u)"
    using assms(3) unfolding read_shown by (auto simp: all_shown_def)
  have "is_superseded_marker (tl_events u ! k)"
    using u later event_at_index [OF k(3)] assms(4,5) k(1) unfolding one_visible_def
    by (metis envelope_cursor envelope_payload not_le)
  then show False using k(2) by (simp add: shown_in_def shown_at_def)
qed

section \<open>The tail of an attaching client\<close>

lemma compacted_keeps: "env \<in> set es \<Longrightarrow> env_item env = None \<Longrightarrow> env \<in> set (compacted es)"
proof (induction es rule: compacted.induct)
  case (2 e es)
  show ?case
  proof (cases "env = e")
    case True
    then have "latest (e # es) e = e" using 2(3) by (simp add: latest_def)
    with True show ?thesis by simp
  next
    case False
    then have "env \<in> set (filter (\<lambda>x. env_item e = None \<or> env_item x \<noteq> env_item e) es)" using 2(2,3) by auto
    from 2(1) [OF this 2(3)] show ?thesis by simp
  qed
qed simp

lemma position_le: "i < length xs \<Longrightarrow> p (xs ! i) \<Longrightarrow> \<exists>j. position p xs = Some j \<and> j \<le> i"
  using position_Some(3) [of p xs] position_None [of p xs] nth_mem
  by (cases "position p xs") (force simp: not_less [symmetric])+

lemma tail_start_permission:
  assumes "i < length replayed" "is_request (pp_request_id p) (en_payload (replayed ! i))"
  shows "tail_start_index replayed (Some p) eli \<le> i"
proof -
  let ?start2 = "let start = length replayed - TAIL_EVENT_LIMIT;
          start1 = (case position (\<lambda>env. is_request (pp_request_id p) (en_payload env)) replayed of
                           Some i \<Rightarrow> min start i | None \<Rightarrow> start)
      in case eli of
                      None \<Rightarrow> start1
                    | Some pending \<Rightarrow>
                        (case position (\<lambda>env. is_elicitation (pc_request_id pending) (en_payload env)) replayed of
                           Some i \<Rightarrow> min start1 i | None \<Rightarrow> start1)"
  obtain j where j: "position (\<lambda>env. is_request (pp_request_id p) (en_payload env)) replayed = Some j" "j \<le> i"
    using position_le [of i replayed "\<lambda>env. is_request (pp_request_id p) (en_payload env)"] assms by blast
  then have start2: "?start2 \<le> i" by (auto simp: Let_def split: option.split)
  have "tail_start_index replayed (Some p) eli \<le> ?start2"
  proof (cases "user_message_boundary replayed ?start2 TAIL_EVENT_LIMIT")
    case None
    then show ?thesis by (simp add: tail_start_index_def Let_def)
  next
    case (Some idx)
    obtain k where "position (\<lambda>env. en_cursor env = en_cursor (replayed ! idx)) replayed = Some k" "k \<le> idx"
      using position_le [of idx replayed "\<lambda>env. en_cursor env = en_cursor (replayed ! idx)"] boundary_Some(2) [OF Some] by blast
    with Some boundary_Some(1) [OF Some] show ?thesis by (simp add: tail_start_index_def Let_def)
  qed
  with start2 show ?thesis by simp
qed

lemma first_some_Some: "first_some f xs = Some y \<Longrightarrow> \<exists>x \<in> set xs. f x = Some y"
  by (induction xs) (auto split: option.splits)

text \<open>C17: A client that attaches from the start is never left without the question it has to answer: when a
  permission is pending, the snapshot names it and its tail holds the request, however long ago it was asked.\<close>

theorem pending_permission_is_in_the_tail:
  assumes "rl_reset (plan_replay cursor l)" and "pending_permission l = Some p"
  shows "\<exists>transcript. ss_transcript (fst (build_attach l model busy cursor chrome)) = Some transcript
    \<and> ss_pending_permission (fst (build_attach l model busy cursor chrome)) = Some p
    \<and> (\<exists>env \<in> set transcript. requested_permission (en_payload env) = Some (pp_request_id p))"
proof -
  let ?es = "all_shown l"
  have "rl_from (plan_replay cursor l) \<le> tl_dropped l"
    using assms(1) by (auto simp: plan_replay_def split: option.splits if_splits)
  then have replayed: "fst (read_from_enveloped (rl_from (plan_replay cursor l)) l) = ?es"
    unfolding read_shown by (intro filter_True) (auto dest: all_shown_range)
  obtain e where e: "e \<in> set (tl_events l)" "pending_request (resolved_permissions (tl_events l)) e = Some p"
    using first_some_Some assms(2) unfolding pending_permission_def by fastforce
  then obtain k where k: "k < length (tl_events l)" "tl_events l ! k = e" by (auto simp: in_set_conv_nth)
  have request: "requested_permission e = Some (pp_request_id p)" "pp_request_id p \<notin> resolved_permissions (tl_events l)"
    "message_item e = None"
    using e(2) by (cases e; auto split: if_splits)+
  have "shown_in l k"
    using k request by (cases e) (auto simp: shown_in_def shown_at_def)
  then have "envelope_at l k \<in> set ?es" using k(1) by (simp add: all_shown_def)
  then obtain i where i: "i < length ?es" "?es ! i = envelope_at l k" by (auto simp: in_set_conv_nth)
  let ?since = "tail_start_index ?es (Some p) (pending_elicitation l)"
  have "?since \<le> i" by (rule tail_start_permission [OF i(1)]) (simp add: i(2) k(2) request is_request_def)
  then have "envelope_at l k \<in> set (drop ?since ?es)"
    using i by (auto simp: in_set_conv_nth intro!: exI [of _ "i - ?since"])
  moreover have "env_item (envelope_at l k) = None" using request k(2) by (simp add: env_item_def)
  ultimately have "envelope_at l k \<in> set (compacted (drop ?since ?es))" by (rule compacted_keeps)
  moreover obtain n where "read_from_enveloped (rl_from (plan_replay cursor l)) l = (?es, n)"
    using replayed by (metis prod.collapse)
  ultimately show ?thesis
    using assms request(1) k(2)
    by (auto simp: build_attach_def attach_inline_tail_def with_transcript_def with_transcript_floor_def
        snapshot_new_def Let_def compaction_is_reference intro!: bexI [of _ "envelope_at l k"])
qed


section \<open>An example\<close>

definition first_batch :: "nat SessionServerEvent list" where
  "first_batch = [SvMessage ''user'' ''fix it'' [] ''i1'' None, SvMessage ''agent'' ''I will'' [] ''i2'' None,
     SvPermissionRequest ''r1'' (Some ''run'') None]"

definition second_batch :: "nat SessionServerEvent list" where
  "second_batch = [SvMessage ''agent'' ''I will look'' [] ''i2'' None, SvUsage 5 9]"

definition sample_session :: "nat TranscriptLog" where
  "sample_session = fold commit_batch [first_batch, second_batch] (from_events [] 4)"

theorem page_is_exact_witness:
  "tp_from (read_before sample_session 9 2) = 4
   \<and> map en_cursor (compacted (filter (\<lambda>env. 4 \<le> en_cursor env \<and> en_cursor env < 9)
        (fst (read_from_enveloped 4 sample_session)))) = [4, 6, 7, 8]
   \<and> map en_cursor (tp_events (read_before sample_session 9 2)) = [4, 6, 7, 8]"
proof -
  have page: "tp_from (read_before sample_session 9 2) = 4" "tl_dropped sample_session = 4"
    "absolute_next_cursor sample_session = 9" by code_simp+
  have "map en_cursor (compacted (filter (\<lambda>env. 4 \<le> en_cursor env \<and> en_cursor env < 9)
      (fst (read_from_enveloped 4 sample_session)))) = [4, 6, 7, 8]" by code_simp
  moreover have "tp_events (read_before sample_session 9 2) =
      compacted (filter (\<lambda>env. 4 \<le> en_cursor env \<and> en_cursor env < 9) (fst (read_from_enveloped 4 sample_session)))"
    using page_is_exact [of 2 sample_session 9] by (simp add: page clamp_def)
  ultimately show ?thesis using page(1) by simp
qed

theorem paging_reaches_the_floor_witness:
  "tp_from (read_before sample_session 9 1) < 9
   \<and> (\<exists>n \<le> 6. ((\<lambda>c. tp_from (read_before sample_session c 1)) ^^ n) 9 = 4)"
proof -
  have "tl_dropped sample_session = 4" "length (tl_events sample_session) = 5" by code_simp+
  then show ?thesis using paging_reaches_the_floor [of 1 sample_session 9] by simp
qed


theorem items_are_read_once_witness:
  "\<exists>env \<in> set (fst (read_from_enveloped 0 sample_session)). message_item (en_payload env) = Some ''i2''
     \<and> (\<forall>y e. event_at sample_session y = Some e \<and> message_item e = Some ''i2'' \<longrightarrow> y \<le> en_cursor env)"
proof -
  have "list_ex (\<lambda>env. message_item (en_payload env) = Some ''i2'') (fst (read_from_enveloped 0 sample_session))"
    by code_simp
  then obtain env where env: "env \<in> set (fst (read_from_enveloped 0 sample_session))"
    "message_item (en_payload env) = Some ''i2''" by (auto simp: list_ex_iff)
  have "list_all clean_batch [first_batch, second_batch]" by code_simp
  from items_are_read_once [OF this sample_session_def env] env show ?thesis by blast
qed

definition sample_chrome :: "nat SessionChrome" where
  "sample_chrome = \<lparr>ch_session_config_options = None, ch_available_commands = None, ch_prompt_capabilities = None,
     ch_session_title = None\<rparr>"

theorem pending_permission_is_in_the_tail_witness:
  "\<exists>transcript. ss_transcript (fst (build_attach sample_session ''auto'' True None sample_chrome)) = Some transcript
    \<and> (\<exists>env \<in> set transcript. requested_permission (en_payload env) = Some ''r1'')"
proof -
  have "rl_reset (plan_replay None sample_session)"
    "pending_permission sample_session = Some \<lparr>pp_request_id = ''r1'', pp_title = Some ''run'', pp_detail = None\<rparr>"
    by code_simp+
  from pending_permission_is_in_the_tail [OF this, of "''auto''" True sample_chrome] show ?thesis by auto
qed

end
