(* ===== verification/Prompt_Ledger.thy ===== *)
theory Prompt_Ledger
  imports Execution_Recovery
begin

text \<open>
  The ledger of the prompts of a web session: \<open>crates/ajax-web/src/adapters/web_session_store/prompt_ledger.rs\<close>
  with its kernel \<open>prompt_ledger/kernel.rs\<close>, and \<open>ensure_run\<close> of \<open>web_session_store/mod.rs\<close>. The ledger is
  kept in memory as a list of entries and stored as prompts and tasks of the execution store: the kernel plans
  the commit that takes the stored prompts to the ledger, and reads the ledger back. The files of older versions
  are left out. Writing and reading the JSON of the contents is \<open>serde_json\<close> and a parameter; its values are of
  any type.
\<close>

section \<open>Entries and ledgers\<close>

datatype PromptPhase = PpQueued | PpDispatching | PpInterrupted | PpCompleted

record 'j PromptLedgerEntry =
  pe_client_message_id :: string
  pe_phase :: PromptPhase
  pe_transcript_text :: string
  pe_prompt_text :: string
  pe_content_blocks :: "'j list"
  pe_shim_offset :: "nat option"
  pe_transcript_cursor :: "nat option"

type_synonym 'j PromptLedger = "'j PromptLedgerEntry list"

definition ledger_entry :: "'j PromptLedger \<Rightarrow> string \<Rightarrow> 'j PromptLedgerEntry option" where
  "ledger_entry l key = find (\<lambda>e. pe_client_message_id e = key) l"

definition owns_prompt :: "'j PromptLedger \<Rightarrow> string \<Rightarrow> bool" where
  "owns_prompt l key \<longleftrightarrow> key \<noteq> [] \<and> ledger_entry l key \<noteq> None"

definition queued_count :: "'j PromptLedger \<Rightarrow> nat" where
  "queued_count l = length (filter (\<lambda>e. pe_phase e = PpQueued) l)"

text \<open>\<open>iter_mut().find(..)\<close>: the first entry of the key is changed in place.\<close>

fun update_first :: "('a \<Rightarrow> bool) \<Rightarrow> ('a \<Rightarrow> 'a) \<Rightarrow> 'a list \<Rightarrow> 'a list" where
  "update_first p f [] = []"
| "update_first p f (x # xs) = (if p x then f x # xs else x # update_first p f xs)"

definition update_entry ::
    "string \<Rightarrow> ('j PromptLedgerEntry \<Rightarrow> 'j PromptLedgerEntry) \<Rightarrow> 'j PromptLedger \<Rightarrow> 'j PromptLedger" where
  "update_entry key = update_first (\<lambda>e. pe_client_message_id e = key)"

definition queued_entry :: "string \<Rightarrow> string \<Rightarrow> string \<Rightarrow> 'j list \<Rightarrow> 'j PromptLedgerEntry" where
  "queued_entry key transcript prompt blocks =
     \<lparr>pe_client_message_id = key, pe_phase = PpQueued, pe_transcript_text = transcript, pe_prompt_text = prompt,
      pe_content_blocks = blocks, pe_shim_offset = None, pe_transcript_cursor = None\<rparr>"

definition upsert_queued :: "string \<Rightarrow> string \<Rightarrow> string \<Rightarrow> 'j list \<Rightarrow> 'j PromptLedger \<Rightarrow> 'j PromptLedger" where
  "upsert_queued key transcript prompt blocks l =
     (if ledger_entry l key \<noteq> None
      then update_entry key (\<lambda>e. e\<lparr>pe_phase := PpQueued, pe_transcript_text := transcript, pe_prompt_text := prompt,
             pe_content_blocks := blocks, pe_shim_offset := None, pe_transcript_cursor := None\<rparr>) l
      else l @ [queued_entry key transcript prompt blocks])"

definition record_dispatch_marks :: "string \<Rightarrow> nat option \<Rightarrow> nat \<Rightarrow> 'j PromptLedger \<Rightarrow> 'j PromptLedger" where
  "record_dispatch_marks key offset cursor =
     update_entry key (\<lambda>e. e\<lparr>pe_shim_offset := offset, pe_transcript_cursor := Some cursor\<rparr>)"

text \<open>Marking returns whether the entry exists.\<close>

definition mark_entry ::
    "('j PromptLedgerEntry \<Rightarrow> 'j PromptLedgerEntry) \<Rightarrow> string \<Rightarrow> 'j PromptLedger \<Rightarrow> bool \<times> 'j PromptLedger" where
  "mark_entry f key l = (ledger_entry l key \<noteq> None, update_entry key f l)"

definition mark_dispatching :: "string \<Rightarrow> 'j PromptLedger \<Rightarrow> bool \<times> 'j PromptLedger" where
  "mark_dispatching = mark_entry (\<lambda>e. e\<lparr>pe_phase := PpDispatching\<rparr>)"

definition mark_completed :: "string \<Rightarrow> 'j PromptLedger \<Rightarrow> bool \<times> 'j PromptLedger" where
  "mark_completed = mark_entry (\<lambda>e. e\<lparr>pe_phase := PpCompleted, pe_transcript_text := [], pe_prompt_text := [],
     pe_content_blocks := [], pe_shim_offset := None, pe_transcript_cursor := None\<rparr>)"

definition mark_interrupted :: "string \<Rightarrow> 'j PromptLedger \<Rightarrow> bool \<times> 'j PromptLedger" where
  "mark_interrupted = mark_entry (\<lambda>e. e\<lparr>pe_phase := PpInterrupted\<rparr>)"

definition remove_queued :: "'j PromptLedger \<Rightarrow> 'j PromptLedger" where
  "remove_queued = filter (\<lambda>e. pe_phase e \<noteq> PpQueued)"

definition remove_entry :: "string \<Rightarrow> 'j PromptLedger \<Rightarrow> 'j PromptLedger" where
  "remove_entry key = filter (\<lambda>e. pe_client_message_id e \<noteq> key)"

text \<open>The ledger after the recovery, the queued entries and the keys of the interrupted ones.\<close>

definition recover_after_restart ::
    "'j PromptLedger \<Rightarrow> 'j PromptLedger \<times> 'j PromptLedgerEntry list \<times> string list" where
  "recover_after_restart l =
     (let recovered = map (\<lambda>e. if pe_phase e = PpDispatching then e\<lparr>pe_phase := PpInterrupted\<rparr> else e) l
      in (recovered, filter (\<lambda>e. pe_phase e = PpQueued) recovered,
          map pe_client_message_id (filter (\<lambda>e. pe_phase e = PpDispatching) l)))"

section \<open>The kernel\<close>

definition task_exec_id :: "string \<Rightarrow> string \<Rightarrow> string" where
  "task_exec_id run_id key = run_id @ '':prompt:'' @ key"

text \<open>What reading a stored content gives: None when it is not a JSON object, and for each field the value when
  it has the right type.\<close>

record 'j ContentObject =
  co_transcript_text :: "string option"
  co_prompt_text :: "string option"
  co_content_blocks :: "'j list option"
  co_shim_offset :: "nat option"
  co_transcript_cursor :: "nat option"

type_synonym 'j content_writer = "string \<Rightarrow> string \<Rightarrow> 'j list \<Rightarrow> nat option \<Rightarrow> nat option \<Rightarrow> string"
type_synonym 'j content_reader = "string \<Rightarrow> 'j ContentObject option"

definition entry_content_json :: "'j content_writer \<Rightarrow> 'j PromptLedgerEntry \<Rightarrow> string" where
  "entry_content_json enc e =
     enc (pe_transcript_text e) (pe_prompt_text e) (pe_content_blocks e) (pe_shim_offset e) (pe_transcript_cursor e)"

definition content_fields ::
    "'j content_reader \<Rightarrow> string \<Rightarrow> string \<times> string \<times> 'j list \<times> nat option \<times> nat option" where
  "content_fields dec json =
     (case dec json of
        Some c \<Rightarrow>
          (case co_transcript_text c of Some s \<Rightarrow> s | None \<Rightarrow> [],
           case co_prompt_text c of Some s \<Rightarrow> s | None \<Rightarrow> [],
           case co_content_blocks c of Some bs \<Rightarrow> bs | None \<Rightarrow> [],
           co_shim_offset c, co_transcript_cursor c)
      | None \<Rightarrow> ([], [], [], None, None))"

text \<open>None is the case that the code declares unreachable.\<close>

fun phase_of_state :: "ExecutionState \<Rightarrow> PromptPhase option" where
  "phase_of_state XsPending = Some PpQueued"
| "phase_of_state XsRunning = Some PpDispatching"
| "phase_of_state XsWaiting = Some PpDispatching"
| "phase_of_state XsCompleting = Some PpDispatching"
| "phase_of_state XsInterrupted = Some PpInterrupted"
| "phase_of_state XsCompleted = Some PpCompleted"
| "phase_of_state XsFailed = None"
| "phase_of_state XsCancelled = None"

definition withdrawn :: "ExecutionState \<Rightarrow> bool" where
  "withdrawn s \<longleftrightarrow> s = XsFailed \<or> s = XsCancelled"

definition entry_from_prompt :: "'j content_reader \<Rightarrow> RunPrompt \<Rightarrow> 'j PromptLedgerEntry option" where
  "entry_from_prompt dec p =
     (if withdrawn (rp_state p) then None
      else map_option (\<lambda>phase.
        case (if rp_state p = XsCompleted then ([], [], [], None, None) else content_fields dec (rp_content_json p)) of
          (transcript, prompt, blocks, offset, cursor) \<Rightarrow>
            \<lparr>pe_client_message_id = rp_idempotency_key p, pe_phase = phase, pe_transcript_text = transcript,
             pe_prompt_text = prompt, pe_content_blocks = blocks, pe_shim_offset = offset,
             pe_transcript_cursor = cursor\<rparr>) (phase_of_state (rp_state p)))"

definition ledger_from_prompts :: "'j content_reader \<Rightarrow> RunPrompt list \<Rightarrow> 'j PromptLedger" where
  "ledger_from_prompts dec ps = List.map_filter (entry_from_prompt dec) ps"

fun target_state :: "PromptPhase \<Rightarrow> ExecutionState" where
  "target_state PpQueued = XsPending"
| "target_state PpDispatching = XsRunning"
| "target_state PpInterrupted = XsInterrupted"
| "target_state PpCompleted = XsCompleted"

definition transition_path :: "ExecutionState \<Rightarrow> ExecutionState \<Rightarrow> ExecutionState list option" where
  "transition_path from to =
     (if from = to then Some []
      else case (from, to) of
        (XsPending, XsRunning) \<Rightarrow> Some [XsRunning]
      | (XsPending, XsInterrupted) \<Rightarrow> Some [XsRunning, XsInterrupted]
      | (XsPending, XsCompleted) \<Rightarrow> Some [XsRunning, XsCompleting, XsCompleted]
      | (XsRunning, XsPending) \<Rightarrow> Some [XsInterrupted, XsPending]
      | (XsRunning, XsInterrupted) \<Rightarrow> Some [XsInterrupted]
      | (XsRunning, XsCompleted) \<Rightarrow> Some [XsCompleting, XsCompleted]
      | (XsInterrupted, XsPending) \<Rightarrow> Some [XsPending]
      | (XsInterrupted, XsRunning) \<Rightarrow> Some [XsPending, XsRunning]
      | (XsInterrupted, XsCompleted) \<Rightarrow> Some [XsPending, XsRunning, XsCompleting, XsCompleted]
      | _ \<Rightarrow> None)"

section \<open>Planning a commit\<close>

fun debug_state :: "ExecutionState \<Rightarrow> string" where
  "debug_state XsPending = ''Pending''"
| "debug_state XsRunning = ''Running''"
| "debug_state XsWaiting = ''Waiting''"
| "debug_state XsCompleting = ''Completing''"
| "debug_state XsCompleted = ''Completed''"
| "debug_state XsFailed = ''Failed''"
| "debug_state XsCancelled = ''Cancelled''"
| "debug_state XsInterrupted = ''Interrupted''"

definition find_prompt :: "RunPrompt list \<Rightarrow> string \<Rightarrow> RunPrompt option" where
  "find_prompt current key = find (\<lambda>p. rp_idempotency_key p = key) current"

definition move_to :: "string \<Rightarrow> ExecutionState \<Rightarrow> TaskTransition" where
  "move_to i s = \<lparr>tt_task_exec_id = i, tt_to = s, tt_outcome_json = None\<rparr>"

definition dispatch_intent :: "string \<Rightarrow> CheckpointIntent" where
  "dispatch_intent i =
     \<lparr>ci_task_exec_id = i, ci_operation = OpPromptDispatch, ci_replay_policy = RpUnsafe,
      ci_external_operation_id = None, ci_intent_json = ''{}''\<rparr>"

definition new_content :: "'j content_writer \<Rightarrow> 'j PromptLedgerEntry \<Rightarrow> string" where
  "new_content enc e = (if pe_phase e = PpCompleted then ''{}'' else entry_content_json enc e)"

definition rewritable :: "ExecutionState \<Rightarrow> ExecutionState \<Rightarrow> bool" where
  "rewritable start target \<longleftrightarrow> target = XsPending \<or> (start = XsPending \<and> target = XsRunning)"

text \<open>One entry of the ledger adds to the commit.\<close>

definition plan_entry ::
    "'j content_writer \<Rightarrow> string \<Rightarrow> RunPrompt list \<Rightarrow> 'j PromptLedgerEntry \<Rightarrow> ExecutionCommit \<Rightarrow>
     string + ExecutionCommit" where
  "plan_entry enc run_id current e c =
     (let key = pe_client_message_id e;
          i = task_exec_id run_id key;
          existing = find_prompt current key;
          start = (case existing of Some p \<Rightarrow> rp_state p | None \<Rightarrow> XsPending);
          target = target_state (pe_phase e);
          c1 = (case existing of
                  None \<Rightarrow>
                    c\<lparr>ec_new_tasks := ec_new_tasks c @
                        [\<lparr>nt_task_exec_id = i, nt_parent_id = None, nt_kind = ''prompt''\<rparr>],
                      ec_prompts := ec_prompts c @
                        [\<lparr>np_idempotency_key = key, np_task_exec_id = i, np_content_json = new_content enc e\<rparr>]\<rparr>
                | Some _ \<Rightarrow> c)
      in if (case existing of Some p \<Rightarrow> withdrawn (rp_state p) | None \<Rightarrow> False)
         then Inl (''prompt '' @ key @ '' was already withdrawn'')
         else case transition_path start target of
           None \<Rightarrow> Inl (''unsupported prompt state change '' @ debug_state start @ '' -> '' @ debug_state target
                       @ '' for '' @ key)
         | Some steps \<Rightarrow>
             let c2 = (if steps \<noteq> [] \<and> last steps = XsRunning
                       then c1\<lparr>ec_checkpoint_intents := ec_checkpoint_intents c1 @ [dispatch_intent i]\<rparr> else c1);
                 c3 = (if start = XsRunning \<and> target = XsCompleted
                       then c2\<lparr>ec_checkpoint_results := ec_checkpoint_results c2 @
                                 [\<lparr>cr_task_exec_id = i, cr_result_json = ''{}''\<rparr>]\<rparr> else c2);
                 c4 = c3\<lparr>ec_transitions := ec_transitions c3 @ map (move_to i) steps\<rparr>
             in Inr (case existing of
                  Some p \<Rightarrow>
                    if rewritable start target \<and> entry_content_json enc e \<noteq> rp_content_json p
                    then c4\<lparr>ec_prompt_content_updates := ec_prompt_content_updates c4 @
                              [\<lparr>pu_idempotency_key = key, pu_content_json = entry_content_json enc e\<rparr>]\<rparr>
                    else c4
                | None \<Rightarrow> c4))"

definition desired_keys :: "'j PromptLedger \<Rightarrow> string set" where
  "desired_keys l = set (map pe_client_message_id l)"

definition withdrawals :: "string \<Rightarrow> RunPrompt list \<Rightarrow> 'j PromptLedger \<Rightarrow> TaskTransition list" where
  "withdrawals run_id current l =
     map (\<lambda>p. move_to (task_exec_id run_id (rp_idempotency_key p)) XsCancelled)
       (filter (\<lambda>p. rp_idempotency_key p \<notin> desired_keys l \<and> \<not> is_terminal (rp_state p)) current)"

definition content_clears :: "RunPrompt list \<Rightarrow> 'j PromptLedger \<Rightarrow> string list" where
  "content_clears current l =
     map pe_client_message_id
       (filter (\<lambda>e. target_state (pe_phase e) = XsCompleted
          \<and> list_ex (\<lambda>p. rp_idempotency_key p = pe_client_message_id e \<and> rp_content_json p \<noteq> ''{}'') current) l)
     @ map rp_idempotency_key
         (filter (\<lambda>p. rp_idempotency_key p \<notin> desired_keys l \<and> rp_content_json p \<noteq> ''{}'') current)"

definition empty_commit :: "ExecutionCommit \<Rightarrow> bool" where
  "empty_commit c \<longleftrightarrow>
     ec_new_tasks c = [] \<and> ec_prompts c = [] \<and> ec_transitions c = [] \<and> ec_cancel_requests c = []
     \<and> ec_checkpoint_intents c = [] \<and> ec_checkpoint_results c = [] \<and> ec_prompt_content_updates c = []
     \<and> ec_prompt_content_clears c = [] \<and> ec_events c = []"

definition plan_commit ::
    "'j content_writer \<Rightarrow> string \<Rightarrow> RunPrompt list \<Rightarrow> 'j PromptLedger \<Rightarrow> string + ExecutionCommit option" where
  "plan_commit enc run_id current l =
     and_then (for_each (plan_entry enc run_id current) l commit_default) (\<lambda>c.
       let c1 = c\<lparr>ec_transitions := ec_transitions c @ withdrawals run_id current l,
                  ec_prompt_content_clears := content_clears current l\<rparr>
       in Inr (if empty_commit c1 then None else Some (c1\<lparr>ec_run_id := run_id\<rparr>)))"

section \<open>Storing and loading\<close>

datatype LedgerError =
    LgStore RegistrySnapshotError
  | LgCommit ExecutionCommitError
  | LgPlan string
  | LgPromptIdUsed
  | LgUnreadable

definition MAX_LOG_EVENTS :: nat where
  "MAX_LOG_EVENTS = 2000"

definition new_run :: "int \<Rightarrow> string \<Rightarrow> string \<Rightarrow> string \<Rightarrow> NewRun" where
  "new_run created handle harness model =
     \<lparr>nr_run_id = ''web-chat:'' @ handle, nr_task_id = handle, nr_harness = harness, nr_model = model,
      nr_created_unix_ms = created\<rparr>"

text \<open>Without a file of an older version; \<open>created\<close> is the reading of the clock.\<close>

definition ensure_run :: "int \<Rightarrow> string \<Rightarrow> string \<Rightarrow> db \<Rightarrow> (LedgerError + string) \<times> db" where
  "ensure_run created handle harness d =
     (case latest_run_for_task d handle of
        Inl e \<Rightarrow> (Inl (LgStore e), d)
      | Inr (Some run) \<Rightarrow> (Inr (rr_run_id run), d)
      | Inr None \<Rightarrow>
          (case create_run (new_run created handle harness ''auto'') d of
             (Inl e, d1) \<Rightarrow> (Inl (LgStore e), d1)
           | (Inr _, d1) \<Rightarrow> (Inr (''web-chat:'' @ handle), d1)))"

definition load_ledger :: "'j content_reader \<Rightarrow> string \<Rightarrow> db \<Rightarrow> LedgerError + 'j PromptLedger" where
  "load_ledger dec handle d =
     (case latest_run_for_task d handle of
        Inl _ \<Rightarrow> Inl LgUnreadable
      | Inr None \<Rightarrow> Inr []
      | Inr (Some run) \<Rightarrow>
          (case prompts_for_run d (rr_run_id run) of
             Inl _ \<Rightarrow> Inl LgUnreadable
           | Inr ps \<Rightarrow> Inr (ledger_from_prompts dec ps)))"

text \<open>The commit of a plan, or of the events alone; \<open>None\<close> when there is nothing to write.\<close>

definition ledger_commit ::
    "string \<Rightarrow> string list \<Rightarrow> EventRewrite list \<Rightarrow> ExecutionCommit option \<Rightarrow> ExecutionCommit option" where
  "ledger_commit run_id events rewrites plan =
     (case plan of
        Some c \<Rightarrow> Some (c\<lparr>ec_events := events, ec_event_rewrites := rewrites\<rparr>)
      | None \<Rightarrow>
          if events \<noteq> [] \<or> rewrites \<noteq> []
          then Some (commit_default\<lparr>ec_run_id := run_id, ec_events := events, ec_event_rewrites := rewrites\<rparr>)
          else None)"

text \<open>The payloads are given as they are stored; a rewrite names a cursor, the number of an event less one.
  Only a planned commit looks at the duplicates of its receipt; a failure of the pruning is only logged.\<close>

definition persist_ledger ::
    "string option \<Rightarrow> 'j content_writer \<Rightarrow> int \<Rightarrow> string \<Rightarrow> 'j PromptLedger \<Rightarrow> string list \<Rightarrow> (nat \<times> string) list \<Rightarrow>
     db \<Rightarrow> (LedgerError + unit) \<times> db" where
  "persist_ledger fence enc created handle l events rewrites d =
     (case ensure_run created handle ''unknown'' d of
        (Inl e, d1) \<Rightarrow> (Inl e, d1)
      | (Inr run_id, d1) \<Rightarrow>
          (case prompts_for_run d1 run_id of
             Inl e \<Rightarrow> (Inl (LgStore e), d1)
           | Inr current \<Rightarrow>
               (case plan_commit enc run_id current l of
                  Inl message \<Rightarrow> (Inl (LgPlan message), d1)
                | Inr plan \<Rightarrow>
                    (case ledger_commit run_id events
                            (map (\<lambda>(cursor, payload). \<lparr>er_seq = cursor + 1, er_payload = payload\<rparr>) rewrites) plan of
                       None \<Rightarrow> (Inr (), d1)
                     | Some c \<Rightarrow>
                         (case commit_execution fence c d1 of
                            (Inl e, d2) \<Rightarrow> (Inl (LgCommit e), d2)
                          | (Inr receipt, d2) \<Rightarrow>
                              if plan \<noteq> None \<and> rc_duplicate_prompts receipt \<noteq> [] then (Inl LgPromptIdUsed, d2)
                              else (Inr (), snd (prune_execution_events run_id MAX_LOG_EVENTS d2)))))))"

section \<open>Lemmas: paths\<close>

text \<open>The steps are taken one after the other, each an allowed transition of the execution.\<close>

fun steps_allowed :: "ExecutionState \<Rightarrow> ExecutionState list \<Rightarrow> bool" where
  "steps_allowed s [] \<longleftrightarrow> True"
| "steps_allowed s (t # ts) \<longleftrightarrow> transition_allowed s t \<and> steps_allowed t ts"

lemma path_end: "transition_path a b = Some steps \<Longrightarrow> (if steps = [] then a else last steps) = b"
  by (auto simp: transition_path_def split: if_splits ExecutionState.splits)

lemma path_allowed: "transition_path a b = Some steps \<Longrightarrow> steps_allowed a steps"
  by (auto simp: transition_path_def transition_allowed_def split: if_splits ExecutionState.splits)

lemma task_exec_id_inj [simp]: "task_exec_id r k = task_exec_id r l \<longleftrightarrow> k = l"
  by (simp add: task_exec_id_def)

section \<open>Lemmas: the lists of a plan\<close>

definition start_of :: "RunPrompt list \<Rightarrow> 'j PromptLedgerEntry \<Rightarrow> ExecutionState" where
  "start_of current e =
     (case find_prompt current (pe_client_message_id e) of Some p \<Rightarrow> rp_state p | None \<Rightarrow> XsPending)"

definition is_new :: "RunPrompt list \<Rightarrow> 'j PromptLedgerEntry \<Rightarrow> bool" where
  "is_new current e \<longleftrightarrow> find_prompt current (pe_client_message_id e) = None"

definition steps_of :: "RunPrompt list \<Rightarrow> 'j PromptLedgerEntry \<Rightarrow> ExecutionState list" where
  "steps_of current e =
     (case transition_path (start_of current e) (target_state (pe_phase e)) of Some steps \<Rightarrow> steps | None \<Rightarrow> [])"

definition moves_of :: "string \<Rightarrow> RunPrompt list \<Rightarrow> 'j PromptLedgerEntry \<Rightarrow> TaskTransition list" where
  "moves_of r current e = map (move_to (task_exec_id r (pe_client_message_id e))) (steps_of current e)"

definition rewrites_content :: "'j content_writer \<Rightarrow> RunPrompt list \<Rightarrow> 'j PromptLedgerEntry \<Rightarrow> bool" where
  "rewrites_content enc current e \<longleftrightarrow>
     (case find_prompt current (pe_client_message_id e) of
        None \<Rightarrow> False
      | Some p \<Rightarrow> rewritable (rp_state p) (target_state (pe_phase e)) \<and> entry_content_json enc e \<noteq> rp_content_json p)"

definition new_task_of :: "string \<Rightarrow> 'j PromptLedgerEntry \<Rightarrow> NewExecutionTask" where
  "new_task_of r e =
     \<lparr>nt_task_exec_id = task_exec_id r (pe_client_message_id e), nt_parent_id = None, nt_kind = ''prompt''\<rparr>"

definition new_prompt_of :: "'j content_writer \<Rightarrow> string \<Rightarrow> 'j PromptLedgerEntry \<Rightarrow> NewPrompt" where
  "new_prompt_of enc r e =
     \<lparr>np_idempotency_key = pe_client_message_id e, np_task_exec_id = task_exec_id r (pe_client_message_id e),
      np_content_json = new_content enc e\<rparr>"

definition update_of :: "'j content_writer \<Rightarrow> 'j PromptLedgerEntry \<Rightarrow> PromptContentUpdate" where
  "update_of enc e =
     \<lparr>pu_idempotency_key = pe_client_message_id e, pu_content_json = entry_content_json enc e\<rparr>"

definition entry_planned :: "RunPrompt list \<Rightarrow> 'j PromptLedgerEntry \<Rightarrow> bool" where
  "entry_planned current e \<longleftrightarrow>
     \<not> withdrawn (start_of current e)
     \<and> transition_path (start_of current e) (target_state (pe_phase e)) \<noteq> None"

lemma plan_entry_lists:
  assumes "plan_entry enc r current e c = Inr c'"
  shows "entry_planned current e"
    and "ec_new_tasks c' = ec_new_tasks c @ (if is_new current e then [new_task_of r e] else [])"
    and "ec_prompts c' = ec_prompts c @ (if is_new current e then [new_prompt_of enc r e] else [])"
    and "ec_transitions c' = ec_transitions c @ moves_of r current e"
    and "ec_prompt_content_updates c' = ec_prompt_content_updates c
          @ (if rewrites_content enc current e then [update_of enc e] else [])"
    and "ec_cancel_requests c' = ec_cancel_requests c" "ec_events c' = ec_events c"
proof -
  let ?p = "find_prompt current (pe_client_message_id e)"
  obtain steps where steps: "transition_path (start_of current e) (target_state (pe_phase e)) = Some steps"
    using assms by (auto simp: plan_entry_def Let_def start_of_def split: option.splits if_splits)
  have kept: "\<not> withdrawn (start_of current e)"
    using assms by (auto simp: plan_entry_def Let_def start_of_def withdrawn_def split: option.splits if_splits)
  note defs = plan_entry_def Let_def start_of_def is_new_def steps_of_def moves_of_def rewrites_content_def
    new_task_of_def new_prompt_of_def update_of_def
  show "entry_planned current e" using steps kept by (simp add: entry_planned_def)
  have c': "c' = c\<lparr>
      ec_new_tasks := ec_new_tasks c @ (if is_new current e then [new_task_of r e] else []),
      ec_prompts := ec_prompts c @ (if is_new current e then [new_prompt_of enc r e] else []),
      ec_checkpoint_intents := ec_checkpoint_intents c'
      , ec_checkpoint_results := ec_checkpoint_results c',
      ec_transitions := ec_transitions c @ moves_of r current e,
      ec_prompt_content_updates := ec_prompt_content_updates c
          @ (if rewrites_content enc current e then [update_of enc e] else [])\<rparr>"
  proof (cases ?p)
    case None
    then show ?thesis using assms steps by (auto simp: defs)
  next
    case (Some p)
    then show ?thesis using assms steps kept by (auto simp: defs)
  qed
  show "ec_new_tasks c' = ec_new_tasks c @ (if is_new current e then [new_task_of r e] else [])"
    by (subst c') simp
  show "ec_prompts c' = ec_prompts c @ (if is_new current e then [new_prompt_of enc r e] else [])"
    by (subst c') simp
  show "ec_transitions c' = ec_transitions c @ moves_of r current e" by (subst c') simp
  show "ec_prompt_content_updates c' = ec_prompt_content_updates c
      @ (if rewrites_content enc current e then [update_of enc e] else [])" by (subst c') simp
  show "ec_cancel_requests c' = ec_cancel_requests c" "ec_events c' = ec_events c" by (subst c', simp)+
qed

lemma plan_entries_lists:
  assumes "for_each (plan_entry enc r current) l c = Inr c'"
  shows "list_all (entry_planned current) l"
    and "ec_new_tasks c' = ec_new_tasks c @ map (new_task_of r) (filter (is_new current) l)"
    and "ec_prompts c' = ec_prompts c @ map (new_prompt_of enc r) (filter (is_new current) l)"
    and "ec_transitions c' = ec_transitions c @ concat (map (moves_of r current) l)"
    and "ec_prompt_content_updates c' = ec_prompt_content_updates c
          @ map (update_of enc) (filter (rewrites_content enc current) l)"
    and "ec_cancel_requests c' = ec_cancel_requests c" "ec_events c' = ec_events c"
proof -
  have "list_all (entry_planned current) l
    \<and> ec_new_tasks c' = ec_new_tasks c @ map (new_task_of r) (filter (is_new current) l)
    \<and> ec_prompts c' = ec_prompts c @ map (new_prompt_of enc r) (filter (is_new current) l)
    \<and> ec_transitions c' = ec_transitions c @ concat (map (moves_of r current) l)
    \<and> ec_prompt_content_updates c' = ec_prompt_content_updates c
        @ map (update_of enc) (filter (rewrites_content enc current) l)
    \<and> ec_cancel_requests c' = ec_cancel_requests c \<and> ec_events c' = ec_events c"
    using assms
  proof (induction l arbitrary: c)
    case (Cons e l)
    then obtain c1 where c1: "plan_entry enc r current e c = Inr c1" "for_each (plan_entry enc r current) l c1 = Inr c'"
      by (auto simp: return_iff)
    from Cons.IH [OF c1(2)] plan_entry_lists [OF c1(1)] show ?case by simp
  qed simp
  then show "list_all (entry_planned current) l"
    "ec_new_tasks c' = ec_new_tasks c @ map (new_task_of r) (filter (is_new current) l)"
    "ec_prompts c' = ec_prompts c @ map (new_prompt_of enc r) (filter (is_new current) l)"
    "ec_transitions c' = ec_transitions c @ concat (map (moves_of r current) l)"
    "ec_prompt_content_updates c' = ec_prompt_content_updates c
        @ map (update_of enc) (filter (rewrites_content enc current) l)"
    "ec_cancel_requests c' = ec_cancel_requests c" "ec_events c' = ec_events c"
    by blast+
qed

section \<open>Lemmas: the effect of the statements\<close>

definition last_move :: "TaskTransition list \<Rightarrow> string \<Rightarrow> ExecutionState option" where
  "last_move ts i =
     (case filter (\<lambda>t. tt_task_exec_id t = i) ts of [] \<Rightarrow> None | x # xs \<Rightarrow> Some (tt_to (last (x # xs))))"

lemma last_move_Cons:
  "last_move (t # ts) i = (case last_move ts i of
     Some s \<Rightarrow> Some s | None \<Rightarrow> if tt_task_exec_id t = i then Some (tt_to t) else None)"
  by (auto simp: last_move_def split: list.split)

lemma transitions_effect:
  "for_each (apply_transition r) ts d = Inr u \<Longrightarrow> tasks_ok d \<Longrightarrow>
   tasks_ok u \<and> stored_state u i = (case last_move ts i of Some s \<Rightarrow> Some s | None \<Rightarrow> stored_state d i)"
proof (induction ts arbitrary: d)
  case Nil
  then show ?case by (simp add: last_move_def)
next
  case (Cons t ts)
  then obtain v where v: "apply_transition r t d = Inr v" "for_each (apply_transition r) ts v = Inr u"
    by (auto simp: return_iff)
  note step = transition_effect [OF Cons.prems(2) v(1)]
  from Cons.IH [OF v(2) step(3)] step(1) [of i] show ?case
    by (auto simp: last_move_Cons split: option.split)
qed

lemma new_tasks_effect:
  "for_each (insert_task r) ts d = Inr u \<Longrightarrow> tasks_ok d \<Longrightarrow>
   tasks_ok u \<and> stored_state u i = (if i \<in> nt_task_exec_id ` set ts then Some XsPending else stored_state d i)"
proof (induction ts arbitrary: d)
  case (Cons t ts)
  then obtain v where v: "insert_task r t d = Inr v" "for_each (insert_task r) ts v = Inr u"
    by (auto simp: return_iff)
  from Cons.IH [OF v(2) insert_task_state(3) [OF v(1) Cons.prems(2)]] insert_task_state(1) [OF v(1), of i]
  show ?case by auto
qed simp

definition prompt_at :: "db \<Rightarrow> string \<Rightarrow> string \<Rightarrow> PromptRow option" where
  "prompt_at d r k = find (\<lambda>p. ps_run_id p = r \<and> ps_idempotency_key p = k) (db_prompts d)"

definition content_at :: "db \<Rightarrow> string \<Rightarrow> string \<Rightarrow> string option" where
  "content_at d r k = map_option ps_content_json (prompt_at d r k)"

lemma content_cong: "db_prompts u = db_prompts d \<Longrightarrow> content_at u = content_at d"
  by (simp add: content_at_def prompt_at_def fun_eq_iff)

lemma content_insert:
  assumes "insert_prompt r p d = Inr u"
  shows "content_at u r k = (if k = np_idempotency_key p then Some (np_content_json p) else content_at d r k)"
    and "content_at d r (np_idempotency_key p) = None"
proof -
  have new: "\<not> prompt_key_present d r (np_idempotency_key p)"
    using assms by (auto simp: insert_prompt_def return_iff Let_def)
  then show none: "content_at d r (np_idempotency_key p) = None"
    by (auto simp: content_at_def prompt_at_def find_None_iff prompt_key_present_def list_ex_iff)
  show "content_at u r k = (if k = np_idempotency_key p then Some (np_content_json p) else content_at d r k)"
    using assms none
    by (auto simp: insert_prompt_def return_iff Let_def content_at_def prompt_at_def find_append split: option.split)
qed

lemma contents_insert:
  "for_each (insert_prompt r) ps d = Inr u \<Longrightarrow> content_at u r k =
     (case content_at d r k of
        Some c \<Rightarrow> Some c | None \<Rightarrow> map_option np_content_json (find (\<lambda>p. np_idempotency_key p = k) ps))"
proof (induction ps arbitrary: d)
  case (Cons p ps)
  then obtain v where v: "insert_prompt r p d = Inr v" "for_each (insert_prompt r) ps v = Inr u"
    by (auto simp: return_iff)
  from Cons.IH [OF v(2)] content_insert [OF v(1)] show ?case by (auto split: option.split)
qed (simp split: option.split)

lemma content_rewrite:
  assumes "db_prompts u = update_where (\<lambda>p. ps_run_id p = r \<and> ps_idempotency_key p = key)
      (\<lambda>x. x\<lparr>ps_content_json := json\<rparr>) (db_prompts d)"
  shows "content_at u r k = (if k = key then map_option (\<lambda>_. json) (content_at d r k) else content_at d r k)"
proof -
  have "map_option ps_content_json (find (\<lambda>p. ps_run_id p = r \<and> ps_idempotency_key p = k)
      (update_where (\<lambda>p. ps_run_id p = r \<and> ps_idempotency_key p = key) (\<lambda>x. x\<lparr>ps_content_json := json\<rparr>) ps))
    = (if k = key then map_option (\<lambda>_. json) (find (\<lambda>p. ps_run_id p = r \<and> ps_idempotency_key p = k) ps)
       else map_option ps_content_json (find (\<lambda>p. ps_run_id p = r \<and> ps_idempotency_key p = k) ps))" for ps
    by (induction ps) (auto simp: update_where_def)
  with assms show ?thesis by (auto simp: content_at_def prompt_at_def option.map_comp o_def)
qed

lemma content_update:
  assumes "update_prompt r x d = Inr u"
  shows "content_at u r k = (if k = pu_idempotency_key x then map_option (\<lambda>_. pu_content_json x) (content_at d r k)
      else content_at d r k)"
  by (rule content_rewrite) (use assms in \<open>auto simp: update_prompt_def return_iff Let_def\<close>)

lemma contents_update:
  "for_each (update_prompt r) xs d = Inr u \<Longrightarrow> distinct (map pu_idempotency_key xs) \<Longrightarrow> content_at u r k =
     (case find (\<lambda>x. pu_idempotency_key x = k) xs of
        Some x \<Rightarrow> map_option (\<lambda>_. pu_content_json x) (content_at d r k) | None \<Rightarrow> content_at d r k)"
proof (induction xs arbitrary: d)
  case (Cons x xs)
  then obtain v where v: "update_prompt r x d = Inr v" "for_each (update_prompt r) xs v = Inr u"
    by (auto simp: return_iff)
  have "find (\<lambda>y. pu_idempotency_key y = k) xs = None" if "k = pu_idempotency_key x"
    using Cons.prems(2) that by (simp add: find_None_iff image_iff) metis
  with Cons.IH [OF v(2)] Cons.prems(2) content_update [OF v(1), of k] show ?case
    by (auto simp: option.map_comp o_def split: option.split)
qed simp

lemma contents_clear:
  "for_each (clear_prompt r) ks d = Inr u \<Longrightarrow> content_at u r k =
     (if k \<in> set ks then map_option (\<lambda>_. ''{}'') (content_at d r k) else content_at d r k)"
proof (induction ks arbitrary: d)
  case (Cons x ks)
  then obtain v where v: "clear_prompt r x d = Inr v" "for_each (clear_prompt r) ks v = Inr u"
    by (auto simp: return_iff)
  have "content_at v r k = (if k = x then map_option (\<lambda>_. ''{}'') (content_at d r k) else content_at d r k)"
    by (rule content_rewrite) (use v(1) in \<open>auto simp: clear_prompt_def return_iff\<close>)
  with Cons.IH [OF v(2)] show ?case by (auto simp: option.map_comp o_def)
qed simp

text \<open>The keys of the rows: a prompt of the run belongs to the task named after it, which is stored for the run.\<close>

definition prompt_rows :: "db \<Rightarrow> (string \<times> string \<times> string) list" where
  "prompt_rows d = map (\<lambda>p. (ps_run_id p, ps_idempotency_key p, ps_task_exec_id p)) (db_prompts d)"

definition task_rows :: "db \<Rightarrow> (string \<times> string) list" where
  "task_rows d = map (\<lambda>t. (xt_task_exec_id t, xt_run_id t)) (db_tasks d)"

definition ledger_rows :: "string \<Rightarrow> db \<Rightarrow> bool" where
  "ledger_rows r d \<longleftrightarrow>
     list_all (\<lambda>(q, k, i). q = r \<longrightarrow> i = task_exec_id r k \<and> (i, r) \<in> set (task_rows d)) (prompt_rows d)"

lemma task_rows_frame:
  "apply_transition r x d = Inr u \<Longrightarrow> task_rows u = task_rows d"
  "request_cancel r i d = Inr u \<Longrightarrow> task_rows u = task_rows d"
  "db_tasks u = db_tasks d \<Longrightarrow> task_rows u = task_rows d"
  by (auto simp: task_rows_def apply_transition_def request_cancel_def return_iff Let_def map_update_where
      split: sum.splits if_splits)

lemma prompt_rows_frame:
  "update_prompt r y d = Inr u \<Longrightarrow> prompt_rows u = prompt_rows d"
  "clear_prompt r k d = Inr u \<Longrightarrow> prompt_rows u = prompt_rows d"
  "db_prompts u = db_prompts d \<Longrightarrow> prompt_rows u = prompt_rows d"
  by (auto simp: prompt_rows_def map_update_where update_prompt_def clear_prompt_def return_iff Let_def)

lemma ledger_rows_frame: "task_rows u = task_rows d \<Longrightarrow> prompt_rows u = prompt_rows d \<Longrightarrow> ledger_rows r u = ledger_rows r d"
  by (simp add: ledger_rows_def)

lemma ledger_rows_mono:
  "set (task_rows d) \<subseteq> set (task_rows u) \<Longrightarrow> prompt_rows u = prompt_rows d \<Longrightarrow> ledger_rows r d \<Longrightarrow> ledger_rows r u"
  unfolding ledger_rows_def list_all_iff by fastforce

lemma ledger_rows_insert_task:
  assumes "insert_task r t d = Inr u" "ledger_rows q d"
  shows "ledger_rows q u"
proof (rule ledger_rows_mono [OF _ _ assms(2)])
  show "set (task_rows d) \<subseteq> set (task_rows u)"
    using assms(1) by (auto simp: insert_task_def return_iff task_rows_def)
  show "prompt_rows u = prompt_rows d"
    using assms(1) by (auto simp: insert_task_def return_iff prompt_rows_def)
qed

lemma ledger_rows_insert_prompt:
  assumes "insert_prompt r p d = Inr u" "ledger_rows r d"
    and "np_task_exec_id p = task_exec_id r (np_idempotency_key p)"
  shows "ledger_rows r u"
proof -
  have "\<exists>s. task_state d r (np_task_exec_id p) = Inr s"
    using assms(1) by (auto simp: insert_prompt_def return_iff)
  then have "(np_task_exec_id p, r) \<in> set (task_rows d)"
    by (auto simp: task_state_def task_rows_def find_Some_iff split: option.splits intro: rev_image_eqI dest: nth_mem)
  with assms show ?thesis
    by (auto simp: insert_prompt_def return_iff Let_def ledger_rows_def prompt_rows_def task_rows_def list_all_iff)
qed

lemma prompts_unchanged:
  "insert_task r t d = Inr u \<Longrightarrow> db_prompts u = db_prompts d"
  "set_result r x d = Inr u \<Longrightarrow> db_prompts u = db_prompts d"
  "apply_transition r m d = Inr u \<Longrightarrow> db_prompts u = db_prompts d"
  "request_cancel r i d = Inr u \<Longrightarrow> db_prompts u = db_prompts d"
  "insert_intent r z d = Inr u \<Longrightarrow> db_prompts u = db_prompts d"
  "db_prompts (update_run r v d) = db_prompts d"
  "db_prompts (fresh_event r n q d) = db_prompts d"
  "db_prompts (set_next_seq r n d) = db_prompts d"
  "db_prompts (rewrite_event r w d) = db_prompts d"
  using db_frames(1) [OF insert_task_frame, of r t d u] db_frames(4) [OF set_result_frame, of r x d u]
    db_frames(1) [OF apply_transition_frame, of r m d u] db_frames(1) [OF request_cancel_frame, of r i d u]
    db_frames(4) [OF insert_intent_frame, of r z d u]
  by (auto simp: update_run_def fresh_event_def set_next_seq_def rewrite_event_def split: option.split)

lemma ledger_rowsD:
  assumes "ledger_rows r d" "p \<in> set (db_prompts d)" "ps_run_id p = r"
  shows "ps_task_exec_id p = task_exec_id r (ps_idempotency_key p)"
    and "(ps_task_exec_id p, r) \<in> set (task_rows d)"
proof -
  have "(r, ps_idempotency_key p, ps_task_exec_id p) \<in> set (prompt_rows d)"
    using assms(2,3) by (auto simp: prompt_rows_def)
  with assms(1) show "ps_task_exec_id p = task_exec_id r (ps_idempotency_key p)"
    "(ps_task_exec_id p, r) \<in> set (task_rows d)"
    unfolding ledger_rows_def list_all_iff by fastforce+
qed

text \<open>Contents are rewritten while the prompt is still pending.\<close>

lemma update_pending:
  assumes "update_prompt r x d = Inr u" "tasks_ok d" "ledger_rows r d"
  shows "stored_state d (task_exec_id r (pu_idempotency_key x)) = Some XsPending"
proof -
  obtain p where p: "find (\<lambda>p. ps_run_id p = r \<and> ps_idempotency_key p = pu_idempotency_key x) (db_prompts d) = Some p"
    "task_state d r (ps_task_exec_id p) = Inr XsPending"
    using assms(1) by (auto simp: update_prompt_def return_iff Let_def split: option.splits if_splits)
  then have "p \<in> set (db_prompts d)" "ps_run_id p = r" "ps_idempotency_key p = pu_idempotency_key x"
    by (auto simp: find_Some_iff)
  then have "ps_task_exec_id p = task_exec_id r (pu_idempotency_key x)" using ledger_rowsD(1) [OF assms(3)] by simp
  with task_state_stored [OF assms(2) p(2)] show ?thesis by simp
qed

lemma updates_pending:
  "for_each (update_prompt r) xs d = Inr u \<Longrightarrow> tasks_ok d \<Longrightarrow> ledger_rows r d \<Longrightarrow> x \<in> set xs \<Longrightarrow>
   stored_state d (task_exec_id r (pu_idempotency_key x)) = Some XsPending"
proof (induction xs arbitrary: d)
  case (Cons y ys)
  then obtain v where v: "update_prompt r y d = Inr v" "for_each (update_prompt r) ys v = Inr u"
    by (auto simp: return_iff)
  have tasks: "db_tasks v = db_tasks d" by (rule tasks_unchanged(3) [OF v(1)])
  have "ledger_rows r v"
    using Cons.prems(3) ledger_rows_frame [OF task_rows_frame(3) [OF tasks] prompt_rows_frame(1) [OF v(1)]] by simp
  then show ?case
    using Cons.IH [OF v(2)] Cons.prems(2,4) update_pending [OF v(1) Cons.prems(2,3)]
      tasks_ok_cong [OF tasks] stored_state_cong [OF tasks] by auto
qed simp

lemma commit_effect:
  assumes commit: "commit_tables c start d = Inr (rc, u)" and ok: "tasks_ok d"
    and keys: "distinct (map pu_idempotency_key (ec_prompt_content_updates c))"
    and rows: "ledger_rows (ec_run_id c) d"
      "\<And>p. p \<in> set (ec_prompts c) \<Longrightarrow> np_task_exec_id p = task_exec_id (ec_run_id c) (np_idempotency_key p)"
    and cancels: "ec_cancel_requests c = []"
  shows "ledger_rows (ec_run_id c) u"
    and "stored_state u i = (case last_move (ec_transitions c) i of
        Some s \<Rightarrow> Some s
      | None \<Rightarrow> if i \<in> nt_task_exec_id ` set (ec_new_tasks c) then Some XsPending else stored_state d i)"
    and "content_at u (ec_run_id c) k =
      (let inserted = (case content_at d (ec_run_id c) k of
           Some x \<Rightarrow> Some x | None \<Rightarrow> map_option np_content_json (find (\<lambda>p. np_idempotency_key p = k) (ec_prompts c)));
           updated = (case find (\<lambda>x. pu_idempotency_key x = k) (ec_prompt_content_updates c) of
             Some x \<Rightarrow> map_option (\<lambda>_. pu_content_json x) inserted | None \<Rightarrow> inserted)
       in if k \<in> set (ec_prompt_content_clears c) then map_option (\<lambda>_. ''{}'') updated else updated)"
    and "x \<in> set (ec_prompt_content_updates c) \<Longrightarrow>
      stored_state d (task_exec_id (ec_run_id c) (pu_idempotency_key x)) = Some XsPending
      \<or> task_exec_id (ec_run_id c) (pu_idempotency_key x) \<in> nt_task_exec_id ` set (ec_new_tasks c)"
proof -
  let ?r = "ec_run_id c"
  obtain d1 d2 d3 d4 d5 d6 d7 d8 d9 nxt seqs where stages:
    "for_each (insert_task ?r) (ec_new_tasks c) d = Inr d1"
    "for_each (insert_prompt ?r) (ec_prompts c) d1 = Inr d2"
    "for_each (set_result ?r) (ec_checkpoint_results c) d2 = Inr d3"
    "for_each (update_prompt ?r) (ec_prompt_content_updates c) d3 = Inr d4"
    "for_each (apply_transition ?r) (ec_transitions c) d4 = Inr d5"
    "for_each (request_cancel ?r) (ec_cancel_requests c) d5 = Inr d6"
    "for_each (clear_prompt ?r) (ec_prompt_content_clears c) d6 = Inr d7"
    "for_each (insert_intent ?r) (ec_checkpoint_intents c) d7 = Inr d8"
    "for_each (insert_event ?r) (ec_events c) (update_run ?r (ec_run_update c) d8, start, []) = Inr (d9, nxt, seqs)"
    "rc = \<lparr>rc_event_seqs = seqs, rc_duplicate_prompts = []\<rparr>"
    "u = fold (rewrite_event ?r) (ec_event_rewrites c) (set_next_seq ?r nxt d9)"
    using commit by (rule commit_stages)
  have d6: "d6 = d5" using stages(6) cancels by simp
  have t2: "db_tasks d2 = db_tasks d1" by (rule for_each_frame [OF stages(2)]) (rule tasks_unchanged(1))
  have t3: "db_tasks d3 = db_tasks d2" by (rule for_each_frame [OF stages(3)]) (rule tasks_unchanged(2))
  have t4: "db_tasks d4 = db_tasks d3" by (rule for_each_frame [OF stages(4)]) (rule tasks_unchanged(3))
  have t7: "db_tasks d7 = db_tasks d6" by (rule for_each_frame [OF stages(7)]) (rule tasks_unchanged(4))
  have t8: "db_tasks d8 = db_tasks d7" by (rule for_each_frame [OF stages(8)]) (rule tasks_unchanged(5))
  have t9: "db_tasks d9 = db_tasks d8"
    by (rule events_loop_invariant [where P = "\<lambda>v. db_tasks v = db_tasks d8", OF stages(9)])
      (simp_all add: tasks_unchanged)
  have tu: "db_tasks u = db_tasks d9"
    unfolding stages(11)
    by (rule fold_invariant [where P = "\<lambda>v. db_tasks v = db_tasks d9"]) (simp_all add: tasks_unchanged)
  have p1: "db_prompts d1 = db_prompts d" by (rule for_each_frame [OF stages(1)]) (rule prompts_unchanged(1))
  have p3: "db_prompts d3 = db_prompts d2" by (rule for_each_frame [OF stages(3)]) (rule prompts_unchanged(2))
  have p5: "db_prompts d5 = db_prompts d4" by (rule for_each_frame [OF stages(5)]) (rule prompts_unchanged(3))
  have p8: "db_prompts d8 = db_prompts d7" by (rule for_each_frame [OF stages(8)]) (rule prompts_unchanged(5))
  have p9: "db_prompts d9 = db_prompts d8"
    by (rule events_loop_invariant [where P = "\<lambda>v. db_prompts v = db_prompts d8", OF stages(9)])
      (simp_all add: prompts_unchanged)
  have pu: "db_prompts u = db_prompts d9"
    unfolding stages(11)
    by (rule fold_invariant [where P = "\<lambda>v. db_prompts v = db_prompts d9"]) (simp_all add: prompts_unchanged)
  have n: "tasks_ok d1" "stored_state d1 i = (if i \<in> nt_task_exec_id ` set (ec_new_tasks c) then Some XsPending else stored_state d i)"
    using new_tasks_effect [OF stages(1) ok, of i] by simp_all
  have d4: "tasks_ok d4"
      "stored_state d4 i = (if i \<in> nt_task_exec_id ` set (ec_new_tasks c) then Some XsPending else stored_state d i)"
    using n tasks_ok_cong [of d4 d1] stored_state_cong [of d4 d1] t2 t3 t4 by simp_all
  have "stored_state u i = stored_state d5 i"
    using stored_state_cong [of u d5] t7 t8 t9 tu d6 by simp
  also have "\<dots> = (case last_move (ec_transitions c) i of Some s \<Rightarrow> Some s | None \<Rightarrow> stored_state d4 i)"
    using transitions_effect [OF stages(5) d4(1), of i] by blast
  finally show "stored_state u i = (case last_move (ec_transitions c) i of
        Some s \<Rightarrow> Some s
      | None \<Rightarrow> if i \<in> nt_task_exec_id ` set (ec_new_tasks c) then Some XsPending else stored_state d i)"
    unfolding d4(2) .
  show "content_at u ?r k =
      (let inserted = (case content_at d ?r k of
           Some x \<Rightarrow> Some x | None \<Rightarrow> map_option np_content_json (find (\<lambda>p. np_idempotency_key p = k) (ec_prompts c)));
           updated = (case find (\<lambda>x. pu_idempotency_key x = k) (ec_prompt_content_updates c) of
             Some x \<Rightarrow> map_option (\<lambda>_. pu_content_json x) inserted | None \<Rightarrow> inserted)
       in if k \<in> set (ec_prompt_content_clears c) then map_option (\<lambda>_. ''{}'') updated else updated)"
    using contents_insert [OF stages(2), of k] contents_update [OF stages(4) keys, of k]
      contents_clear [OF stages(7), of k] content_cong [OF p1] content_cong [OF p3]
      content_cong [OF p5] content_cong [of u d7] p8 p9 pu d6
    by (simp add: Let_def split: option.split)
  have l1: "ledger_rows ?r d1"
    by (rule for_each_invariant [where P = "ledger_rows ?r", OF stages(1) rows(1)]) (rule ledger_rows_insert_task)
  have l2: "ledger_rows ?r d2"
    by (rule for_each_invariant [where P = "ledger_rows ?r", OF stages(2) l1]) (rule ledger_rows_insert_prompt, auto intro: rows(2))
  have d3: "tasks_ok d3" "ledger_rows ?r d3" "stored_state d3 = stored_state d1"
    using n(1) l2 t2 t3 tasks_ok_cong [of d3 d1] stored_state_cong [of d3 d1]
      ledger_rows_frame [OF task_rows_frame(3) [OF t3] prompt_rows_frame(3) [OF p3]] by simp_all
  show "stored_state d (task_exec_id ?r (pu_idempotency_key x)) = Some XsPending
      \<or> task_exec_id ?r (pu_idempotency_key x) \<in> nt_task_exec_id ` set (ec_new_tasks c)"
    if "x \<in> set (ec_prompt_content_updates c)"
    using updates_pending [OF stages(4) d3(1,2) that] d3(3)
      new_tasks_effect [OF stages(1) ok, of "task_exec_id ?r (pu_idempotency_key x)"] by (auto split: if_splits)
  have r4: "prompt_rows d4 = prompt_rows d3" by (rule for_each_frame [OF stages(4)]) (rule prompt_rows_frame(1))
  have r7: "prompt_rows d7 = prompt_rows d6" by (rule for_each_frame [OF stages(7)]) (rule prompt_rows_frame(2))
  have k5: "task_rows d5 = task_rows d4" by (rule for_each_frame [OF stages(5)]) (rule task_rows_frame(1))
  have "task_rows u = task_rows d2"
    using task_rows_frame(3) [of u d7] task_rows_frame(3) [OF t7] k5 task_rows_frame(3) [of d4 d2] t3 t4 t8 t9 tu d6
    by simp
  moreover have "prompt_rows u = prompt_rows d2"
    using prompt_rows_frame(3) [of u d7] r7 prompt_rows_frame(3) [OF p5] r4 prompt_rows_frame(3) [OF p3] p8 p9 pu d6
    by simp
  ultimately show "ledger_rows ?r u" using l2 ledger_rows_frame by blast
qed

section \<open>Lemmas: reading the prompts\<close>

definition read_back :: "db \<Rightarrow> PromptRow \<Rightarrow> RunPrompt" where
  "read_back d p =
     \<lparr>rp_idempotency_key = ps_idempotency_key p, rp_task_exec_id = ps_task_exec_id p,
      rp_content_json = ps_content_json p, rp_state = the (stored_state d (ps_task_exec_id p))\<rparr>"

lemma filter_unique:
  "distinct (map k xs) \<Longrightarrow> x \<in> set xs \<Longrightarrow> P x \<Longrightarrow> filter (\<lambda>y. k y = k x \<and> P y) xs = [x]"
  by (induction xs) (auto simp: filter_empty_conv rev_image_eqI)

lemma collect_rows_map: "(\<And>x. x \<in> set xs \<Longrightarrow> f x = Inr (g x)) \<Longrightarrow> collect_rows f xs = Inr (map g xs)"
  by (induction xs) auto

lemma prompt_row_read:
  assumes "tasks_ok d" "ledger_rows r d" "p \<in> set (db_prompts d)" "ps_run_id p = r"
  obtains t where
    "filter (\<lambda>t. xt_task_exec_id t = ps_task_exec_id p \<and> xt_run_id t = ps_run_id p) (db_tasks d) = [t]"
    "read_prompt (p, t) = Inr (read_back d p)" "ps_task_exec_id p = task_exec_id r (ps_idempotency_key p)"
    "stored_state d (ps_task_exec_id p) \<noteq> None"
proof -
  have row: "ps_task_exec_id p = task_exec_id r (ps_idempotency_key p)" "(ps_task_exec_id p, r) \<in> set (task_rows d)"
    by (fact ledger_rowsD [OF assms(2-4)])+
  then obtain t where t: "t \<in> set (db_tasks d)" "xt_task_exec_id t = ps_task_exec_id p" "xt_run_id t = r"
    by (auto simp: task_rows_def)
  have "stored_state d (ps_task_exec_id p) = state_parse (xt_state t)" "state_parse (xt_state t) \<noteq> None"
    using stored_state_row [OF assms(1) t(1)] assms(1) t(1,2) by (auto simp: tasks_ok_def list_all_iff)
  moreover from this have "read_prompt (p, t) = Inr (read_back d p)"
    by (auto simp: read_prompt_def read_back_def parse_state_def)
  moreover have "distinct (map xt_task_exec_id (db_tasks d))" using assms(1) by (simp add: tasks_ok_def)
  from filter_unique [of xt_task_exec_id "db_tasks d" t "\<lambda>t. xt_run_id t = r", OF this t(1,3)]
  have "filter (\<lambda>t. xt_task_exec_id t = ps_task_exec_id p \<and> xt_run_id t = ps_run_id p) (db_tasks d) = [t]"
    using t(2) assms(4) by simp
  ultimately show ?thesis using that row(1) by metis
qed

lemma prompts_read:
  assumes "tasks_ok d" "ledger_rows r d"
  shows "prompts_for_run d r =
    Inr (map (read_back d) (sort_key ps_submission_id (filter (\<lambda>p. ps_run_id p = r) (db_prompts d))))"
proof -
  let ?ps = "sort_key ps_submission_id (filter (\<lambda>p. ps_run_id p = r) (db_prompts d))"
  let ?tasks = "\<lambda>p. filter (\<lambda>t. xt_task_exec_id t = ps_task_exec_id p \<and> xt_run_id t = ps_run_id p) (db_tasks d)"
  have one: "\<exists>t. ?tasks p = [t] \<and> read_prompt (p, t) = Inr (read_back d p)" if "p \<in> set ?ps" for p
  proof -
    have "p \<in> set (db_prompts d)" "ps_run_id p = r" using that by simp_all
    then show ?thesis by (rule prompt_row_read [OF assms]) blast
  qed
  have "collect_rows read_prompt (concat (map (\<lambda>p. map (Pair p) (?tasks p)) qs)) = Inr (map (read_back d) qs)"
    if "set qs \<subseteq> set ?ps" for qs
    using that
  proof (induction qs)
    case (Cons p qs)
    then have "p \<in> set ?ps" by simp
    then obtain t where "?tasks p = [t]" "read_prompt (p, t) = Inr (read_back d p)"
      using one by blast
    with Cons show ?case by simp
  qed simp
  then show ?thesis by (simp add: prompts_for_run_def)
qed

lemma find_same_elements:
  assumes "distinct (map k xs)" "distinct (map k ys)" "set xs = set ys"
  shows "find (\<lambda>x. k x = i) xs = find (\<lambda>x. k x = i) ys"
proof (cases "find (\<lambda>x. k x = i) xs")
  case None
  then have "find (\<lambda>x. k x = i) ys = None" using assms(3) by (auto simp: find_None_iff)
  with None show ?thesis by simp
next
  case (Some x)
  then have "x \<in> set ys" "k x = i" using assms(3) by (auto simp: find_Some_iff)
  with Some find_key [OF assms(2), of x] show ?thesis by simp
qed

lemma distinct_sort_key: "distinct (map k xs) \<Longrightarrow> distinct (map k (sort_key h xs))"
  by (simp add: distinct_map)

lemma run_keys_distinct:
  "distinct (prompt_keys d) \<Longrightarrow> distinct (map ps_idempotency_key (filter (\<lambda>p. ps_run_id p = r) (db_prompts d)))"
  by (auto simp: prompt_keys_def distinct_map inj_on_def)

lemma find_map: "find p (map f xs) = map_option f (find (p \<circ> f) xs)"
  by (induction xs) auto

lemma prompts_found:
  assumes "tasks_ok d" "ledger_rows r d" "distinct (prompt_keys d)" "prompts_for_run d r = Inr ps"
  shows "find_prompt ps k = map_option (read_back d) (prompt_at d r k)"
    and "distinct (map rp_idempotency_key ps)"
proof -
  let ?run = "filter (\<lambda>p. ps_run_id p = r) (db_prompts d)"
  have ps: "ps = map (read_back d) (sort_key ps_submission_id ?run)"
    using prompts_read [OF assms(1,2)] assms(4) by simp
  have keys: "rp_idempotency_key \<circ> read_back d = ps_idempotency_key" by (simp add: fun_eq_iff read_back_def)
  have run: "distinct (map ps_idempotency_key ?run)" by (rule run_keys_distinct [OF assms(3)])
  show "distinct (map rp_idempotency_key ps)"
    using distinct_sort_key [OF run] by (simp add: ps keys)
  have "find (\<lambda>p. ps_idempotency_key p = k) (sort_key ps_submission_id ?run) = prompt_at d r k"
    using find_same_elements [OF distinct_sort_key [OF run] run, of ps_submission_id k]
    by (simp add: prompt_at_def find_filter)
  then show "find_prompt ps k = map_option (read_back d) (prompt_at d r k)"
    by (simp add: find_prompt_def ps find_map o_def read_back_def)
qed

lemma prompt_found:
  assumes "tasks_ok d" "ledger_rows r d" "distinct (prompt_keys d)" "prompts_for_run d r = Inr ps"
  shows "map_option (\<lambda>p. (rp_idempotency_key p, rp_content_json p, Some (rp_state p))) (find_prompt ps k) =
    map_option (\<lambda>c. (k, c, stored_state d (task_exec_id r k))) (content_at d r k)"
proof (cases "prompt_at d r k")
  case None
  with prompts_found(1) [OF assms] show ?thesis by (simp add: content_at_def)
next
  case (Some p)
  then have p: "p \<in> set (db_prompts d)" "ps_run_id p = r" "ps_idempotency_key p = k"
    by (auto simp: prompt_at_def find_Some_iff)
  obtain t where "ps_task_exec_id p = task_exec_id r k" "stored_state d (ps_task_exec_id p) \<noteq> None"
    using prompt_row_read [OF assms(1,2) p(1,2)] p(3) by metis
  with Some prompts_found(1) [OF assms, of k] p show ?thesis
    by (auto simp: content_at_def read_back_def)
qed

lemma ledger_entry_read:
  assumes "distinct (map rp_idempotency_key ps)"
  shows "ledger_entry (ledger_from_prompts dec ps) k = Option.bind (find_prompt ps k) (entry_from_prompt dec)"
  using assms
proof (induction ps)
  case (Cons p ps)
  have key: "pe_client_message_id e = rp_idempotency_key p" if "entry_from_prompt dec p = Some e" for e p
    using that by (cases "content_fields dec (rp_content_json p)") (auto simp: entry_from_prompt_def split: if_splits)
  have later: "find_prompt ps k = None" if "rp_idempotency_key p = k"
    using Cons.prems that by (simp add: find_prompt_def find_None_iff image_iff) metis
  from Cons.IH Cons.prems later key show ?case
    by (cases "entry_from_prompt dec p")
      (auto simp: ledger_entry_def ledger_from_prompts_def find_prompt_def List.map_filter_simps)
qed (simp add: ledger_entry_def ledger_from_prompts_def find_prompt_def List.map_filter_simps)

section \<open>Lemmas: what a plan does to the prompt of a key\<close>

lemma last_move_Nil [simp]: "last_move [] i = None"
  by (simp add: last_move_def)

lemma last_move_append:
  "last_move (xs @ ys) i = (case last_move ys i of Some s \<Rightarrow> Some s | None \<Rightarrow> last_move xs i)"
  by (induction xs) (auto simp: last_move_Cons split: option.split)

lemma last_move_one:
  "last_move (map (move_to (task_exec_id r j)) ss) (task_exec_id r k) =
     (if j = k \<and> ss \<noteq> [] then Some (last ss) else None)"
  by (induction ss) (auto simp: last_move_Cons move_to_def)

lemma last_move_withdrawn:
  "last_move (map (\<lambda>p. move_to (task_exec_id r (rp_idempotency_key p)) s) qs) (task_exec_id r k) =
     (if k \<in> rp_idempotency_key ` set qs then Some s else None)"
  by (induction qs) (auto simp: last_move_Cons move_to_def)

lemma ledger_entry_Cons:
  "ledger_entry (e # l) k = (if pe_client_message_id e = k then Some e else ledger_entry l k)"
  by (simp add: ledger_entry_def)

lemma ledger_entry_None: "ledger_entry l k = None \<longleftrightarrow> k \<notin> desired_keys l"
  by (auto simp: ledger_entry_def desired_keys_def find_None_iff)

lemma ledger_entry_key: "ledger_entry l k = Some e \<Longrightarrow> pe_client_message_id e = k"
  by (auto simp: ledger_entry_def find_Some_iff)

lemma find_prompt_key: "find_prompt ps k = Some p \<Longrightarrow> rp_idempotency_key p = k"
  by (auto simp: find_prompt_def find_Some_iff)

lemma last_move_entries:
  assumes "distinct (map pe_client_message_id l)"
  shows "last_move (concat (map (moves_of r current) l)) (task_exec_id r k) =
    (case ledger_entry l k of
       Some e \<Rightarrow> if steps_of current e = [] then None else Some (last (steps_of current e)) | None \<Rightarrow> None)"
  using assms
proof (induction l)
  case (Cons e l)
  then have "ledger_entry l k = None" if "pe_client_message_id e = k"
    using that by (auto simp: ledger_entry_None desired_keys_def)
  with Cons show ?case
    by (auto simp: last_move_append moves_of_def last_move_one ledger_entry_Cons split: option.split)
qed (simp add: ledger_entry_def)

lemma find_conj:
  "distinct (map f xs) \<Longrightarrow> find (\<lambda>x. P x \<and> f x = k) xs =
     (case find (\<lambda>x. f x = k) xs of Some x \<Rightarrow> if P x then Some x else None | None \<Rightarrow> None)"
proof (induction xs)
  case (Cons x xs)
  have "find (\<lambda>y. P y \<and> f y = k) xs = None" if "f x = k"
    using Cons.prems that by (simp add: find_None_iff image_iff) metis
  with Cons show ?case by auto
qed simp

lemma new_prompt_found:
  assumes "distinct (map pe_client_message_id l)"
  shows "find (\<lambda>p. np_idempotency_key p = k) (map (new_prompt_of enc r) (filter (is_new current) l)) =
    (if find_prompt current k = None then map_option (new_prompt_of enc r) (ledger_entry l k) else None)"
proof -
  have "find (\<lambda>p. np_idempotency_key p = k) (map (new_prompt_of enc r) (filter (is_new current) l))
      = map_option (new_prompt_of enc r) (find (\<lambda>e. is_new current e \<and> pe_client_message_id e = k) l)"
    by (simp add: find_map find_filter o_def new_prompt_of_def)
  moreover have "is_new current e = (find_prompt current k = None)" if "ledger_entry l k = Some e" for e
    using ledger_entry_key [OF that] by (simp add: is_new_def)
  ultimately show ?thesis
    using find_conj [OF assms, of "is_new current" k] by (simp add: ledger_entry_def [symmetric] split: option.split)
qed

lemma new_task_member:
  "task_exec_id r k \<in> nt_task_exec_id ` set (map (new_task_of r) (filter (is_new current) l)) \<longleftrightarrow>
     find_prompt current k = None \<and> ledger_entry l k \<noteq> None"
  by (auto simp: ledger_entry_None desired_keys_def new_task_of_def is_new_def image_iff)

lemma update_found:
  assumes "distinct (map pe_client_message_id l)"
  shows "find (\<lambda>x. pu_idempotency_key x = k) (map (update_of enc) (filter (rewrites_content enc current) l)) =
    (case ledger_entry l k of
       Some e \<Rightarrow> if rewrites_content enc current e then Some (update_of enc e) else None | None \<Rightarrow> None)"
proof -
  have "find (\<lambda>x. pu_idempotency_key x = k) (map (update_of enc) (filter (rewrites_content enc current) l))
      = map_option (update_of enc) (find (\<lambda>e. rewrites_content enc current e \<and> pe_client_message_id e = k) l)"
    by (simp add: find_map find_filter o_def update_of_def)
  then show ?thesis
    using find_conj [OF assms, of "rewrites_content enc current" k]
    by (simp add: ledger_entry_def [symmetric] split: option.split)
qed

lemma target_completed: "target_state ph = XsCompleted \<longleftrightarrow> ph = PpCompleted"
  by (cases ph) simp_all

lemma bex_key:
  "distinct (map f xs) \<Longrightarrow>
   (\<exists>x\<in>set xs. f x = k \<and> Q x) \<longleftrightarrow> (case find (\<lambda>x. f x = k) xs of Some x \<Rightarrow> Q x | None \<Rightarrow> False)"
proof (induction xs)
  case (Cons x xs)
  then show ?case by (cases "f x = k") (auto simp: image_iff)
qed simp

lemma clears_iff:
  "k \<in> set (content_clears current l) \<longleftrightarrow>
     (\<exists>e\<in>set l. pe_client_message_id e = k \<and> pe_phase e = PpCompleted)
       \<and> (\<exists>p\<in>set current. rp_idempotency_key p = k \<and> rp_content_json p \<noteq> ''{}'')
     \<or> ledger_entry l k = None \<and> (\<exists>p\<in>set current. rp_idempotency_key p = k \<and> rp_content_json p \<noteq> ''{}'')"
  by (auto simp: content_clears_def list_ex_iff target_completed ledger_entry_None)

lemma clears_member:
  assumes "distinct (map pe_client_message_id l)" "distinct (map rp_idempotency_key current)"
  shows "k \<in> set (content_clears current l) \<longleftrightarrow>
    (case find_prompt current k of
       None \<Rightarrow> False
     | Some p \<Rightarrow> rp_content_json p \<noteq> ''{}''
         \<and> (case ledger_entry l k of Some e \<Rightarrow> pe_phase e = PpCompleted | None \<Rightarrow> True))"
  unfolding clears_iff bex_key [OF assms(1)] bex_key [OF assms(2)]
  by (auto simp: find_prompt_def ledger_entry_def split: option.split)

section \<open>Lemmas: a stored ledger\<close>

text \<open>What a commit does to the prompts and tasks of a run, as the lists of the commit tell it.\<close>

definition applied :: "string \<Rightarrow> ExecutionCommit \<Rightarrow> db \<Rightarrow> db \<Rightarrow> bool" where
  "applied r c d u \<longleftrightarrow>
     ledger_rows r u
     \<and> (\<forall>x \<in> set (ec_prompt_content_updates c). stored_state d (task_exec_id r (pu_idempotency_key x)) = Some XsPending
          \<or> task_exec_id r (pu_idempotency_key x) \<in> nt_task_exec_id ` set (ec_new_tasks c))
     \<and> (\<forall>i. stored_state u i = (case last_move (ec_transitions c) i of
          Some s \<Rightarrow> Some s
        | None \<Rightarrow> if i \<in> nt_task_exec_id ` set (ec_new_tasks c) then Some XsPending else stored_state d i))
     \<and> (\<forall>k. content_at u r k =
          (let inserted = (case content_at d r k of
               Some x \<Rightarrow> Some x | None \<Rightarrow> map_option np_content_json (find (\<lambda>p. np_idempotency_key p = k) (ec_prompts c)));
               updated = (case find (\<lambda>x. pu_idempotency_key x = k) (ec_prompt_content_updates c) of
                 Some x \<Rightarrow> map_option (\<lambda>_. pu_content_json x) inserted | None \<Rightarrow> inserted)
           in if k \<in> set (ec_prompt_content_clears c) then map_option (\<lambda>_. ''{}'') updated else updated))"

definition planned ::
    "'j content_writer \<Rightarrow> string \<Rightarrow> RunPrompt list \<Rightarrow> 'j PromptLedger \<Rightarrow> ExecutionCommit \<Rightarrow> bool" where
  "planned enc r current l c \<longleftrightarrow>
     list_all (entry_planned current) l
     \<and> ec_new_tasks c = map (new_task_of r) (filter (is_new current) l)
     \<and> ec_prompts c = map (new_prompt_of enc r) (filter (is_new current) l)
     \<and> ec_transitions c = concat (map (moves_of r current) l) @ withdrawals r current l
     \<and> ec_prompt_content_updates c = map (update_of enc) (filter (rewrites_content enc current) l)
     \<and> ec_prompt_content_clears c = content_clears current l
     \<and> ec_cancel_requests c = []"

lemma plan_commit_planned:
  assumes "plan_commit enc r current l = Inr plan"
  obtains c where "planned enc r current l c" "plan = (if empty_commit c then None else Some (c\<lparr>ec_run_id := r\<rparr>))"
proof -
  obtain c0 where c0: "for_each (plan_entry enc r current) l commit_default = Inr c0"
    using assms by (auto simp: plan_commit_def return_iff)
  let ?c = "c0\<lparr>ec_transitions := ec_transitions c0 @ withdrawals r current l,
               ec_prompt_content_clears := content_clears current l\<rparr>"
  have "planned enc r current l ?c"
    using plan_entries_lists [OF c0] by (simp add: planned_def commit_default_def)
  moreover have "plan = (if empty_commit ?c then None else Some (?c\<lparr>ec_run_id := r\<rparr>))"
    using assms c0 by (simp add: plan_commit_def Let_def)
  ultimately show ?thesis by (rule that)
qed

lemma moves_withdrawn:
  assumes "distinct (map rp_idempotency_key current)"
  shows "last_move (withdrawals r current l) (task_exec_id r k) =
    (case find_prompt current k of
       Some p \<Rightarrow> if ledger_entry l k = None \<and> \<not> is_terminal (rp_state p) then Some XsCancelled else None
     | None \<Rightarrow> None)"
proof -
  have "k \<in> rp_idempotency_key ` set (filter (\<lambda>p. rp_idempotency_key p \<notin> desired_keys l \<and> \<not> is_terminal (rp_state p)) current)
    \<longleftrightarrow> (\<exists>p\<in>set current. rp_idempotency_key p = k \<and> (k \<notin> desired_keys l \<and> \<not> is_terminal (rp_state p)))"
    by auto
  then show ?thesis
    unfolding withdrawals_def last_move_withdrawn bex_key [OF assms]
    by (auto simp: find_prompt_def ledger_entry_None split: option.split)
qed

lemma moves_planned:
  assumes "distinct (map pe_client_message_id l)" "distinct (map rp_idempotency_key current)"
    and "planned enc r current l c"
  shows "last_move (ec_transitions c) (task_exec_id r k) =
    (case ledger_entry l k of
       Some e \<Rightarrow> if start_of current e = target_state (pe_phase e) then None else Some (target_state (pe_phase e))
     | None \<Rightarrow>
         (case find_prompt current k of
            Some p \<Rightarrow> if is_terminal (rp_state p) then None else Some XsCancelled
          | None \<Rightarrow> None))"
proof -
  have "(if steps_of current e = [] then None else Some (last (steps_of current e))) =
      (if start_of current e = target_state (pe_phase e) then None else Some (target_state (pe_phase e)))"
    if "ledger_entry l k = Some e" for e
  proof -
    have "e \<in> set l" using that by (auto simp: ledger_entry_def find_Some_iff)
    then have "entry_planned current e" using assms(3) by (auto simp: planned_def list_all_iff)
    then obtain steps where steps: "transition_path (start_of current e) (target_state (pe_phase e)) = Some steps"
      by (auto simp: entry_planned_def)
    have "steps = []" if "start_of current e = target_state (pe_phase e)"
      using steps that by (simp add: transition_path_def)
    then show ?thesis using steps path_end [OF steps] by (auto simp: steps_of_def split: if_splits)
  qed
  then show ?thesis
    using assms(3) last_move_entries [OF assms(1), of r current k] moves_withdrawn [OF assms(2), of r l k]
    by (auto simp: planned_def last_move_append split: option.split)
qed

lemma view_after:
  assumes d: "tasks_ok d" "ledger_rows r d" "distinct (prompt_keys d)" "prompts_for_run d r = Inr current"
    and l: "distinct (map pe_client_message_id l)" and c: "planned enc r current l c" and u: "applied r c d u"
  shows "ledger_entry l k = Some e \<Longrightarrow> stored_state u (task_exec_id r k) = Some (target_state (pe_phase e))"
    and "ledger_entry l k = Some e \<Longrightarrow> content_at u r k = Some
      (if pe_phase e = PpCompleted then ''{}''
       else case find_prompt current k of
         None \<Rightarrow> entry_content_json enc e
       | Some p \<Rightarrow> if rewritable (rp_state p) (target_state (pe_phase e)) then entry_content_json enc e
                  else rp_content_json p)"
    and "ledger_entry l k = None \<Longrightarrow> find_prompt current k = Some p \<Longrightarrow>
      stored_state u (task_exec_id r k) = Some (if is_terminal (rp_state p) then rp_state p else XsCancelled)"
    and "ledger_entry l k = None \<Longrightarrow> (content_at u r k = None) = (find_prompt current k = None)"
proof -
  have cur: "distinct (map rp_idempotency_key current)" by (rule prompts_found(2) [OF d])
  note moves = moves_planned [OF l cur c, of k]
  have lists: "ec_new_tasks c = map (new_task_of r) (filter (is_new current) l)"
    "ec_prompts c = map (new_prompt_of enc r) (filter (is_new current) l)"
    "ec_prompt_content_updates c = map (update_of enc) (filter (rewrites_content enc current) l)"
    "ec_prompt_content_clears c = content_clears current l"
    using c by (simp_all add: planned_def)
  have "stored_state u (task_exec_id r k) = (case last_move (ec_transitions c) (task_exec_id r k) of
      Some s \<Rightarrow> Some s
    | None \<Rightarrow> if task_exec_id r k \<in> nt_task_exec_id ` set (ec_new_tasks c) then Some XsPending
              else stored_state d (task_exec_id r k))"
    using u unfolding applied_def by blast
  then have state: "stored_state u (task_exec_id r k) = (case last_move (ec_transitions c) (task_exec_id r k) of
      Some s \<Rightarrow> Some s
    | None \<Rightarrow> if find_prompt current k = None \<and> ledger_entry l k \<noteq> None then Some XsPending
              else stored_state d (task_exec_id r k))"
    unfolding lists(1) new_task_member .
  have old: "stored_state d (task_exec_id r k) = Some (rp_state p)" "content_at d r k = Some (rp_content_json p)"
    if "find_prompt current k = Some p" for p
    using prompt_found [OF d, of k] that by (auto simp: map_option_case split: option.splits)
  have none: "content_at d r k = None" if "find_prompt current k = None"
    using prompt_found [OF d, of k] that by (auto simp: map_option_case split: option.splits)
  have start: "start_of current e = (case find_prompt current k of Some p \<Rightarrow> rp_state p | None \<Rightarrow> XsPending)"
    if "ledger_entry l k = Some e" for e
    using ledger_entry_key [OF that] by (simp add: start_of_def)
  show "stored_state u (task_exec_id r k) = Some (target_state (pe_phase e))" if e: "ledger_entry l k = Some e"
    using state moves start [OF e] old e by (cases "find_prompt current k") auto
  show "stored_state u (task_exec_id r k) = Some (if is_terminal (rp_state p) then rp_state p else XsCancelled)"
    if "ledger_entry l k = None" "find_prompt current k = Some p"
    using state moves old that by auto
  have "content_at u r k = (let inserted = (case content_at d r k of
        Some x \<Rightarrow> Some x | None \<Rightarrow> map_option np_content_json (find (\<lambda>p. np_idempotency_key p = k) (ec_prompts c)));
      updated = (case find (\<lambda>x. pu_idempotency_key x = k) (ec_prompt_content_updates c) of
        Some x \<Rightarrow> map_option (\<lambda>_. pu_content_json x) inserted | None \<Rightarrow> inserted)
    in if k \<in> set (ec_prompt_content_clears c) then map_option (\<lambda>_. ''{}'') updated else updated)"
    using u unfolding applied_def by blast
  then have content: "content_at u r k = (let inserted = (case content_at d r k of
        Some x \<Rightarrow> Some x
      | None \<Rightarrow> if find_prompt current k = None then map_option (new_content enc) (ledger_entry l k) else None);
      updated = (case ledger_entry l k of
        Some e \<Rightarrow> if rewrites_content enc current e then map_option (\<lambda>_. entry_content_json enc e) inserted else inserted
      | None \<Rightarrow> inserted)
    in if k \<in> set (content_clears current l) then map_option (\<lambda>_. ''{}'') updated else updated)"
    unfolding lists(2-4) new_prompt_found [OF l] update_found [OF l]
    by (simp add: update_of_def new_prompt_of_def option.map_comp o_def Let_def split: option.split)
  note clears = clears_member [OF l cur, of k]
  show "(content_at u r k = None) = (find_prompt current k = None)" if "ledger_entry l k = None"
    using content clears that old none by (cases "find_prompt current k") auto
  show "content_at u r k = Some
      (if pe_phase e = PpCompleted then ''{}''
       else case find_prompt current k of
         None \<Rightarrow> entry_content_json enc e
       | Some p \<Rightarrow> if rewritable (rp_state p) (target_state (pe_phase e)) then entry_content_json enc e
                  else rp_content_json p)" if e: "ledger_entry l k = Some e"
  proof (cases "find_prompt current k")
    case None
    then show ?thesis
      using content clears none e ledger_entry_key [OF e]
      by (auto simp: new_content_def rewrites_content_def Let_def)
  next
    case (Some p)
    have "\<not> rewritable (rp_state p) XsCompleted" by (simp add: rewritable_def)
    with Some show ?thesis
      using content clears old [OF Some] e ledger_entry_key [OF e]
      by (auto simp: rewrites_content_def Let_def)
  qed
qed

text \<open>The runs keep their keys, so the latest run of a task is the same before and after a commit.\<close>

definition run_rows :: "db \<Rightarrow> (string \<times> string) list" where
  "run_rows d = map (\<lambda>x. (ar_run_id x, ar_task_id x)) (db_runs d)"

definition latest_run_id :: "db \<Rightarrow> string \<Rightarrow> string option" where
  "latest_run_id d t = (case rev (filter (\<lambda>x. snd x = t) (run_rows d)) of [] \<Rightarrow> None | x # _ \<Rightarrow> Some (fst x))"

lemma latest_run_id_rows:
  "latest_run_id d t = (case rev (filter (\<lambda>x. ar_task_id x = t) (db_runs d)) of [] \<Rightarrow> None | x # _ \<Rightarrow> Some (ar_run_id x))"
  by (simp add: latest_run_id_def run_rows_def filter_map o_def rev_map split: list.split)

lemma run_readable:
  assumes "rows_ok d" "events_ok d" "x \<in> set (db_runs d)"
  shows "\<exists>y. run_record_from_row x = Inr y \<and> rr_run_id y = ar_run_id x"
proof -
  have "0 \<le> ar_next_event_seq x" using assms(2,3) by (auto simp: events_ok_def list_all_iff)
  moreover have "ar_schema_version x = int CHECKPOINT_SCHEMA_VERSION" "0 \<le> ar_unreadable_history_rows x"
    using assms(1,3) by (auto simp: rows_ok_def list_all_iff)
  ultimately show ?thesis
    by (auto simp: run_record_from_row_def read_u32_def read_u64_def CHECKPOINT_SCHEMA_VERSION_def)
qed

lemma latest_run_read:
  assumes "store_ok d"
  shows "case latest_run_id d t of
      None \<Rightarrow> latest_run_for_task d t = Inr None
    | Some r \<Rightarrow> \<exists>y. latest_run_for_task d t = Inr (Some y) \<and> rr_run_id y = r"
proof (cases "rev (filter (\<lambda>x. ar_task_id x = t) (db_runs d))")
  case Nil
  then show ?thesis by (simp add: latest_run_id_rows latest_run_for_task_def)
next
  case (Cons x xs)
  then have "x \<in> set (rev (filter (\<lambda>x. ar_task_id x = t) (db_runs d)))" by simp
  then have "x \<in> set (db_runs d)" by simp
  then obtain y where "run_record_from_row x = Inr y" "rr_run_id y = ar_run_id x"
    using run_readable assms by (auto simp: store_ok_def)
  then show ?thesis by (simp add: latest_run_id_rows latest_run_for_task_def Cons)
qed

lemma ensured_run:
  assumes "store_ok d" "ensure_run created handle harness d = (Inr r, u)"
  shows "latest_run_id u handle = Some r" "store_ok u" "same_work u d" "db_owner u = db_owner d"
proof -
  have "latest_run_id u handle = Some r \<and> store_ok u \<and> same_work u d \<and> db_owner u = db_owner d"
  proof (cases "latest_run_id d handle")
    case None
    then have latest: "latest_run_for_task d handle = Inr None" using latest_run_read [OF assms(1), of handle] by simp
    let ?n = "new_run created handle harness ''auto''"
    obtain res v where created: "create_run ?n d = (res, v)" by fastforce
    have made: "create_run ?n d = (Inr (), u)" "r = ''web-chat:'' @ handle"
      using assms(2) latest created by (cases res; simp add: ensure_run_def)+
    have "run_step d (snd (create_run ?n d))" by (rule step_create)
    then have "store_ok u" using run_step_store_ok assms(1) made(1) by fastforce
    moreover have "latest_run_id u handle = Some r" "same_work u d" "db_owner u = db_owner d"
      using made by (auto simp: create_run_def new_run_def latest_run_id_def run_rows_def same_work_def split: if_splits)
    ultimately show ?thesis by simp
  next
    case (Some q)
    then obtain y where "latest_run_for_task d handle = Inr (Some y)" "rr_run_id y = q"
      using latest_run_read [OF assms(1), of handle] by auto
    then show ?thesis using assms Some by (auto simp: ensure_run_def same_work_def)
  qed
  then show "latest_run_id u handle = Some r" "store_ok u" "same_work u d" "db_owner u = db_owner d" by simp_all
qed

lemma run_rows_update: "(\<And>x. ar_run_id (f x) = ar_run_id x \<and> ar_task_id (f x) = ar_task_id x) \<Longrightarrow>
    db_runs u = update_where p f (db_runs d) \<Longrightarrow> run_rows u = run_rows d"
  by (simp add: run_rows_def map_update_where)

lemma update_run_row_keys [simp]:
  "ar_run_id (update_run_row x r) = ar_run_id r" "ar_task_id (update_run_row x r) = ar_task_id r"
  by (simp_all add: update_run_row_def set_if_def split: option.split)

lemma commit_run_rows: "commit_tables c start d = Inr (rc, u) \<Longrightarrow> run_rows u = run_rows d"
  by (rule run_rows_update [OF _ trans [OF commit_log(3) runs_next]]) (simp_all split: option.split)

lemma prune_frame:
  "same_work (snd (prune_execution_events r n d)) d" "run_rows (snd (prune_execution_events r n d)) = run_rows d"
  by (simp_all add: prune_execution_events_def same_work_def run_rows_def Let_def)

lemma same_work_views:
  assumes "same_work u d"
  shows "stored_state u = stored_state d" "content_at u = content_at d" "ledger_rows r u = ledger_rows r d"
    "prompt_keys u = prompt_keys d" "tasks_ok u = tasks_ok d" "prompts_for_run u = prompts_for_run d"
proof -
  have rows: "db_tasks u = db_tasks d" "db_prompts u = db_prompts d" using assms by (simp_all add: same_work_def)
  show "stored_state u = stored_state d" by (rule stored_state_cong [OF rows(1)])
  show "content_at u = content_at d" by (rule content_cong [OF rows(2)])
  show "tasks_ok u = tasks_ok d" by (rule tasks_ok_cong [OF rows(1)])
  show "prompt_keys u = prompt_keys d" by (simp add: prompt_keys_def rows)
  show "prompts_for_run u = prompts_for_run d" by (rule ext) (simp add: prompts_for_run_def rows)
  show "ledger_rows r u = ledger_rows r d"
    using ledger_rows_frame [OF task_rows_frame(3) [OF rows(1)] prompt_rows_frame(3) [OF rows(2)]] .
qed

definition run_of :: "db \<Rightarrow> string \<Rightarrow> string" where
  "run_of d handle = (case latest_run_id d handle of Some r \<Rightarrow> r | None \<Rightarrow> ''web-chat:'' @ handle)"

text \<open>The rows of a session's run fit together, and there are none before the run is made.\<close>

definition ledger_store :: "string \<Rightarrow> db \<Rightarrow> bool" where
  "ledger_store handle d \<longleftrightarrow>
     store_ok d \<and> ledger_rows (run_of d handle) d
     \<and> (latest_run_id d handle = None \<longrightarrow> list_all (\<lambda>p. ps_run_id p \<noteq> ''web-chat:'' @ handle) (db_prompts d))"

lemma applied_nothing:
  assumes "planned enc r current l c" "empty_commit c" "same_work u d" "ledger_rows r d"
  shows "applied r c d u"
  using assms same_work_views [OF assms(3)]
  by (auto simp: applied_def empty_commit_def last_move_def split: option.split)

lemma applied_commit:
  assumes c: "planned enc r current l c" and l: "distinct (map pe_client_message_id l)"
    and lists: "ec_run_id c' = r" "ec_new_tasks c' = ec_new_tasks c" "ec_prompts c' = ec_prompts c"
      "ec_transitions c' = ec_transitions c" "ec_prompt_content_updates c' = ec_prompt_content_updates c"
      "ec_prompt_content_clears c' = ec_prompt_content_clears c" "ec_cancel_requests c' = []"
    and d: "store_ok d" "ledger_rows r d"
    and commit: "commit_execution fence c' d = (Inr rc, u)" "rc_duplicate_prompts rc = []"
  shows "applied r c d u" "store_ok u" "run_rows u = run_rows d"
proof -
  show "store_ok u" using commit_store_ok [OF d(1), of fence c'] commit(1) by simp
  have "applied r c d u \<and> run_rows u = run_rows d"
    using commit(1)
  proof (cases rule: commit_cases)
    case (written run rc')
    have keys: "distinct (map pu_idempotency_key (ec_prompt_content_updates c'))"
      using c l by (simp add: lists planned_def update_of_def o_def distinct_map_filter)
    have prompts: "np_task_exec_id p = task_exec_id (ec_run_id c') (np_idempotency_key p)"
      if "p \<in> set (ec_prompts c')" for p
      using that c by (auto simp: lists planned_def new_prompt_of_def)
    have ok: "tasks_ok d" using d(1) by (simp add: store_ok_def)
    note effect = commit_effect [OF written(3) ok keys, unfolded lists(1), OF d(2) prompts [unfolded lists(1)] lists(7)]
    have "applied r c d u" unfolding applied_def using effect by (simp only: lists) blast
    then show ?thesis using commit_run_rows [OF written(3)] by simp
  qed (use commit(2) in simp_all)
  then show "applied r c d u" "run_rows u = run_rows d" by simp_all
qed

lemma run_rows_latest: "run_rows u = run_rows d \<Longrightarrow> latest_run_id u = latest_run_id d"
  by (simp add: latest_run_id_def fun_eq_iff)

lemma persisted:
  assumes persist: "persist_ledger fence enc created handle l events rewrites d = (Inr (), u)"
    and d: "ledger_store handle d" and l: "distinct (map pe_client_message_id l)"
  obtains current c where "prompts_for_run d (run_of d handle) = Inr current"
    "planned enc (run_of d handle) current l c" "applied (run_of d handle) c d u"
    "latest_run_id u handle = Some (run_of d handle)" "store_ok u"
proof -
  let ?r = "run_of d handle"
  have ok: "store_ok d" "ledger_rows ?r d" using d by (simp_all add: ledger_store_def)
  obtain r d1 where ensured: "ensure_run created handle ''unknown'' d = (Inr r, d1)"
    using persist by (auto simp: persist_ledger_def split: prod.splits sum.splits)
  note run = ensured_run [OF ok(1) ensured]
  have r: "r = ?r"
  proof (cases "latest_run_id d handle")
    case None
    then have "latest_run_for_task d handle = Inr None" using latest_run_read [OF ok(1), of handle] by simp
    then show ?thesis
      using ensured None by (cases "create_run (new_run created handle ''unknown'' ''auto'') d")
        (auto simp: ensure_run_def run_of_def split: sum.splits)
  next
    case (Some q)
    then obtain y where "latest_run_for_task d handle = Inr (Some y)" "rr_run_id y = q"
      using latest_run_read [OF ok(1), of handle] by auto
    then show ?thesis using ensured Some by (auto simp: ensure_run_def run_of_def)
  qed
  note views = same_work_views [OF run(3)]
  obtain current where current: "prompts_for_run d1 ?r = Inr current"
    using persist ensured r by (auto simp: persist_ledger_def split: sum.splits)
  obtain plan where plan: "plan_commit enc ?r current l = Inr plan"
    using persist ensured r current by (auto simp: persist_ledger_def split: sum.splits)
  obtain c where c: "planned enc ?r current l c"
      "plan = (if empty_commit c then None else Some (c\<lparr>ec_run_id := ?r\<rparr>))"
    by (rule plan_commit_planned [OF plan])
  let ?rewrites = "map (\<lambda>(cursor, payload). \<lparr>er_seq = cursor + 1, er_payload = payload\<rparr>) rewrites"
  have "applied ?r c d1 u \<and> store_ok u \<and> run_rows u = run_rows d1"
  proof (cases "ledger_commit ?r events ?rewrites plan")
    case None
    then have "u = d1" "empty_commit c"
      using persist ensured r current plan c(2) by (auto simp: persist_ledger_def ledger_commit_def split: if_splits)
    then show ?thesis
      using applied_nothing [OF c(1), of d1 d1] run(2) ok(2) views by (simp add: same_work_def)
  next
    case (Some c')
    have lists: "ec_run_id c' = ?r" "ec_new_tasks c' = ec_new_tasks c" "ec_prompts c' = ec_prompts c"
      "ec_transitions c' = ec_transitions c" "ec_prompt_content_updates c' = ec_prompt_content_updates c"
      "ec_prompt_content_clears c' = ec_prompt_content_clears c" "ec_cancel_requests c' = []"
      using Some c by (auto simp: ledger_commit_def planned_def empty_commit_def commit_default_def split: if_splits)
    obtain rc d2 where commit: "commit_execution fence c' d1 = (Inr rc, d2)"
      "plan \<noteq> None \<longrightarrow> rc_duplicate_prompts rc = []" "u = snd (prune_execution_events ?r MAX_LOG_EVENTS d2)"
      using persist ensured r current plan Some by (auto simp: persist_ledger_def split: prod.splits sum.splits if_splits)
    have "rc_duplicate_prompts rc = []" if "plan = None"
      using commit(1)
    proof (cases rule: commit_cases)
      case (written run' rc')
      then show ?thesis using commit_log(1) [OF written(3)] by simp
    next
      case (duplicate ks)
      then show ?thesis using that c(2) lists(3) by (simp add: empty_commit_def split: if_splits)
    qed simp
    then have "rc_duplicate_prompts rc = []" using commit(2) by auto
    note stored = applied_commit [OF c(1) l lists run(2) _ commit(1) this]
    have rows: "ledger_rows ?r d1" using ok(2) views by simp
    note u = prune_frame [of ?r MAX_LOG_EVENTS d2, folded commit(3)]
    have "applied ?r c d1 u"
      using stored(1) [OF rows] same_work_views [OF u(1)] by (simp add: applied_def)
    moreover have "run_step d2 u" unfolding commit(3) by (rule step_prune)
    then have "store_ok u" using run_step_store_ok stored(2) [OF rows] by blast
    ultimately show ?thesis using u(2) stored(3) [OF rows] by simp
  qed
  moreover from this have "latest_run_id u handle = Some ?r" using run_rows_latest [of u d1] run(1) r by simp
  moreover have "applied ?r c d u" using calculation(1) unfolding applied_def views(1,2) by blast
  moreover have "prompts_for_run d ?r = Inr current" using current views by simp
  ultimately show ?thesis using that c(1) by blast
qed

lemma persisted_store:
  assumes "persist_ledger fence enc created handle l events rewrites d = (Inr (), u)"
    and "ledger_store handle d" "distinct (map pe_client_message_id l)"
  shows "ledger_store handle u"
proof -
  obtain current c where "applied (run_of d handle) c d u" "latest_run_id u handle = Some (run_of d handle)" "store_ok u"
    by (rule persisted [OF assms])
  then show ?thesis by (simp add: ledger_store_def run_of_def applied_def)
qed

lemma entry_from_same:
  "rp_idempotency_key p = rp_idempotency_key q \<Longrightarrow> rp_content_json p = rp_content_json q \<Longrightarrow> rp_state p = rp_state q \<Longrightarrow>
   entry_from_prompt dec p = entry_from_prompt dec q"
  by (simp add: entry_from_prompt_def)

text \<open>The prompt of a key, as the store holds it.\<close>

definition prompt_view :: "db \<Rightarrow> string \<Rightarrow> string \<Rightarrow> RunPrompt option" where
  "prompt_view d r k = map_option (\<lambda>c.
     \<lparr>rp_idempotency_key = k, rp_task_exec_id = task_exec_id r k, rp_content_json = c,
      rp_state = the (stored_state d (task_exec_id r k))\<rparr>) (content_at d r k)"

lemma entry_loaded:
  assumes d: "tasks_ok d" "ledger_rows r d" "distinct (prompt_keys d)" "prompts_for_run d r = Inr ps"
  shows "ledger_entry (ledger_from_prompts dec ps) k = Option.bind (prompt_view d r k) (entry_from_prompt dec)"
  unfolding ledger_entry_read [OF prompts_found(2) [OF d]]
  using prompt_found [OF d, of k]
  by (cases "find_prompt ps k"; cases "content_at d r k") (auto simp: prompt_view_def intro!: entry_from_same dest!: sym [where s = "Some _"])

lemma ledger_loaded:
  assumes "ledger_store handle d" "latest_run_id d handle \<noteq> None \<or> content_at d (run_of d handle) = (\<lambda>k. None)"
  obtains l where "load_ledger dec handle d = Inr l"
    "\<And>k. ledger_entry l k = Option.bind (prompt_view d (run_of d handle) k) (entry_from_prompt dec)"
proof (cases "latest_run_id d handle")
  case None
  then have "load_ledger dec handle d = Inr []"
    using latest_run_read [of d handle] assms(1) by (simp add: load_ledger_def ledger_store_def)
  then show ?thesis using that [of "[]"] assms(2) None by (simp add: ledger_entry_def prompt_view_def)
next
  case (Some r)
  have ok: "tasks_ok d" "ledger_rows r d" "distinct (prompt_keys d)"
    using assms(1) Some by (auto simp: ledger_store_def store_ok_def run_of_def)
  obtain ps where ps: "prompts_for_run d r = Inr ps" using prompts_read [OF ok(1,2)] by blast
  have "load_ledger dec handle d = Inr (ledger_from_prompts dec ps)"
    using latest_run_read [of d handle] assms(1) Some ps by (auto simp: load_ledger_def ledger_store_def)
  then show ?thesis using that entry_loaded [OF ok ps, of dec] Some by (simp add: run_of_def)
qed

lemma no_prompts_before_run:
  assumes "ledger_store handle d"
  shows "latest_run_id d handle \<noteq> None \<or> content_at d (run_of d handle) = (\<lambda>k. None)"
proof (cases "latest_run_id d handle")
  case None
  then have "list_all (\<lambda>p. ps_run_id p \<noteq> ''web-chat:'' @ handle) (db_prompts d)" "run_of d handle = ''web-chat:'' @ handle"
    using assms by (simp_all add: ledger_store_def run_of_def)
  then have "content_at d (run_of d handle) k = None" for k
    by (auto simp: content_at_def prompt_at_def find_None_iff list_all_iff)
  then show ?thesis by auto
qed simp

text \<open>An entry as it is stored over the ledger that was stored before.\<close>

definition completed_form :: "'j PromptLedgerEntry \<Rightarrow> 'j PromptLedgerEntry" where
  "completed_form e =
     \<lparr>pe_client_message_id = pe_client_message_id e, pe_phase = PpCompleted, pe_transcript_text = [],
      pe_prompt_text = [], pe_content_blocks = [], pe_shim_offset = None, pe_transcript_cursor = None\<rparr>"

definition stored_entry :: "'j PromptLedger \<Rightarrow> 'j PromptLedgerEntry \<Rightarrow> 'j PromptLedgerEntry" where
  "stored_entry before e =
     (if pe_phase e = PpCompleted then completed_form e
      else case ledger_entry before (pe_client_message_id e) of
        None \<Rightarrow> e
      | Some old \<Rightarrow>
          if pe_phase e = PpQueued \<or> (pe_phase old = PpQueued \<and> pe_phase e = PpDispatching) then e
          else old\<lparr>pe_phase := pe_phase e\<rparr>)"

definition faithful_codec :: "'j content_writer \<Rightarrow> 'j content_reader \<Rightarrow> bool" where
  "faithful_codec enc dec \<longleftrightarrow> (\<forall>t p bs offset cursor. dec (enc t p bs offset cursor) =
     Some \<lparr>co_transcript_text = Some t, co_prompt_text = Some p, co_content_blocks = Some bs,
           co_shim_offset = offset, co_transcript_cursor = cursor\<rparr>)"

lemma content_round_trip:
  "faithful_codec enc dec \<Longrightarrow> content_fields dec (entry_content_json enc e) =
     (pe_transcript_text e, pe_prompt_text e, pe_content_blocks e, pe_shim_offset e, pe_transcript_cursor e)"
  by (simp add: faithful_codec_def content_fields_def entry_content_json_def)

lemma phase_of_target: "phase_of_state (target_state ph) = Some ph" "\<not> withdrawn (target_state ph)"
  by (cases ph; simp add: withdrawn_def)+

lemma entry_at_target:
  "entry_from_prompt dec \<lparr>rp_idempotency_key = k, rp_task_exec_id = i, rp_content_json = c, rp_state = target_state ph\<rparr> =
     Some (case (if ph = PpCompleted then ([], [], [], None, None) else content_fields dec c) of
       (transcript, prompt, blocks, offset, cursor) \<Rightarrow>
         \<lparr>pe_client_message_id = k, pe_phase = ph, pe_transcript_text = transcript, pe_prompt_text = prompt,
          pe_content_blocks = blocks, pe_shim_offset = offset, pe_transcript_cursor = cursor\<rparr>)"
  by (simp add: entry_from_prompt_def phase_of_target target_completed)

lemma no_path_from_withdrawn: "withdrawn s \<Longrightarrow> transition_path s (target_state ph) = None"
  by (cases ph; cases s) (simp_all add: withdrawn_def transition_path_def)

lemma path_start_phase:
  "transition_path s (target_state ph) \<noteq> None \<Longrightarrow>
     (\<exists>q. s = target_state q) \<and> (s = XsCompleted \<longrightarrow> ph = PpCompleted)"
  by (cases ph; cases s)
    (auto simp: transition_path_def intro: exI [of _ PpQueued] exI [of _ PpDispatching] exI [of _ PpInterrupted]
      exI [of _ PpCompleted])

lemma rewritable_phase:
  "rewritable (target_state q) (target_state ph) \<longleftrightarrow> ph = PpQueued \<or> (q = PpQueued \<and> ph = PpDispatching)"
  by (cases q; cases ph) (simp_all add: rewritable_def)

lemma stored_entry_loaded:
  assumes codec: "faithful_codec enc dec" and e: "pe_client_message_id e = k"
    and before: "ledger_entry l0 k = Option.bind old (entry_from_prompt dec)"
    and old: "\<And>p. old = Some p \<Longrightarrow> rp_idempotency_key p = k \<and> transition_path (rp_state p) (target_state (pe_phase e)) \<noteq> None"
    and new: "new = Some \<lparr>rp_idempotency_key = k, rp_task_exec_id = i,
      rp_content_json =
        (if pe_phase e = PpCompleted then ''{}''
         else case old of
           None \<Rightarrow> entry_content_json enc e
         | Some p \<Rightarrow> if rewritable (rp_state p) (target_state (pe_phase e)) then entry_content_json enc e
                    else rp_content_json p),
      rp_state = target_state (pe_phase e)\<rparr>"
  shows "Option.bind new (entry_from_prompt dec) = Some (stored_entry l0 e)"
proof (cases old)
  case None
  then show ?thesis
    using e before by (auto simp: new entry_at_target content_round_trip [OF codec] stored_entry_def completed_form_def)
next
  case (Some p)
  obtain q where q: "rp_state p = target_state q" using path_start_phase old [OF Some] by blast
  have key: "rp_idempotency_key p = k" using old [OF Some] by simp
  obtain t b bs off cur where fields: "content_fields dec (rp_content_json p) = (t, b, bs, off, cur)"
    by (cases "content_fields dec (rp_content_json p)") auto
  have "q = PpCompleted \<longrightarrow> pe_phase e = PpCompleted"
    using path_start_phase [of "rp_state p" "pe_phase e"] old [OF Some] q by simp
  moreover have "ledger_entry l0 k = entry_from_prompt dec
      \<lparr>rp_idempotency_key = k, rp_task_exec_id = i, rp_content_json = rp_content_json p, rp_state = target_state q\<rparr>"
    using before Some key q by (simp add: entry_from_prompt_def)
  ultimately show ?thesis
    using e Some q fields
    by (auto simp: new entry_at_target content_round_trip [OF codec] stored_entry_def completed_form_def rewritable_phase)
qed

lemma view_before:
  assumes "tasks_ok d" "ledger_rows r d" "distinct (prompt_keys d)" "prompts_for_run d r = Inr current"
  shows "prompt_view d r k =
    map_option (\<lambda>p. p\<lparr>rp_idempotency_key := k, rp_task_exec_id := task_exec_id r k\<rparr>) (find_prompt current k)"
  using prompt_found [OF assms, of k]
  by (cases "find_prompt current k"; cases "content_at d r k")
    (auto simp: prompt_view_def dest!: sym [where s = "Some _"])

lemma entry_if_dropped:
  "entry_from_prompt dec \<lparr>rp_idempotency_key = k, rp_task_exec_id = i, rp_content_json = c,
       rp_state = (if is_terminal (rp_state p) then rp_state p else XsCancelled)\<rparr> =
   (case entry_from_prompt dec (p\<lparr>rp_idempotency_key := k, rp_task_exec_id := j\<rparr>) of
      Some e \<Rightarrow> if pe_phase e = PpCompleted then Some e else None
    | None \<Rightarrow> None)"
  by (cases "rp_state p"; cases "content_fields dec (rp_content_json p)")
    (simp_all add: entry_from_prompt_def withdrawn_def is_terminal_def)

text \<open>C9: Storing the ledger of a session and loading it again gives, for every key: the entry that was stored, with
  its content erased when it is completed; over an entry that was stored before, its new phase with the new
  content when the prompt is queued or its queued predecessor is sent, and with the old content otherwise. Of the
  entries that left the ledger only the completed ones are loaded.\<close>

theorem stored_ledger_is_loaded:
  assumes "faithful_codec enc dec" and "ledger_store handle d" and "distinct (map pe_client_message_id l)"
    and "persist_ledger fence enc created handle l events rewrites d = (Inr (), u)"
  shows "\<exists>before after.
    load_ledger dec handle d = Inr before \<and> load_ledger dec handle u = Inr after \<and> ledger_store handle u
    \<and> (\<forall>k. ledger_entry after k =
        (case ledger_entry l k of
           Some e \<Rightarrow> Some (stored_entry before e)
         | None \<Rightarrow>
             (case ledger_entry before k of
                Some e \<Rightarrow> if pe_phase e = PpCompleted then Some e else None
              | None \<Rightarrow> None)))"
proof -
  let ?r = "run_of d handle"
  obtain current c where c: "prompts_for_run d ?r = Inr current" "planned enc ?r current l c" "applied ?r c d u"
    and u: "latest_run_id u handle = Some ?r" "store_ok u"
    by (rule persisted [OF assms(4,2,3)])
  have d: "tasks_ok d" "ledger_rows ?r d" "distinct (prompt_keys d)"
    using assms(2) by (simp_all add: ledger_store_def store_ok_def)
  have store: "ledger_store handle u" by (rule persisted_store [OF assms(4,2,3)])
  obtain before where before: "load_ledger dec handle d = Inr before"
    "\<And>k. ledger_entry before k = Option.bind (prompt_view d ?r k) (entry_from_prompt dec)"
    using ledger_loaded [OF assms(2) no_prompts_before_run [OF assms(2)], of dec] by blast
  have run: "run_of u handle = ?r" using u(1) by (simp add: run_of_def)
  obtain after where after: "load_ledger dec handle u = Inr after"
    "\<And>k. ledger_entry after k = Option.bind (prompt_view u ?r k) (entry_from_prompt dec)"
    using ledger_loaded [OF store no_prompts_before_run [OF store], of dec] unfolding run by blast
  note view = view_after [OF d c(1) assms(3) c(2,3)]
  note old = view_before [OF d c(1)]
  have "ledger_entry after k = Some (stored_entry before e)" if e: "ledger_entry l k = Some e" for k e
  proof -
    have "e \<in> set l" "pe_client_message_id e = k" using e by (auto simp: ledger_entry_def find_Some_iff)
    moreover from this have "entry_planned current e" using c(2) by (auto simp: planned_def list_all_iff)
    ultimately have key: "pe_client_message_id e = k"
      and path: "transition_path (rp_state p) (target_state (pe_phase e)) \<noteq> None"
        if "find_prompt current k = Some p" for p
      using that by (auto simp: entry_planned_def start_of_def)
    show ?thesis
      unfolding after(2)
    proof (rule stored_entry_loaded [OF assms(1) ledger_entry_key [OF e] before(2)])
      show "prompt_view u ?r k = Some \<lparr>rp_idempotency_key = k, rp_task_exec_id = task_exec_id ?r k,
        rp_content_json =
          (if pe_phase e = PpCompleted then ''{}''
           else case prompt_view d ?r k of
             None \<Rightarrow> entry_content_json enc e
           | Some p \<Rightarrow> if rewritable (rp_state p) (target_state (pe_phase e)) then entry_content_json enc e
                      else rp_content_json p),
        rp_state = target_state (pe_phase e)\<rparr>"
        using view(1,2) [OF e] by (simp add: prompt_view_def [of u] old split: option.split)
      show "rp_idempotency_key p = k \<and> transition_path (rp_state p) (target_state (pe_phase e)) \<noteq> None"
        if "prompt_view d ?r k = Some p" for p
        using that path unfolding old by auto
    qed
  qed
  moreover have "ledger_entry after k = (case ledger_entry before k of
      Some e \<Rightarrow> if pe_phase e = PpCompleted then Some e else None | None \<Rightarrow> None)" if l: "ledger_entry l k = None" for k
  proof (cases "find_prompt current k")
    case None
    then show ?thesis using view(4) [OF l] unfolding before(2) after(2) old by (simp add: prompt_view_def)
  next
    case (Some p)
    then obtain content where "content_at u ?r k = Some content" using view(4) [OF l] by auto
    then have "prompt_view u ?r k = Some \<lparr>rp_idempotency_key = k, rp_task_exec_id = task_exec_id ?r k,
        rp_content_json = content, rp_state = (if is_terminal (rp_state p) then rp_state p else XsCancelled)\<rparr>"
      using view(3) [OF l Some] by (simp add: prompt_view_def)
    then show ?thesis
      unfolding before(2) after(2) old using Some by (simp add: entry_if_dropped)
  qed
  ultimately show ?thesis using before(1) after(1) store by (auto split: option.split)
qed

lemma empty_ledger_store: "ledger_store handle db_empty"
  using empty_store_ok
  by (simp add: ledger_store_def ledger_rows_def prompt_rows_def db_empty_def)

section \<open>An example of a codec\<close>

text \<open>Texts are written one after the other, each character after a mark.\<close>

definition sample_text :: "string \<Rightarrow> string" where
  "sample_text s = concat (map (\<lambda>c. [CHR ''+'', c]) s) @ ''.''"

fun sample_read_text :: "string \<Rightarrow> string \<times> string" where
  "sample_read_text (m # c # rest) =
     (if m = CHR ''+'' then (case sample_read_text rest of (s, r) \<Rightarrow> (c # s, r)) else ([], c # rest))"
| "sample_read_text s = ([], [])"

definition sample_option :: "nat option \<Rightarrow> string" where
  "sample_option x = (case x of None \<Rightarrow> [] | Some n \<Rightarrow> replicate (Suc n) (CHR ''x''))"

definition sample_read_option :: "string \<Rightarrow> nat option" where
  "sample_read_option s = (case s of [] \<Rightarrow> None | _ # r \<Rightarrow> Some (length r))"

definition sample_enc :: "char content_writer" where
  "sample_enc t p bs offset cursor =
     sample_text t @ sample_text p @ sample_text bs @ sample_text (sample_option offset) @ sample_text (sample_option cursor)"

definition sample_dec :: "char content_reader" where
  "sample_dec s =
     (let (t, r1) = sample_read_text s; (p, r2) = sample_read_text r1; (bs, r3) = sample_read_text r2;
          (offset, r4) = sample_read_text r3; (cursor, r5) = sample_read_text r4
      in Some \<lparr>co_transcript_text = Some t, co_prompt_text = Some p, co_content_blocks = Some bs,
           co_shim_offset = sample_read_option offset, co_transcript_cursor = sample_read_option cursor\<rparr>)"

lemma sample_text_read: "sample_read_text (sample_text s @ r) = (s, r)"
proof (induction s)
  case Nil
  then show ?case by (cases r) (simp_all add: sample_text_def)
qed (simp add: sample_text_def)

lemma sample_option_read: "sample_read_option (sample_option x) = x"
  by (cases x) (simp_all add: sample_option_def sample_read_option_def)

lemma sample_codec: "faithful_codec sample_enc sample_dec"
  using sample_text_read [of _ "[]"]
  by (simp add: faithful_codec_def sample_enc_def sample_dec_def sample_text_read sample_option_read)

definition first_ledger :: "char PromptLedger" where
  "first_ledger = [queued_entry ''m1'' ''hi'' ''hi'' ''b'', queued_entry ''m2'' ''and'' ''and'' []]"

definition first_store :: db where
  "first_store = snd (persist_ledger None sample_enc 5 ''web/fix'' first_ledger [''hello''] [] db_empty)"

definition second_ledger :: "char PromptLedger" where
  "second_ledger = remove_entry ''m2'' (snd (mark_dispatching ''m1'' first_ledger))"

definition second_store :: db where
  "second_store = snd (persist_ledger None sample_enc 6 ''web/fix'' second_ledger [''more''] [] first_store)"

text \<open>Evaluation must not build the bound \<open>2 ^ 63 - 1\<close> as a number in unary.\<close>

lemma prune_code [code]:
  "prune_execution_events r k d =
     (let seqs = rev (sort (map ev_seq (filter (\<lambda>e. ev_run_id e = r) (db_events d))));
          doomed = drop (nat (min (int k) (2 ^ 63 - 1))) seqs;
          left = filter (\<lambda>e. \<not> (ev_run_id e = r \<and> ev_seq e \<in> set doomed)) (db_events d)
      in (length (db_events d) - length left, d\<lparr>db_events := left\<rparr>))"
proof -
  have "nat (min (int k) (2 ^ 63 - 1)) = min k (2 ^ 63 - 1)" by (simp add: min_def)
  then show ?thesis by (simp add: prune_execution_events_def Let_def)
qed

definition done_of :: "('e + unit) \<times> 's \<Rightarrow> bool" where
  "done_of x \<longleftrightarrow> (case x of (Inr _, _) \<Rightarrow> True | (Inl _, _) \<Rightarrow> False)"

lemma done_ofD: "done_of x \<Longrightarrow> x = (Inr (), snd x)"
  by (cases x) (simp add: done_of_def split: sum.splits)

lemma first_persisted:
  "persist_ledger None sample_enc 5 ''web/fix'' first_ledger [''hello''] [] db_empty = (Inr (), first_store)"
proof -
  have "done_of (persist_ledger None sample_enc 5 ''web/fix'' first_ledger [''hello''] [] db_empty)"
    by code_simp
  then show ?thesis unfolding first_store_def by (rule done_ofD)
qed

lemma second_persisted:
  "persist_ledger None sample_enc 6 ''web/fix'' second_ledger [''more''] [] first_store = (Inr (), second_store)"
proof -
  have "done_of (persist_ledger None sample_enc 6 ''web/fix'' second_ledger [''more''] [] first_store)"
    by code_simp
  then show ?thesis unfolding second_store_def by (rule done_ofD)
qed

theorem stored_ledger_is_loaded_witness:
  "\<exists>before after.
    load_ledger sample_dec ''web/fix'' first_store = Inr before
    \<and> load_ledger sample_dec ''web/fix'' second_store = Inr after
    \<and> ledger_entry before ''m2'' = Some (queued_entry ''m2'' ''and'' ''and'' [])
    \<and> ledger_entry after ''m1'' = Some ((queued_entry ''m1'' ''hi'' ''hi'' ''b'')\<lparr>pe_phase := PpDispatching\<rparr>)
    \<and> ledger_entry after ''m2'' = None"
proof -
  have first: "distinct (map pe_client_message_id first_ledger)" "distinct (map pe_client_message_id second_ledger)"
    by code_simp+
  obtain before where before: "load_ledger sample_dec ''web/fix'' first_store = Inr before" "ledger_store ''web/fix'' first_store"
    "ledger_entry before ''m1'' = Some (queued_entry ''m1'' ''hi'' ''hi'' ''b'')"
    "ledger_entry before ''m2'' = Some (queued_entry ''m2'' ''and'' ''and'' [])"
  proof -
    have "ledger_entry first_ledger ''m1'' = Some (queued_entry ''m1'' ''hi'' ''hi'' ''b'')"
      "ledger_entry first_ledger ''m2'' = Some (queued_entry ''m2'' ''and'' ''and'' [])" by code_simp+
    moreover have "load_ledger sample_dec ''web/fix'' db_empty = Inr []" by code_simp
    ultimately show ?thesis
      using stored_ledger_is_loaded [OF sample_codec empty_ledger_store first(1) first_persisted] that
      by (auto simp: stored_entry_def queued_entry_def ledger_entry_def)
  qed
  have "ledger_entry second_ledger ''m1'' = Some ((queued_entry ''m1'' ''hi'' ''hi'' ''b'')\<lparr>pe_phase := PpDispatching\<rparr>)"
    "ledger_entry second_ledger ''m2'' = None" by code_simp+
  with stored_ledger_is_loaded [OF sample_codec before(2) first(2) second_persisted] before show ?thesis
    by (auto simp: stored_entry_def queued_entry_def)
qed

text \<open>C35: A prompt that was already sent cannot be queued again with another content: the plan rewrites its content,
  and the store refuses every rewriting of a prompt that is not pending, so storing the ledger fails.\<close>

theorem changed_requeue_is_refused:
  assumes "ledger_store handle d" "distinct (map pe_client_message_id l)"
    and "prompts_for_run d (run_of d handle) = Inr current"
    and "ledger_entry l k = Some e" "pe_phase e = PpQueued"
    and "find_prompt current k = Some p" "rp_state p \<noteq> XsPending"
    and "entry_content_json enc e \<noteq> rp_content_json p"
  shows "fst (persist_ledger fence enc created handle l events rewrites d) \<noteq> Inr ()"
proof
  let ?r = "run_of d handle"
  obtain res u where res: "persist_ledger fence enc created handle l events rewrites d = (res, u)" by fastforce
  assume "fst (persist_ledger fence enc created handle l events rewrites d) = Inr ()"
  then have "persist_ledger fence enc created handle l events rewrites d = (Inr (), u)" using res by simp
  then obtain c where c: "planned enc ?r current l c" "applied ?r c d u"
    using assms(1-3) by (elim persisted) simp_all
  have e: "e \<in> set l" "pe_client_message_id e = k" using assms(4) by (auto simp: ledger_entry_def find_Some_iff)
  then have "update_of enc e \<in> set (ec_prompt_content_updates c)"
    using c(1) assms(5,6,8) by (auto simp: planned_def rewrites_content_def rewritable_def)
  moreover have "task_exec_id ?r k \<notin> nt_task_exec_id ` set (ec_new_tasks c)"
    using c(1) new_task_member [of ?r k current l] assms(6) by (simp add: planned_def)
  ultimately have "stored_state d (task_exec_id ?r k) = Some XsPending"
    using c(2) e(2) by (auto simp: applied_def update_of_def)
  moreover have "stored_state d (task_exec_id ?r k) = Some (rp_state p)"
    using prompt_found [of d ?r current k] assms(1,3,6)
    by (auto simp: ledger_store_def store_ok_def dest!: sym [where s = "Some _"])
  ultimately show False using assms(7) by simp
qed

lemma second_store_ok: "ledger_store ''web/fix'' second_store"
proof -
  have "distinct (map pe_client_message_id first_ledger)" "distinct (map pe_client_message_id second_ledger)"
    by code_simp+
  then show ?thesis
    using persisted_store [OF first_persisted empty_ledger_store] persisted_store [OF second_persisted] by blast
qed

definition changed_ledger :: "char PromptLedger" where
  "changed_ledger = upsert_queued ''m1'' ''again'' ''again'' [] second_ledger"

theorem changed_requeue_is_refused_witness:
  "ledger_entry changed_ledger ''m1'' = Some (queued_entry ''m1'' ''again'' ''again'' [])
   \<and> fst (persist_ledger None sample_enc 7 ''web/fix'' changed_ledger [] [] second_store) \<noteq> Inr ()"
proof -
  have entry: "ledger_entry changed_ledger ''m1'' = Some (queued_entry ''m1'' ''again'' ''again'' [])"
    and l: "distinct (map pe_client_message_id changed_ledger)" by code_simp+
  have "case prompts_for_run second_store (run_of second_store ''web/fix'') of
      Inr ps \<Rightarrow> (case find_prompt ps ''m1'' of
        Some p \<Rightarrow> rp_state p \<noteq> XsPending
          \<and> entry_content_json sample_enc (queued_entry ''m1'' ''again'' ''again'' []) \<noteq> rp_content_json p
      | None \<Rightarrow> False) | Inl _ \<Rightarrow> False" by code_simp
  then obtain ps p where "prompts_for_run second_store (run_of second_store ''web/fix'') = Inr ps"
    "find_prompt ps ''m1'' = Some p" "rp_state p \<noteq> XsPending"
    "entry_content_json sample_enc (queued_entry ''m1'' ''again'' ''again'' []) \<noteq> rp_content_json p"
    by (auto split: sum.splits option.splits)
  with changed_requeue_is_refused [OF second_store_ok l this(1) entry _ this(2,3,4)] entry show ?thesis
    by (simp add: queued_entry_def)
qed

end
