(* ===== verification/Session_Store.thy ===== *)
theory Session_Store
  imports Session_Activity Transcript Prompt_Ledger "HOL-Library.Countable"
begin

text \<open>
  The store of a web session (\<open>crates/ajax-web/src/adapters/web_session_store/mod.rs\<close>, \<open>legacy.rs\<close>) over the database of
  \<open>Execution_Store\<close>, and how a session keeps its log in step with it (\<open>slices/web_session/task_session.rs\<close>,
  \<open>task_session_commit.rs\<close>, the rollback of \<open>task_session_adopt.rs\<close>). The directory of the sessions is a list of file names
  with the lines of each file; JSON is read and written by parameters. A failure of the database before a write and a failure
  of the pruning of old events are inputs; reading and renaming a file does not fail.
\<close>

section \<open>Texts of errors\<close>

fun snapshot_error_text :: "RegistrySnapshotError \<Rightarrow> string" where
  "snapshot_error_text (SeEncode m) = ''state encode failed: '' @ m"
| "snapshot_error_text (SeDecode m) = ''state decode failed: '' @ m"
| "snapshot_error_text (SeDatabase m) = ''database error: '' @ m"
| "snapshot_error_text (SeIo m) = ''I/O error: '' @ m"
| "snapshot_error_text (SeRevisionConflict expected actual) =
     ''state revision conflict: expected '' @ show_nat expected @ '', found '' @ show_nat actual"
| "snapshot_error_text (SeIncompatibleSchema found supported) =
     ''incompatible state schema: found '' @ show_int found @ '', supported '' @ show_int supported
     @ (if found < supported then ''; upgrade through ajax-cli v0.59.0 first'' else [])"
| "snapshot_error_text SeLegacySqlitePayloadSchema =
     ''legacy SQLite payload schema is unsupported after the typed state rewrite; remove the state database to start fresh''"
| "snapshot_error_text SeEmptyRegistryOverwrite = ''refusing to save empty registry over non-empty disk state''"

fun commit_error_text :: "ExecutionCommitError \<Rightarrow> string" where
  "commit_error_text XeFenced = ''execution fenced: this host no longer owns the execution lease''"
| "commit_error_text (XeUnknownRun r) = ''unknown agent run: '' @ r"
| "commit_error_text (XeUnknownTask t) = ''unknown execution task: '' @ t"
| "commit_error_text (XeInvalidTransition t a b) =
     ''invalid transition for task '' @ t @ '': '' @ debug_state a @ '' -> '' @ debug_state b"
| "commit_error_text (XeChildrenNotTerminal t) = ''task '' @ t @ '' has children that are not terminal''"
| "commit_error_text (XeNoOpenCheckpoint t) = ''task '' @ t @ '' has no open checkpoint for the change''"
| "commit_error_text (XePromptNotQueued k) = ''prompt '' @ k @ '' is no longer queued''"
| "commit_error_text (XeStore e) = ''registry store error: '' @ snapshot_error_text e"

fun ledger_error_text :: "LedgerError \<Rightarrow> string" where
  "ledger_error_text (LgStore e) = snapshot_error_text e"
| "ledger_error_text (LgCommit e) = commit_error_text e"
| "ledger_error_text (LgPlan m) = m"
| "ledger_error_text LgPromptIdUsed = ''prompt id already used''"
| "ledger_error_text LgUnreadable = ''prompt ledger is unreadable''"

section \<open>Names of files\<close>

text \<open>\<open>str::replace\<close> for a pattern that is not empty, and \<open>str::rsplit_once\<close>.\<close>

function replace_all :: "string \<Rightarrow> string \<Rightarrow> string \<Rightarrow> string" where
  "replace_all p r [] = []"
| "replace_all p r (c # s) =
     (if prefix p (c # s) then r @ replace_all p r (drop (length p - 1) s) else c # replace_all p r s)"
  by pat_completeness auto

termination
  by (relation "measure (\<lambda>(p, r, s). length s)") auto

definition rsplit_once :: "string \<Rightarrow> string \<Rightarrow> (string \<times> string) option" where
  "rsplit_once s p = map_option (\<lambda>(a, b). (rev b, rev a)) (split_once (rev s) (rev p))"

definition strip_suffix :: "string \<Rightarrow> string \<Rightarrow> string option" where
  "strip_suffix s p = (if ends_with s p then Some (take (length s - length p) s) else None)"

definition is_ascii_digit :: "char \<Rightarrow> bool" where
  "is_ascii_digit c \<longleftrightarrow> (let n = of_char c :: nat in 48 \<le> n \<and> n \<le> 57)"

definition encode_handle :: "string \<Rightarrow> string" where
  "encode_handle handle = replace_all ''/'' ''%2F'' (replace_all ''%'' ''%25'' handle)"

definition decode_handle :: "string \<Rightarrow> string" where
  "decode_handle encoded = replace_all ''%25'' ''%'' (replace_all ''%2F'' ''/'' encoded)"

definition session_path :: "string \<Rightarrow> string" where
  "session_path handle = encode_handle handle @ ''.jsonl''"

definition ledger_path :: "string \<Rightarrow> string" where
  "ledger_path handle = encode_handle handle @ ''.prompt-ledger.json''"

definition transcript_entry_handle :: "string \<Rightarrow> string option" where
  "transcript_entry_handle name =
     (case strip_suffix name ''.jsonl'' of
        Some stem \<Rightarrow> Some (decode_handle stem)
      | None \<Rightarrow>
          (case rsplit_once name ''.migrated.'' of
             Some (stem, digits) \<Rightarrow>
               if ends_with stem ''.jsonl'' \<and> digits \<noteq> [] \<and> list_all is_ascii_digit digits
               then Some (decode_handle (take (length stem - length ''.jsonl'') stem)) else None
           | None \<Rightarrow> map_option decode_handle (strip_suffix name ''.jsonl.migrated'')))"

section \<open>A file of an older version\<close>

text \<open>The directory of the sessions: the lines of each file that are not blank, by its name.\<close>

type_synonym Dir = "(string \<times> string list) list"

definition dir_has :: "Dir \<Rightarrow> string \<Rightarrow> bool" where
  "dir_has dir name \<longleftrightarrow> map_of dir name \<noteq> None"

definition remove_file :: "string \<Rightarrow> Dir \<Rightarrow> Dir" where
  "remove_file name dir = filter (\<lambda>(n, _). n \<noteq> name) dir"

definition rename_file :: "string \<Rightarrow> string \<Rightarrow> Dir \<Rightarrow> Dir" where
  "rename_file a b dir = map (\<lambda>(n, x). (if n = a then b else n, x)) dir"

record DiskMeta =
  dm_acp_session_id :: "string option"
  dm_model :: string
  dm_dropped :: nat
  dm_corrupt_lines :: nat

text \<open>An event is kept as the JSON text that is stored for it.\<close>

datatype ParsedLine = PlMeta DiskMeta | PlEvent string | PlCorrupt | PlSkip

record 'e StoredSession =
  ss_harness :: string
  ss_acp_session_id :: "string option"
  ss_model :: string
  ss_events :: "'e list"
  ss_dropped :: nat
  ss_corrupt_lines :: nat

definition stored_session_default :: "'e StoredSession" where
  "stored_session_default = \<lparr>ss_harness = ''unknown'', ss_acp_session_id = None, ss_model = ''auto'', ss_events = [],
     ss_dropped = 0, ss_corrupt_lines = 0\<rparr>"

fun read_line :: "ParsedLine \<Rightarrow> string StoredSession \<times> nat \<Rightarrow> string StoredSession \<times> nat" where
  "read_line (PlMeta m) (s, corrupt) = (s\<lparr>ss_acp_session_id := dm_acp_session_id m, ss_model := dm_model m,
     ss_dropped := dm_dropped m, ss_corrupt_lines := dm_corrupt_lines m\<rparr>, corrupt)"
| "read_line (PlEvent payload) (s, corrupt) = (s\<lparr>ss_events := ss_events s @ [payload]\<rparr>, corrupt)"
| "read_line PlCorrupt (s, corrupt) = (s, corrupt + 1)"
| "read_line PlSkip (s, corrupt) = (s, corrupt)"

text \<open>A corrupt last line is the rest of an interrupted write and is not counted.\<close>

definition legacy_read :: "(string \<Rightarrow> ParsedLine) \<Rightarrow> string list \<Rightarrow> string StoredSession" where
  "legacy_read parse lines =
     (let kept = (if lines \<noteq> [] \<and> parse (last lines) = PlCorrupt then butlast lines else lines);
          (s, corrupt) = fold (\<lambda>line. read_line (parse line)) kept (stored_session_default, 0)
      in s\<lparr>ss_corrupt_lines := ss_corrupt_lines s + corrupt\<rparr>)"

definition migrated_name :: "string \<Rightarrow> nat \<Rightarrow> string" where
  "migrated_name path k = (if k = 0 then path @ ''.migrated'' else path @ ''.migrated.'' @ show_nat k)"

text \<open>The loop over the names that are taken; at most one more name than there are files has to be tried.\<close>

fun free_name :: "nat \<Rightarrow> string \<Rightarrow> nat \<Rightarrow> Dir \<Rightarrow> string" where
  "free_name 0 path k dir = migrated_name path k"
| "free_name (Suc fuel) path k dir =
     (if dir_has dir (migrated_name path k) then free_name fuel path (k + 1) dir else migrated_name path k)"

lemma migrated_name_inject: "migrated_name path i = migrated_name path k \<Longrightarrow> i = k"
  by (auto simp: migrated_name_def split: if_splits) (metis option.inject parse_digits_show_nat)

lemma free_name_taken:
  "dir_has dir (free_name fuel path k dir) \<Longrightarrow> i \<le> fuel \<Longrightarrow> dir_has dir (migrated_name path (k + i))"
proof (induction fuel arbitrary: k i)
  case (Suc fuel)
  then have taken: "dir_has dir (migrated_name path k)" by (auto split: if_splits)
  with Suc.prems(1) have "dir_has dir (free_name fuel path (k + 1) dir)" by simp
  with Suc.IH [of "k + 1" "i - 1"] Suc.prems(2) taken show ?case by (cases i) simp_all
qed simp

text \<open>The fuel is enough: the name that is found is not taken.\<close>

lemma free_name_is_free: "\<not> dir_has dir (free_name (length dir) path 0 dir)"
proof
  assume "dir_has dir (free_name (length dir) path 0 dir)"
  then have "migrated_name path ` {..length dir} \<subseteq> fst ` set dir"
    using free_name_taken [of dir "length dir" path 0] by (auto simp: dir_has_def map_of_eq_None_iff)
  then have "card (migrated_name path ` {..length dir}) \<le> card (fst ` set dir)" by (intro card_mono) auto
  also have "card (fst ` set dir) \<le> length dir" by (metis card_image_le card_length finite_set le_trans)
  finally show False
    by (subst (asm) card_image) (auto intro: inj_onI migrated_name_inject)
qed

definition import_file ::
    "(string \<Rightarrow> ParsedLine) \<Rightarrow> int \<Rightarrow> string \<Rightarrow> string \<Rightarrow> string list \<Rightarrow> db \<Rightarrow> (LedgerError + unit) \<times> db" where
  "import_file parse created handle harness lines d =
     (let legacy = legacy_read parse lines
      in if 2 ^ 64 - 1 \<le> ss_dropped legacy then (Inl (LgPlan ''transcript cursor overflow''), d)
         else (case create_run_with_history (new_run created handle harness (ss_model legacy)) (ss_acp_session_id legacy)
                 (ss_dropped legacy + 1) (ss_events legacy) (ss_corrupt_lines legacy) d of
                 (Inl e, d1) \<Rightarrow> (Inl (LgStore e), d1)
               | (Inr _, d1) \<Rightarrow> (Inr (), d1)))"

definition load_run ::
    "(string \<Rightarrow> ParsedLine) \<Rightarrow> int \<Rightarrow> string \<Rightarrow> string \<Rightarrow> db \<times> Dir \<Rightarrow> (LedgerError + RunRecord option) \<times> db \<times> Dir" where
  "load_run parse created handle harness = (\<lambda>(d, dir).
     case latest_run_for_task d handle of
       Inl e \<Rightarrow> (Inl (LgStore e), d, dir)
     | Inr found \<Rightarrow>
         (case map_of dir (session_path handle) of
            None \<Rightarrow> (Inr found, d, dir)
          | Some lines \<Rightarrow>
              let moved = rename_file (session_path handle) (free_name (length dir) (session_path handle) 0 dir) dir
              in (case found of
                    Some _ \<Rightarrow> (Inr found, d, moved)
                  | None \<Rightarrow>
                      (case import_file parse created handle harness lines d of
                         (Inl e, d1) \<Rightarrow> (Inl e, d1, dir)
                       | (Inr _, d1) \<Rightarrow>
                           (case latest_run_for_task d1 handle of
                              Inl e \<Rightarrow> (Inl (LgStore e), d1, dir)
                            | Inr imported \<Rightarrow> (Inr imported, d1, moved))))))"

section \<open>Reading and writing a session\<close>

definition load_session ::
    "(string \<Rightarrow> ParsedLine) \<Rightarrow> (string \<Rightarrow> 'e option) \<Rightarrow> int \<Rightarrow> string \<Rightarrow> string \<Rightarrow> db \<times> Dir \<Rightarrow>
     (LedgerError + 'e StoredSession) \<times> db \<times> Dir" where
  "load_session parse dec created handle harness s =
     (case load_run parse created handle harness s of
        (Inl e, s1) \<Rightarrow> (Inl e, s1)
      | (Inr None, s1) \<Rightarrow> (Inr stored_session_default, s1)
      | (Inr (Some found), d1, dir1) \<Rightarrow>
          (case execution_events_since d1 (rr_run_id found) 0 of
             Inl e \<Rightarrow> (Inl (LgStore e), d1, dir1)
           | Inr rows \<Rightarrow>
               (Inr \<lparr>ss_harness = rr_harness found, ss_acp_session_id = rr_native_session_id found,
                     ss_model = rr_model found, ss_events = List.map_filter (\<lambda>(_, p). dec p) rows,
                     ss_dropped = (case rows of [] \<Rightarrow> rr_next_event_seq found | (n, _) # _ \<Rightarrow> n) - 1,
                     ss_corrupt_lines = rr_unreadable_history_rows found
                       + length (filter (\<lambda>(_, p). dec p = None) rows)\<rparr>, d1, dir1)))"

definition ensure_session_run ::
    "(string \<Rightarrow> ParsedLine) \<Rightarrow> int \<Rightarrow> string \<Rightarrow> string \<Rightarrow> db \<times> Dir \<Rightarrow> (LedgerError + string) \<times> db \<times> Dir" where
  "ensure_session_run parse created handle harness s =
     (case load_run parse created handle harness s of
        (Inl e, s1) \<Rightarrow> (Inl e, s1)
      | (Inr (Some found), s1) \<Rightarrow> (Inr (rr_run_id found), s1)
      | (Inr None, d1, dir1) \<Rightarrow>
          (case create_run (new_run created handle harness ''auto'') d1 of
             (Inl e, d2) \<Rightarrow> (Inl (LgStore e), d2, dir1)
           | (Inr _, d2) \<Rightarrow> (Inr (''web-chat:'' @ handle), d2, dir1)))"

definition run_update_default :: RunUpdate where
  "run_update_default = \<lparr>ru_harness = None, ru_native_session_id = None, ru_capabilities_json = None, ru_model = None,
     ru_child = None, ru_child_started = None, ru_owner_boot_id = None\<rparr>"

text \<open>What a write depends on: the fence of the store, the clock, a failure of the database before the write, and whether the
  pruning after it succeeds.\<close>

record StoreEnv =
  se_fence :: "string option"
  se_created :: int
  se_fault :: "string option"
  se_prune_ok :: bool

definition commit_run_update :: "StoreEnv \<Rightarrow> string \<Rightarrow> RunUpdate \<Rightarrow> db \<times> Dir \<Rightarrow> (LedgerError + unit) \<times> db \<times> Dir" where
  "commit_run_update env run_id u = (\<lambda>(d, dir).
     case commit_execution (se_fence env) (commit_default\<lparr>ec_run_id := run_id, ec_run_update := Some u\<rparr>) d of
       (Inl e, d1) \<Rightarrow> (Inl (LgCommit e), d1, dir)
     | (Inr _, d1) \<Rightarrow> (Inr (), d1, dir))"

definition update_session_run ::
    "(string \<Rightarrow> ParsedLine) \<Rightarrow> StoreEnv \<Rightarrow> string \<Rightarrow> string \<Rightarrow> RunUpdate \<Rightarrow> db \<times> Dir \<Rightarrow> (LedgerError + unit) \<times> db \<times> Dir" where
  "update_session_run parse env handle harness u s =
     (case ensure_session_run parse (se_created env) handle harness s of
        (Inl e, s1) \<Rightarrow> (Inl e, s1)
      | (Inr run_id, s1) \<Rightarrow> commit_run_update env run_id u s1)"

definition record_child_identity ::
    "(string \<Rightarrow> ParsedLine) \<Rightarrow> StoreEnv \<Rightarrow> string \<Rightarrow> string \<Rightarrow> (int \<times> string) option \<Rightarrow> string \<Rightarrow> db \<times> Dir \<Rightarrow>
     (LedgerError + unit) \<times> db \<times> Dir" where
  "record_child_identity parse env handle harness child owner_boot_id =
     update_session_run parse env handle harness
       (run_update_default\<lparr>ru_child := Some (map_option (\<lambda>(pid, _). (pid, pid)) child),
          ru_child_started := Some (map_option snd child), ru_owner_boot_id := Some (Some owner_boot_id)\<rparr>)"

definition save_meta ::
    "(string \<Rightarrow> ParsedLine) \<Rightarrow> StoreEnv \<Rightarrow> string \<Rightarrow> string \<Rightarrow> string option \<Rightarrow> string \<Rightarrow> db \<times> Dir \<Rightarrow>
     (LedgerError + unit) \<times> db \<times> Dir" where
  "save_meta parse env handle harness acp_session_id model =
     update_session_run parse env handle harness
       (run_update_default\<lparr>ru_harness := Some harness, ru_native_session_id := Some acp_session_id, ru_model := Some model\<rparr>)"

definition clear_acp_session_id ::
    "(string \<Rightarrow> ParsedLine) \<Rightarrow> StoreEnv \<Rightarrow> string \<Rightarrow> string \<Rightarrow> db \<times> Dir \<Rightarrow> (LedgerError + unit) \<times> db \<times> Dir" where
  "clear_acp_session_id parse env handle harness s =
     (case load_run parse (se_created env) handle harness s of
        (Inl e, s1) \<Rightarrow> (Inl e, s1)
      | (Inr None, s1) \<Rightarrow> (Inr (), s1)
      | (Inr (Some found), s1) \<Rightarrow>
          commit_run_update env (rr_run_id found) (run_update_default\<lparr>ru_native_session_id := Some None\<rparr>) s1)"

definition save_acp_session_id ::
    "(string \<Rightarrow> ParsedLine) \<Rightarrow> StoreEnv \<Rightarrow> string \<Rightarrow> string \<Rightarrow> string \<Rightarrow> db \<times> Dir \<Rightarrow> (LedgerError + unit) \<times> db \<times> Dir" where
  "save_acp_session_id parse env handle harness i =
     update_session_run parse env handle harness (run_update_default\<lparr>ru_native_session_id := Some (Some i)\<rparr>)"

definition pruned :: "StoreEnv \<Rightarrow> string \<Rightarrow> db \<Rightarrow> db" where
  "pruned env run_id d = (if se_prune_ok env then snd (prune_execution_events run_id Prompt_Ledger.MAX_LOG_EVENTS d) else d)"

definition append_stored ::
    "(string \<Rightarrow> ParsedLine) \<Rightarrow> StoreEnv \<Rightarrow> string \<Rightarrow> string \<Rightarrow> string list \<Rightarrow> (nat \<times> string) list \<Rightarrow> db \<times> Dir \<Rightarrow>
     (LedgerError + unit) \<times> db \<times> Dir" where
  "append_stored parse env handle harness events rewrites s =
     (if events = [] \<and> rewrites = [] then (Inr (), s)
      else case se_fault env of
        Some message \<Rightarrow> (Inl (LgStore (SeDatabase message)), s)
      | None \<Rightarrow>
          (case ensure_session_run parse (se_created env) handle harness s of
             (Inl e, s1) \<Rightarrow> (Inl e, s1)
           | (Inr run_id, d1, dir1) \<Rightarrow>
               (case commit_execution (se_fence env) (commit_default\<lparr>ec_run_id := run_id, ec_events := events,
                       ec_event_rewrites := map (\<lambda>(cursor, payload). \<lparr>er_seq = cursor + 1, er_payload = payload\<rparr>) rewrites\<rparr>) d1 of
                  (Inl e, d2) \<Rightarrow> (Inl (LgCommit e), d2, dir1)
                | (Inr _, d2) \<Rightarrow> (Inr (), pruned env run_id d2, dir1))))"

definition events_after :: "(string \<Rightarrow> 'e option) \<Rightarrow> string \<Rightarrow> nat \<Rightarrow> db \<Rightarrow> LedgerError + 'e list" where
  "events_after dec handle keep_through d =
     (case latest_run_for_task d handle of
        Inl e \<Rightarrow> Inl (LgStore e)
      | Inr None \<Rightarrow> Inr []
      | Inr (Some found) \<Rightarrow>
          (case execution_events_since d (rr_run_id found) keep_through of
             Inl e \<Rightarrow> Inl (LgStore e)
           | Inr rows \<Rightarrow> Inr (List.map_filter (\<lambda>(_, p). dec p) rows)))"

definition replace_events_after ::
    "(string \<Rightarrow> ParsedLine) \<Rightarrow> StoreEnv \<Rightarrow> string \<Rightarrow> string \<Rightarrow> nat \<Rightarrow> string list \<Rightarrow> db \<times> Dir \<Rightarrow>
     (LedgerError + unit) \<times> db \<times> Dir" where
  "replace_events_after parse env handle harness keep_through payloads s =
     (case ensure_session_run parse (se_created env) handle harness s of
        (Inl e, s1) \<Rightarrow> (Inl e, s1)
      | (Inr run_id, d1, dir1) \<Rightarrow>
          (case truncate_and_append_events_after run_id keep_through payloads d1 of
             (Inl e, d2) \<Rightarrow> (Inl (LgStore e), d2, dir1)
           | (Inr _, d2) \<Rightarrow> (Inr (), pruned env run_id d2, dir1)))"

definition corruption_warning :: "nat \<Rightarrow> string option" where
  "corruption_warning corrupt =
     (if corrupt > 0
      then Some (show_nat corrupt @ '' stored transcript rows were unreadable; this history is incomplete'') else None)"

definition list_persisted_handles :: "db \<times> Dir \<Rightarrow> string list" where
  "list_persisted_handles = (\<lambda>(d, dir).
     sort (remdups (list_run_task_ids d @ List.map_filter (\<lambda>(name, _). transcript_entry_handle name) dir)))"

definition delete_ledger :: "string \<Rightarrow> Dir \<Rightarrow> bool \<times> Dir" where
  "delete_ledger handle dir =
     (let base = ledger_path handle;
          migrated = (\<lambda>name. name = base @ ''.migrated'' \<or> starts_with name (base @ ''.migrated.''));
          dir1 = remove_file base dir
      in (dir_has dir base \<or> list_ex (\<lambda>(n, _). migrated n) dir1, filter (\<lambda>(n, _). \<not> migrated n) dir1))"

definition delete_session :: "string \<Rightarrow> db \<times> Dir \<Rightarrow> bool \<times> db \<times> Dir" where
  "delete_session handle = (\<lambda>(d, dir).
     let (runs, d1) = delete_runs_for_task handle d;
         path = session_path handle;
         migrated = (\<lambda>name. name = path @ ''.migrated'' \<or> starts_with name (path @ ''.migrated.''));
         dir1 = remove_file path dir;
         dir2 = filter (\<lambda>(n, _). \<not> migrated n) dir1;
         deleted = (runs > 0 \<or> dir_has dir path \<or> list_ex (\<lambda>(n, _). migrated n) dir1);
         (ledger, dir3) = delete_ledger handle dir2
     in (deleted \<or> ledger, d1, dir3))"

section \<open>The log of a session and the store\<close>

definition BACKLOG_RETRY_INITIAL_DELAY :: duration where "BACKLOG_RETRY_INITIAL_DELAY = secs 2"
definition BACKLOG_RETRY_MAX_DELAY :: duration where "BACKLOG_RETRY_MAX_DELAY = secs 30"

record BacklogRetryBackoff =
  br_delay :: "duration option"
  br_next_attempt :: "time option"

definition backlog_default :: BacklogRetryBackoff where
  "backlog_default = \<lparr>br_delay = None, br_next_attempt = None\<rparr>"

definition backlog_due :: "time \<Rightarrow> BacklogRetryBackoff \<Rightarrow> bool" where
  "backlog_due now b \<longleftrightarrow> (case br_next_attempt b of None \<Rightarrow> True | Some next \<Rightarrow> next \<le> now)"

definition backlog_failure :: "time \<Rightarrow> BacklogRetryBackoff \<Rightarrow> BacklogRetryBackoff" where
  "backlog_failure now b =
     (let delay = (case br_delay b of None \<Rightarrow> BACKLOG_RETRY_INITIAL_DELAY | Some d \<Rightarrow> min (d * 2) BACKLOG_RETRY_MAX_DELAY)
      in \<lparr>br_delay = Some delay, br_next_attempt = Some (now + int delay)\<rparr>)"

definition backlog_failure_if_unscheduled :: "time \<Rightarrow> BacklogRetryBackoff \<Rightarrow> BacklogRetryBackoff" where
  "backlog_failure_if_unscheduled now b = (if br_next_attempt b = None then backlog_failure now b else b)"

definition event_spawn_id :: "nat \<Rightarrow> 'j SessionServerEvent \<Rightarrow> string option" where
  "event_spawn_id generation event = (case event of SvError message \<Rightarrow> spawn_error_id generation message | _ \<Rightarrow> None)"

fun drop_repeated_spawn ::
    "nat \<Rightarrow> string option \<Rightarrow> 'j SessionServerEvent list \<Rightarrow> 'j SessionServerEvent list" where
  "drop_repeated_spawn generation seen [] = []"
| "drop_repeated_spawn generation seen (event # es) =
     (case event_spawn_id generation event of
        None \<Rightarrow> event # drop_repeated_spawn generation seen es
      | Some i \<Rightarrow> if seen = Some i then drop_repeated_spawn generation seen es
                  else event # drop_repeated_spawn generation (Some i) es)"

text \<open>The part of a session that keeps its log, and what it reads and writes.\<close>

record ('j, 'w) TaskSession =
  sx_handle :: string
  sx_harness :: string
  sx_generation :: nat
  sx_log :: "'j TranscriptLog"
  sx_unpersisted :: "'j SessionServerEvent list"
  sx_backlog :: BacklogRetryBackoff
  sx_evidence :: "'w SessionEvidence"
  sx_background :: BackgroundLevel
  sx_ledger :: "'j PromptLedger"

record 'w SessionHost =
  ho_db :: db
  ho_dir :: Dir
  ho_live :: LiveEntries
  ho_world :: 'w

record 'j Codec =
  co_write :: "'j SessionServerEvent \<Rightarrow> string"
  co_read :: "string \<Rightarrow> 'j SessionServerEvent option"
  co_parse :: "string \<Rightarrow> ParsedLine"
  co_content :: "'j content_writer"

record SessionEnv =
  sv_store :: StoreEnv
  sv_instant :: time
  sv_now :: time
  sv_root :: "nat option"
  sv_processes :: "ProcessEntry list option"

definition filter_events_for_log :: "('j, 'w) TaskSession \<Rightarrow> 'j SessionServerEvent list \<Rightarrow> 'j SessionServerEvent list" where
  "filter_events_for_log x events =
     drop_repeated_spawn (sx_generation x)
       (case first_some (event_spawn_id (sx_generation x)) (rev (sx_unpersisted x)) of
          Some i \<Rightarrow> Some i | None \<Rightarrow> ev_last_logged_spawn_error_id (sx_evidence x)) events"

text \<open>The rewrites of the stored messages that a batch supersedes, and what follows a write that succeeded.\<close>

definition batch_rewrites :: "'j TranscriptLog \<Rightarrow> 'j SessionServerEvent list \<Rightarrow> (nat \<times> 'j SessionServerEvent) list" where
  "batch_rewrites l batch = List.map_filter (\<lambda>c. map_option (Pair c) (marker_for l c)) (superseded_cursors_for batch l)"

definition batch_stored ::
    "SessionEnv \<Rightarrow> 'j SessionServerEvent list \<Rightarrow> ('j, 'w) TaskSession \<times> 'w SessionHost \<Rightarrow> ('j, 'w) TaskSession \<times> 'w SessionHost" where
  "batch_stored env batch = (\<lambda>(x, h).
     case report_committed_events (sx_handle x) (sx_generation x) (sv_root env) (sv_processes env) (sv_now env) batch
            (sx_background x, clear_transcript_durability_fault (sx_evidence x), ho_live h, ho_world h) of
       (b, e, live, w) \<Rightarrow>
         (x\<lparr>sx_unpersisted := [], sx_backlog := backlog_default, sx_background := b, sx_evidence := e,
            sx_log := append_events batch (mark_superseded (superseded_cursors_for batch (sx_log x)) (sx_log x))\<rparr>,
          h\<lparr>ho_live := live, ho_world := w\<rparr>))"

definition persist_log_batch ::
    "'j Codec \<Rightarrow> SessionEnv \<Rightarrow> 'j SessionServerEvent list \<Rightarrow> ('j, 'w) TaskSession \<times> 'w SessionHost \<Rightarrow>
     (SessionError + unit) \<times> ('j, 'w) TaskSession \<times> 'w SessionHost" where
  "persist_log_batch codec env events = (\<lambda>(x, h).
     let batch = sx_unpersisted x @ filter_events_for_log x events
     in if batch = [] then (Inr (), x, h)
        else case append_stored (co_parse codec) (sv_store env) (sx_handle x) (sx_harness x) (map (co_write codec) batch)
                    (map (\<lambda>(c, m). (c, co_write codec m)) (batch_rewrites (sx_log x) batch)) (ho_db h, ho_dir h) of
          (Inl error, d, dir) \<Rightarrow>
            (let reason = ''transcript could not be saved: '' @ ledger_error_text error;
                 e = (if ev_transcript_durability_fault (sx_evidence x) = Some reason then sx_evidence x
                      else note_transcript_durability_fault reason (sx_evidence x))
             in (Inl (SqPersist reason),
                 x\<lparr>sx_unpersisted := batch, sx_backlog := backlog_failure_if_unscheduled (sv_instant env) (sx_backlog x),
                   sx_evidence := e\<rparr>, h\<lparr>ho_db := d, ho_dir := dir\<rparr>))
        | (Inr _, d, dir) \<Rightarrow> (Inr (), batch_stored env batch (x, h\<lparr>ho_db := d, ho_dir := dir\<rparr>)))"

definition append_to_log ::
    "'j Codec \<Rightarrow> SessionEnv \<Rightarrow> 'j SessionServerEvent list \<Rightarrow> ('j, 'w) TaskSession \<times> 'w SessionHost \<Rightarrow>
     (SessionError + unit) \<times> ('j, 'w) TaskSession \<times> 'w SessionHost" where
  "append_to_log codec env events s = (if events = [] then (Inr (), s) else persist_log_batch codec env events s)"

text \<open>The file of an older version is read or moved before the ledger is written.\<close>

definition commit_ledger_with_events ::
    "'j Codec \<Rightarrow> SessionEnv \<Rightarrow> ('j PromptLedger \<Rightarrow> 'j PromptLedger) \<Rightarrow> 'j SessionServerEvent list \<Rightarrow>
     ('j, 'w) TaskSession \<times> 'w SessionHost \<Rightarrow> (SessionError + unit) \<times> ('j, 'w) TaskSession \<times> 'w SessionHost" where
  "commit_ledger_with_events codec env change events = (\<lambda>(x, h).
     let ledger = change (sx_ledger x);
         batch = sx_unpersisted x @ filter_events_for_log x events;
         failed = (\<lambda>error. Inl (SqPersist (''failed to persist prompt ownership: '' @ ledger_error_text error)))
     in case se_fault (sv_store env) of
          Some message \<Rightarrow> (failed (LgStore (SeDatabase message)), x, h)
        | None \<Rightarrow>
            (case load_run (co_parse codec) (se_created (sv_store env)) (sx_handle x) ''unknown'' (ho_db h, ho_dir h) of
               (Inl error, d, dir) \<Rightarrow> (failed error, x, h\<lparr>ho_db := d, ho_dir := dir\<rparr>)
             | (Inr _, d, dir) \<Rightarrow>
                 (case persist_ledger (se_fence (sv_store env)) (co_content codec) (se_created (sv_store env)) (sx_handle x)
                         ledger (map (co_write codec) batch)
                         (map (\<lambda>(c, m). (c, co_write codec m)) (batch_rewrites (sx_log x) batch)) d of
                    (Inl error, d1) \<Rightarrow> (failed error, x, h\<lparr>ho_db := d1, ho_dir := dir\<rparr>)
                  | (Inr _, d1) \<Rightarrow>
                      (Inr (), batch_stored env batch (x\<lparr>sx_ledger := ledger\<rparr>, h\<lparr>ho_db := d1, ho_dir := dir\<rparr>)))))"

text \<open>\<open>terminal\<close>: the answer to the active prompt has come and waits for its commit.\<close>

definition retry_unpersisted_backlog ::
    "'j Codec \<Rightarrow> SessionEnv \<Rightarrow> bool \<Rightarrow> ('j, 'w) TaskSession \<times> 'w SessionHost \<Rightarrow> ('j, 'w) TaskSession \<times> 'w SessionHost" where
  "retry_unpersisted_backlog codec env terminal = (\<lambda>(x, h).
     if sx_unpersisted x = [] \<or> terminal \<or> \<not> backlog_due (sv_instant env) (sx_backlog x) then (x, h)
     else case persist_log_batch codec env [] (x, h) of
            (Inl _, x1, h1) \<Rightarrow> (x1\<lparr>sx_backlog := backlog_failure (sv_instant env) (sx_backlog x1)\<rparr>, h1)
          | (Inr _, x1, h1) \<Rightarrow> (x1, h1))"

text \<open>The events after a cursor that stay when a session adopts a running agent.\<close>

fun outlives_rollback :: "'j SessionServerEvent \<Rightarrow> bool" where
  "outlives_rollback (SvMessage role _ _ _ _) \<longleftrightarrow> role = ''user''"
| "outlives_rollback (SvPromptAccepted _) \<longleftrightarrow> True"
| "outlives_rollback (SvPermissionResolved _ _) \<longleftrightarrow> True"
| "outlives_rollback (SvElicitationResolved _ _) \<longleftrightarrow> True"
| "outlives_rollback _ \<longleftrightarrow> False"

definition load_stored ::
    "'j Codec \<Rightarrow> StoreEnv \<Rightarrow> ('j, 'w) TaskSession \<Rightarrow> db \<times> Dir \<Rightarrow>
     (SessionError + 'j SessionServerEvent StoredSession) \<times> db \<times> Dir" where
  "load_stored codec env x s =
     (case load_session (co_parse codec) (co_read codec) (se_created env) (sx_handle x) (sx_harness x) s of
        (Inl e, s1) \<Rightarrow> (Inl (SqPersist (''stored session is unreadable: '' @ ledger_error_text e)), s1)
      | (Inr stored, s1) \<Rightarrow> (Inr stored, s1))"

definition roll_back_transcript ::
    "'j Codec \<Rightarrow> StoreEnv \<Rightarrow> nat \<Rightarrow> 'j SessionServerEvent list \<Rightarrow> ('j, 'w) TaskSession \<Rightarrow> db \<times> Dir \<Rightarrow>
     (SessionError + unit) \<times> db \<times> Dir" where
  "roll_back_transcript codec env cursor kept x s =
     (case replace_events_after (co_parse codec) env (sx_handle x) (sx_harness x) cursor (map (co_write codec) kept) s of
        (Inl e, s1) \<Rightarrow> (Inl (SqPersist (''transcript could not be rolled back: '' @ ledger_error_text e)), s1)
      | (Inr _, s1) \<Rightarrow> (Inr (), s1))"

text \<open>The events of the stored session up to the cursor of the shim, and those behind it that outlive the rollback.\<close>

definition split_at_cursor ::
    "'j Codec \<Rightarrow> nat \<Rightarrow> ('j, 'w) TaskSession \<Rightarrow> 'j SessionServerEvent StoredSession \<Rightarrow> db \<Rightarrow>
     SessionError + 'j SessionServerEvent list \<times> 'j SessionServerEvent list" where
  "split_at_cursor codec cursor x stored d =
     (case events_after (co_read codec) (sx_handle x) cursor d of
        Inl e \<Rightarrow> Inl (SqPersist (''transcript could not be read: '' @ ledger_error_text e))
      | Inr after \<Rightarrow>
          if length (ss_events stored) < length after then Inl (SqPersist ''transcript changed while adopting'')
          else Inr (take (length (ss_events stored) - length after) (ss_events stored), filter outlives_rollback after))"

section \<open>Lemmas: the rows of a log\<close>

definition run_events :: "string \<Rightarrow> db \<Rightarrow> EventRow list" where
  "run_events r d = filter (\<lambda>e. ev_run_id e = r) (db_events d)"

lemma event_rows_append: "event_rows r n (ps @ qs) = event_rows r n ps @ event_rows r (n + int (length ps)) qs"
  by (induction ps arbitrary: n) (simp_all add: algebra_simps)

lemma event_rows_run: "filter (\<lambda>e. ev_run_id e = r) (event_rows r n ps) = event_rows r n ps"
  by (induction ps arbitrary: n) (simp_all add: Execution_Store.event_at_def)

lemma update_event_rows:
  "update_where (\<lambda>e. ev_run_id e = r \<and> ev_seq e = k) (\<lambda>e. e\<lparr>ev_payload_json := p\<rparr>) (event_rows r n ps) =
     event_rows r n (if n \<le> k \<and> k < n + int (length ps) then ps[nat (k - n) := p] else ps)"
proof (induction ps arbitrary: n)
  case Nil
  then show ?case by (simp add: update_where_def)
next
  case (Cons q ps)
  show ?case
  proof (cases "k = n")
    case True
    then show ?thesis
      using Cons [of "n + 1"] by (simp add: update_where_def Execution_Store.event_at_def)
  next
    case False
    have "nat (k - n) = Suc (nat (k - (n + 1)))" if "n \<le> k" using False that by simp
    then show ?thesis
      using False Cons [of "n + 1"] by (auto simp: update_where_def Execution_Store.event_at_def)
  qed
qed

lemma run_events_rewrite:
  assumes "run_events r d = event_rows r n ps" "i64_of_u64 (er_seq w) \<noteq> None"
  shows "run_events r (rewrite_event r w d) =
    event_rows r n (if n \<le> int (er_seq w) \<and> int (er_seq w) < n + int (length ps)
                    then ps[nat (int (er_seq w) - n) := er_payload w] else ps)"
proof -
  have "i64_of_u64 (er_seq w) = Some (int (er_seq w))" using assms(2) by (simp add: i64_of_u64_def split: if_splits)
  then show ?thesis
    using assms(1) update_event_rows [of r "int (er_seq w)" "er_payload w" n ps]
    by (simp add: run_events_def rewrite_event_def filter_update_where)
qed

text \<open>The store holds the log: its rows, decoded, are the events of the log, after those that were not pruned yet.\<close>

definition faithful :: "'j Codec \<Rightarrow> bool" where
  "faithful codec \<longleftrightarrow> (\<forall>e. co_read codec (co_write codec e) = Some e)"

definition decoded :: "'j Codec \<Rightarrow> string list \<Rightarrow> 'j SessionServerEvent list \<Rightarrow> bool" where
  "decoded codec ps es \<longleftrightarrow> list_all2 (\<lambda>p e. co_read codec p = Some e) ps es"

definition rows_mirror :: "'j Codec \<Rightarrow> string \<Rightarrow> 'j TranscriptLog \<Rightarrow> db \<Rightarrow> bool" where
  "rows_mirror codec r l d \<longleftrightarrow> (\<exists>pre ps.
     run_events r d = event_rows r (int (tl_dropped l) + 1 - int (length pre)) (pre @ ps)
     \<and> length pre \<le> tl_dropped l \<and> decoded codec ps (tl_events l) \<and> list_all (\<lambda>p. co_read codec p \<noteq> None) pre)"

lemma rows_mirrorI:
  "\<lbrakk>run_events r d = event_rows r (int (tl_dropped l) + 1 - int (length pre)) (pre @ ps); length pre \<le> tl_dropped l;
    decoded codec ps (tl_events l); list_all (\<lambda>p. co_read codec p \<noteq> None) pre\<rbrakk> \<Longrightarrow> rows_mirror codec r l d"
  unfolding rows_mirror_def by blast

lemma update_append: "(xs @ ys)[length xs + i := x] = xs @ ys[i := x]"
  by (simp add: list_update_append)

lemma marker_kept: "marker_for (mark_one c l) x = marker_for l x"
  unfolding marker_for_at mark_one_at(3) by (cases "Transcript.event_at l x") (auto dest: blank_item split: option.split)

lemma rewrites_mirror:
  assumes "faithful codec" "rows_mirror codec r l d" "int (absolute_next_cursor l) + 1 < 2 ^ 63"
  shows "rows_mirror codec r (mark_superseded cs l)
    (fold (rewrite_event r) (List.map_filter (\<lambda>c. map_option (\<lambda>m. \<lparr>er_seq = c + 1, er_payload = co_write codec m\<rparr>) (marker_for l c)) cs) d)"
  using assms(2,3)
proof (induction cs arbitrary: l d)
  case Nil
  then show ?case by (simp add: mark_superseded_def List.map_filter_def)
next
  case (Cons c cs)
  show ?case
  proof (cases "marker_for l c")
    case None
    then have "mark_one c l = l" by (simp add: mark_one_def)
    then show ?thesis using Cons None by (simp add: mark_superseded_def map_filter_simps)
  next
    case (Some m)
    let ?w = "\<lparr>er_seq = c + 1, er_payload = co_write codec m\<rparr>"
    obtain pre ps where rows: "run_events r d = event_rows r (int (tl_dropped l) + 1 - int (length pre)) (pre @ ps)"
      "length pre \<le> tl_dropped l" "decoded codec ps (tl_events l)" "list_all (\<lambda>p. co_read codec p \<noteq> None) pre"
      using Cons.prems(1) unfolding rows_mirror_def by blast
    have len: "length ps = length (tl_events l)" using rows(3) by (simp add: decoded_def list_all2_lengthD)
    have range: "tl_dropped l \<le> c" "c - tl_dropped l < length (tl_events l)"
      using Some by (auto simp: marker_for_def get_at_def bind_eq_Some_conv split: if_splits)
    have "c + 1 < 2 ^ 63" using Cons.prems(2) range by (simp add: absolute_next_cursor_def)
    then have "i64_of_u64 (er_seq ?w) \<noteq> None" by (simp add: i64_of_u64_def)
    from run_events_rewrite [OF rows(1) this]
    moreover have "nat (int (c + 1) - (int (tl_dropped l) + 1 - int (length pre))) = length pre + (c - tl_dropped l)"
      "int (tl_dropped l) + 1 - int (length pre) \<le> int (c + 1)"
      "int (c + 1) < int (tl_dropped l) + 1 - int (length pre) + int (length (pre @ ps))"
      using range rows(2) len by auto
    ultimately have "run_events r (rewrite_event r ?w d) = event_rows r (int (tl_dropped l) + 1 - int (length pre))
        ((pre @ ps)[length pre + (c - tl_dropped l) := co_write codec m])"
      by simp
    then have new: "run_events r (rewrite_event r ?w d) = event_rows r (int (tl_dropped l) + 1 - int (length pre))
        (pre @ ps[c - tl_dropped l := co_write codec m])"
      unfolding update_append .
    have one: "mark_one c l = l\<lparr>tl_events := (tl_events l)[c - tl_dropped l := m]\<rparr>" using Some by (simp add: mark_one_def)
    have "decoded codec (ps[c - tl_dropped l := co_write codec m]) (tl_events (mark_one c l))"
      using rows(3) assms(1) by (simp add: one decoded_def faithful_def list_all2_update_cong)
    then have "rows_mirror codec r (mark_one c l) (rewrite_event r ?w d)"
      using rows_mirrorI [of r "rewrite_event r ?w d" "mark_one c l" pre "ps[c - tl_dropped l := co_write codec m]" codec]
        new rows(2,4) by (simp add: one)
    moreover have "absolute_next_cursor (mark_one c l) = absolute_next_cursor l" by (rule mark_one_at(2))
    ultimately have "rows_mirror codec r (mark_superseded cs (mark_one c l)) (fold (rewrite_event r)
        (List.map_filter (\<lambda>x. map_option (\<lambda>m. \<lparr>er_seq = x + 1, er_payload = co_write codec m\<rparr>) (marker_for (mark_one c l) x)) cs)
        (rewrite_event r ?w d))"
      using Cons.IH [of "mark_one c l" "rewrite_event r ?w d"] Cons.prems(2) by simp
    then show ?thesis using Some by (simp add: mark_superseded_def map_filter_simps marker_kept)
  qed
qed

lemma list_all2_readable: "list_all2 (\<lambda>p e. f p = Some e) ps es \<Longrightarrow> list_all (\<lambda>p. f p \<noteq> None) ps"
  by (induction rule: list_all2_induct) auto

text \<open>New events go after the rows of the run; the log may drop old ones, which stay in the store until they are pruned.\<close>

lemma append_mirror:
  assumes "faithful codec" "rows_mirror codec r l d"
    and "run_events r u = run_events r d @ event_rows r (int (absolute_next_cursor l) + 1) (map (co_write codec) batch)"
  shows "rows_mirror codec r (append_events batch l) u"
proof -
  obtain pre ps where rows: "run_events r d = event_rows r (int (tl_dropped l) + 1 - int (length pre)) (pre @ ps)"
    "length pre \<le> tl_dropped l" "decoded codec ps (tl_events l)" "list_all (\<lambda>p. co_read codec p \<noteq> None) pre"
    using assms(2) unfolding rows_mirror_def by blast
  obtain k where k: "k \<le> length (tl_events l @ batch)" "tl_events (append_events batch l) = drop k (tl_events l @ batch)"
    "tl_dropped (append_events batch l) = tl_dropped l + k" by (rule append_shape)
  define qs where "qs = ps @ map (co_write codec) batch"
  have len: "length ps = length (tl_events l)" using rows(3) by (simp add: decoded_def list_all2_lengthD)
  have all: "list_all2 (\<lambda>p e. co_read codec p = Some e) qs (tl_events l @ batch)"
    using rows(3) assms(1) by (auto simp: qs_def decoded_def faithful_def list_all2_map1 list_all2_refl intro!: list_all2_appendI)
  have "run_events r u = event_rows r (int (tl_dropped l) + 1 - int (length pre)) (pre @ qs)"
    using rows(1) assms(3) by (simp add: qs_def event_rows_append absolute_next_cursor_def len algebra_simps)
  then have "run_events r u = event_rows r (int (tl_dropped l) + 1 - int (length pre)) ((pre @ take k qs) @ drop k qs)"
    by (simp del: event_rows_append)
  moreover have "length (pre @ take k qs) = length pre + k" using k(1) len by (simp add: qs_def)
  moreover have "decoded codec (drop k qs) (tl_events (append_events batch l))"
    unfolding decoded_def k(2) using all by (rule list_all2_dropI)
  moreover have "list_all (\<lambda>p. co_read codec p \<noteq> None) qs"
    using all by (rule list_all2_readable)
  then have "list_all (\<lambda>p. co_read codec p \<noteq> None) (pre @ take k qs)"
    using rows(4) by (auto simp: list_all_iff dest: in_set_takeD)
  ultimately show ?thesis
    using rows(2) k(3) rows_mirrorI [of r u "append_events batch l" "pre @ take k qs" "drop k qs" codec]
    by (simp del: append_assoc append_take_drop_id add: add_diff_eq)
qed

lemma seqs_of_rows: "map ev_seq (event_rows r n ps) = map (\<lambda>i. n + int i) [0..<length ps]"
  by (induction ps arbitrary: n) (simp_all add: Execution_Store.event_at_def upt_conv_Cons map_Suc_upt [symmetric] del: upt_Suc)

lemma rows_after: "filter (\<lambda>e. m \<le> ev_seq e) (event_rows r n ps) = event_rows r (max n m) (drop (nat (m - n)) ps)"
proof (induction ps arbitrary: n)
  case (Cons p ps)
  show ?case
  proof (cases "m \<le> n")
    case True
    then have "filter (\<lambda>e. m \<le> ev_seq e) (event_rows r (n + 1) ps) = event_rows r (n + 1) ps"
      using event_rows_bound [of _ r "n + 1" ps] by (fastforce simp: filter_id_conv)
    with True show ?thesis by (simp add: Execution_Store.event_at_def)
  next
    case False
    then have "nat (m - n) = Suc (nat (m - (n + 1)))" by simp
    with False Cons [of "n + 1"] show ?thesis by (simp add: Execution_Store.event_at_def max_def)
  qed
qed (simp)

lemma rows_kept:
  assumes "0 < keep" "keep < 2 ^ 63" "run_events r d = event_rows r n ps"
  shows "run_events r (snd (prune_execution_events r keep d)) =
    event_rows r (n + int (length ps - keep)) (drop (length ps - keep) ps)"
proof -
  let ?doomed = "drop keep (rev (map ev_seq (event_rows r n ps)))"
  have sorted: "sort (map ev_seq (run_events r d)) = map ev_seq (event_rows r n ps)"
    using assms(3) by (simp add: event_rows_sorted sorted_sort_id)
  have doomed: "set ?doomed = (\<lambda>i. n + int i) ` {..<length ps - keep}"
    by (auto simp: seqs_of_rows drop_rev take_map)
  have "run_events r (snd (prune_execution_events r keep d)) = filter (\<lambda>e. ev_seq e \<notin> set ?doomed) (run_events r d)"
    using sorted assms(2)
    by (auto simp: prune_execution_events_def run_events_def Let_def min_def intro!: filter_cong)
  also have "\<dots> = filter (\<lambda>e. n + int (length ps - keep) \<le> ev_seq e) (event_rows r n ps)"
    unfolding assms(3)
  proof (rule filter_cong [OF refl])
    fix e assume "e \<in> set (event_rows r n ps)"
    then have "ev_seq e \<in> (\<lambda>i. n + int i) ` {..<length ps}"
      using seqs_of_rows [of r n ps] by (metis atLeast_upt image_eqI image_set list.set_map)
    then show "(ev_seq e \<notin> set ?doomed) = (n + int (length ps - keep) \<le> ev_seq e)" unfolding doomed by auto
  qed
  finally show ?thesis using rows_after [of "n + int (length ps - keep)" r n ps] by (simp add: max_def)
qed

lemma prune_mirror:
  assumes "rows_mirror codec r l d" "length (tl_events l) \<le> keep" "0 < keep" "keep < 2 ^ 63"
  shows "rows_mirror codec r l (snd (prune_execution_events r keep d))"
proof -
  obtain pre ps where rows: "run_events r d = event_rows r (int (tl_dropped l) + 1 - int (length pre)) (pre @ ps)"
    "length pre \<le> tl_dropped l" "decoded codec ps (tl_events l)" "list_all (\<lambda>p. co_read codec p \<noteq> None) pre"
    using assms(1) unfolding rows_mirror_def by blast
  have len: "length ps = length (tl_events l)" using rows(3) by (simp add: decoded_def list_all2_lengthD)
  let ?k = "length (pre @ ps) - keep"
  have k: "?k \<le> length pre" using len assms(2) by simp
  then have "drop ?k (pre @ ps) = drop ?k pre @ ps" by simp
  moreover have "int (tl_dropped l) + 1 - int (length pre) + int ?k = int (tl_dropped l) + 1 - int (length (drop ?k pre))"
    using k by (simp add: of_nat_diff)
  ultimately have "run_events r (snd (prune_execution_events r keep d)) =
      event_rows r (int (tl_dropped l) + 1 - int (length (drop ?k pre))) (drop ?k pre @ ps)"
    using rows_kept [OF assms(3,4) rows(1)] by (simp only:)
  moreover have "list_all (\<lambda>p. co_read codec p \<noteq> None) (drop ?k pre)"
    using rows(4) by (auto simp: list_all_iff dest: in_set_dropD)
  ultimately show ?thesis
    using rows(2,3) rows_mirrorI [of r "snd (prune_execution_events r keep d)" l "drop ?k pre" ps codec] by simp
qed

lemma rewrites_old_rows:
  assumes "\<And>w e. \<lbrakk>w \<in> set ws; e \<in> set new\<rbrakk> \<Longrightarrow> int (er_seq w) \<noteq> ev_seq e"
  shows "db_events (fold (rewrite_event r) ws (d\<lparr>db_events := old @ new\<rparr>)) =
    db_events (fold (rewrite_event r) ws (d\<lparr>db_events := old\<rparr>)) @ new"
  using assms
proof (induction ws arbitrary: old)
  case (Cons w ws)
  show ?case
  proof (cases "i64_of_u64 (er_seq w)")
    case None
    then show ?thesis using Cons by (simp add: rewrite_event_def)
  next
    case (Some k)
    then have "k = int (er_seq w)" by (simp add: i64_of_u64_def split: if_splits)
    then have "update_where (\<lambda>e. ev_run_id e = r \<and> ev_seq e = k) (\<lambda>e. e\<lparr>ev_payload_json := er_payload w\<rparr>) new = new"
      using Cons.prems [of w] by (intro update_where_none) fastforce
    then have "rewrite_event r w (d\<lparr>db_events := old @ new\<rparr>) =
        d\<lparr>db_events := db_events (rewrite_event r w (d\<lparr>db_events := old\<rparr>)) @ new\<rparr>"
      and "rewrite_event r w (d\<lparr>db_events := old\<rparr>) = d\<lparr>db_events := db_events (rewrite_event r w (d\<lparr>db_events := old\<rparr>))\<rparr>"
      using Some by (simp_all add: rewrite_event_def update_where_def)
    then show ?thesis
      using Cons.IH [of "db_events (rewrite_event r w (d\<lparr>db_events := old\<rparr>))"] Cons.prems by simp
  qed
qed simp

lemma rewrites_of_markers:
  "map (\<lambda>(cursor, payload). \<lparr>er_seq = cursor + 1, er_payload = payload\<rparr>) (map (\<lambda>(c, m). (c, co_write codec m)) (batch_rewrites l batch)) =
   List.map_filter (\<lambda>c. map_option (\<lambda>m. \<lparr>er_seq = c + 1, er_payload = co_write codec m\<rparr>) (marker_for l c)) (superseded_cursors_for batch l)"
proof -
  have "map (\<lambda>(cursor, payload). \<lparr>er_seq = cursor + 1, er_payload = payload\<rparr>) (map (\<lambda>(c, m). (c, co_write codec m))
      (List.map_filter (\<lambda>c. map_option (Pair c) (marker_for l c)) cs)) =
    List.map_filter (\<lambda>c. map_option (\<lambda>m. \<lparr>er_seq = c + 1, er_payload = co_write codec m\<rparr>) (marker_for l c)) cs" for cs
    by (induction cs) (auto simp: map_filter_simps split: option.split)
  then show ?thesis by (simp add: batch_rewrites_def)
qed

lemma marker_range: "marker_for l c = Some m \<Longrightarrow> c < absolute_next_cursor l"
  by (auto simp: marker_for_def get_at_def bind_eq_Some_conv absolute_next_cursor_def split: if_splits)

lemma events_bounded: "for_each (insert_event r) ps (d, n, seqs) = Inr (u, m, ss) \<Longrightarrow> ps \<noteq> [] \<Longrightarrow> m < 2 ^ 63"
proof (induction ps arbitrary: d n seqs)
  case (Cons p ps)
  then have one: "n + 1 < 2 ^ 63"
    "for_each (insert_event r) ps (fresh_event r n p d, n + 1, seqs @ [nat n]) = Inr (u, m, ss)"
    by (auto simp: return_iff insert_event_iff i64_in_range_def)
  then show ?case using Cons.IH [OF one(2)] by (cases ps) auto
qed simp

definition mirrors :: "'j Codec \<Rightarrow> string \<Rightarrow> 'j TranscriptLog \<Rightarrow> db \<Rightarrow> bool" where
  "mirrors codec r l d \<longleftrightarrow>
     rows_mirror codec r l d \<and> map_option ar_next_event_seq (find_run d r) = Some (int (absolute_next_cursor l) + 1)
     \<and> int (absolute_next_cursor l) + 1 < 2 ^ 63"

lemma mirrors_cong:
  assumes "run_events r u = run_events r d" "map_option ar_next_event_seq (find_run u r) = map_option ar_next_event_seq (find_run d r)"
  shows "mirrors codec r l u = mirrors codec r l d"
  using assms by (simp add: mirrors_def rows_mirror_def)

lemma commit_mirror:
  assumes faithful: "faithful codec" and l: "mirrors codec r l d" and ok: "events_ok d"
    and commit: "commit_execution fence c d = (Inr rc, u)" and fresh: "rc_duplicate_prompts rc = []"
    and c: "ec_run_id c = r" "ec_events c = map (co_write codec) batch"
    "ec_event_rewrites c = map (\<lambda>(cursor, payload). \<lparr>er_seq = cursor + 1, er_payload = payload\<rparr>)
       (map (\<lambda>(c, m). (c, co_write codec m)) (batch_rewrites l batch))"
  shows "mirrors codec r (commit_batch batch l) u"
proof -
  let ?n = "int (absolute_next_cursor l) + 1" and ?cs = "superseded_cursors_for batch l"
  let ?marked = "mark_superseded ?cs l"
  obtain run where run: "find_run d r = Some run" "commit_tables c (ar_next_event_seq run) d = Inr (rc, u)"
    using commit by (cases rule: commit_cases) (use fresh c(1) in auto)
  have n: "ar_next_event_seq run = ?n" using l run(1) by (simp add: mirrors_def)
  note logged = commit_log [OF run(2) [unfolded n], unfolded c(1,2)]
  let ?new = "event_rows r ?n (map (co_write codec) batch)"
  have ws: "ec_event_rewrites c = List.map_filter (\<lambda>c. map_option (\<lambda>m. \<lparr>er_seq = c + 1, er_payload = co_write codec m\<rparr>) (marker_for l c)) ?cs"
    unfolding c(3) by (rule rewrites_of_markers)
  have old: "int (er_seq w) \<noteq> ev_seq e" if "w \<in> set (ec_event_rewrites c)" "e \<in> set ?new" for w e
    using that event_rows_bound [of e r ?n "map (co_write codec) batch"] marker_range [of l]
    unfolding ws by (fastforce simp: List.map_filter_def)
  have "run_events r u = run_events r (fold (rewrite_event r) (ec_event_rewrites c) (d\<lparr>db_events := db_events d @ ?new\<rparr>))"
    using logged(2) by (simp add: run_events_def)
  also have "\<dots> = run_events r (fold (rewrite_event r) (ec_event_rewrites c) d) @ ?new"
    using rewrites_old_rows [where r = r and d = d and old = "db_events d", OF old] by (simp add: run_events_def event_rows_run)
  finally have events: "run_events r u = run_events r (fold (rewrite_event r) (ec_event_rewrites c) d) @ ?new" .
  have "rows_mirror codec r ?marked (fold (rewrite_event r) (ec_event_rewrites c) d)"
    unfolding ws by (rule rewrites_mirror [OF faithful]) (use l in \<open>simp_all add: mirrors_def\<close>)
  moreover have next_marked: "absolute_next_cursor ?marked = absolute_next_cursor l" using marks_at by blast
  ultimately have "rows_mirror codec r (commit_batch batch l) u"
    unfolding commit_batch_def using append_mirror [OF faithful, of r ?marked _ u batch] events by simp
  moreover have next_new: "int (absolute_next_cursor (commit_batch batch l)) + 1 = ?n + int (length batch)"
    using next_marked by (simp add: commit_batch_def append_next)
  moreover have "map_option ar_next_event_seq (find_run u r) = Some (?n + int (length batch))"
    using commit_events_ok(2) [OF run(2) _ ok] run(1) c(1,2) n by auto
  moreover have "?n + int (length batch) < 2 ^ 63"
  proof (cases "batch = []")
    case True
    then show ?thesis using l by (simp add: mirrors_def)
  next
    case False
    obtain d8 d9 nxt seqs where "for_each (insert_event (ec_run_id c)) (ec_events c)
        (update_run (ec_run_id c) (ec_run_update c) d8, ar_next_event_seq run, []) = Inr (d9, nxt, seqs)"
      by (rule commit_stages [OF run(2)])
    from events_bounded [OF this] events_loop [OF this] show ?thesis using False n c(2) by simp
  qed
  ultimately show ?thesis by (auto simp: mirrors_def)
qed

lemma pruned_mirrors:
  assumes "mirrors codec r l d" "length (tl_events l) \<le> Prompt_Ledger.MAX_LOG_EVENTS"
  shows "mirrors codec r l (snd (prune_execution_events r Prompt_Ledger.MAX_LOG_EVENTS d))"
proof -
  have "rows_mirror codec r l (snd (prune_execution_events r Prompt_Ledger.MAX_LOG_EVENTS d))"
    using assms by (intro prune_mirror) (simp_all add: mirrors_def Prompt_Ledger.MAX_LOG_EVENTS_def)
  moreover have "find_run (snd (prune_execution_events r Prompt_Ledger.MAX_LOG_EVENTS d)) r = find_run d r"
    by (rule find_run_runs) (simp add: prune_execution_events_def Let_def)
  ultimately show ?thesis using assms(1) by (simp add: mirrors_def)
qed

lemma commit_batch_length: "length (tl_events (commit_batch batch l)) \<le> Prompt_Ledger.MAX_LOG_EVENTS"
  by (auto simp: commit_batch_def append_events_def Transcript.MAX_LOG_EVENTS_def Prompt_Ledger.MAX_LOG_EVENTS_def Let_def)

section \<open>Lemmas: a session in step with its store\<close>

definition in_step :: "'j Codec \<Rightarrow> string \<Rightarrow> 'j TranscriptLog \<Rightarrow> db \<Rightarrow> bool" where
  "in_step codec handle l d \<longleftrightarrow> store_ok d
     \<and> (case latest_run_id d handle of None \<Rightarrow> l = from_events [] 0 | Some r \<Rightarrow> mirrors codec r l d)"

lemma no_file:
  assumes "map_of dir (session_path handle) = None"
  shows "load_run parse created handle harness (d, dir) =
      (case latest_run_for_task d handle of Inl e \<Rightarrow> (Inl (LgStore e), d, dir) | Inr found \<Rightarrow> (Inr found, d, dir))"
    and "ensure_session_run parse created handle harness (d, dir) =
      (case ensure_run created handle harness d of (res, u) \<Rightarrow> (res, u, dir))"
  using assms
  by (auto simp: load_run_def ensure_session_run_def ensure_run_def split: sum.split option.split prod.split)

lemma no_rows_before_run: "events_ok d \<Longrightarrow> find_run d r = None \<Longrightarrow> run_events r d = []"
  by (fastforce simp: events_ok_def run_events_def list_all_iff numbered_def filter_empty_conv split: option.splits)

lemma ensured_in_step:
  assumes step: "in_step codec handle l d" and ensure: "ensure_run created handle harness d = (Inr r, u)"
  shows "latest_run_id u handle = Some r \<and> mirrors codec r l u \<and> store_ok u"
proof -
  have ok: "store_ok d" using step by (simp add: in_step_def)
  note run = ensured_run [OF ok ensure]
  have "mirrors codec r l u"
  proof (cases "latest_run_id d handle")
    case None
    then have latest: "latest_run_for_task d handle = Inr None" using latest_run_read [OF ok, of handle] by simp
    obtain res v where created: "create_run (new_run created handle harness ''auto'') d = (res, v)" by fastforce
    have made: "create_run (new_run created handle harness ''auto'') d = (Inr (), u)" "r = ''web-chat:'' @ handle"
      using ensure latest created by (cases res; simp add: ensure_run_def)+
    then have new: "find_run d r = None" "db_events u = db_events d"
      "map_option ar_next_event_seq (find_run u r) = Some 1"
      by (auto simp: create_run_def new_run_def find_run_def find_append split: if_splits option.splits)
    have "run_events r u = []"
      using no_rows_before_run [OF _ new(1)] ok new(2) by (simp add: store_ok_def run_events_def)
    then show ?thesis
      using step None new(3)
      by (auto simp: in_step_def mirrors_def from_events_def absolute_next_cursor_def decoded_def
          intro!: rows_mirrorI [of r u _ "[]" "[]"])
  next
    case (Some q)
    then obtain y where "latest_run_for_task d handle = Inr (Some y)" "rr_run_id y = q"
      using latest_run_read [OF ok, of handle] by auto
    then have "r = q" "u = d" using ensure by (auto simp: ensure_run_def)
    then show ?thesis using step Some by (simp add: in_step_def)
  qed
  then show ?thesis using run by simp
qed

lemma ensure_failed: "ensure_run created handle harness d = (Inl e, u) \<Longrightarrow> u = d"
  by (auto simp: ensure_run_def create_run_def split: sum.splits option.splits prod.splits if_splits)

lemma in_step_some: "\<lbrakk>store_ok d; latest_run_id d handle = Some r; mirrors codec r l d\<rbrakk> \<Longrightarrow> in_step codec handle l d"
  by (simp add: in_step_def)

lemma committed_store:
  assumes "store_ok d" "commit_execution fence c d = (res, u)"
  shows "store_ok u" "latest_run_id u = latest_run_id d"
proof -
  show "store_ok u" using run_step_store_ok [OF step_commit assms(1), of fence c] assms(2) by simp
  show "latest_run_id u = latest_run_id d"
    using assms(2) by (cases rule: commit_cases) (auto dest: commit_run_rows run_rows_latest)
qed

lemma pruned_store:
  assumes "store_ok d"
  shows "store_ok (snd (prune_execution_events r k d))" "latest_run_id (snd (prune_execution_events r k d)) = latest_run_id d"
  using run_step_store_ok [OF step_prune assms] run_rows_latest [OF prune_frame(2)] by simp_all

lemma commit_unchanged:
  "commit_execution fence c d = (Inl e, u) \<Longrightarrow> u = d"
  "commit_execution fence c d = (Inr rc, u) \<Longrightarrow> rc_duplicate_prompts rc \<noteq> [] \<Longrightarrow> u = d"
  by (erule commit_cases; auto dest: commit_log(1))+

lemma no_prompts_no_duplicates: "commit_execution fence c d = (Inr rc, u) \<Longrightarrow> ec_prompts c = [] \<Longrightarrow> rc_duplicate_prompts rc = []"
  by (erule commit_cases) (auto dest: commit_log(1))

lemma appended_in_step:
  assumes faithful: "faithful codec" and step: "in_step codec handle l d" and dir: "map_of dir (session_path handle) = None"
    and append: "append_stored parse env handle harness (map (co_write codec) batch)
        (map (\<lambda>(c, m). (c, co_write codec m)) (batch_rewrites l batch)) (d, dir) = (res, u, dir')" and batch: "batch \<noteq> []"
  shows "dir' = dir \<and> in_step codec handle (case res of Inl _ \<Rightarrow> l | Inr _ \<Rightarrow> commit_batch batch l) u"
proof (cases "se_fault env")
  case (Some m)
  then show ?thesis using append batch step by (auto simp: append_stored_def)
next
  case None
  obtain made d1 where ensure: "ensure_run (se_created env) handle harness d = (made, d1)" by fastforce
  show ?thesis
  proof (cases made)
    case (Inl e)
    then show ?thesis
      using append batch step None ensure ensure_failed [of "se_created env" handle harness d e d1]
      by (auto simp: append_stored_def no_file(2) [OF dir])
  next
    case (Inr r)
    note run = ensured_in_step [OF step ensure [unfolded Inr]]
    define c where "c = commit_default\<lparr>ec_run_id := r, ec_events := map (co_write codec) batch,
      ec_event_rewrites := map (\<lambda>(cursor, payload). \<lparr>er_seq = cursor + 1, er_payload = payload\<rparr>)
        (map (\<lambda>(c, m). (c, co_write codec m)) (batch_rewrites l batch))\<rparr>"
    obtain written d2 where commit: "commit_execution (se_fence env) c d1 = (written, d2)" by fastforce
    have result: "(res, u, dir') =
        (case written of Inl e \<Rightarrow> (Inl (LgCommit e), d2, dir) | Inr _ \<Rightarrow> (Inr (), pruned env r d2, dir))"
      using append batch
      unfolding append_stored_def None no_file(2) [OF dir] ensure Inr prod.case sum.case option.case c_def [symmetric] commit
      by (simp split: sum.splits)
    note store = committed_store [OF _ commit]
    show ?thesis
    proof (cases written)
      case (Inl e)
      then have "d2 = d1" using commit commit_unchanged(1) by blast
      then show ?thesis using result Inl run in_step_some [of d1 handle r codec l] by simp
    next
      case (Inr rc)
      have "rc_duplicate_prompts rc = []"
        using no_prompts_no_duplicates commit Inr by (simp add: c_def commit_default_def)
      then have "mirrors codec r (commit_batch batch l) d2"
        using commit_mirror [OF faithful, of r l d1 "se_fence env" c rc d2 batch] run commit Inr
        by (simp add: c_def store_ok_def del: map_map)
      moreover have "u = pruned env r d2" "res = Inr ()" "dir' = dir"
        using result Inr by simp_all
      ultimately show ?thesis
        using store run pruned_store [of d2] pruned_mirrors [OF _ commit_batch_length]
        by (auto simp: pruned_def intro!: in_step_some)
    qed
  qed
qed

lemma empty_batch_mirrors: "mirrors codec r l d \<Longrightarrow> faithful codec \<Longrightarrow> mirrors codec r (commit_batch [] l) d"
  using append_mirror [of codec r l d d "[]"] append_next [of "[]" l]
  by (simp add: mirrors_def commit_batch_def superseded_cursors_for_def mark_superseded_def List.map_filter_def)

lemma planned_ledger_commit:
  assumes "plan_commit enc r current ledger = Inr plan" "ledger_commit r events rewrites plan = Some c"
  shows "ec_run_id c = r" "ec_events c = events" "ec_event_rewrites c = rewrites" "plan = None \<Longrightarrow> ec_prompts c = []"
proof -
  obtain c' where "plan = (if empty_commit c' then None else Some (c'\<lparr>ec_run_id := r\<rparr>))"
    by (rule plan_commit_planned [OF assms(1)])
  then show "ec_run_id c = r" "ec_events c = events" "ec_event_rewrites c = rewrites" "plan = None \<Longrightarrow> ec_prompts c = []"
    using assms(2) by (auto simp: ledger_commit_def commit_default_def split: if_splits)
qed

lemma ledger_in_step:
  assumes faithful: "faithful codec" and step: "in_step codec handle l d"
    and persist: "persist_ledger fence enc created handle ledger (map (co_write codec) batch)
        (map (\<lambda>(c, m). (c, co_write codec m)) (batch_rewrites l batch)) d = (res, u)"
  shows "in_step codec handle (case res of Inl _ \<Rightarrow> l | Inr _ \<Rightarrow> commit_batch batch l) u"
proof -
  define ws where "ws = map (\<lambda>(cursor, payload). \<lparr>er_seq = cursor + 1, er_payload = payload\<rparr>)
    (map (\<lambda>(c, m). (c, co_write codec m)) (batch_rewrites l batch))"
  obtain made d1 where ensure: "ensure_run created handle ''unknown'' d = (made, d1)" by fastforce
  show ?thesis
  proof (cases made)
    case (Inl e)
    then have "u = d" "res = Inl e" using ensure ensure_failed [of created handle "''unknown''" d e d1] persist
      by (simp_all add: persist_ledger_def)
    then show ?thesis using step by simp
  next
    case (Inr r)
    note run = ensured_in_step [OF step ensure [unfolded Inr]]
    have failed: ?thesis if "res = Inl e" "u = d1" for e using that run in_step_some by auto
    note persist' = persist [unfolded persist_ledger_def ensure Inr sum.case prod.case, folded ws_def]
    show ?thesis
    proof (cases "prompts_for_run d1 r")
      case (Inl e)
      then show ?thesis using persist' by (intro failed [where e = "LgStore e"]) auto
    next
      case current: (Inr current)
      show ?thesis
      proof (cases "plan_commit enc r current ledger")
        case (Inl m)
        then show ?thesis using persist' current by (intro failed [where e = "LgPlan m"]) auto
      next
        case plan: (Inr plan)
        show ?thesis
        proof (cases "ledger_commit r (map (co_write codec) batch) ws plan")
          case None
          then have "batch = []" by (auto simp: ledger_commit_def split: option.splits if_splits)
          moreover have "res = Inr ()" "u = d1" using persist' current plan None by simp_all
          ultimately show ?thesis
            using run empty_batch_mirrors [OF _ faithful, of r l d1] in_step_some [of d1 handle r codec "commit_batch batch l"]
            by simp
        next
          case (Some c)
          note c = planned_ledger_commit [OF plan Some]
          obtain written d2 where commit: "commit_execution fence c d1 = (written, d2)" by fastforce
          note store = committed_store [OF _ commit]
          show ?thesis
          proof (cases written)
            case (Inl e)
            then have "d2 = d1" using commit commit_unchanged(1) by blast
            then show ?thesis
              using persist' current plan Some commit Inl by (intro failed [where e = "LgCommit e"]) auto
          next
            case (Inr rc)
            show ?thesis
            proof (cases "rc_duplicate_prompts rc = []")
              case True
              then have "mirrors codec r (commit_batch batch l) d2"
                using commit_mirror [OF faithful, of r l d1 fence c rc d2 batch] run commit Inr c
                by (simp add: ws_def store_ok_def del: map_map)
              moreover have "u = snd (prune_execution_events r Prompt_Ledger.MAX_LOG_EVENTS d2)" "res = Inr ()"
                using persist' current plan Some commit Inr True by auto
              ultimately show ?thesis
                using store run pruned_store [of d2] pruned_mirrors [OF _ commit_batch_length] by (auto intro!: in_step_some)
            next
              case False
              then have "plan \<noteq> None" using no_prompts_no_duplicates commit Inr c(4) by blast
              moreover have "d2 = d1" using commit commit_unchanged(2) Inr False by blast
              ultimately show ?thesis
                using persist' current plan Some commit Inr False by (intro failed [where e = LgPromptIdUsed]) auto
            qed
          qed
        qed
      qed
    qed
  qed
qed

lemma all_events_since:
  assumes "run_events r d = event_rows r n ps" "1 \<le> n"
  shows "execution_events_since d r 0 = Inr (zip [nat n..<nat n + length ps] ps)"
proof -
  have "filter (\<lambda>e. ev_run_id e = r \<and> 0 < ev_seq e) (db_events d) = filter (\<lambda>e. 0 < ev_seq e) (run_events r d)"
    by (simp add: run_events_def conj_commute)
  also have "\<dots> = event_rows r n ps"
    using event_rows_bound [of _ r n ps] assms(2) by (fastforce simp: assms(1) filter_id_conv)
  finally have rows: "filter (\<lambda>e. ev_run_id e = r \<and> 0 < ev_seq e) (db_events d) = event_rows r n ps" .
  have "\<not> list_ex (\<lambda>e. ev_seq e < 0) (event_rows r n ps)"
    using event_rows_bound [of _ r n ps] assms(2) by (force simp: list_ex_iff)
  then show ?thesis
    using assms(2) by (simp add: execution_events_since_def i64_of_u64_def rows event_rows_zip sort_key_id_if_sorted event_rows_sorted)
qed

lemma latest_run_record:
  assumes "store_ok d" "latest_run_id d handle = Some r"
  obtains y run where "latest_run_for_task d handle = Inr (Some y)" "rr_run_id y = r" "find_run d r = Some run"
    "rr_next_event_seq y = nat (ar_next_event_seq run)"
proof -
  obtain x xs where rows: "rev (filter (\<lambda>x. ar_task_id x = handle) (db_runs d)) = x # xs" "ar_run_id x = r"
    using assms(2) unfolding latest_run_id_rows by (auto split: list.splits)
  then have "x \<in> set (rev (filter (\<lambda>x. ar_task_id x = handle) (db_runs d)))" by simp
  then have x: "x \<in> set (db_runs d)" by simp
  have ok: "rows_ok d" "events_ok d" using assms(1) by (simp_all add: store_ok_def)
  obtain y where y: "run_record_from_row x = Inr y" "rr_run_id y = r" using run_readable [OF ok x] rows(2) by auto
  have "find_run d r = Some x"
    unfolding find_run_def using find_key [of ar_run_id "db_runs d" x] ok(2) x rows(2) by (simp add: events_ok_def)
  moreover have "rr_next_event_seq y = nat (ar_next_event_seq x)"
    using y(1) by (auto simp: run_record_from_row_def return_iff read_u64_def split: if_splits)
  moreover have "latest_run_for_task d handle = Inr (Some y)"
    unfolding latest_run_for_task_def rows(1) by (simp add: y(1))
  ultimately show ?thesis using that y(2) by blast
qed

lemma map_filter_decoded: "decoded codec ps es \<Longrightarrow> length ns = length ps \<Longrightarrow>
    List.map_filter (\<lambda>(_, p). co_read codec p) (zip ns ps) = es"
  unfolding decoded_def
proof (induction arbitrary: ns rule: list_all2_induct)
  case (Cons p ps e es)
  then show ?case by (cases ns) (simp_all add: map_filter_simps)
qed (simp add: map_filter_simps)

lemma readable_decoded: "list_all (\<lambda>p. co_read codec p \<noteq> None) ps \<Longrightarrow> decoded codec ps (map (\<lambda>p. the (co_read codec p)) ps)"
  by (induction ps) (auto simp: decoded_def)

definition same_from :: "nat \<Rightarrow> 'j TranscriptLog \<Rightarrow> 'j TranscriptLog \<Rightarrow> bool" where
  "same_from n a b \<longleftrightarrow> absolute_next_cursor a = absolute_next_cursor b
     \<and> (\<forall>c \<ge> n. Transcript.event_at a c = Transcript.event_at b c)"

lemma same_from_prefix:
  assumes "length es \<le> tl_dropped l"
  shows "same_from (tl_dropped l) (from_events (es @ tl_events l) (tl_dropped l - length es)) l"
  using assms by (auto simp: same_from_def from_events_def absolute_next_cursor_def Transcript.event_at_def get_at_def nth_append)

lemma loaded_in_step:
  assumes step: "in_step codec handle l d" and dir: "map_of dir (session_path handle) = None"
  obtains stored where "load_session parse (co_read codec) created handle harness (d, dir) = (Inr stored, d, dir)"
    "in_step codec handle (from_events (ss_events stored) (ss_dropped stored)) d" "ss_dropped stored \<le> tl_dropped l"
    "same_from (tl_dropped l) (from_events (ss_events stored) (ss_dropped stored)) l"
proof (cases "latest_run_id d handle")
  case None
  then have "latest_run_for_task d handle = Inr None" "l = from_events [] 0"
    using latest_run_read [of d handle] step by (simp_all add: in_step_def)
  then show ?thesis
    using that [of stored_session_default] step
    by (simp add: load_session_def no_file(1) [OF dir] stored_session_default_def same_from_def)
next
  case (Some r)
  have ok: "store_ok d" and l: "mirrors codec r l d" using step Some by (simp_all add: in_step_def)
  obtain pre ps where rows: "run_events r d = event_rows r (int (tl_dropped l) + 1 - int (length pre)) (pre @ ps)"
    "length pre \<le> tl_dropped l" "decoded codec ps (tl_events l)" "list_all (\<lambda>p. co_read codec p \<noteq> None) pre"
    using l unfolding mirrors_def rows_mirror_def by blast
  obtain y run where run: "latest_run_for_task d handle = Inr (Some y)" "rr_run_id y = r" "find_run d r = Some run"
    "rr_next_event_seq y = nat (ar_next_event_seq run)" by (rule latest_run_record [OF ok Some])
  have "int (absolute_next_cursor l) + 1 = ar_next_event_seq run" using l run(3) by (simp add: mirrors_def)
  then have next_seq: "rr_next_event_seq y = absolute_next_cursor l + 1" using run(4) by simp
  define k where "k = tl_dropped l - length pre"
  define es where "es = map (\<lambda>p. the (co_read codec p)) pre"
  have first: "int (tl_dropped l) + 1 - int (length pre) = int (k + 1)" using rows(2) by (simp add: k_def)
  let ?rows = "zip [k + 1..<k + 1 + length (pre @ ps)] (pre @ ps)"
  have since: "execution_events_since d r 0 = Inr ?rows"
    using all_events_since [OF rows(1)] by (simp add: first del: of_nat_add of_nat_Suc)
  have events: "decoded codec (pre @ ps) (es @ tl_events l)"
    using rows(3) readable_decoded [OF rows(4)] by (auto simp: es_def decoded_def intro: list_all2_appendI)
  have len: "length es = length pre" "length ps = length (tl_events l)"
    using rows(3) by (simp_all add: es_def decoded_def list_all2_lengthD)
  have dropped: "(case ?rows of [] \<Rightarrow> rr_next_event_seq y | (n, _) # _ \<Rightarrow> n) - 1 = k"
  proof (cases "pre @ ps")
    case Nil
    then show ?thesis using next_seq len by (simp add: k_def absolute_next_cursor_def)
  next
    case (Cons q qs)
    then show ?thesis by (simp add: upt_conv_Cons del: upt_Suc)
  qed
  obtain stored where stored: "load_session parse (co_read codec) created handle harness (d, dir) = (Inr stored, d, dir)"
    "ss_events stored = es @ tl_events l" "ss_dropped stored = k"
    using run(1,2) since dropped map_filter_decoded [OF events, of "[k + 1..<k + 1 + length (pre @ ps)]"]
    by (simp add: load_session_def no_file(1) [OF dir] del: upt_Suc)
  let ?l = "from_events (ss_events stored) (ss_dropped stored)"
  have "decoded codec (pre @ ps) (tl_events ?l)" using events by (simp add: stored from_events_def)
  moreover have "run_events r d = event_rows r (int k + 1) (pre @ ps)"
    using rows(1) unfolding first by (simp add: add.commute)
  ultimately have "rows_mirror codec r ?l d"
    by (intro rows_mirrorI [of r d ?l "[]" "pre @ ps"]) (simp_all add: stored from_events_def)
  moreover have same: "same_from (tl_dropped l) ?l l"
    using same_from_prefix [of es l] rows(2) len by (simp add: stored k_def)
  ultimately have "mirrors codec r ?l d" using l by (simp add: mirrors_def same_from_def)
  then show ?thesis
    using that [OF stored(1) _ _ same] ok Some by (simp add: in_step_def stored(3) k_def)
qed

lemma fault_kept [simp]:
  "ev_transcript_durability_fault (note_activity_report_failure er e) = ev_transcript_durability_fault e"
  by (simp add: note_activity_report_failure_def Let_def)

lemma flush_fault:
  "ev_transcript_durability_fault (fst (flush_pending_activity_report handle now (e, w))) = ev_transcript_durability_fault e"
  by (simp add: flush_pending_activity_report_def split: option.split sum.split prod.split)

lemma report_fault:
  "ev_transcript_durability_fault (fst (report_activity handle now activity (e, live, w))) = ev_transcript_durability_fault e"
  by (simp add: report_activity_def Let_def split: option.split sum.split prod.split)

lemma event_report_fault:
  "ev_transcript_durability_fault (fst (snd (report_activity_for_event_with_probe handle probe now event (p, e, live, w)))) =
    ev_transcript_durability_fault e"
  by (simp add: report_fault report_activity_for_event_with_probe_def split: option.split prod.split)

lemma skip_fault:
  "ev_transcript_durability_fault (snd (should_skip_duplicate_spawn_error g event e)) = ev_transcript_durability_fault e"
  by (simp add: should_skip_duplicate_spawn_error_def split: SessionServerEvent.split option.split)

lemma committed_report_fault:
  "ev_transcript_durability_fault (fst (snd (report_committed_events handle g root procs now events (b, e, live, w)))) =
    ev_transcript_durability_fault e"
proof -
  let ?step = "\<lambda>event (b, e, live, w). report_activity_for_event_with_probe handle (read_level root procs now) now event
    (b, snd (should_skip_duplicate_spawn_error g event e), live, w)"
  have fold: "ev_transcript_durability_fault (fst (snd (fold ?step events s))) = ev_transcript_durability_fault (fst (snd s))" for s
  proof (induction events arbitrary: s)
    case (Cons event events)
    then show ?case by (cases s) (simp add: event_report_fault skip_fault)
  qed simp
  obtain e1 w1 where flush: "flush_pending_activity_report handle now (e, w) = (e1, w1)"
    by (cases "flush_pending_activity_report handle now (e, w)")
  then show ?thesis
    using fold [of "(b, e1, live, w1)"] flush_fault [of handle now e w] by (simp add: report_committed_events_def)
qed

section \<open>The life of a session\<close>

text \<open>From a store without a run of the session: batches, commits of the ledger, retries, updates of the run, restarts that load
  the log from the store, and whatever does not touch the log, its backlog and the fault.\<close>

inductive session_life :: "'j Codec \<Rightarrow> string \<Rightarrow> ('j, 'w) TaskSession \<times> 'w SessionHost \<Rightarrow> bool"
  for codec handle where
  life_start: "\<lbrakk>store_ok (ho_db h); latest_run_id (ho_db h) handle = None; map_of (ho_dir h) (session_path handle) = None;
    sx_handle x = handle; sx_log x = from_events [] 0; sx_unpersisted x = []; sx_backlog x = backlog_default;
    ev_transcript_durability_fault (sx_evidence x) = None\<rbrakk> \<Longrightarrow> session_life codec handle (x, h)"
| life_batch: "session_life codec handle s \<Longrightarrow> session_life codec handle (snd (persist_log_batch codec env events s))"
| life_commit: "session_life codec handle s \<Longrightarrow> session_life codec handle (snd (commit_ledger_with_events codec env change events s))"
| life_retry: "session_life codec handle s \<Longrightarrow> session_life codec handle (retry_unpersisted_backlog codec env terminal s)"
| life_run: "\<lbrakk>session_life codec handle (x, h);
    update_session_run (co_parse codec) env handle harness u (ho_db h, ho_dir h) = (res, d, dir)\<rbrakk> \<Longrightarrow>
    session_life codec handle (x, h\<lparr>ho_db := d, ho_dir := dir\<rparr>)"
| life_restart: "\<lbrakk>session_life codec handle (x, h);
    load_session (co_parse codec) (co_read codec) created handle harness (ho_db h, ho_dir h) = (Inr stored, d, dir);
    sx_handle y = handle; sx_log y = from_events (ss_events stored) (ss_dropped stored); sx_unpersisted y = [];
    sx_backlog y = backlog_default; ev_transcript_durability_fault (sx_evidence y) = None\<rbrakk> \<Longrightarrow>
    session_life codec handle (y, h\<lparr>ho_db := d, ho_dir := dir, ho_world := w\<rparr>)"
| life_other: "\<lbrakk>session_life codec handle (x, h); sx_handle y = sx_handle x; sx_log y = sx_log x;
    sx_unpersisted y = sx_unpersisted x; sx_backlog y = sx_backlog x;
    ev_transcript_durability_fault (sx_evidence y) = ev_transcript_durability_fault (sx_evidence x)\<rbrakk> \<Longrightarrow>
    session_life codec handle (y, h\<lparr>ho_live := live, ho_world := w\<rparr>)"

definition backlog_ok :: "('j, 'w) TaskSession \<Rightarrow> bool" where
  "backlog_ok x \<longleftrightarrow>
     (prompts_blocked (sx_evidence x) \<longleftrightarrow> sx_unpersisted x \<noteq> [])
     \<and> (sx_unpersisted x = [] \<longrightarrow> sx_backlog x = backlog_default)
     \<and> (sx_unpersisted x \<noteq> [] \<longrightarrow> (\<exists>delay due. sx_backlog x = \<lparr>br_delay = Some delay, br_next_attempt = Some due\<rparr>
          \<and> BACKLOG_RETRY_INITIAL_DELAY \<le> delay \<and> delay \<le> BACKLOG_RETRY_MAX_DELAY))"

definition session_ok :: "'j Codec \<Rightarrow> string \<Rightarrow> ('j, 'w) TaskSession \<times> 'w SessionHost \<Rightarrow> bool" where
  "session_ok codec handle = (\<lambda>(x, h). sx_handle x = handle \<and> map_of (ho_dir h) (session_path handle) = None
     \<and> in_step codec handle (sx_log x) (ho_db h) \<and> backlog_ok x)"

lemma stored_session [simp]:
  "sx_handle (fst (batch_stored env batch (x, h))) = sx_handle x"
  "sx_log (fst (batch_stored env batch (x, h))) = commit_batch batch (sx_log x)"
  "sx_unpersisted (fst (batch_stored env batch (x, h))) = []"
  "sx_backlog (fst (batch_stored env batch (x, h))) = backlog_default"
  "ho_db (snd (batch_stored env batch (x, h))) = ho_db h" "ho_dir (snd (batch_stored env batch (x, h))) = ho_dir h"
  by (simp_all add: batch_stored_def commit_batch_def split: prod.split)

lemma stored_fault [simp]: "ev_transcript_durability_fault (sx_evidence (fst (batch_stored env batch (x, h)))) = None"
proof -
  obtain b e live w where run: "report_committed_events (sx_handle x) (sx_generation x) (sv_root env) (sv_processes env) (sv_now env)
      batch (sx_background x, clear_transcript_durability_fault (sx_evidence x), ho_live h, ho_world h) = (b, e, live, w)"
    using prod_cases4 by blast
  then have "ev_transcript_durability_fault e = ev_transcript_durability_fault (clear_transcript_durability_fault (sx_evidence x))"
    using committed_report_fault by (metis fst_conv snd_conv)
  moreover have "ev_transcript_durability_fault (clear_transcript_durability_fault (sx_evidence x)) = None"
    by (simp add: clear_transcript_durability_fault_def)
  ultimately show ?thesis by (simp add: batch_stored_def run)
qed

lemma stored_backlog_ok: "backlog_ok (fst (batch_stored env batch (x, h)))"
  by (simp add: backlog_ok_def prompts_blocked_def)

lemma backlog_bounds: "BACKLOG_RETRY_INITIAL_DELAY \<le> BACKLOG_RETRY_MAX_DELAY"
  by (simp add: BACKLOG_RETRY_INITIAL_DELAY_def BACKLOG_RETRY_MAX_DELAY_def secs_def)

lemma failure_backlog:
  assumes "b = backlog_default \<or> (\<exists>delay due. b = \<lparr>br_delay = Some delay, br_next_attempt = Some due\<rparr>
      \<and> BACKLOG_RETRY_INITIAL_DELAY \<le> delay \<and> delay \<le> BACKLOG_RETRY_MAX_DELAY)"
  shows "\<exists>delay due. backlog_failure now b = \<lparr>br_delay = Some delay, br_next_attempt = Some due\<rparr>
      \<and> BACKLOG_RETRY_INITIAL_DELAY \<le> delay \<and> delay \<le> BACKLOG_RETRY_MAX_DELAY"
    and "\<exists>delay due. backlog_failure_if_unscheduled now b = \<lparr>br_delay = Some delay, br_next_attempt = Some due\<rparr>
      \<and> BACKLOG_RETRY_INITIAL_DELAY \<le> delay \<and> delay \<le> BACKLOG_RETRY_MAX_DELAY"
proof -
  show failed: "\<exists>delay due. backlog_failure now b = \<lparr>br_delay = Some delay, br_next_attempt = Some due\<rparr>
      \<and> BACKLOG_RETRY_INITIAL_DELAY \<le> delay \<and> delay \<le> BACKLOG_RETRY_MAX_DELAY"
    using assms backlog_bounds by (auto simp: backlog_failure_def backlog_default_def Let_def)
  show "\<exists>delay due. backlog_failure_if_unscheduled now b = \<lparr>br_delay = Some delay, br_next_attempt = Some due\<rparr>
      \<and> BACKLOG_RETRY_INITIAL_DELAY \<le> delay \<and> delay \<le> BACKLOG_RETRY_MAX_DELAY"
    using failed assms by (auto simp: backlog_failure_if_unscheduled_def backlog_default_def)
qed

lemma failed_backlog_ok:
  assumes "backlog_ok x" "batch \<noteq> []"
    and "sx_unpersisted y = batch" "sx_backlog y = backlog_failure_if_unscheduled now (sx_backlog x)"
    and "ev_transcript_durability_fault (sx_evidence y) \<noteq> None"
  shows "backlog_ok y"
proof -
  have "sx_backlog x = backlog_default \<or> (\<exists>delay due. sx_backlog x = \<lparr>br_delay = Some delay, br_next_attempt = Some due\<rparr>
      \<and> BACKLOG_RETRY_INITIAL_DELAY \<le> delay \<and> delay \<le> BACKLOG_RETRY_MAX_DELAY)"
    using assms(1) unfolding backlog_ok_def by blast
  from failure_backlog(2) [OF this] assms(2-) show ?thesis by (simp add: backlog_ok_def prompts_blocked_def)
qed

text \<open>A batch is stored, or it fails and stays in the backlog.\<close>

lemma persist_cases:
  assumes "persist_log_batch codec env events (x, h) = (res, y, g)"
  obtains (idle) "sx_unpersisted x @ filter_events_for_log x events = []" "res = Inr ()" "y = x" "g = h"
    | (kept) e d dir where "sx_unpersisted x @ filter_events_for_log x events \<noteq> []"
        "append_stored (co_parse codec) (sv_store env) (sx_handle x) (sx_harness x)
           (map (co_write codec) (sx_unpersisted x @ filter_events_for_log x events))
           (map (\<lambda>(c, m). (c, co_write codec m)) (batch_rewrites (sx_log x) (sx_unpersisted x @ filter_events_for_log x events)))
           (ho_db h, ho_dir h) = (Inl e, d, dir)"
        "res \<noteq> Inr ()" "g = h\<lparr>ho_db := d, ho_dir := dir\<rparr>" "sx_handle y = sx_handle x" "sx_log y = sx_log x"
        "sx_unpersisted y = sx_unpersisted x @ filter_events_for_log x events"
        "sx_backlog y = backlog_failure_if_unscheduled (sv_instant env) (sx_backlog x)"
        "ev_transcript_durability_fault (sx_evidence y) \<noteq> None"
    | (stored) d dir where "sx_unpersisted x @ filter_events_for_log x events \<noteq> []"
        "append_stored (co_parse codec) (sv_store env) (sx_handle x) (sx_harness x)
           (map (co_write codec) (sx_unpersisted x @ filter_events_for_log x events))
           (map (\<lambda>(c, m). (c, co_write codec m)) (batch_rewrites (sx_log x) (sx_unpersisted x @ filter_events_for_log x events)))
           (ho_db h, ho_dir h) = (Inr (), d, dir)"
        "res = Inr ()"
        "(y, g) = batch_stored env (sx_unpersisted x @ filter_events_for_log x events) (x, h\<lparr>ho_db := d, ho_dir := dir\<rparr>)"
proof -
  let ?batch = "sx_unpersisted x @ filter_events_for_log x events"
  obtain out d dir where append: "append_stored (co_parse codec) (sv_store env) (sx_handle x) (sx_harness x)
      (map (co_write codec) ?batch) (map (\<lambda>(c, m). (c, co_write codec m)) (batch_rewrites (sx_log x) ?batch))
      (ho_db h, ho_dir h) = (out, d, dir)" using prod_cases3 by blast
  note result = assms [unfolded persist_log_batch_def prod.case Let_def append]
  show ?thesis
  proof (cases "?batch = []")
    case True
    have "res = Inr ()" "y = x" "g = h" using result True by auto
    then show ?thesis by (rule idle [OF True])
  next
    case False
    show ?thesis
    proof (cases out)
      case (Inl e)
      then show ?thesis
        using result False append kept [of e d dir] by (auto simp: note_transcript_durability_fault_def)
    next
      case (Inr u)
      have "res = Inr ()" "(y, g) = batch_stored env ?batch (x, h\<lparr>ho_db := d, ho_dir := dir\<rparr>)"
        using result False Inr by auto
      moreover have "out = Inr ()" using Inr by simp
      ultimately show ?thesis by (intro stored [OF False append [unfolded \<open>out = Inr ()\<close>]])
    qed
  qed
qed

lemma persist_ok:
  assumes "faithful codec" "session_ok codec handle (x, h)" "persist_log_batch codec env events (x, h) = (res, y, g)"
  shows "session_ok codec handle (y, g)"
  using assms(3)
proof (cases rule: persist_cases)
  case idle
  then show ?thesis using assms(2) by simp
next
  case (kept e d dir)
  note ok = assms(2) [unfolded session_ok_def prod.case]
  have "dir = ho_dir h \<and> in_step codec handle (sx_log x) d"
    using appended_in_step [OF assms(1) _ _ kept(2,1)] ok by simp
  then show ?thesis
    using ok kept failed_backlog_ok [OF _ kept(1,7,8,9)] by (simp add: session_ok_def)
next
  case (stored d dir)
  note ok = assms(2) [unfolded session_ok_def prod.case]
  have "dir = ho_dir h \<and> in_step codec handle (commit_batch (sx_unpersisted x @ filter_events_for_log x events) (sx_log x)) d"
    using appended_in_step [OF assms(1) _ _ stored(2,1)] ok by simp
  moreover have "y = fst (y, g)" "g = snd (y, g)" by simp_all
  ultimately show ?thesis
    using ok stored_backlog_ok [of env "sx_unpersisted x @ filter_events_for_log x events" x "h\<lparr>ho_db := d, ho_dir := dir\<rparr>"]
      stored_session [of env "sx_unpersisted x @ filter_events_for_log x events" x "h\<lparr>ho_db := d, ho_dir := dir\<rparr>"]
    unfolding stored(4) [symmetric] by (simp add: session_ok_def)
qed

lemma latest_readable: "store_ok d \<Longrightarrow> \<exists>found. latest_run_for_task d handle = Inr found"
  using latest_run_read [of d handle] by (auto split: option.splits)

lemma ledger_ok:
  assumes "faithful codec" "session_ok codec handle (x, h)"
  shows "session_ok codec handle (snd (commit_ledger_with_events codec env change events (x, h)))"
proof (cases "se_fault (sv_store env)")
  case (Some m)
  then show ?thesis using assms(2) by (simp add: commit_ledger_with_events_def Let_def)
next
  case None
  note ok = assms(2) [unfolded session_ok_def prod.case]
  let ?batch = "sx_unpersisted x @ filter_events_for_log x events"
  have handle: "sx_handle x = handle" and dir: "map_of (ho_dir h) (session_path handle) = None"
    and step: "in_step codec handle (sx_log x) (ho_db h)" and backlog: "backlog_ok x" using ok by auto
  obtain found where "latest_run_for_task (ho_db h) handle = Inr found"
    using latest_readable [of "ho_db h" handle] step by (auto simp: in_step_def)
  then have load: "load_run (co_parse codec) (se_created (sv_store env)) handle ''unknown'' (ho_db h, ho_dir h) =
      (Inr found, ho_db h, ho_dir h)" by (simp add: no_file(1) [OF dir])
  obtain out d where persist: "persist_ledger (se_fence (sv_store env)) (co_content codec) (se_created (sv_store env)) handle
      (change (sx_ledger x)) (map (co_write codec) ?batch)
      (map (\<lambda>(c, m). (c, co_write codec m)) (batch_rewrites (sx_log x) ?batch)) (ho_db h) = (out, d)" by fastforce
  note after = ledger_in_step [OF assms(1) step persist]
  show ?thesis
  proof (cases out)
    case (Inl e)
    have "snd (commit_ledger_with_events codec env change events (x, h)) = (x, h\<lparr>ho_db := d\<rparr>)"
      using persist Inl load by (simp add: commit_ledger_with_events_def Let_def None handle)
    then show ?thesis using after Inl dir backlog handle by (simp add: session_ok_def)
  next
    case (Inr u)
    have "snd (commit_ledger_with_events codec env change events (x, h)) =
        batch_stored env ?batch (x\<lparr>sx_ledger := change (sx_ledger x)\<rparr>, h\<lparr>ho_db := d\<rparr>)"
      using persist Inr load by (simp add: commit_ledger_with_events_def Let_def None handle)
    then show ?thesis
      using after Inr dir handle
        stored_session [of env ?batch "x\<lparr>sx_ledger := change (sx_ledger x)\<rparr>" "h\<lparr>ho_db := d\<rparr>"]
        stored_backlog_ok [of env ?batch "x\<lparr>sx_ledger := change (sx_ledger x)\<rparr>" "h\<lparr>ho_db := d\<rparr>"]
      by (cases "batch_stored env ?batch (x\<lparr>sx_ledger := change (sx_ledger x)\<rparr>, h\<lparr>ho_db := d\<rparr>)") (simp add: session_ok_def)
  qed
qed

lemma retry_session_ok:
  assumes "faithful codec" "session_ok codec handle (x, h)"
  shows "session_ok codec handle (retry_unpersisted_backlog codec env terminal (x, h))"
proof -
  obtain res y g where persist: "persist_log_batch codec env [] (x, h) = (res, y, g)" using prod_cases3 by blast
  note ok = persist_ok [OF assms persist]
  have "session_ok codec handle (y\<lparr>sx_backlog := backlog_failure (sv_instant env) (sx_backlog y)\<rparr>, g)" if "res = Inl e" for e
  proof -
    have "sx_unpersisted y \<noteq> []" using persist by (cases rule: persist_cases) (use that in auto)
    moreover have "sx_backlog y = backlog_default \<or> (\<exists>delay due. sx_backlog y = \<lparr>br_delay = Some delay, br_next_attempt = Some due\<rparr>
        \<and> BACKLOG_RETRY_INITIAL_DELAY \<le> delay \<and> delay \<le> BACKLOG_RETRY_MAX_DELAY)"
      using ok unfolding session_ok_def prod.case backlog_ok_def by blast
    ultimately show ?thesis
      using ok failure_backlog(1) [of "sx_backlog y" "sv_instant env"] by (simp add: session_ok_def backlog_ok_def)
  qed
  then show ?thesis
    using ok assms(2) persist by (auto simp: retry_unpersisted_backlog_def split: sum.split)
qed

lemma run_update_ok:
  assumes "in_step codec handle l d" "map_of dir (session_path handle) = None"
    and "update_session_run parse env handle harness u (d, dir) = (res, d', dir')"
  shows "dir' = dir \<and> in_step codec handle l d'"
proof -
  obtain made d1 where ensure: "ensure_run (se_created env) handle harness d = (made, d1)" by fastforce
  note result = assms(3) [unfolded update_session_run_def no_file(2) [OF assms(2)] ensure prod.case]
  show ?thesis
  proof (cases made)
    case (Inl e)
    then show ?thesis using result ensure ensure_failed [of "se_created env" handle harness d e d1] assms(1) by simp
  next
    case (Inr r)
    note run = ensured_in_step [OF assms(1) ensure [unfolded Inr]]
    let ?c = "commit_default\<lparr>ec_run_id := r, ec_run_update := Some u\<rparr>"
    obtain out d2 where commit: "commit_execution (se_fence env) ?c d1 = (out, d2)" by fastforce
    note store = committed_store [OF _ commit]
    have "mirrors codec r l d2"
      using commit
    proof (cases rule: commit_cases)
      case (written row rc)
      have next_seq: "map_option ar_next_event_seq (find_run d2 r) = map_option ar_next_event_seq (find_run d1 r)"
        using commit_events_ok(2) [OF written(3,2)] written(2) run by (auto simp: store_ok_def commit_default_def)
      have "db_events d2 = db_events d1" using commit_log(2) [OF written(3)] by (simp add: commit_default_def)
      then show ?thesis using mirrors_cong [of r d2 d1 codec l] next_seq run by (simp add: run_events_def)
    qed (use run in auto)
    moreover have "d' = d2" "dir' = dir"
      using result commit Inr by (auto simp: commit_run_update_def split: sum.splits)
    ultimately show ?thesis using store run in_step_some [of d2 handle r codec l] by simp
  qed
qed

lemma session_life_ok:
  assumes "faithful codec" "session_life codec handle s"
  shows "session_ok codec handle s"
  using assms(2)
proof (induction rule: session_life.induct)
  case (life_start h x)
  then show ?case by (simp add: session_ok_def in_step_def backlog_ok_def prompts_blocked_def)
next
  case (life_batch s env events)
  then show ?case using persist_ok [OF assms(1)] by (metis prod.collapse)
next
  case (life_commit s env change events)
  then show ?case using ledger_ok [OF assms(1)] by (metis prod.collapse)
next
  case (life_retry s env terminal)
  then show ?case using retry_session_ok [OF assms(1)] by (metis prod.collapse)
next
  case (life_run x h env harness u res d dir)
  then show ?case
    using run_update_ok [of codec handle "sx_log x" "ho_db h" "ho_dir h" "co_parse codec" env harness u res d dir]
    by (simp add: session_ok_def)
next
  case (life_restart x h created harness stored d dir y w)
  note ok = life_restart(8) [unfolded session_ok_def prod.case]
  obtain stored' where loaded: "load_session (co_parse codec) (co_read codec) created handle harness (ho_db h, ho_dir h) =
      (Inr stored', ho_db h, ho_dir h)" "in_step codec handle (from_events (ss_events stored') (ss_dropped stored')) (ho_db h)"
    using loaded_in_step [of codec handle "sx_log x" "ho_db h" "ho_dir h" "co_parse codec" created harness] ok by blast
  then show ?case using life_restart(2-7) ok by (simp add: session_ok_def backlog_ok_def prompts_blocked_def)
next
  case (life_other x h y live w)
  then show ?case by (simp add: session_ok_def backlog_ok_def prompts_blocked_def)
qed

section \<open>Properties\<close>

text \<open>C10: A restart loses nothing that was stored and moves no cursor: however the writes of a session went (batches that were
  stored or kept for later, commits of the prompt ledger, fenced writes, failures of the database, prunings that failed,
  earlier restarts), loading the session from its store succeeds and gives a log with the same next cursor and, at every
  cursor that the log in memory still holds, the same event; older events are in it only where they were not pruned.\<close>

theorem restart_reads_the_log:
  assumes "faithful codec" "session_life codec handle (x, h)"
  shows "\<exists>stored. load_session (co_parse codec) (co_read codec) created handle harness (ho_db h, ho_dir h) =
      (Inr stored, ho_db h, ho_dir h)
    \<and> ss_dropped stored \<le> tl_dropped (sx_log x)
    \<and> same_from (tl_dropped (sx_log x)) (from_events (ss_events stored) (ss_dropped stored)) (sx_log x)"
proof -
  have "in_step codec handle (sx_log x) (ho_db h)" "map_of (ho_dir h) (session_path handle) = None"
    using session_life_ok [OF assms] by (simp_all add: session_ok_def)
  then show ?thesis by (rule loaded_in_step [where parse = "co_parse codec" and created = created and harness = harness]) blast
qed


text \<open>What of a sequence of batches is to be logged: everything but repeated errors of a start of the agent.\<close>

primrec accepted ::
    "'j Codec \<Rightarrow> (SessionEnv \<times> 'j SessionServerEvent list) list \<Rightarrow> ('j, 'w) TaskSession \<times> 'w SessionHost \<Rightarrow>
     'j SessionServerEvent list" where
  "accepted codec [] s = []"
| "accepted codec (b # bs) s =
     filter_events_for_log (fst s) (snd b) @ accepted codec bs (snd (persist_log_batch codec (fst b) (snd b) s))"


lemma replace_all_char: "replace_all [c] r s = concat (map (\<lambda>x. if x = c then r else [x]) s)"
  by (induction s) auto

definition escaped :: "char \<Rightarrow> string" where
  "escaped x = (if x = CHR ''%'' then ''%25'' else if x = CHR ''/'' then ''%2F'' else [x])"

lemma encode_escapes: "encode_handle h = concat (map escaped h)"
  by (induction h) (auto simp: encode_handle_def replace_all_char escaped_def)

lemma decode_slashes: "replace_all ''%2F'' ''/'' (concat (map escaped h)) = concat (map (\<lambda>x. if x = CHR ''%'' then ''%25'' else [x]) h)"
  by (induction h) (auto simp: escaped_def)

lemma decode_percents: "replace_all ''%25'' ''%'' (concat (map (\<lambda>x. if x = CHR ''%'' then ''%25'' else [x]) h)) = h"
  by (induction h) auto

text \<open>C32: The name of the file of a session gives back the handle of the session, whatever characters the handle has.\<close>

theorem handles_round_trip:
  "decode_handle (encode_handle handle) = handle \<and> transcript_entry_handle (session_path handle) = Some handle"
proof -
  have "decode_handle (encode_handle handle) = handle"
    by (simp add: decode_handle_def encode_escapes decode_slashes decode_percents)
  moreover have "ends_with (session_path handle) ''.jsonl''" by (simp add: ends_with_def session_path_def suffix_def)
  ultimately show ?thesis by (simp add: transcript_entry_handle_def strip_suffix_def) (simp add: session_path_def)
qed


section \<open>Examples\<close>

instance PlanEntry_ext :: (countable) countable
  by (rule countable_classI [of "\<lambda>p. to_nat (pn_content p, pn_status p, PlanEntry.more p)"]) simp

instance OutputContentBlockWire :: countable
  by countable_datatype

instance ToolContent :: countable
  by countable_datatype

instance SessionServerEvent :: (countable) countable
  by countable_datatype

text \<open>A codec that writes the number of an event in tally marks.\<close>

definition tally_codec :: "nat Codec" where
  "tally_codec = \<lparr>co_write = (\<lambda>e. replicate (to_nat e) CHR ''|''),
     co_read = (\<lambda>p. if set p \<subseteq> {CHR ''|''} then Some (from_nat (length p)) else None),
     co_parse = (\<lambda>_. PlSkip), co_content = (\<lambda>_ text _ _ _. text)\<rparr>"

lemma tally_faithful: "faithful tally_codec"
  by (auto simp: faithful_def tally_codec_def)

definition calm :: SessionEnv where
  "calm = \<lparr>sv_store = \<lparr>se_fence = None, se_created = 5, se_fault = None, se_prune_ok = False\<rparr>, sv_instant = 10, sv_now = 10,
     sv_root = None, sv_processes = None\<rparr>"

definition broken :: SessionEnv where
  "broken = calm\<lparr>sv_store := (sv_store calm)\<lparr>se_fault := Some ''disk I/O error''\<rparr>\<rparr>"

definition new_session :: "(nat, int) TaskSession" where
  "new_session = \<lparr>sx_handle = ''web/fix'', sx_harness = ''claude'', sx_generation = 0, sx_log = from_events [] 0,
     sx_unpersisted = [], sx_backlog = backlog_default, sx_evidence = sample_evidence reporter_default None,
     sx_background = background_level_default, sx_ledger = []\<rparr>"

definition new_host :: "int SessionHost" where
  "new_host = \<lparr>ho_db = db_empty, ho_dir = [], ho_live = Map.empty, ho_world = 0\<rparr>"

definition failed_session :: "(nat, int) TaskSession \<times> int SessionHost" where
  "failed_session = snd (persist_log_batch tally_codec broken [SvError ''a'', SvUsageReset] (new_session, new_host))"

lemma new_life: "session_life tally_codec ''web/fix'' (new_session, new_host)"
proof (rule life_start)
  show "latest_run_id (ho_db new_host) ''web/fix'' = None"
    by (simp add: new_host_def latest_run_id_def run_rows_def db_empty_def)
qed (simp_all add: new_session_def new_host_def empty_store_ok sample_evidence_def)

lemma failed_life: "session_life tally_codec ''web/fix'' failed_session"
  unfolding failed_session_def by (rule life_batch [OF new_life])


theorem restart_reads_the_log_witness:
  "\<exists>stored d dir. load_session (co_parse tally_codec) (co_read tally_codec) 7 ''web/fix'' ''claude''
     (ho_db (snd (snd (persist_log_batch tally_codec calm [SvTurnEnd None] failed_session))),
      ho_dir (snd (snd (persist_log_batch tally_codec calm [SvTurnEnd None] failed_session)))) = (Inr stored, d, dir)"
proof -
  let ?s = "snd (persist_log_batch tally_codec calm [SvTurnEnd None] failed_session)"
  have "session_life tally_codec ''web/fix'' (fst ?s, snd ?s)" using life_batch [OF failed_life] by simp
  from restart_reads_the_log [OF tally_faithful this, of 7 "''claude''"] show ?thesis by blast
qed

text \<open>A store with three rows, the second of which cannot be read.\<close>

definition letter_codec :: "nat Codec" where
  "letter_codec = \<lparr>co_write = (\<lambda>e. ''r''), co_read = (\<lambda>p. if p = ''r'' then Some SvUsageReset else None),
     co_parse = (\<lambda>_. PlSkip), co_content = (\<lambda>_ text _ _ _. text)\<rparr>"

definition damaged_store :: db where
  "damaged_store = snd (commit_execution None (commit_default\<lparr>ec_run_id := ''web-chat:web/fix'', ec_events := [''r'', ''?'', ''r'']\<rparr>)
     (snd (create_run (new_run 5 ''web/fix'' ''claude'' ''auto'') db_empty)))"

lemma damaged_store_ok: "store_ok damaged_store"
  unfolding damaged_store_def
  by (intro run_step_store_ok [OF step_commit] run_step_store_ok [OF step_create] empty_store_ok)


end
